(* ===== verification/Prelude.thy ===== *)
theory Prelude
  imports Complex_Main "HOL-Library.Char_ord" "HOL-Library.List_Lexorder"
begin

text \<open>
  What every component of the control plane shares: the JavaScript values the TypeScript sources
  compute with (strings, numbers, JSON), the handful of string methods they call, and the table
  operations that the SQL statements of \<^verbatim>\<open>src/src/store-d1.ts\<close> are made of.

  A string is a list of characters, compared lexicographically by character code, which is both
  JavaScript's \<^verbatim>\<open><\<close> on strings and SQLite's BINARY collation on the ASCII text the program stores.
  A character stands for one UTF-16 code unit below 256.  A table is the list of its rows in
  insertion order.
\<close>

section \<open>Rule collections\<close>

named_theorems row_simps \<open>unfolding the table operations to maps and filters\<close>
named_theorems js_simps \<open>evaluating JavaScript string and number primitives\<close>

section \<open>Strings\<close>

text \<open>The white space that \<^verbatim>\<open>String.prototype.trim\<close> and \<^verbatim>\<open>\s\<close> recognise below code unit 256.\<close>

definition is_ws :: "char \<Rightarrow> bool" where
  "is_ws c \<longleftrightarrow> (let n = (of_char c :: nat) in (9 \<le> n \<and> n \<le> 13) \<or> n = 32 \<or> n = 160)"

definition js_trim :: "string \<Rightarrow> string" where
  "js_trim s = rev (dropWhile is_ws (rev (dropWhile is_ws s)))"

definition lower_char :: "char \<Rightarrow> char" where
  "lower_char c =
     (let n = (of_char c :: nat) in
      if (65 \<le> n \<and> n \<le> 90) \<or> (192 \<le> n \<and> n \<le> 222 \<and> n \<noteq> 215) then char_of (n + 32) else c)"

definition to_lower :: "string \<Rightarrow> string" where
  "to_lower = map lower_char"

definition starts_with :: "string \<Rightarrow> string \<Rightarrow> bool" where
  "starts_with s p \<longleftrightarrow> take (length p) s = p"

definition ends_with :: "string \<Rightarrow> string \<Rightarrow> bool" where
  "ends_with s p \<longleftrightarrow> starts_with (rev s) (rev p)"

text \<open>\<^verbatim>\<open>s.split(c)\<close> for a one-character separator: always at least one piece.\<close>

fun split_on :: "char \<Rightarrow> string \<Rightarrow> string list" where
  "split_on c [] = [[]]"
| "split_on c (x # xs) =
     (if x = c then [] # split_on c xs
      else case split_on c xs of [] \<Rightarrow> [[x]] | w # ws \<Rightarrow> (x # w) # ws)"

fun join_with :: "string \<Rightarrow> string list \<Rightarrow> string" where
  "join_with sep [] = []"
| "join_with sep [w] = w"
| "join_with sep (w # v # ws) = w @ sep @ join_with sep (v # ws)"

definition is_digit :: "char \<Rightarrow> bool" where
  "is_digit c \<longleftrightarrow> (let n = (of_char c :: nat) in 48 \<le> n \<and> n \<le> 57)"

definition is_lower_alpha :: "char \<Rightarrow> bool" where
  "is_lower_alpha c \<longleftrightarrow> (let n = (of_char c :: nat) in 97 \<le> n \<and> n \<le> 122)"

definition is_upper_alpha :: "char \<Rightarrow> bool" where
  "is_upper_alpha c \<longleftrightarrow> (let n = (of_char c :: nat) in 65 \<le> n \<and> n \<le> 90)"

definition digit_char :: "nat \<Rightarrow> char" where
  "digit_char d = char_of (48 + d)"

definition digit_val :: "char \<Rightarrow> nat" where
  "digit_val c = of_char c - 48"

text \<open>\<^verbatim>\<open>String(n)\<close> of a natural number, \<^verbatim>\<open>padStart(w, "0")\<close> and \<^verbatim>\<open>Number(digits)\<close>.\<close>

fun show_nat :: "nat \<Rightarrow> string" where
  "show_nat n = (if n < 10 then [digit_char n] else show_nat (n div 10) @ [digit_char (n mod 10)])"

declare show_nat.simps [simp del]

definition show_int :: "int \<Rightarrow> string" where
  "show_int n = (if n < 0 then ''-'' @ show_nat (nat (- n)) else show_nat (nat n))"

definition pad_start :: "nat \<Rightarrow> char \<Rightarrow> string \<Rightarrow> string" where
  "pad_start w c s = replicate (w - length s) c @ s"

definition read_nat :: "string \<Rightarrow> nat" where
  "read_nat = foldl (\<lambda>n c. 10 * n + digit_val c) 0"

text \<open>A fixed-width decimal numeral, what \<^verbatim>\<open>padStart\<close> makes of a number that fits.\<close>

fun fixed_nat :: "nat \<Rightarrow> nat \<Rightarrow> string" where
  "fixed_nat 0 n = []"
| "fixed_nat (Suc w) n = fixed_nat w (n div 10) @ [digit_char (n mod 10)]"

section \<open>Numbers and JSON values\<close>

text \<open>
  A JavaScript number: a finite value, or one of the three values that are not.  Only the finite
  ones with no fractional part are integers.
\<close>

datatype jsnum = Fin rat | NaN | PosInf | NegInf

definition num_of_int :: "int \<Rightarrow> jsnum" where
  "num_of_int n = Fin (of_int n)"

definition as_int :: "jsnum \<Rightarrow> int option" where
  "as_int x = (case x of Fin r \<Rightarrow> (if of_int \<lfloor>r\<rfloor> = r then Some \<lfloor>r\<rfloor> else None) | _ \<Rightarrow> None)"

definition max_safe_integer :: int where
  "max_safe_integer = 9007199254740991"

definition as_safe_int :: "jsnum \<Rightarrow> int option" where
  "as_safe_int x =
     (case as_int x of None \<Rightarrow> None
      | Some n \<Rightarrow> if \<bar>n\<bar> \<le> max_safe_integer then Some n else None)"

text \<open>The value \<^verbatim>\<open>JSON.parse\<close> returns; an object keeps its properties in order, last one wins.\<close>

datatype json =
    JNull
  | JBool bool
  | JNum jsnum
  | JStr string
  | JArr "json list"
  | JObj "(string \<times> json) list"

definition jget :: "json \<Rightarrow> string \<Rightarrow> json option" where
  "jget j k = (case j of JObj kvs \<Rightarrow> map_of (rev kvs) k | _ \<Rightarrow> None)"

definition jstring :: "json option \<Rightarrow> string option" where
  "jstring v = (case v of Some (JStr s) \<Rightarrow> Some s | _ \<Rightarrow> None)"

section \<open>Tables\<close>

text \<open>
  \<^verbatim>\<open>UPDATE t SET f WHERE p\<close>, the row count the driver reports for it (\<^verbatim>\<open>meta.changes\<close>), and
  \<^verbatim>\<open>SELECT ... WHERE p\<close> with \<^verbatim>\<open>.first()\<close>.
\<close>

definition update_where :: "('r \<Rightarrow> bool) \<Rightarrow> ('r \<Rightarrow> 'r) \<Rightarrow> 'r list \<Rightarrow> 'r list" where
  "update_where p f t = map (\<lambda>r. if p r then f r else r) t"

definition changes :: "('r \<Rightarrow> bool) \<Rightarrow> 'r list \<Rightarrow> nat" where
  "changes p t = length (filter p t)"

abbreviation first_where :: "('r \<Rightarrow> bool) \<Rightarrow> 'r list \<Rightarrow> 'r option" where
  "first_where p t \<equiv> List.find p t"

text \<open>What a statement that violates a constraint, or the code after it, throws.\<close>

datatype db_error =
    CheckFailed
  | UniqueFailed
  | ForeignKeyFailed
  | Thrown string

definition sum_by :: "('r \<Rightarrow> int) \<Rightarrow> 'r list \<Rightarrow> int" where
  "sum_by f rs = sum_list (map f rs)"

section \<open>Lemmas on strings and numbers\<close>

lemma split_on_not_Nil [simp]: "split_on c s \<noteq> []"
  by (induction s) (auto split: list.splits)

lemma split_on_no_sep: "c \<notin> set s \<Longrightarrow> split_on c s = [s]"
  by (induction s) auto

lemma split_on_append:
  "c \<notin> set a \<Longrightarrow> split_on c (a @ c # b) = a # split_on c b"
  by (induction a) auto

lemma split_on_pieces: "w \<in> set (split_on c s) \<Longrightarrow> c \<notin> set w"
proof (induction s arbitrary: w)
  case Nil
  then show ?case by simp
next
  case (Cons x xs)
  obtain v vs where sp: "split_on c xs = v # vs"
    using split_on_not_Nil by (metis neq_Nil_conv)
  with Cons show ?case by (auto split: if_splits)
qed

lemma starts_with_append [simp]: "starts_with (p @ s) p"
  by (simp add: starts_with_def)

lemma starts_withE:
  assumes "starts_with s p"
  obtains t where "s = p @ t"
proof -
  from assms have "take (length p) s = p" by (simp add: starts_with_def)
  then have "s = p @ drop (length p) s" by (metis append_take_drop_id)
  then show thesis by (rule that)
qed

lemma starts_with_iff: "starts_with s p \<longleftrightarrow> (\<exists>t. s = p @ t)"
  by (auto elim: starts_withE)

lemma ends_with_iff: "ends_with s p \<longleftrightarrow> (\<exists>t. s = t @ p)"
proof
  assume "ends_with s p"
  then obtain t where "rev s = rev p @ t" by (auto simp: ends_with_def starts_with_iff)
  then have "s = rev t @ p" by (metis rev_append rev_rev_ident)
  then show "\<exists>t. s = t @ p" by blast
next
  assume "\<exists>t. s = t @ p"
  then show "ends_with s p" by (auto simp: ends_with_def)
qed

lemma of_char_digit_char [simp]: "d < 10 \<Longrightarrow> of_char (digit_char d) = 48 + d"
  by (simp add: digit_char_def)

lemma digit_val_digit_char [simp]: "d < 10 \<Longrightarrow> digit_val (digit_char d) = d"
  by (simp add: digit_val_def)

lemma is_digit_digit_char [simp]: "d < 10 \<Longrightarrow> is_digit (digit_char d)"
  by (simp add: is_digit_def)

lemma digit_char_less: "a < 10 \<Longrightarrow> b < 10 \<Longrightarrow> digit_char a < digit_char b \<longleftrightarrow> a < b"
  by (simp add: less_char_def)

lemma digit_char_inject: "a < 10 \<Longrightarrow> b < 10 \<Longrightarrow> digit_char a = digit_char b \<longleftrightarrow> a = b"
  by (metis digit_val_digit_char)

lemma length_fixed_nat [simp]: "length (fixed_nat w n) = w"
  by (induction w arbitrary: n) auto

lemma read_nat_append_digit: "read_nat (s @ [c]) = 10 * read_nat s + digit_val c"
  by (simp add: read_nat_def)

lemma read_nat_Nil [simp]: "read_nat [] = 0"
  by (simp add: read_nat_def)

lemma read_nat_fixed: "n < 10 ^ w \<Longrightarrow> read_nat (fixed_nat w n) = n"
proof (induction w arbitrary: n)
  case 0
  then show ?case by simp
next
  case (Suc w)
  then have "n div 10 < 10 ^ w"
    by (simp add: less_mult_imp_div_less mult.commute)
  with Suc.IH show ?case by (simp add: read_nat_append_digit)
qed

lemma fixed_nat_inject:
  "m < 10 ^ w \<Longrightarrow> n < 10 ^ w \<Longrightarrow> fixed_nat w m = fixed_nat w n \<longleftrightarrow> m = n"
  by (metis read_nat_fixed)

lemma set_fixed_nat: "c \<in> set (fixed_nat w n) \<Longrightarrow> is_digit c"
  by (induction w arbitrary: n) auto

text \<open>Numerals of one width are ordered as the numbers are.\<close>

lemma less_append_same_length:
  fixes a b c d :: "'a::linorder list"
  assumes "length a = length b"
  shows "a @ c < b @ d \<longleftrightarrow> a < b \<or> (a = b \<and> c < d)"
  using assms by (induction a b rule: list_induct2) auto

lemma less_by_last_digit:
  "(m::nat) < n \<longleftrightarrow> m div 10 < n div 10 \<or> (m div 10 = n div 10 \<and> m mod 10 < n mod 10)"
proof -
  have mn: "m = 10 * (m div 10) + m mod 10" "n = 10 * (n div 10) + n mod 10" by simp_all
  have lt: "m mod 10 < 10" "n mod 10 < 10" by simp_all
  show ?thesis
  proof (cases "m div 10" "n div 10" rule: linorder_cases)
    case less
    then show ?thesis using mn lt by linarith
  next
    case equal
    then show ?thesis using mn by linarith
  next
    case greater
    then show ?thesis using mn lt by linarith
  qed
qed

lemma fixed_nat_less:
  "m < 10 ^ w \<Longrightarrow> n < 10 ^ w \<Longrightarrow> fixed_nat w m < fixed_nat w n \<longleftrightarrow> m < n"
proof (induction w arbitrary: m n)
  case 0
  then show ?case by simp
next
  case (Suc w)
  then have b: "m div 10 < 10 ^ w" "n div 10 < 10 ^ w"
    by (simp_all add: less_mult_imp_div_less mult.commute)
  show ?case
    using Suc.IH [OF b] fixed_nat_inject [OF b]
    by (simp add: less_append_same_length digit_char_less less_by_last_digit [of m n])
qed

lemma show_nat_nonempty [simp]: "show_nat n \<noteq> []"
  by (subst show_nat.simps) simp

lemma set_show_nat: "c \<in> set (show_nat n) \<Longrightarrow> is_digit c"
proof (induction n rule: show_nat.induct)
  case (1 n)
  show ?case
  proof (cases "n < 10")
    case True
    with "1.prems" show ?thesis by (simp add: show_nat.simps [of n])
  next
    case False
    with "1.prems" "1.IH" show ?thesis by (auto simp: show_nat.simps [of n])
  qed
qed

lemma read_nat_show [simp]: "read_nat (show_nat n) = n"
proof (induction n rule: show_nat.induct)
  case (1 n)
  show ?case
  proof (cases "n < 10")
    case True
    then show ?thesis by (simp add: show_nat.simps [of n] read_nat_def)
  next
    case False
    with "1.IH" show ?thesis by (simp add: show_nat.simps [of n] read_nat_append_digit)
  qed
qed

lemma as_int_num_of_int [simp]: "as_int (num_of_int n) = Some n"
  by (simp add: as_int_def num_of_int_def)

text \<open>Walking down a chain of guards whose early return is known not to be the result.\<close>

lemma if_elseD: "(if P then x else y) = z \<Longrightarrow> x \<noteq> z \<Longrightarrow> \<not> P \<and> y = z"
  by (simp split: if_splits)

section \<open>Lemmas on tables\<close>

lemma length_update_where [simp]: "length (update_where p f t) = length t"
  by (simp add: update_where_def)

lemma update_where_Nil [simp]: "update_where p f [] = []"
  by (simp add: update_where_def)

lemma update_where_Cons [simp]:
  "update_where p f (r # t) = (if p r then f r else r) # update_where p f t"
  by (simp add: update_where_def)

lemma update_where_append [simp]:
  "update_where p f (s @ t) = update_where p f s @ update_where p f t"
  by (simp add: update_where_def)

lemma set_update_where:
  "set (update_where p f t) = (\<lambda>r. if p r then f r else r) ` set t"
  by (auto simp: update_where_def)

lemma in_update_whereE:
  assumes "r \<in> set (update_where p f t)"
  obtains (changed) s where "s \<in> set t" "p s" "r = f s" | (kept) "r \<in> set t" "\<not> p r"
  using assms by (induction t) (auto split: if_splits)

lemma in_update_whereI: "r \<in> set t \<Longrightarrow> \<not> p r \<Longrightarrow> r \<in> set (update_where p f t)"
  by (induction t) auto

lemma in_update_whereI2: "r \<in> set t \<Longrightarrow> p r \<Longrightarrow> f r \<in> set (update_where p f t)"
  by (induction t) auto

lemma map_update_where:
  assumes "\<And>r. p r \<Longrightarrow> g (f r) = g r"
  shows "map g (update_where p f t) = map g t"
  using assms by (induction t) auto

lemma update_where_none: "(\<And>r. r \<in> set t \<Longrightarrow> \<not> p r) \<Longrightarrow> update_where p f t = t"
  by (induction t) auto

lemma find_SomeD: "List.find p t = Some r \<Longrightarrow> r \<in> set t \<and> p r"
  by (auto simp: find_Some_iff in_set_conv_nth)

lemma find_NoneD: "List.find p t = None \<Longrightarrow> r \<in> set t \<Longrightarrow> \<not> p r"
  by (auto simp: find_None_iff)

lemma find_unique:
  assumes "r \<in> set t" "p r" "\<And>s. s \<in> set t \<Longrightarrow> p s \<Longrightarrow> s = r"
  shows "List.find p t = Some r"
proof (cases "List.find p t")
  case None
  with assms(1,2) show ?thesis by (auto simp: find_None_iff)
next
  case (Some s)
  then show ?thesis using find_SomeD [OF Some] assms(3) by auto
qed

lemma find_append:
  "List.find p (s @ t) = (case List.find p s of None \<Rightarrow> List.find p t | Some r \<Rightarrow> Some r)"
  by (induction s) auto

lemma distinct_map_eq:
  "distinct (map f t) \<Longrightarrow> r \<in> set t \<Longrightarrow> s \<in> set t \<Longrightarrow> f r = f s \<Longrightarrow> r = s"
  by (auto simp: distinct_map inj_on_def)

lemma filter_unique:
  assumes "distinct xs" "r \<in> set xs" "P r" "\<And>s. s \<in> set xs \<Longrightarrow> P s \<Longrightarrow> s = r"
  shows "filter P xs = [r]"
  using assms
proof (induction xs)
  case Nil
  then show ?case by simp
next
  case (Cons x xs)
  show ?case
  proof (cases "P x")
    case True
    have x: "x = r" by (rule Cons.prems(4) [OF _ True]) simp
    have "\<not> P y" if y: "y \<in> set xs" for y
    proof
      assume "P y"
      then have "y = r" using y by (intro Cons.prems(4)) simp_all
      with x y Cons.prems(1) show False by simp
    qed
    then have "filter P xs = []" by (intro filter_False) blast
    with x True show ?thesis by simp
  next
    case False
    with Cons.prems(2,3) have "r \<in> set xs" by auto
    have "filter P xs = [r]"
    proof (rule Cons.IH)
      show "distinct xs" using Cons.prems(1) by simp
      show "s = r" if "s \<in> set xs" "P s" for s
        using that by (intro Cons.prems(4)) simp_all
    qed fact+
    with False show ?thesis by simp
  qed
qed

lemma changes_Nil [simp]: "changes p [] = 0"
  by (simp add: changes_def)

lemma changes_Cons [simp]: "changes p (r # t) = (if p r then 1 else 0) + changes p t"
  by (simp add: changes_def)

lemma changes_0_iff: "changes p t = 0 \<longleftrightarrow> (\<forall>r \<in> set t. \<not> p r)"
  by (induction t) auto

lemma changes_key_le_1:
  assumes "distinct (map key t)"
  shows "changes (\<lambda>r. key r = k \<and> p r) t \<le> 1"
  using assms
proof (induction t)
  case Nil
  then show ?case by simp
next
  case (Cons r t)
  show ?case
  proof (cases "key r = k \<and> p r")
    case True
    with Cons.prems have "\<forall>s \<in> set t. \<not> (key s = k \<and> p s)" by (auto simp: image_iff)
    then have "changes (\<lambda>r. key r = k \<and> p r) t = 0" by (simp add: changes_0_iff)
    then show ?thesis by simp
  next
    case False
    with Cons show ?thesis by auto
  qed
qed

lemma sum_by_Nil [simp]: "sum_by f [] = 0"
  by (simp add: sum_by_def)

lemma sum_by_Cons [simp]: "sum_by f (r # t) = f r + sum_by f t"
  by (simp add: sum_by_def)

lemma sum_by_append [simp]: "sum_by f (s @ t) = sum_by f s + sum_by f t"
  by (simp add: sum_by_def)

lemma sum_by_cong: "(\<And>r. r \<in> set t \<Longrightarrow> f r = g r) \<Longrightarrow> sum_by f t = sum_by g t"
  by (induction t) auto

lemma sum_by_nonneg: "(\<And>r. r \<in> set t \<Longrightarrow> 0 \<le> f r) \<Longrightarrow> 0 \<le> sum_by f t"
  by (induction t) auto

text \<open>Updating the one row with a given key changes a sum by that row's difference.\<close>

lemma sum_by_update_key:
  assumes "distinct (map key t)" "r \<in> set t" "p r"
  shows "sum_by f (update_where (\<lambda>s. key s = key r \<and> p s) g t) = sum_by f t - f r + f (g r)"
  using assms
proof (induction t)
  case Nil
  then show ?case by simp
next
  case (Cons s t)
  show ?case
  proof (cases "s = r")
    case True
    with Cons.prems have "update_where (\<lambda>s. key s = key r \<and> p s) g t = t"
      by (intro update_where_none) (auto simp: image_iff)
    with True Cons.prems show ?thesis by simp
  next
    case False
    with Cons.prems have "key s \<noteq> key r" and "r \<in> set t" by auto
    with Cons show ?thesis by simp
  qed
qed

text \<open>Looking a row up by key after an update, and updates of the one row with a given key.\<close>

lemma find_update_key:
  assumes "List.find (\<lambda>r. key r = k) t = Some r" "\<And>s. p s \<Longrightarrow> key (f s) = key s"
  shows "List.find (\<lambda>r. key r = k) (update_where p f t) = Some (if p r then f r else r)"
  using assms(1) by (induction t) (auto split: if_splits simp: assms(2))

lemma find_update_key_None:
  assumes "List.find (\<lambda>r. key r = k) t = None" "\<And>s. p s \<Longrightarrow> key (f s) = key s"
  shows "List.find (\<lambda>r. key r = k) (update_where p f t) = None"
  using assms(1) by (induction t) (auto split: if_splits simp: assms(2))

lemma keyed_update_wins:
  assumes "distinct (map key rs)" "List.find p rs = Some r" "\<And>s. p s \<Longrightarrow> key s = k" "\<And>s. p s \<Longrightarrow> key (f s) = key s"
  shows "List.find (\<lambda>s. key s = k) rs = Some r" and "List.find (\<lambda>s. key s = k) (update_where p f rs) = Some (f r)"
proof -
  have r: "r \<in> set rs" "p r" using find_SomeD [OF assms(2)] by simp_all
  then show old: "List.find (\<lambda>s. key s = k) rs = Some r"
    using assms(1,3) by (intro find_unique) (auto dest: distinct_map_eq)
  show "List.find (\<lambda>s. key s = k) (update_where p f rs) = Some (f r)"
    using find_update_key [OF old assms(4)] r by simp
qed

lemma update_loses: "List.find p rs = None \<Longrightarrow> update_where p f rs = rs"
  by (rule update_where_none) (auto simp: find_None_iff)

lemma changes_keyed:
  assumes "distinct (map key rs)" "\<And>s. p s \<Longrightarrow> key s = k"
  shows "changes p rs = 1 \<longleftrightarrow> List.find p rs \<noteq> None"
proof -
  have e: "(\<lambda>r. key r = k \<and> p r) = p" using assms(2) by auto
  have "changes p rs \<le> 1" using changes_key_le_1 [OF assms(1), of k p] unfolding e .
  moreover have "changes p rs = 0 \<longleftrightarrow> List.find p rs = None" by (auto simp: changes_0_iff find_None_iff)
  ultimately show ?thesis by linarith
qed

lemma changes_1E:
  assumes "changes p t = 1"
  obtains r where "r \<in> set t" "p r"
  using assms changes_0_iff [of p t] by auto

lemma find_filter: "List.find P xs = Some r \<Longrightarrow> Q r \<Longrightarrow> List.find P (filter Q xs) = Some r"
  by (induction xs) (auto split: if_splits)

lemma find_update_same:
  "(\<And>r. p r \<Longrightarrow> p (f r)) \<Longrightarrow> List.find p (update_where p f t) = map_option f (List.find p t)"
  by (induction t) auto

lemma find_update_other:
  "(\<And>r. p r \<Longrightarrow> \<not> q r \<and> \<not> q (f r)) \<Longrightarrow> List.find q (update_where p f t) = List.find q t"
  by (induction t) auto

lemma bex_update_where:
  assumes "\<exists>r \<in> set t. Q r" "\<And>r. Q r \<Longrightarrow> p r \<Longrightarrow> Q (f r)"
  shows "\<exists>r \<in> set (update_where p f t). Q r"
  using assms by (meson in_update_whereI in_update_whereI2)

end
