(* ===== verification/Credits.thy ===== *)
theory Credits
  imports Prelude "HOL-Library.Product_Lexorder"
begin

text \<open>
  The prepaid credit core: \<^verbatim>\<open>src/src/credits.ts\<close> (balance, the submit gate, the enforcement knob,
  the display format) and the credit half of the store in \<^verbatim>\<open>src/src/store-d1.ts\<close> (the append-only
  ledger and the holds), whose tables and constraints are those of
  \<^verbatim>\<open>migrations/0013_credit_ledger.sql\<close>.

  Money is integer micro-USD.  The code keeps it in JavaScript numbers that the writers restrict to
  safe integers, so sums and differences are those of the integers.
\<close>

section \<open>Rows\<close>

datatype ledger_kind = Purchase | Debit | Refund | Adjustment

datatype hold_status = HOpen | HCaptured | HReleased | HExpired

record ledger_row =
  l_id :: string
  l_tenant_id :: string
  l_kind :: ledger_kind
  l_delta_micro_usd :: int
  l_cost_micro_usd :: "int option"
  l_idem_ref :: string
  l_hold_id :: "string option"
  l_price_list_id :: "string option"
  l_external_ref :: "string option"
  l_note :: "string option"
  l_created_at :: string

record hold_row =
  h_id :: string
  h_tenant_id :: string
  h_job_ref :: string
  h_amount_micro_usd :: int
  h_status :: hold_status
  h_price_list_id :: string
  h_created_at :: string
  h_expires_at :: string
  h_settled_at :: "string option"

text \<open>The two tables, and the tenant ids their foreign keys refer to.\<close>

record credit_db =
  ledger :: "ledger_row list"
  holds :: "hold_row list"
  tenant_keys :: "string list"

section \<open>Balance\<close>

definition MICRO_PER_USD :: int where
  "MICRO_PER_USD = 1000000"

record balance =
  settled_micro_usd :: int
  held_micro_usd :: int
  available_micro_usd :: int
  complete :: bool

definition balanceFromSums :: "int \<Rightarrow> int \<Rightarrow> bool \<Rightarrow> balance" where
  "balanceFromSums settled held compl =
     \<lparr>settled_micro_usd = settled, held_micro_usd = held,
      available_micro_usd = settled - held, complete = compl\<rparr>"

text \<open>The two loops of \<^verbatim>\<open>computeBalance\<close> accumulate from the left.\<close>

definition computeBalance :: "ledger_row list \<Rightarrow> hold_row list \<Rightarrow> bool \<Rightarrow> balance" where
  "computeBalance rows openHolds compl =
     (let settled = foldl (\<lambda>acc r. acc + l_delta_micro_usd r) 0 rows;
          held = foldl (\<lambda>acc h. acc + h_amount_micro_usd h) 0 openHolds
      in balanceFromSums settled held compl)"

section \<open>Display\<close>

text \<open>
  \<^verbatim>\<open>Math.round(abs / 10_000)\<close> is the integer nearest to the quotient, a half going up.  For a safe
  integer the quotient is below \<open>2 ^ 40\<close>, where doubles are closer than \<open>1 / 10000\<close>, so rounding the
  exact quotient gives the same integer.
\<close>

definition formatUsd :: "int \<Rightarrow> string" where
  "formatUsd micro =
     (let cents = nat ((\<bar>micro\<bar> + 5000) div 10000);
          s = show_nat (cents div 100) @ ''.'' @ pad_start 2 (CHR ''0'') (show_nat (cents mod 100))
      in (if micro < 0 then ''-'' else []) @ ''USD '' @ s)"

section \<open>The submit gate\<close>

datatype deny_reason = InsufficientCredit | BalanceUnknown

datatype submit_verdict =
    Allow bool int int
  | Deny deny_reason "int option" int string

definition decideSubmit :: "balance \<Rightarrow> int \<Rightarrow> bool \<Rightarrow> submit_verdict" where
  "decideSubmit b required enforcing =
     (if \<not> enforcing then Allow False (available_micro_usd b) required
      else if \<not> complete b then
        Deny BalanceUnknown None required
          (''credit balance could not be read completely, so this submission cannot be authorized; ''
           @ ''no charge was made and nothing was started (fail-closed posture)'')
      else if available_micro_usd b < required then
        Deny InsufficientCredit (Some (available_micro_usd b)) required
          (''this job needs '' @ formatUsd required @ '' in credit and ''
           @ formatUsd (available_micro_usd b)
           @ '' is available; top up to continue (nothing was started and nothing was charged)'')
      else Allow True (available_micro_usd b) required)"

section \<open>Operator knobs\<close>

definition parseEnforcing :: "string option \<Rightarrow> bool" where
  "parseEnforcing raw =
     (case raw of None \<Rightarrow> False
      | Some s \<Rightarrow> (let v = to_lower (js_trim s) in
          v = ''1'' \<or> v = ''true'' \<or> v = ''enforce'' \<or> v = ''enforcing''))"

definition SUBMIT_GATE_WIRED :: bool where
  "SUBMIT_GATE_WIRED = False"

record enforcement_state =
  configured :: bool
  applied :: bool
  ereason :: "string option"

definition creditsEnforcementState :: "string option \<Rightarrow> enforcement_state" where
  "creditsEnforcementState raw =
     (if \<not> parseEnforcing raw then \<lparr>configured = False, applied = False, ereason = None\<rparr>
      else if \<not> SUBMIT_GATE_WIRED then
        \<lparr>configured = True, applied = False,
         ereason = Some (
           ''CREDITS_ENFORCING is set, but no submit-time gate consults the balance on this plane: ''
           @ ''nothing calls decideSubmit and no hold is ever taken, so nothing is refused and nothing is ''
           @ ''debited. The ledger is RECORDING ONLY. Do not read this knob as a spend control.'')\<rparr>
      else \<lparr>configured = True, applied = True, ereason = None\<rparr>)"

text \<open>
  \<^verbatim>\<open>Number(t)\<close> of a digit string is exact below \<open>2 ^ 53\<close>; a longer one rounds to a double that is
  not a safe integer, so the test refuses exactly the values above \<^const>\<open>max_safe_integer\<close>.
\<close>

definition parseMicroUsd :: "string option \<Rightarrow> int option" where
  "parseMicroUsd raw =
     (case raw of None \<Rightarrow> None
      | Some s \<Rightarrow> (let t = js_trim s in
          if t = [] \<or> \<not> list_all is_digit t then None
          else if int (read_nat t) \<le> max_safe_integer then Some (int (read_nat t)) else None))"

section \<open>The ledger\<close>

text \<open>What \<^verbatim>\<open>appendLedgerRow\<close> is called with.\<close>

record ledger_insert =
  i_id :: string
  i_tenantId :: string
  i_kind :: ledger_kind
  i_deltaMicroUsd :: int
  i_costMicroUsd :: "int option"
  i_idemRef :: string
  i_priceListId :: "string option"
  i_externalRef :: "string option"
  i_note :: "string option"
  i_now :: string

definition row_of_insert :: "ledger_insert \<Rightarrow> ledger_row" where
  "row_of_insert i =
     \<lparr>l_id = i_id i, l_tenant_id = i_tenantId i, l_kind = i_kind i,
      l_delta_micro_usd = i_deltaMicroUsd i, l_cost_micro_usd = i_costMicroUsd i,
      l_idem_ref = i_idemRef i, l_hold_id = None, l_price_list_id = i_priceListId i,
      l_external_ref = i_externalRef i, l_note = i_note i, l_created_at = i_now i\<rparr>"

text \<open>The table's CHECK on the sign of an amount.\<close>

fun ledger_check :: "ledger_kind \<Rightarrow> int \<Rightarrow> bool" where
  "ledger_check Debit d = (d < 0)"
| "ledger_check Purchase d = (d > 0)"
| "ledger_check Refund d = (d > 0)"
| "ledger_check Adjustment d = True"

definition same_ledger_key :: "ledger_row \<Rightarrow> ledger_row \<Rightarrow> bool" where
  "same_ledger_key r s \<longleftrightarrow> l_tenant_id r = l_tenant_id s \<and> l_idem_ref r = l_idem_ref s"

text \<open>
  \<^verbatim>\<open>INSERT INTO credit_ledger ... ON CONFLICT (tenant_id, idem_ref) DO NOTHING\<close>: the row CHECK
  first, then the conflict target (nothing is written), then the primary key and the foreign keys.
\<close>

definition insert_ledger :: "credit_db \<Rightarrow> ledger_row \<Rightarrow> db_error + credit_db option" where
  "insert_ledger db r =
     (if \<not> ledger_check (l_kind r) (l_delta_micro_usd r) then Inl CheckFailed
      else if list_ex (same_ledger_key r) (ledger db) then Inr None
      else if l_id r \<in> set (map l_id (ledger db)) then Inl UniqueFailed
      else if l_tenant_id r \<notin> set (tenant_keys db)
           \<or> (case l_hold_id r of None \<Rightarrow> False | Some h \<Rightarrow> h \<notin> set (map h_id (holds db)))
        then Inl ForeignKeyFailed
      else Inr (Some (db\<lparr>ledger := ledger db @ [r]\<rparr>)))"

definition appendLedgerRow ::
  "credit_db \<Rightarrow> ledger_insert \<Rightarrow> db_error + ((bool \<times> ledger_row) \<times> credit_db)" where
  "appendLedgerRow db i =
     (case insert_ledger db (row_of_insert i) of
        Inl e \<Rightarrow> Inl e
      | Inr (Some db') \<Rightarrow> Inr ((True, row_of_insert i), db')
      | Inr None \<Rightarrow>
          (case first_where (same_ledger_key (row_of_insert i)) (ledger db) of
             None \<Rightarrow> Inl (Thrown ''appendLedgerRow: conflict but no existing row'')
           | Some r \<Rightarrow> Inr ((False, r), db)))"

definition readBalanceSums :: "credit_db \<Rightarrow> string \<Rightarrow> int \<times> int" where
  "readBalanceSums db t =
     (sum_by l_delta_micro_usd (filter (\<lambda>r. l_tenant_id r = t) (ledger db)),
      sum_by h_amount_micro_usd (filter (\<lambda>h. h_tenant_id h = t \<and> h_status h = HOpen) (holds db)))"

section \<open>Holds\<close>

record hold_insert =
  t_id :: string
  t_tenantId :: string
  t_jobRef :: string
  t_amountMicroUsd :: int
  t_priceListId :: string
  t_now :: string
  t_expiresAt :: string

definition hold_of_insert :: "hold_insert \<Rightarrow> hold_row" where
  "hold_of_insert a =
     \<lparr>h_id = t_id a, h_tenant_id = t_tenantId a, h_job_ref = t_jobRef a,
      h_amount_micro_usd = t_amountMicroUsd a, h_status = HOpen, h_price_list_id = t_priceListId a,
      h_created_at = t_now a, h_expires_at = t_expiresAt a, h_settled_at = None\<rparr>"

definition takeHold :: "credit_db \<Rightarrow> hold_insert \<Rightarrow> db_error + ((bool \<times> hold_row) \<times> credit_db)" where
  "takeHold db a =
     (if t_amountMicroUsd a \<le> 0 then Inl CheckFailed
      else case first_where (\<lambda>h. h_tenant_id h = t_tenantId a \<and> h_job_ref h = t_jobRef a) (holds db) of
        Some h \<Rightarrow> Inr ((False, h), db)
      | None \<Rightarrow>
          if t_id a \<in> set (map h_id (holds db)) then Inl UniqueFailed
          else if t_tenantId a \<notin> set (tenant_keys db) then Inl ForeignKeyFailed
          else Inr ((True, hold_of_insert a), db\<lparr>holds := holds db @ [hold_of_insert a]\<rparr>))"

definition set_hold :: "string \<Rightarrow> hold_status \<Rightarrow> string \<Rightarrow> hold_row list \<Rightarrow> hold_row list" where
  "set_hold hid st now =
     update_where (\<lambda>h. h_id h = hid \<and> h_status h = HOpen)
       (\<lambda>h. h\<lparr>h_status := st, h_settled_at := Some now\<rparr>)"

definition debit_row_of_hold ::
  "string \<Rightarrow> int option \<Rightarrow> string option \<Rightarrow> string \<Rightarrow> hold_row \<Rightarrow> ledger_row" where
  "debit_row_of_hold rowId cost note now h =
     \<lparr>l_id = rowId, l_tenant_id = h_tenant_id h, l_kind = Debit,
      l_delta_micro_usd = - h_amount_micro_usd h, l_cost_micro_usd = cost, l_idem_ref = h_id h,
      l_hold_id = Some (h_id h), l_price_list_id = Some (h_price_list_id h), l_external_ref = None,
      l_note = note, l_created_at = now\<rparr>"

text \<open>
  The two statements of the batch run as one transaction: an error in the second undoes the first.
  The second is keyed on the status the first leaves, so a hold captured earlier is offered its
  debit again and the conflict target refuses it.
\<close>

definition captureHold ::
  "credit_db \<Rightarrow> string \<Rightarrow> string \<Rightarrow> int option \<Rightarrow> string option \<Rightarrow> string \<Rightarrow> db_error + (bool \<times> credit_db)"
where
  "captureHold db hid rowId cost note now =
     (let n = changes (\<lambda>h. h_id h = hid \<and> h_status h = HOpen) (holds db);
          db1 = db\<lparr>holds := set_hold hid HCaptured now (holds db)\<rparr>
      in case first_where (\<lambda>h. h_id h = hid \<and> h_status h = HCaptured) (holds db1) of
           None \<Rightarrow> Inr (n = 1, db1)
         | Some h \<Rightarrow>
             (case insert_ledger db1 (debit_row_of_hold rowId cost note now h) of
                Inl e \<Rightarrow> Inl e
              | Inr None \<Rightarrow> Inr (n = 1, db1)
              | Inr (Some db2) \<Rightarrow> Inr (n = 1, db2)))"

definition releaseHold :: "credit_db \<Rightarrow> string \<Rightarrow> string \<Rightarrow> bool \<times> credit_db" where
  "releaseHold db hid now =
     (changes (\<lambda>h. h_id h = hid \<and> h_status h = HOpen) (holds db) = 1,
      db\<lparr>holds := set_hold hid HReleased now (holds db)\<rparr>)"

definition expireHolds :: "credit_db \<Rightarrow> string \<Rightarrow> nat \<times> credit_db" where
  "expireHolds db now =
     (let due = (\<lambda>h. h_status h = HOpen \<and> h_expires_at h \<le> now)
      in (changes due (holds db),
          db\<lparr>holds := update_where due (\<lambda>h. h\<lparr>h_status := HExpired, h_settled_at := Some now\<rparr>) (holds db)\<rparr>))"

definition getHoldByJobRef :: "credit_db \<Rightarrow> string \<Rightarrow> string \<Rightarrow> hold_row option" where
  "getHoldByJobRef db t jobRef =
     first_where (\<lambda>h. h_tenant_id h = t \<and> h_job_ref h = jobRef) (holds db)"

definition capturedHoldsMissingDebit :: "credit_db \<Rightarrow> nat \<Rightarrow> hold_row list" where
  "capturedHoldsMissingDebit db limit =
     take limit (filter (\<lambda>h. h_status h = HCaptured
        \<and> \<not> list_ex (\<lambda>l. l_hold_id l = Some (h_id h)) (ledger db)) (holds db))"

text \<open>\<^verbatim>\<open>ORDER BY created_at DESC, id DESC LIMIT n\<close>; the id is the primary key, so the order is total.\<close>

definition listLedger :: "credit_db \<Rightarrow> string \<Rightarrow> nat \<Rightarrow> ledger_row list" where
  "listLedger db t limit =
     take limit (rev (sort_key (\<lambda>r. (l_created_at r, l_id r))
       (filter (\<lambda>r. l_tenant_id r = t) (ledger db))))"

definition listHolds :: "credit_db \<Rightarrow> string \<Rightarrow> nat \<Rightarrow> hold_row list" where
  "listHolds db t limit =
     take limit (rev (sort_key (\<lambda>h. (h_created_at h, h_id h))
       (filter (\<lambda>h. h_tenant_id h = t) (holds db))))"

section \<open>Runs of the credit store\<close>

text \<open>
  Every writer of the program uses an idempotency reference of the form \<^verbatim>\<open>rail:ref\<close> or
  \<^verbatim>\<open>overage:meter:period\<close>, and a hold id is \<^verbatim>\<open>newId("chld")\<close>, which has no colon, so the
  reference of a captured hold (its own id) can not be one a settlement took.  A step is one store
  call that returned; one that threw leaves the tables as they were.
\<close>

inductive credit_step :: "credit_db \<Rightarrow> credit_db \<Rightarrow> bool" where
  append: "CHR '':'' \<in> set (i_idemRef i) \<Longrightarrow> appendLedgerRow db i = Inr (a, db') \<Longrightarrow> credit_step db db'"
| hold: "CHR '':'' \<notin> set (t_id a) \<Longrightarrow> takeHold db a = Inr (c, db') \<Longrightarrow> credit_step db db'"
| capture: "captureHold db hid rowId cost note now = Inr (c, db') \<Longrightarrow> credit_step db db'"
| release: "releaseHold db hid now = (c, db') \<Longrightarrow> credit_step db db'"
| expire: "expireHolds db now = (n, db') \<Longrightarrow> credit_step db db'"

inductive credit_reachable :: "string list \<Rightarrow> credit_db \<Rightarrow> bool" for ts where
  start: "credit_reachable ts \<lparr>ledger = [], holds = [], tenant_keys = ts\<rparr>"
| step: "credit_reachable ts db \<Longrightarrow> credit_step db db' \<Longrightarrow> credit_reachable ts db'"

text \<open>A captured hold is paid for by exactly one ledger row: its debit.\<close>

definition debit_of :: "hold_row \<Rightarrow> ledger_row \<Rightarrow> bool" where
  "debit_of h r \<longleftrightarrow> l_hold_id r = Some (h_id h) \<and> l_kind r = Debit
     \<and> l_tenant_id r = h_tenant_id h \<and> l_idem_ref r = h_id h
     \<and> l_delta_micro_usd r = - h_amount_micro_usd h"

definition keys_ok :: "credit_db \<Rightarrow> bool" where
  "keys_ok db \<longleftrightarrow>
     distinct (map l_id (ledger db))
   \<and> distinct (map (\<lambda>r. (l_tenant_id r, l_idem_ref r)) (ledger db))
   \<and> distinct (map h_id (holds db))
   \<and> distinct (map (\<lambda>h. (h_tenant_id h, h_job_ref h)) (holds db))"

definition rows_ok :: "credit_db \<Rightarrow> bool" where
  "rows_ok db \<longleftrightarrow>
     (\<forall>r \<in> set (ledger db). ledger_check (l_kind r) (l_delta_micro_usd r))
   \<and> (\<forall>h \<in> set (holds db). 0 < h_amount_micro_usd h \<and> CHR '':'' \<notin> set (h_id h))"

definition backed :: "hold_row list \<Rightarrow> ledger_row \<Rightarrow> bool" where
  "backed hs r \<longleftrightarrow>
     (if l_hold_id r = None then CHR '':'' \<in> set (l_idem_ref r)
      else list_ex (\<lambda>h. h_status h = HCaptured \<and> debit_of h r) hs)"

definition paid :: "ledger_row list \<Rightarrow> hold_row \<Rightarrow> bool" where
  "paid ls h \<longleftrightarrow> (h_status h = HCaptured \<longrightarrow> list_ex (debit_of h) ls)"

definition debits_ok :: "credit_db \<Rightarrow> bool" where
  "debits_ok db \<longleftrightarrow> list_all (backed (holds db)) (ledger db) \<and> list_all (paid (ledger db)) (holds db)"

definition credit_inv :: "credit_db \<Rightarrow> bool" where
  "credit_inv db \<longleftrightarrow> keys_ok db \<and> rows_ok db \<and> debits_ok db"

definition available :: "credit_db \<Rightarrow> string \<Rightarrow> int" where
  "available db t = (case readBalanceSums db t of (settled, held) \<Rightarrow> settled - held)"

section \<open>The invariant\<close>

lemmas credit_inv_defs = credit_inv_def keys_ok_def rows_ok_def debits_ok_def

lemma insert_ledger_Some:
  assumes "insert_ledger db r = Inr (Some db')"
  shows "db' = db\<lparr>ledger := ledger db @ [r]\<rparr>"
    and "ledger_check (l_kind r) (l_delta_micro_usd r)"
    and "\<forall>s \<in> set (ledger db). \<not> same_ledger_key r s"
    and "l_id r \<notin> l_id ` set (ledger db)"
  using assms by (auto simp: insert_ledger_def list_ex_iff split: if_splits option.splits)

lemma appendLedgerRow_cases:
  assumes "appendLedgerRow db i = Inr (a, db')"
  obtains (applied) "insert_ledger db (row_of_insert i) = Inr (Some db')" "a = (True, row_of_insert i)"
  | (replay) r where "db' = db" "a = (False, r)" "r \<in> set (ledger db)"
      "same_ledger_key (row_of_insert i) r"
  using assms
  by (auto simp: appendLedgerRow_def dest!: find_SomeD split: sum.splits option.splits)

lemma keys_ok_append:
  assumes "keys_ok db" "insert_ledger db r = Inr (Some db')"
  shows "keys_ok db'"
  using assms(1) insert_ledger_Some [OF assms(2)]
  by (auto simp: keys_ok_def same_ledger_key_def)

lemma backed_mono:
  assumes "backed hs r" "\<And>h. h \<in> set hs \<Longrightarrow> h_status h = HCaptured \<Longrightarrow> h \<in> set hs'"
  shows "backed hs' r"
  using assms by (auto simp: backed_def list_ex_iff split: if_splits)

lemma paid_mono: "paid ls h \<Longrightarrow> set ls \<subseteq> set ls' \<Longrightarrow> paid ls' h"
  by (auto simp: paid_def list_ex_iff)

lemma paid_open: "h_status h \<noteq> HCaptured \<Longrightarrow> paid ls h"
  by (simp add: paid_def)

lemma debits_ok_append:
  assumes "debits_ok db" "backed (holds db) r"
  shows "debits_ok (db\<lparr>ledger := ledger db @ [r]\<rparr>)"
  using assms by (auto simp: debits_ok_def list_all_iff intro: paid_mono)

lemma append_inv:
  assumes "credit_inv db" "CHR '':'' \<in> set (i_idemRef i)" "appendLedgerRow db i = Inr (a, db')"
  shows "credit_inv db'"
  using assms(3)
proof (cases rule: appendLedgerRow_cases)
  case applied
  note ins = insert_ledger_Some [OF applied(1)]
  have "backed (holds db) (row_of_insert i)"
    using assms(2) by (simp add: backed_def row_of_insert_def)
  then have "debits_ok db'"
    using assms(1) ins(1) by (simp add: credit_inv_def debits_ok_append)
  moreover have "rows_ok db'"
    using assms(1) ins by (auto simp: credit_inv_def rows_ok_def)
  moreover have "keys_ok db'"
    using assms(1) applied(1) keys_ok_append by (auto simp: credit_inv_def)
  ultimately show ?thesis by (simp add: credit_inv_def)
next
  case replay
  with assms(1) show ?thesis by simp
qed

lemma takeHold_cases:
  assumes "takeHold db a = Inr (c, db')"
  obtains (created) "c = (True, hold_of_insert a)" "db' = db\<lparr>holds := holds db @ [hold_of_insert a]\<rparr>"
      "0 < t_amountMicroUsd a" "t_id a \<notin> h_id ` set (holds db)"
      "\<forall>h \<in> set (holds db). \<not> (h_tenant_id h = t_tenantId a \<and> h_job_ref h = t_jobRef a)"
  | (existing) h where "c = (False, h)" "db' = db" "h \<in> set (holds db)"
      "h_tenant_id h = t_tenantId a" "h_job_ref h = t_jobRef a"
proof (cases "first_where (\<lambda>h. h_tenant_id h = t_tenantId a \<and> h_job_ref h = t_jobRef a) (holds db)")
  case None
  note none = find_NoneD [OF None]
  from None assms show thesis
    using none by (intro created) (auto simp: takeHold_def split: if_splits)
next
  case (Some h)
  with find_SomeD [OF Some] assms existing show thesis
    by (auto simp: takeHold_def split: if_splits)
qed

lemma takeHold_inv:
  assumes "credit_inv db" "CHR '':'' \<notin> set (t_id a)" "takeHold db a = Inr (c, db')"
  shows "credit_inv db'"
  using assms(3)
proof (cases rule: takeHold_cases)
  case created
  have "keys_ok db'"
    using assms(1) created by (auto simp: credit_inv_def keys_ok_def hold_of_insert_def)
  moreover have "rows_ok db'"
    using assms(1,2) created by (auto simp: credit_inv_def rows_ok_def hold_of_insert_def)
  moreover have "debits_ok db'"
    using assms(1) created
    by (auto simp: credit_inv_def debits_ok_def list_all_iff hold_of_insert_def
             intro: backed_mono paid_open)
  ultimately show ?thesis by (simp add: credit_inv_def)
next
  case existing
  with assms(1) show ?thesis by simp
qed

text \<open>Settling open holds without a debit: release and expiry.\<close>

lemma debits_ok_update:
  assumes "debits_ok db"
    and p: "\<And>h. p h \<Longrightarrow> h_status h = HOpen"
    and f: "\<And>h. h_status (f h) \<noteq> HCaptured"
  shows "debits_ok (db\<lparr>holds := update_where p f (holds db)\<rparr>)"
proof -
  have "backed (update_where p f (holds db)) r" if "r \<in> set (ledger db)" for r
  proof (rule backed_mono)
    show "backed (holds db) r" using assms(1) that by (simp add: debits_ok_def list_all_iff)
  next
    fix h
    assume "h \<in> set (holds db)" "h_status h = HCaptured"
    with p [of h] show "h \<in> set (update_where p f (holds db))" by (auto intro: in_update_whereI)
  qed
  moreover have "paid (ledger db) h" if "h \<in> set (update_where p f (holds db))" for h
    using assms(1) f that
    by (auto simp: set_update_where debits_ok_def list_all_iff intro: paid_open)
  ultimately show ?thesis by (simp add: debits_ok_def list_all_iff)
qed

lemma settle_inv:
  assumes "credit_inv db"
    and "\<And>h. p h \<Longrightarrow> h_status h = HOpen"
    and "\<And>h. h_status (f h) \<noteq> HCaptured"
    and "\<And>h. h_id (f h) = h_id h \<and> h_tenant_id (f h) = h_tenant_id h
            \<and> h_job_ref (f h) = h_job_ref h \<and> h_amount_micro_usd (f h) = h_amount_micro_usd h"
  shows "credit_inv (db\<lparr>holds := update_where p f (holds db)\<rparr>)"
proof -
  have "debits_ok (db\<lparr>holds := update_where p f (holds db)\<rparr>)"
    using assms(1-3) by (intro debits_ok_update) (auto simp: credit_inv_def)
  moreover have "keys_ok (db\<lparr>holds := update_where p f (holds db)\<rparr>)"
    using assms(1,4) by (simp add: credit_inv_def keys_ok_def map_update_where)
  moreover have "rows_ok (db\<lparr>holds := update_where p f (holds db)\<rparr>)"
    using assms(1,4) by (auto simp: credit_inv_def rows_ok_def set_update_where)
  ultimately show ?thesis by (simp add: credit_inv_def)
qed

text \<open>Capture: the hold turns captured and its debit is appended, both or neither.\<close>

lemma find_captured_after:
  assumes "distinct (map h_id hs)"
    and "first_where (\<lambda>h. h_id h = hid \<and> h_status h = HCaptured) (set_hold hid HCaptured now hs) = Some h'"
  obtains (opened) h where "h \<in> set hs" "h_id h = hid" "h_status h = HOpen"
      "h' = h\<lparr>h_status := HCaptured, h_settled_at := Some now\<rparr>"
    | (before) "h' \<in> set hs" "h_id h' = hid" "h_status h' = HCaptured"
      "set_hold hid HCaptured now hs = hs" "changes (\<lambda>h. h_id h = hid \<and> h_status h = HOpen) hs = 0"
proof -
  from find_SomeD [OF assms(2)] have h': "h' \<in> set (set_hold hid HCaptured now hs)"
    "h_id h' = hid" "h_status h' = HCaptured" by auto
  from h'(1) show thesis unfolding set_hold_def
  proof (cases rule: in_update_whereE)
    case (changed h)
    then show thesis using opened by auto
  next
    case kept
    have none: "\<not> (h_id g = hid \<and> h_status g = HOpen)" if "g \<in> set hs" for g
      using distinct_map_eq [OF assms(1) that kept(1)] h'(2,3) by auto
    then have "set_hold hid HCaptured now hs = hs"
      unfolding set_hold_def by (intro update_where_none) auto
    moreover have "changes (\<lambda>h. h_id h = hid \<and> h_status h = HOpen) hs = 0"
      using none by (simp add: changes_0_iff)
    ultimately show thesis using kept(1) h'(2,3) before by blast
  qed
qed

lemma debit_conflict_means_paid:
  assumes "credit_inv db" "h \<in> set (holds db)" "h_id h = hid"
    and "s \<in> set (ledger db)" "l_tenant_id s = h_tenant_id h" "l_idem_ref s = hid"
  shows "h_status h = HCaptured \<and> debit_of h s"
proof -
  from assms(1) have inv: "keys_ok db" "rows_ok db" "debits_ok db" by (simp_all add: credit_inv_def)
  from inv(2) assms(2,3) have "CHR '':'' \<notin> set hid" by (auto simp: rows_ok_def)
  moreover have "backed (holds db) s"
    using inv(3) assms(4) by (simp add: debits_ok_def list_all_iff)
  ultimately obtain g where g: "g \<in> set (holds db)" "h_status g = HCaptured" "debit_of g s"
    using assms(6) by (auto simp: backed_def list_ex_iff split: if_splits)
  then have "h_id g = h_id h" using assms(3,6) by (simp add: debit_of_def)
  with inv(1) g(1) assms(2) have "g = h" by (auto simp: keys_ok_def dest: distinct_map_eq)
  with g show ?thesis by simp
qed

lemma captured_has_debit:
  assumes "credit_inv db" "h \<in> set (holds db)" "h_status h = HCaptured"
  obtains r where "r \<in> set (ledger db)" "debit_of h r"
  using assms by (auto simp: credit_inv_def debits_ok_def list_all_iff paid_def list_ex_iff)

lemma captureHold_cases:
  assumes "credit_inv db" "captureHold db hid rowId cost note now = Inr (c, db')"
  obtains (captured) h where "c" "h \<in> set (holds db)" "h_id h = hid" "h_status h = HOpen"
      "db' = db\<lparr>holds := set_hold hid HCaptured now (holds db),
                ledger := ledger db @ [debit_row_of_hold rowId cost note now h]\<rparr>"
      "rowId \<notin> l_id ` set (ledger db)"
  | (unchanged) "\<not> c" "db' = db"
proof -
  let ?hs = "set_hold hid HCaptured now (holds db)"
  let ?n = "changes (\<lambda>h. h_id h = hid \<and> h_status h = HOpen) (holds db)"
  have dist: "distinct (map h_id (holds db))" using assms(1) by (simp add: credit_inv_def keys_ok_def)
  show thesis
  proof (cases "first_where (\<lambda>h. h_id h = hid \<and> h_status h = HCaptured) ?hs")
    case None
    have none: "\<not> (h_id g = hid \<and> h_status g = HOpen)" if "g \<in> set (holds db)" for g
    proof
      assume g: "h_id g = hid \<and> h_status g = HOpen"
      then have "g\<lparr>h_status := HCaptured, h_settled_at := Some now\<rparr> \<in> set ?hs"
        unfolding set_hold_def using that by (intro in_update_whereI2)
      from find_NoneD [OF None this] g show False by simp
    qed
    then have "?hs = holds db" unfolding set_hold_def by (intro update_where_none) auto
    moreover have "?n = 0" using none by (simp add: changes_0_iff)
    ultimately have "\<not> c \<and> db' = db"
      using assms(2) None by (auto simp: captureHold_def Let_def)
    then show thesis using unchanged by blast
  next
    case (Some h')
    from dist Some show thesis
    proof (cases rule: find_captured_after)
      case (opened h)
      have row: "debit_row_of_hold rowId cost note now h' = debit_row_of_hold rowId cost note now h"
        using opened by (simp add: debit_row_of_hold_def)
      have free: "\<not> list_ex (same_ledger_key (debit_row_of_hold rowId cost note now h)) (ledger db)"
        using debit_conflict_means_paid [OF assms(1) opened(1,2)] opened(2,3)
        by (fastforce simp: list_ex_iff same_ledger_key_def debit_row_of_hold_def)
      have "?n \<noteq> 0" using opened by (auto simp: changes_0_iff)
      moreover have "?n \<le> 1" using changes_key_le_1 [OF dist] .
      ultimately have "?n = 1" by linarith
      with assms(2) Some row free opened show thesis
        by (intro captured [of h])
          (auto simp: captureHold_def Let_def insert_ledger_def debit_row_of_hold_def
                split: if_splits option.splits sum.splits)
    next
      case before
      obtain r where "r \<in> set (ledger db)" "debit_of h' r"
        using captured_has_debit [OF assms(1) before(1,3)] by blast
      then have "list_ex (same_ledger_key (debit_row_of_hold rowId cost note now h')) (ledger db)"
        by (auto simp: list_ex_iff same_ledger_key_def debit_row_of_hold_def debit_of_def intro!: bexI [of _ r])
      with assms(2) Some before have "\<not> c \<and> db' = db"
        by (auto simp: captureHold_def Let_def insert_ledger_def split: if_splits option.splits sum.splits)
      then show thesis using unchanged by blast
    qed
  qed
qed

lemma capture_debits_ok:
  assumes "credit_inv db" "h \<in> set (holds db)" "h_id h = hid" "h_status h = HOpen"
  shows "debits_ok (db\<lparr>holds := set_hold hid HCaptured now (holds db),
                       ledger := ledger db @ [debit_row_of_hold rowId cost note now h]\<rparr>)"
proof -
  let ?row = "debit_row_of_hold rowId cost note now h"
  let ?upd = "\<lambda>g. g\<lparr>h_status := HCaptured, h_settled_at := Some now\<rparr>"
  let ?hs = "set_hold hid HCaptured now (holds db)"
  from assms(1) have dist: "distinct (map h_id (holds db))" and deb: "debits_ok db"
    by (simp_all add: credit_inv_def keys_ok_def)
  have new: "?upd h \<in> set ?hs" and row: "debit_of (?upd h) ?row"
    using assms unfolding set_hold_def
    by (auto intro: in_update_whereI2 simp: debit_of_def debit_row_of_hold_def)
  have "backed ?hs r" if "r \<in> set (ledger db)" for r
  proof (rule backed_mono)
    show "backed (holds db) r" using deb that by (simp add: debits_ok_def list_all_iff)
  next
    fix g
    assume "g \<in> set (holds db)" "h_status g = HCaptured"
    then show "g \<in> set ?hs" by (auto simp: set_hold_def intro: in_update_whereI)
  qed
  moreover have "backed ?hs ?row"
  proof -
    have "list_ex (\<lambda>g. h_status g = HCaptured \<and> debit_of g ?row) ?hs"
      unfolding list_ex_iff by (rule bexI [OF _ new]) (simp add: row)
    then show ?thesis by (simp add: backed_def debit_row_of_hold_def)
  qed
  moreover have "paid (ledger db @ [?row]) g" if "g \<in> set ?hs" for g
    using that unfolding set_hold_def
  proof (cases rule: in_update_whereE)
    case (changed f)
    with dist assms(2,3) have "f = h" by (auto dest: distinct_map_eq)
    with changed row show ?thesis by (simp add: paid_def)
  next
    case kept
    with deb have "paid (ledger db) g" by (simp add: debits_ok_def list_all_iff)
    then show ?thesis by (rule paid_mono) auto
  qed
  ultimately show ?thesis by (simp add: debits_ok_def list_all_iff)
qed

lemma captureHold_inv:
  assumes "credit_inv db" "captureHold db hid rowId cost note now = Inr (c, db')"
  shows "credit_inv db'"
  using assms
proof (cases rule: captureHold_cases)
  case (captured h)
  from assms(1) have inv: "keys_ok db" "rows_ok db" by (simp_all add: credit_inv_def)
  have free: "\<forall>s \<in> set (ledger db). \<not> (l_tenant_id s = h_tenant_id h \<and> l_idem_ref s = hid)"
    using debit_conflict_means_paid [OF assms(1) captured(2,3)] captured(4) by fastforce
  have "keys_ok db'"
    using inv(1) captured free
    by (auto simp: keys_ok_def set_hold_def map_update_where debit_row_of_hold_def)
  moreover have "rows_ok db'"
    using inv(2) captured
    by (auto simp: rows_ok_def set_hold_def set_update_where debit_row_of_hold_def)
  moreover have "debits_ok db'"
    unfolding captured(5) using assms(1) captured(2-4) by (rule capture_debits_ok)
  ultimately show ?thesis by (simp add: credit_inv_def)
next
  case unchanged
  with assms(1) show ?thesis by simp
qed

lemma releaseHold_inv: "credit_inv db \<Longrightarrow> credit_inv (snd (releaseHold db hid now))"
  unfolding releaseHold_def set_hold_def snd_conv by (rule settle_inv) auto

lemma expireHolds_inv: "credit_inv db \<Longrightarrow> credit_inv (snd (expireHolds db now))"
  unfolding expireHolds_def Let_def snd_conv by (rule settle_inv) auto

lemma credit_step_inv: "credit_step db db' \<Longrightarrow> credit_inv db \<Longrightarrow> credit_inv db'"
proof (induction rule: credit_step.induct)
  case (append i db a db')
  then show ?case by (blast intro: append_inv)
next
  case (hold a db c db')
  then show ?case by (blast intro: takeHold_inv)
next
  case (capture db hid rowId cost nt now c db')
  then show ?case by (blast intro: captureHold_inv)
next
  case (release db hid now c db')
  then show ?case using releaseHold_inv [of db hid now] by simp
next
  case (expire db now n db')
  then show ?case using expireHolds_inv [of db now] by simp
qed

lemma credit_reachable_inv: "credit_reachable ts db \<Longrightarrow> credit_inv db"
proof (induction rule: credit_reachable.induct)
  case start
  show ?case by (simp add: credit_inv_defs)
next
  case (step db db')
  then show ?case by (blast intro: credit_step_inv)
qed

section \<open>Balances over a step\<close>

lemma filter_update_where:
  assumes "\<And>r. p r \<Longrightarrow> q (f r) = q r"
  shows "filter q (update_where p f t) = update_where p f (filter q t)"
  using assms by (induction t) auto

definition settled_of :: "ledger_row list \<Rightarrow> string \<Rightarrow> int" where
  "settled_of rows t = sum_by l_delta_micro_usd (filter (\<lambda>r. l_tenant_id r = t) rows)"

definition held_of :: "hold_row list \<Rightarrow> string \<Rightarrow> int" where
  "held_of hs t = sum_by (\<lambda>h. if h_tenant_id h = t \<and> h_status h = HOpen then h_amount_micro_usd h else 0) hs"

lemma sum_by_filter: "sum_by f (filter p rs) = sum_by (\<lambda>r. if p r then f r else 0) rs"
  by (induction rs) auto

lemma readBalanceSums_eq: "readBalanceSums db t = (settled_of (ledger db) t, held_of (holds db) t)"
  by (simp add: readBalanceSums_def settled_of_def held_of_def sum_by_filter)

lemma available_eq: "available db t = settled_of (ledger db) t - held_of (holds db) t"
  by (simp add: available_def readBalanceSums_eq)

lemma settled_of_append [simp]:
  "settled_of (rows @ [r]) t = settled_of rows t + (if l_tenant_id r = t then l_delta_micro_usd r else 0)"
  by (simp add: settled_of_def)

lemma held_of_append [simp]:
  "held_of (hs @ [h]) t =
     held_of hs t + (if h_tenant_id h = t \<and> h_status h = HOpen then h_amount_micro_usd h else 0)"
  by (simp add: held_of_def)

lemma held_of_settle:
  assumes "distinct (map h_id hs)" "h \<in> set hs" "h_status h = HOpen" "st \<noteq> HOpen"
  shows "held_of (set_hold (h_id h) st now hs) t =
         held_of hs t - (if h_tenant_id h = t then h_amount_micro_usd h else 0)"
  using sum_by_update_key [OF assms(1-2), of "\<lambda>h. h_status h = HOpen"
      "\<lambda>h. if h_tenant_id h = t \<and> h_status h = HOpen then h_amount_micro_usd h else 0"
      "\<lambda>h. h\<lparr>h_status := st, h_settled_at := Some now\<rparr>"] assms(3,4)
  by (auto simp: held_of_def set_hold_def)

lemma held_of_nonneg: "credit_inv db \<Longrightarrow> 0 \<le> held_of (holds db) t"
  unfolding held_of_def by (rule sum_by_nonneg) (auto simp: credit_inv_def rows_ok_def)

section \<open>The ledger as an interface\<close>

text \<open>
  What the writers of credit (a payment rail, the overage settlement) rely on: a row is written once
  per tenant and idempotency reference, and asking again answers with the row that is there.
\<close>

locale idempotent_ledger =
  fixes append :: "'s \<Rightarrow> ledger_insert \<Rightarrow> db_error + ((bool \<times> ledger_row) \<times> 's)"
    and rows :: "'s \<Rightarrow> ledger_row list"
    and inv :: "'s \<Rightarrow> bool"
  assumes append_applied: "inv s \<Longrightarrow> append s i = Inr ((True, r), s') \<Longrightarrow>
      r = row_of_insert i \<and> rows s' = rows s @ [r] \<and> \<not> list_ex (same_ledger_key r) (rows s)"
    and append_replay: "inv s \<Longrightarrow> append s i = Inr ((False, r), s') \<Longrightarrow>
      s' = s \<and> r \<in> set (rows s) \<and> same_ledger_key (row_of_insert i) r"
    and append_present: "inv s \<Longrightarrow> ledger_check (i_kind i) (i_deltaMicroUsd i) \<Longrightarrow>
      list_ex (same_ledger_key (row_of_insert i)) (rows s) \<Longrightarrow>
      \<exists>r. append s i = Inr ((False, r), s)"
    and append_check: "inv s \<Longrightarrow> append s i = Inr (a, s') \<Longrightarrow> ledger_check (i_kind i) (i_deltaMicroUsd i)"
    and append_keeps: "inv s \<Longrightarrow> CHR '':'' \<in> set (i_idemRef i) \<Longrightarrow> append s i = Inr (a, s') \<Longrightarrow> inv s'"
begin

lemma append_rows:
  assumes "inv s" "append s i = Inr (a, s')"
  shows "rows s' = rows s @ (if fst a then [row_of_insert i] else [])"
proof (cases a)
  case (Pair ok r)
  with assms append_applied [of s i r s'] append_replay [of s i r s'] show ?thesis by (cases ok) auto
qed

lemma append_settled:
  assumes "inv s" "append s i = Inr (a, s')"
  shows "settled_of (rows s') t =
    settled_of (rows s) t + (if fst a \<and> i_tenantId i = t then i_deltaMicroUsd i else 0)"
  using append_rows [OF assms] by (auto simp: row_of_insert_def)

lemma append_recorded:
  assumes "inv s" "append s i = Inr (a, s')"
  shows "list_ex (same_ledger_key (row_of_insert i)) (rows s')"
proof (cases "fst a")
  case True
  with append_rows [OF assms] show ?thesis by (simp add: same_ledger_key_def)
next
  case False
  obtain r where a: "a = (False, r)" using False by (cases a) auto
  with assms append_replay show ?thesis by (fastforce simp: list_ex_iff)
qed

text \<open>Any later request with the same key, whatever its id, time or amount, changes nothing.\<close>

lemma append_again:
  assumes "inv s" "append s i = Inr (a, s')" "CHR '':'' \<in> set (i_idemRef i)"
    and "i_tenantId j = i_tenantId i" "i_idemRef j = i_idemRef i"
    and "ledger_check (i_kind j) (i_deltaMicroUsd j)"
  shows "\<exists>r. append s' j = Inr ((False, r), s')"
proof (rule append_present)
  show "inv s'" using assms(1,3,2) by (rule append_keeps)
  show "list_ex (same_ledger_key (row_of_insert j)) (rows s')"
    using append_recorded [OF assms(1,2)] assms(4,5)
    by (simp add: same_ledger_key_def row_of_insert_def list_ex_iff)
qed (rule assms(6))

end

interpretation d1: idempotent_ledger appendLedgerRow ledger credit_inv
proof
  fix s s' :: credit_db and i r
  assume "appendLedgerRow s i = Inr ((True, r), s')"
  then show "r = row_of_insert i \<and> ledger s' = ledger s @ [r] \<and> \<not> list_ex (same_ledger_key r) (ledger s)"
    by (cases rule: appendLedgerRow_cases) (auto dest: insert_ledger_Some simp: list_ex_iff)
next
  fix s s' :: credit_db and i r
  assume "appendLedgerRow s i = Inr ((False, r), s')"
  then show "s' = s \<and> r \<in> set (ledger s) \<and> same_ledger_key (row_of_insert i) r"
    by (cases rule: appendLedgerRow_cases) auto
next
  fix s :: credit_db and i
  assume chk: "ledger_check (i_kind i) (i_deltaMicroUsd i)"
    and ex: "list_ex (same_ledger_key (row_of_insert i)) (ledger s)"
  then obtain r where "first_where (same_ledger_key (row_of_insert i)) (ledger s) = Some r"
    by (cases "first_where (same_ledger_key (row_of_insert i)) (ledger s)")
      (auto simp: find_None_iff list_ex_iff)
  with chk ex show "\<exists>r. appendLedgerRow s i = Inr ((False, r), s)"
    by (auto simp: appendLedgerRow_def insert_ledger_def row_of_insert_def)
next
  fix s s' :: credit_db and i a
  assume "appendLedgerRow s i = Inr (a, s')"
  then show "ledger_check (i_kind i) (i_deltaMicroUsd i)"
    by (auto simp: appendLedgerRow_def insert_ledger_def row_of_insert_def split: if_splits)
next
  fix s s' :: credit_db and i a
  assume "credit_inv s" "CHR '':'' \<in> set (i_idemRef i)" "appendLedgerRow s i = Inr (a, s')"
  then show "credit_inv s'" by (rule append_inv)
qed

section \<open>Properties\<close>

lemma debit_row_unique:
  assumes "credit_inv db" "h \<in> set (holds db)" "r \<in> set (ledger db)" "debit_of h r"
    and "s \<in> set (ledger db)" "l_hold_id s = Some (h_id h)"
  shows "s = r"
proof -
  from assms(1,5) have "backed (holds db) s"
    by (simp add: credit_inv_def debits_ok_def list_all_iff)
  with assms(6) obtain g where g: "g \<in> set (holds db)" "debit_of g s"
    by (auto simp: backed_def list_ex_iff)
  with assms(6) have "h_id g = h_id h" by (simp add: debit_of_def)
  moreover from assms(1) have "distinct (map h_id (holds db))" by (simp add: credit_inv_def keys_ok_def)
  ultimately have "g = h" using g(1) assms(2) by (auto dest: distinct_map_eq)
  with g(2) assms(4) have "(\<lambda>r. (l_tenant_id r, l_idem_ref r)) s = (\<lambda>r. (l_tenant_id r, l_idem_ref r)) r"
    by (simp add: debit_of_def)
  moreover from assms(1) have "distinct (map (\<lambda>r. (l_tenant_id r, l_idem_ref r)) (ledger db))"
    by (simp add: credit_inv_def keys_ok_def)
  ultimately show ?thesis using assms(3,5) by (metis (no_types, lifting) distinct_map_eq)
qed

lemma uncaptured_no_row:
  assumes "credit_inv db" "h \<in> set (holds db)" "h_status h \<noteq> HCaptured" "s \<in> set (ledger db)"
  shows "l_hold_id s \<noteq> Some (h_id h)"
proof
  assume sh: "l_hold_id s = Some (h_id h)"
  from assms(1,4) have "backed (holds db) s"
    by (simp add: credit_inv_def debits_ok_def list_all_iff)
  with sh obtain g where g: "g \<in> set (holds db)" "h_status g = HCaptured" "debit_of g s"
    by (auto simp: backed_def list_ex_iff)
  with sh have "h_id g = h_id h" by (simp add: debit_of_def)
  moreover from assms(1) have "distinct (map h_id (holds db))" by (simp add: credit_inv_def keys_ok_def)
  ultimately have "g = h" using g(1) assms(2) by (auto dest: distinct_map_eq)
  with g(2) assms(3) show False by simp
qed

text \<open>
  C1: completed-only billing, exactly once.  In every state the store can reach, the ledger rows
  that name a hold are exactly one debit of the reserved amount if the hold was captured, and none
  if it is open, released or expired.
\<close>

theorem captured_charged_once:
  assumes "credit_reachable ts db" "h \<in> set (holds db)"
  shows "map l_delta_micro_usd (filter (\<lambda>r. l_hold_id r = Some (h_id h)) (ledger db)) =
         (if h_status h = HCaptured then [- h_amount_micro_usd h] else [])"
proof (cases "h_status h = HCaptured")
  case True
  from assms(1) have inv: "credit_inv db" by (rule credit_reachable_inv)
  obtain r where r: "r \<in> set (ledger db)" "debit_of h r"
    using captured_has_debit [OF inv assms(2) True] by blast
  have "distinct (ledger db)"
    using inv by (simp add: credit_inv_def keys_ok_def distinct_map)
  then have "filter (\<lambda>r. l_hold_id r = Some (h_id h)) (ledger db) = [r]"
  proof (rule filter_unique)
    show "l_hold_id r = Some (h_id h)" using r(2) by (simp add: debit_of_def)
  qed (rule r(1), rule debit_row_unique [OF inv assms(2) r])
  with True r show ?thesis by (simp add: debit_of_def)
next
  case False
  with uncaptured_no_row [OF credit_reachable_inv [OF assms(1)] assms(2)]
  show ?thesis by (simp add: filter_empty_conv)
qed

text \<open>
  The reconciliation query finds nothing.  No reachable state holds a captured hold whose debit
  is missing.
\<close>

theorem no_captured_hold_missing_debit:
  assumes "credit_reachable ts db"
  shows "capturedHoldsMissingDebit db n = []"
proof -
  from assms have inv: "credit_inv db" by (rule credit_reachable_inv)
  have "list_ex (\<lambda>l. l_hold_id l = Some (h_id h)) (ledger db)"
    if h: "h \<in> set (holds db)" "h_status h = HCaptured" for h
  proof -
    obtain r where "r \<in> set (ledger db)" "debit_of h r"
      using captured_has_debit [OF inv h] by blast
    then show ?thesis unfolding list_ex_iff by (intro bexI [of _ r]) (simp_all add: debit_of_def)
  qed
  then have "filter (\<lambda>h. h_status h = HCaptured \<and> \<not> list_ex (\<lambda>l. l_hold_id l = Some (h_id h)) (ledger db)) (holds db) = []"
    by (intro filter_False) blast
  then show ?thesis by (simp add: capturedHoldsMissingDebit_def)
qed

text \<open>
  Capturing a hold turns reserved money into spent money and nothing else.  A capture never
  changes what any tenant has available; the one that succeeds lowers the settled and the held sum
  of the hold's tenant by the reserved amount.
\<close>

theorem capture_conserves_available:
  assumes "credit_reachable ts db" "captureHold db hid rowId cost nt now = Inr (c, db')"
  shows "available db' t = available db t \<and>
    (c \<longrightarrow> (\<exists>h \<in> set (holds db). h_id h = hid \<and> h_status h = HOpen \<and>
       readBalanceSums db' (h_tenant_id h) =
         (fst (readBalanceSums db (h_tenant_id h)) - h_amount_micro_usd h,
          snd (readBalanceSums db (h_tenant_id h)) - h_amount_micro_usd h)))"
  using credit_reachable_inv [OF assms(1)] assms(2)
proof (cases rule: captureHold_cases)
  case (captured h)
  have dist: "distinct (map h_id (holds db))"
    using credit_reachable_inv [OF assms(1)] by (simp add: credit_inv_def keys_ok_def)
  have "held_of (holds db') u = held_of (holds db) u - (if h_tenant_id h = u then h_amount_micro_usd h else 0)" for u
    using held_of_settle [OF dist captured(2,4), of HCaptured now u] captured(3,5) by simp
  moreover have "settled_of (ledger db') u =
      settled_of (ledger db) u - (if h_tenant_id h = u then h_amount_micro_usd h else 0)" for u
    using captured(5) by (simp add: debit_row_of_hold_def)
  ultimately show ?thesis using captured(2-4) by (auto simp: available_eq readBalanceSums_eq)
next
  case unchanged
  then show ?thesis by simp
qed

text \<open>
  Releasing a hold gives exactly the reserved amount back to the tenant it was taken from, the
  first time, and changes nothing after that.
\<close>

theorem release_returns_reservation:
  assumes "credit_reachable ts db" "releaseHold db hid now = (c, db')"
  shows "(if c then \<exists>h \<in> set (holds db). h_id h = hid \<and> h_status h = HOpen \<and>
            available db' (h_tenant_id h) = available db (h_tenant_id h) + h_amount_micro_usd h
          else db' = db) \<and> releaseHold db' hid later = (False, db')"
proof -
  from credit_reachable_inv [OF assms(1)] have dist: "distinct (map h_id (holds db))"
    by (simp add: credit_inv_def keys_ok_def)
  let ?p = "\<lambda>h. h_id h = hid \<and> h_status h = HOpen"
  have c: "c \<longleftrightarrow> changes ?p (holds db) = 1"
    using arg_cong [OF assms(2), of fst] by (simp add: releaseHold_def)
  have db': "db' = db\<lparr>holds := set_hold hid HReleased now (holds db)\<rparr>"
    using arg_cong [OF assms(2), of snd] by (simp add: releaseHold_def)
  have none: "\<not> ?p h" if "h \<in> set (holds db')" for h
  proof -
    from that have "h \<in> set (update_where ?p (\<lambda>h. h\<lparr>h_status := HReleased, h_settled_at := Some now\<rparr>) (holds db))"
      by (simp add: db' set_hold_def)
    then show ?thesis by (cases rule: in_update_whereE) simp_all
  qed
  then have "changes ?p (holds db') = 0" by (simp add: changes_0_iff)
  moreover have "set_hold hid HReleased later (holds db') = holds db'"
    unfolding set_hold_def using none by (rule update_where_none)
  ultimately have again: "releaseHold db' hid later = (False, db')"
    by (simp add: releaseHold_def)
  show ?thesis
  proof (cases "changes ?p (holds db) = 0")
    case True
    then have "db' = db"
      unfolding db' set_hold_def by (subst update_where_none) (auto simp: changes_0_iff)
    with True c again show ?thesis by simp
  next
    case False
    with changes_key_le_1 [OF dist, of hid "\<lambda>h. h_status h = HOpen"] c have "c" by simp
    from False obtain h where h: "h \<in> set (holds db)" "h_id h = hid" "h_status h = HOpen"
      by (auto simp: changes_0_iff)
    with held_of_settle [OF dist h(1,3), of HReleased now "h_tenant_id h"]
    have "available db' (h_tenant_id h) = available db (h_tenant_id h) + h_amount_micro_usd h"
      unfolding db' by (simp add: available_eq)
    with h \<open>c\<close> again show ?thesis by auto
  qed
qed


lemma decideSubmit_allow_iff:
  "decideSubmit b req True = Allow e av r \<longleftrightarrow>
     complete b \<and> req \<le> available_micro_usd b \<and> e \<and> av = available_micro_usd b \<and> r = req"
  by (auto simp: decideSubmit_def)

lemma takeHold_created:
  assumes "takeHold db a = Inr ((True, h), db')"
  shows "h = hold_of_insert a \<and> ledger db' = ledger db \<and> holds db' = holds db @ [hold_of_insert a]"
  using assms by (auto simp: takeHold_def split: if_splits option.splits)

text \<open>
  C11: the gate and the reservation compose.  A submission that the enforcing gate allows on the
  sums the store reports, and whose hold is then taken for the amount the gate was asked about,
  never leaves the tenant with a negative available balance.
\<close>

theorem gated_hold_never_overdraws:
  assumes "readBalanceSums db (t_tenantId a) = (settled, held)"
    and "decideSubmit (balanceFromSums settled held compl) (t_amountMicroUsd a) True = Allow e av req"
    and "takeHold db a = Inr ((True, h), db')"
  shows "0 \<le> available db' (t_tenantId a) \<and>
         available db' (t_tenantId a) = av - t_amountMicroUsd a"
proof -
  from assms(2) have "t_amountMicroUsd a \<le> settled - held" and "av = settled - held"
    by (simp_all add: decideSubmit_allow_iff balanceFromSums_def)
  moreover have "available db' (t_tenantId a) = settled - held - t_amountMicroUsd a"
    using assms(1) takeHold_created [OF assms(3)]
    by (simp add: available_eq readBalanceSums_eq hold_of_insert_def)
  ultimately show ?thesis by simp
qed

lemma settle_keeps_settled:
  assumes "h \<in> set hs" "h_status h \<noteq> HOpen"
  shows "h \<in> set (update_where (\<lambda>g. p g \<and> h_status g = HOpen) f hs)"
  using assms by (intro in_update_whereI) auto

lemma insert_ledger_holds: "insert_ledger db r = Inr (Some db') \<Longrightarrow> holds db' = holds db \<and> ledger db' = ledger db @ [r]"
  by (auto dest: insert_ledger_Some)

lemma captureHold_effect:
  assumes "captureHold db hid rowId cost nt now = Inr (c, db')"
  shows "holds db' = set_hold hid HCaptured now (holds db) \<and> (\<exists>rs. ledger db' = ledger db @ rs)"
  using assms
  by (auto simp: captureHold_def Let_def dest!: insert_ledger_holds split: option.splits sum.splits)

lemma credit_step_mono:
  assumes "credit_step db db'" "h \<in> set (holds db)" "h_status h \<noteq> HOpen"
  shows "h \<in> set (holds db') \<and> (\<exists>rs. ledger db' = ledger db @ rs)"
  using assms
proof (induction rule: credit_step.induct)
  case (append i db a db')
  from append(2) append.prems show ?case
    by (cases rule: appendLedgerRow_cases) (auto dest: insert_ledger_holds)
next
  case (hold a db c db')
  then show ?case by (auto simp: takeHold_def split: if_splits option.splits)
next
  case (capture db hid rowId cost nt now c db')
  then show ?case using captureHold_effect [OF capture(1)] settle_keeps_settled
    by (simp add: set_hold_def)
next
  case (release db hid now c db')
  then show ?case using settle_keeps_settled by (auto simp: releaseHold_def set_hold_def)
next
  case (expire db now n db')
  have "h \<in> set (update_where (\<lambda>g. h_expires_at g \<le> now \<and> h_status g = HOpen)
      (\<lambda>h. h\<lparr>h_status := HExpired, h_settled_at := Some now\<rparr>) (holds db))"
    using expire.prems by (rule settle_keeps_settled)
  with expire(1) show ?case by (auto simp: expireHolds_def Let_def conj_commute)
qed

lemma credit_step_ledger: "credit_step db db' \<Longrightarrow> \<exists>rs. ledger db' = ledger db @ rs"
proof (induction rule: credit_step.induct)
  case (append i db a db')
  from append(2) show ?case by (cases rule: appendLedgerRow_cases) (auto dest: insert_ledger_holds)
next
  case (capture db hid rowId cost nt now c db')
  then show ?case using captureHold_effect [OF capture(1)] by simp
qed (auto simp: takeHold_def releaseHold_def expireHolds_def Let_def split: if_splits option.splits)

text \<open>
  History is final.  Whatever the store does next, in any order, the ledger only grows at its
  end, and a hold that was captured, released or expired stays exactly as it was settled.
\<close>

theorem credit_history_final:
  assumes "credit_step\<^sup>*\<^sup>* db db'"
  shows "take (length (ledger db)) (ledger db') = ledger db \<and>
         (\<forall>h \<in> set (holds db). h_status h \<noteq> HOpen \<longrightarrow> h \<in> set (holds db'))"
  using assms
proof (induction rule: rtranclp_induct)
  case base
  then show ?case by simp
next
  case (step db1 db2)
  obtain rs where "ledger db2 = ledger db1 @ rs" using credit_step_ledger [OF step(2)] by blast
  moreover obtain rs' where "ledger db1 = ledger db @ rs'"
    using step.IH by (metis append_take_drop_id)
  moreover have "h \<in> set (holds db2)" if "h \<in> set (holds db)" "h_status h \<noteq> HOpen" for h
    using step.IH credit_step_mono [OF step(2)] that by blast
  ultimately show ?case by simp
qed

lemma credit_steps_ledger: "credit_step\<^sup>*\<^sup>* db db' \<Longrightarrow> \<exists>rs. ledger db' = ledger db @ rs"
proof (induction rule: rtranclp_induct)
  case (step db1 db2)
  then show ?case using credit_step_ledger [OF step(2)] by auto
qed simp

lemma credit_steps_inv: "credit_step\<^sup>*\<^sup>* db db' \<Longrightarrow> credit_inv db \<Longrightarrow> credit_inv db'"
  by (induction rule: rtranclp_induct) (auto intro: credit_step_inv)

lemma foldl_add_sum_by: "foldl (\<lambda>acc r. acc + f r) n rs = n + sum_by f rs"
  by (induction rs arbitrary: n) auto


lemma is_digit_not_ws: "is_digit c \<Longrightarrow> \<not> is_ws c"
  by (auto simp: is_digit_def is_ws_def Let_def)

lemma dropWhile_ws_digits: "list_all is_digit s \<Longrightarrow> dropWhile is_ws s = s"
  by (cases s) (auto simp: is_digit_not_ws)

lemma js_trim_digits: "list_all is_digit s \<Longrightarrow> js_trim s = s"
  by (simp add: js_trim_def dropWhile_ws_digits)

lemma list_all_show_nat: "list_all is_digit (show_nat n)"
  by (auto simp: list_all_iff dest: set_show_nat)

text \<open>
  An amount written in digits is read back as the number it denotes exactly when it is a safe
  integer; anything larger is refused, never rounded.
\<close>

theorem parseMicroUsd_round_trip:
  "parseMicroUsd (Some (show_nat n)) =
     (if int n \<le> max_safe_integer then Some (int n) else None)"
  by (simp add: parseMicroUsd_def Let_def js_trim_digits list_all_show_nat)

section \<open>A run of the credit store\<close>

definition ex_top :: ledger_insert where
  "ex_top = \<lparr>i_id = ''cled_1'', i_tenantId = ''ten_a'', i_kind = Purchase, i_deltaMicroUsd = 10000000,
     i_costMicroUsd = None, i_idemRef = ''manual:inv1'', i_priceListId = None,
     i_externalRef = Some ''inv1'', i_note = None, i_now = ''2026-07-01T00:00:00.000Z''\<rparr>"

definition ex_take :: hold_insert where
  "ex_take = \<lparr>t_id = ''chld_1'', t_tenantId = ''ten_a'', t_jobRef = ''job1'', t_amountMicroUsd = 4000000,
     t_priceListId = ''pl1'', t_now = ''2026-07-02T00:00:00.000Z'',
     t_expiresAt = ''2026-07-03T00:00:00.000Z''\<rparr>"

definition ex_db0 :: credit_db where
  "ex_db0 = \<lparr>ledger = [], holds = [], tenant_keys = [''ten_a'']\<rparr>"

definition ex_db1 :: credit_db where
  "ex_db1 = ex_db0\<lparr>ledger := [row_of_insert ex_top]\<rparr>"

definition ex_db2 :: credit_db where
  "ex_db2 = ex_db1\<lparr>holds := [hold_of_insert ex_take]\<rparr>"

definition ex_now :: string where
  "ex_now = ''2026-07-02T12:00:00.000Z''"

definition ex_db3 :: credit_db where
  "ex_db3 = ex_db2\<lparr>holds := set_hold ''chld_1'' HCaptured ex_now (holds ex_db2),
     ledger := ledger ex_db2 @ [debit_row_of_hold ''cled_2'' (Some 3000000) None ex_now (hold_of_insert ex_take)]\<rparr>"

lemmas ex_defs = ex_db0_def ex_db1_def ex_db2_def ex_db3_def ex_top_def ex_take_def ex_now_def

lemma ex_append: "appendLedgerRow ex_db0 ex_top = Inr ((True, row_of_insert ex_top), ex_db1)"
  by code_simp

lemma ex_hold: "takeHold ex_db1 ex_take = Inr ((True, hold_of_insert ex_take), ex_db2)"
  by code_simp

lemma ex_capture: "captureHold ex_db2 ''chld_1'' ''cled_2'' (Some 3000000) None ex_now = Inr (True, ex_db3)"
  by code_simp

lemma ex_step1: "credit_step ex_db0 ex_db1"
  by (rule credit_step.append [OF _ ex_append]) code_simp

lemma ex_step2: "credit_step ex_db1 ex_db2"
  by (rule credit_step.hold [OF _ ex_hold]) code_simp

lemma ex_step3: "credit_step ex_db2 ex_db3"
  by (rule credit_step.capture [OF ex_capture])

lemma ex_reach0: "credit_reachable [''ten_a''] ex_db0"
  unfolding ex_db0_def by (rule credit_reachable.start)

lemma ex_reach2: "credit_reachable [''ten_a''] ex_db2"
  by (rule credit_reachable.step [OF credit_reachable.step [OF ex_reach0 ex_step1] ex_step2])

lemma ex_reach3: "credit_reachable [''ten_a''] ex_db3"
  by (rule credit_reachable.step [OF ex_reach2 ex_step3])

theorem captured_charged_once_witness:
  "map l_delta_micro_usd (filter (\<lambda>r. l_hold_id r = Some ''chld_1'') (ledger ex_db3)) = [-4000000]"
  using captured_charged_once [OF ex_reach3, of "hd (holds ex_db3)"]
  by (simp add: ex_defs set_hold_def hold_of_insert_def)

theorem no_captured_hold_missing_debit_witness: "capturedHoldsMissingDebit ex_db3 100 = []"
  by (rule no_captured_hold_missing_debit [OF ex_reach3])

theorem capture_conserves_available_witness: "available ex_db3 ''ten_a'' = available ex_db2 ''ten_a''"
  using capture_conserves_available [OF ex_reach2 ex_capture, of "''ten_a''"] by simp

theorem release_returns_reservation_witness:
  "releaseHold (snd (releaseHold ex_db2 ''chld_1'' ex_now)) ''chld_1'' ex_now =
     (False, snd (releaseHold ex_db2 ''chld_1'' ex_now))"
  using release_returns_reservation [OF ex_reach2 surjective_pairing, of "''chld_1''" ex_now ex_now] by simp

theorem gated_hold_never_overdraws_witness: "available ex_db2 ''ten_a'' = 10000000 - 4000000"
proof -
  have sums: "readBalanceSums ex_db1 (t_tenantId ex_take) = (10000000, 0)" by code_simp
  have ok: "decideSubmit (balanceFromSums 10000000 0 True) (t_amountMicroUsd ex_take) True =
      Allow True 10000000 4000000" by code_simp
  show ?thesis using gated_hold_never_overdraws [OF sums ok ex_hold] by (simp add: ex_take_def)
qed

theorem credit_history_final_witness: "take 1 (ledger ex_db3) = ledger ex_db1"
proof -
  have "credit_step\<^sup>*\<^sup>* ex_db1 ex_db3" using ex_step2 ex_step3 by auto
  from credit_history_final [OF this] show ?thesis by (simp add: ex_db1_def)
qed

end
