(* ===== verification/Http.thy ===== *)
theory Http
  imports Prelude "HOL-Library.Word"
begin

text \<open>
  Requests and responses of the Worker, the two response helpers of \<^verbatim>\<open>src/src/index.ts\<close>, the
  credential primitives of \<^verbatim>\<open>src/src/crypto.ts\<close>, and the encodings the sources use
  (\<^verbatim>\<open>btoa\<close>, \<^verbatim>\<open>encodeURIComponent\<close>, hexadecimal).

  A call to another service is a function from the request sent to the response received, an argument
  of the operation that makes the call.  SHA-256 and the random source are arguments in the same way.
\<close>

unbundle bit_operations_syntax

section \<open>Requests and responses\<close>

type_synonym headers = "(string \<times> string) list"

datatype body = NoBody | TextBody string | JsonBody json

record http_request =
  q_method :: string
  q_url :: string
  q_headers :: headers
  q_body :: body

text \<open>
  A response from another service: its status, its text, and what \<^verbatim>\<open>await res.json()\<close> gives
  (\<^const>\<open>None\<close> when the text is not JSON and the call throws).
\<close>

record http_response =
  s_status :: nat
  s_text :: string
  s_json :: "json option"

definition res_ok :: "http_response \<Rightarrow> bool" where
  "res_ok r \<longleftrightarrow> 200 \<le> s_status r \<and> s_status r \<le> 299"

text \<open>\<^verbatim>\<open>headers.get(name)\<close>: names compare without case, repeated values are joined.\<close>

definition header_get :: "headers \<Rightarrow> string \<Rightarrow> string option" where
  "header_get hs name =
     (case filter (\<lambda>(k, v). to_lower k = to_lower name) hs of
        [] \<Rightarrow> None
      | kvs \<Rightarrow> Some (join_with '', '' (map snd kvs)))"

text \<open>The responses this Worker makes with its helpers \<^verbatim>\<open>json\<close> and \<^verbatim>\<open>err\<close>.\<close>

record reply =
  r_status :: nat
  r_headers :: headers
  r_body :: json

definition json_content_type :: "string \<times> string" where
  "json_content_type = (''content-type'', ''application/json; charset=utf-8'')"

definition json_reply :: "json \<Rightarrow> nat \<Rightarrow> headers \<Rightarrow> reply" where
  "json_reply b st hs = \<lparr>r_status = st, r_headers = json_content_type # hs, r_body = b\<rparr>"

definition err :: "string \<Rightarrow> nat \<Rightarrow> (string \<times> json) list \<Rightarrow> reply" where
  "err e st extra = json_reply (JObj ((''error'', JStr e) # extra)) st []"

abbreviation ok_json :: "(string \<times> json) list \<Rightarrow> reply" where
  "ok_json kvs \<equiv> json_reply (JObj kvs) 200 []"

section \<open>Values of unknown type\<close>

text \<open>\<^verbatim>\<open>v && typeof v === "object"\<close>; an array is an object with none of the properties asked for.\<close>

definition is_object :: "json \<Rightarrow> bool" where
  "is_object j = (case j of JObj _ \<Rightarrow> True | JArr _ \<Rightarrow> True | _ \<Rightarrow> False)"

definition object_of :: "json option \<Rightarrow> json option" where
  "object_of v = (case v of Some j \<Rightarrow> if is_object j then Some j else None | None \<Rightarrow> None)"

text \<open>A missing or empty string is falsy, and so are null, false, 0 and NaN among JSON values.\<close>

definition truthy :: "string option \<Rightarrow> bool" where
  "truthy v \<longleftrightarrow> v \<noteq> None \<and> v \<noteq> Some []"

definition json_truthy :: "json option \<Rightarrow> bool" where
  "json_truthy v =
     (case v of None \<Rightarrow> False | Some JNull \<Rightarrow> False | Some (JBool b) \<Rightarrow> b
      | Some (JNum n) \<Rightarrow> n \<noteq> Fin 0 \<and> n \<noteq> NaN | Some (JStr s) \<Rightarrow> s \<noteq> [] | _ \<Rightarrow> True)"

text \<open>
  \<^verbatim>\<open>String(v)\<close> of a value that came from JSON.  The decimal rendering of a number that is no integer
  below \<open>10\<^sup>21\<close> is the argument \<open>num\<close>.
\<close>

definition number_string :: "(jsnum \<Rightarrow> string) \<Rightarrow> jsnum \<Rightarrow> string" where
  "number_string num n =
     (case as_int n of Some i \<Rightarrow> if \<bar>i\<bar> < 10 ^ 21 then show_int i else num n | None \<Rightarrow> num n)"

fun js_string :: "(jsnum \<Rightarrow> string) \<Rightarrow> json \<Rightarrow> string" where
  "js_string num JNull = ''null''"
| "js_string num (JBool b) = (if b then ''true'' else ''false'')"
| "js_string num (JNum n) = number_string num n"
| "js_string num (JStr s) = s"
| "js_string num (JArr js) = join_with '','' (map (\<lambda>j. if j = JNull then [] else js_string num j) js)"
| "js_string num (JObj kvs) = ''[object Object]''"

text \<open>\<^verbatim>\<open>String(v ?? "")\<close>.\<close>

definition string_or_empty :: "(jsnum \<Rightarrow> string) \<Rightarrow> json option \<Rightarrow> string" where
  "string_or_empty num v = (case v of None \<Rightarrow> [] | Some JNull \<Rightarrow> [] | Some j \<Rightarrow> js_string num j)"

text \<open>\<^verbatim>\<open>typeof v === "string" ? v.trim() : ""\<close> and the same without the trim.\<close>

definition trimmed_string :: "json option \<Rightarrow> string" where
  "trimmed_string v = (case v of Some (JStr s) \<Rightarrow> js_trim s | _ \<Rightarrow> [])"

definition plain_string :: "json option \<Rightarrow> string" where
  "plain_string v = (case v of Some (JStr s) \<Rightarrow> s | _ \<Rightarrow> [])"

text \<open>\<^verbatim>\<open>env.X?.trim()\<close> as a condition: present and not blank.\<close>

definition trim_or_empty :: "string option \<Rightarrow> string" where
  "trim_or_empty v = (case v of None \<Rightarrow> [] | Some s \<Rightarrow> js_trim s)"

section \<open>Encodings\<close>

definition hex_digit :: "nat \<Rightarrow> char" where
  "hex_digit n = (if n < 10 then char_of (48 + n) else char_of (87 + n))"

definition hex_byte :: "8 word \<Rightarrow> string" where
  "hex_byte b = [hex_digit (unat b div 16), hex_digit (unat b mod 16)]"

definition hex_bytes :: "8 word list \<Rightarrow> string" where
  "hex_bytes bs = concat (map hex_byte bs)"

text \<open>\<^verbatim>\<open>TextEncoder\<close> on code units below 256.\<close>

definition utf8_char :: "char \<Rightarrow> 8 word list" where
  "utf8_char c =
     (let n = (of_char c :: nat) in
      if n < 128 then [of_nat n] else [of_nat (192 + n div 64), of_nat (128 + n mod 64)])"

definition utf8 :: "string \<Rightarrow> 8 word list" where
  "utf8 s = concat (map utf8_char s)"

definition b64_digit :: "nat \<Rightarrow> char" where
  "b64_digit n =
     (if n < 26 then char_of (65 + n) else if n < 52 then char_of (71 + n)
      else if n < 62 then char_of (n - 4) else if n = 62 then CHR ''+'' else CHR ''/'')"

fun b64_bytes :: "8 word list \<Rightarrow> string" where
  "b64_bytes [] = []"
| "b64_bytes [a] =
     [b64_digit (unat a div 4), b64_digit (unat a mod 4 * 16), CHR ''='', CHR ''='']"
| "b64_bytes [a, b] =
     [b64_digit (unat a div 4), b64_digit (unat a mod 4 * 16 + unat b div 16),
      b64_digit (unat b mod 16 * 4), CHR ''='']"
| "b64_bytes (a # b # c # bs) =
     [b64_digit (unat a div 4), b64_digit (unat a mod 4 * 16 + unat b div 16),
      b64_digit (unat b mod 16 * 4 + unat c div 64), b64_digit (unat c mod 64)] @ b64_bytes bs"

text \<open>\<^verbatim>\<open>btoa\<close> reads one byte per code unit.\<close>

definition btoa :: "string \<Rightarrow> string" where
  "btoa s = b64_bytes (map (\<lambda>c. of_nat (of_char c)) s)"

definition b64url :: "8 word list \<Rightarrow> string" where
  "b64url bs =
     rev (dropWhile (\<lambda>c. c = CHR ''='') (rev
       (map (\<lambda>c. if c = CHR ''+'' then CHR ''-'' else if c = CHR ''/'' then CHR ''_'' else c) (b64_bytes bs))))"

definition is_alnum :: "char \<Rightarrow> bool" where
  "is_alnum c \<longleftrightarrow> is_digit c \<or> is_lower_alpha c \<or> is_upper_alpha c"

definition uri_unreserved :: "char \<Rightarrow> bool" where
  "uri_unreserved c \<longleftrightarrow> is_alnum c \<or> c \<in> set ''-_.!~*()'' \<or> c = CHR 0x27"

definition upper_hex :: "8 word \<Rightarrow> string" where
  "upper_hex b = (let h = (\<lambda>n. if n < 10 then char_of (48 + n) else char_of (55 + n :: nat))
                  in [h (unat b div 16), h (unat b mod 16)])"

definition encodeURIComponent :: "string \<Rightarrow> string" where
  "encodeURIComponent s =
     concat (map (\<lambda>c. if uri_unreserved c then [c]
                      else concat (map (\<lambda>b. CHR ''%'' # upper_hex b) (utf8_char c))) s)"

text \<open>\<^verbatim>\<open>s.includes(p)\<close>.\<close>

fun str_includes :: "string \<Rightarrow> string \<Rightarrow> bool" where
  "str_includes [] p = (p = [])"
| "str_includes (c # s) p = (starts_with (c # s) p \<or> str_includes s p)"

text \<open>\<^verbatim>\<open>JSON.stringify\<close> of an object whose values are strings.\<close>

definition json_escape :: "char \<Rightarrow> string" where
  "json_escape c =
     (let n = (of_char c :: nat) in
      if n = 34 then [CHR 0x5C, c] else if n = 92 then [c, c]
      else if n = 8 then CHR 0x5C # ''b'' else if n = 9 then CHR 0x5C # ''t''
      else if n = 10 then CHR 0x5C # ''n'' else if n = 12 then CHR 0x5C # ''f''
      else if n = 13 then CHR 0x5C # ''r''
      else if n < 32 then CHR 0x5C # ''u00'' @ hex_byte (of_nat n) else [c])"

definition json_quote :: "string \<Rightarrow> string" where
  "json_quote s = [CHR 0x22] @ concat (map json_escape s) @ [CHR 0x22]"

definition stringify_strings :: "(string \<times> string) list \<Rightarrow> string" where
  "stringify_strings kvs =
     ''{'' @ join_with '','' (map (\<lambda>(k, v). json_quote k @ '':'' @ json_quote v) kvs) @ ''}''"

section \<open>Credential primitives\<close>

definition sha256Hex :: "(8 word list \<Rightarrow> 8 word list) \<Rightarrow> string \<Rightarrow> string" where
  "sha256Hex sha256 s = hex_bytes (sha256 (utf8 s))"

text \<open>The loop runs over the indices of the first digest; a missing byte of the second reads as 0.\<close>

definition constantTimeEqual :: "(8 word list \<Rightarrow> 8 word list) \<Rightarrow> string \<Rightarrow> string \<Rightarrow> bool" where
  "constantTimeEqual sha256 a b =
     (let ua = sha256 (utf8 a); ub = sha256 (utf8 b);
          ub_at = (\<lambda>i. if i < length ub then ub ! i else 0)
      in foldl (\<lambda>diff i. diff OR (ua ! i XOR ub_at i)) 0 [0..<length ua] = 0)"

definition randomToken :: "8 word list \<Rightarrow> string" where
  "randomToken buf = hex_bytes buf"

definition newId :: "string \<Rightarrow> 8 word list \<Rightarrow> string" where
  "newId prefix buf = prefix @ ''_'' @ hex_bytes buf"

text \<open>\<^verbatim>\<open>/^Bearer\s+(\S+)$/i\<close>.\<close>

definition bearerFrom :: "headers \<Rightarrow> string option" where
  "bearerFrom hs =
     (let h = (case header_get hs ''authorization'' of None \<Rightarrow> [] | Some s \<Rightarrow> s);
          rest = drop 6 h; tok = dropWhile is_ws rest
      in if to_lower (take 6 h) = ''bearer'' \<and> rest \<noteq> tok \<and> tok \<noteq> [] \<and> \<not> list_ex is_ws tok
         then Some tok else None)"

definition pkceChallenge :: "(8 word list \<Rightarrow> 8 word list) \<Rightarrow> string \<Rightarrow> string" where
  "pkceChallenge sha256 verifier = b64url (sha256 (utf8 verifier))"

section \<open>Lemmas\<close>

lemma js_trim_idem_dropWhile: "dropWhile p (dropWhile p s) = dropWhile p s"
  by (induction s) auto

lemma or_eq_0_iff: "(a OR b = 0) \<longleftrightarrow> a = 0 \<and> b = (0::8 word)"
  by (metis or.right_neutral word_bw_lcs(2) word_bw_same(2))

lemma xor_eq_0_iff: "(a XOR b = 0) \<longleftrightarrow> a = (b::8 word)"
  by (metis xor.right_neutral xor.assoc xor_self_eq)

lemma fold_diff_eq_0:
  "(foldl (\<lambda>diff i. diff OR (f i XOR g i)) d is = (0::8 word)) \<longleftrightarrow> d = 0 \<and> (\<forall>i \<in> set is. f i = g i)"
  by (induction "is" arbitrary: d) (auto simp: or_eq_0_iff xor_eq_0_iff)

lemma constantTimeEqual_iff_digest:
  assumes "length (sha256 (utf8 a)) = length (sha256 (utf8 b))"
  shows "constantTimeEqual sha256 a b \<longleftrightarrow> sha256 (utf8 a) = sha256 (utf8 b)"
proof -
  let ?ua = "sha256 (utf8 a)" and ?ub = "sha256 (utf8 b)"
  have "constantTimeEqual sha256 a b \<longleftrightarrow>
      (\<forall>i < length ?ua. ?ua ! i = (if i < length ?ub then ?ub ! i else 0))"
    unfolding constantTimeEqual_def Let_def fold_diff_eq_0 by auto
  also have "\<dots> \<longleftrightarrow> (\<forall>i < length ?ua. ?ua ! i = ?ub ! i)"
    unfolding assms by auto
  also have "\<dots> \<longleftrightarrow> ?ua = ?ub"
    using assms by (auto intro: nth_equalityI)
  finally show ?thesis .
qed

lemma hex_digit_lower: "n < 16 \<Longrightarrow> is_digit (hex_digit n) \<or> is_lower_alpha (hex_digit n)"
  by (auto simp: hex_digit_def is_digit_def is_lower_alpha_def)

lemma byte_div_16: "unat (b :: 8 word) div 16 < 16"
  using unsigned_less [of b, where ?'a = nat] by (simp add: less_mult_imp_div_less)

lemma set_hex_bytes:
  assumes "c \<in> set (hex_bytes bs)"
  shows "is_digit c \<or> is_lower_alpha c"
proof -
  from assms obtain b where "c = hex_digit (unat b div 16) \<or> c = hex_digit (unat (b :: 8 word) mod 16)"
    by (auto simp: hex_bytes_def hex_byte_def)
  then show ?thesis
    using hex_digit_lower [OF byte_div_16 [of b]] hex_digit_lower [of "unat b mod 16"] by auto
qed

lemma newId_no_colon:
  assumes "CHR '':'' \<notin> set p" shows "CHR '':'' \<notin> set (newId p buf)"
  using assms set_hex_bytes [of "CHR '':''" buf]
  by (auto simp: newId_def is_digit_def is_lower_alpha_def)

end
