(* ===== verification/Rail.thy ===== *)
theory Rail
  imports Credits Http "HOL-Library.Multiset"
begin

text \<open>
  Money from outside: the payment rail seam (\<^verbatim>\<open>src/src/payment-rail.ts\<close>), the PayPal rail
  (\<^verbatim>\<open>src/src/paypal-rail.ts\<close>), the two projections of a credit balance
  (\<^verbatim>\<open>src/src/credits-api.ts\<close>) and the four routes of \<^verbatim>\<open>src/src/index.ts\<close> that move or show credit:
  the PayPal webhook, the tenant's checkout, the operator's manual credit and the balance views.

  PayPal is a function from requests to responses, \<^verbatim>\<open>JSON.parse\<close> of the webhook body and the random
  identifiers are arguments.  The only effects are those on the credit store and on the cached OAuth
  token.
\<close>

section \<open>The rail seam\<close>

record topup_intent =
  checkout_url :: "string option"
  intent_ref :: string

record approved_order =
  order_ref :: string
  tenant_ref :: string

record settlement_event =
  se_tenant_id :: string
  se_amount_micro_usd :: int
  se_external_ref :: string
  se_note :: "string option"

datatype rail_event = Settlement settlement_event | Approved approved_order

datatype capture_outcome = Settled settlement_event | AlreadyCaptured

datatype rail_refusal = Unsupported | NotConfigured | InvalidAmount | Unverified

text \<open>What a rail throws: its own error with a code, or any other exception.\<close>

datatype rail_error = RailError rail_refusal string | OtherError string

fun refusal_code :: "rail_refusal \<Rightarrow> string" where
  "refusal_code Unsupported = ''unsupported''"
| "refusal_code NotConfigured = ''not_configured''"
| "refusal_code InvalidAmount = ''invalid_amount''"
| "refusal_code Unverified = ''unverified''"

definition MIN_TENANT_TOPUP_MICRO_USD :: int where
  "MIN_TENANT_TOPUP_MICRO_USD = 10000000"

definition DEFAULT_MANUAL_CREDIT_CEILING_MICRO_USD :: int where
  "DEFAULT_MANUAL_CREDIT_CEILING_MICRO_USD = 100000000"

text \<open>\<^verbatim>\<open>typeof v !== "number" || !Number.isSafeInteger(v)\<close>.\<close>

definition json_safe_int :: "json option \<Rightarrow> int option" where
  "json_safe_int v = (case v of Some (JNum x) \<Rightarrow> as_safe_int x | _ \<Rightarrow> None)"

definition validateCreditAmount :: "json option \<Rightarrow> int \<Rightarrow> string + int" where
  "validateCreditAmount amount ceil =
     (case json_safe_int amount of
        None \<Rightarrow> Inl ''amount_micro_usd must be a whole number of micro-USD (1e-6 USD)''
      | Some n \<Rightarrow>
          if n \<le> 0 then Inl ''amount_micro_usd must be greater than zero''
          else if n > ceil then
            Inl (''amount_micro_usd '' @ show_int n @ '' exceeds the single-credit ceiling of ''
                 @ show_int ceil @ ''; ''
                 @ ''raise MANUAL_CREDIT_CEILING_MICRO_USD to do this deliberately'')
          else Inr n)"

definition manual_createTopUp :: "rail_error + topup_intent" where
  "manual_createTopUp = Inl (RailError Unsupported
     ''the manual rail has no checkout surface; an operator credits the tenant directly'')"

definition manual_parseSettlement :: "rail_error + rail_event option" where
  "manual_parseSettlement = Inl (RailError Unsupported
     ''the manual rail has no webhook; there is nothing to verify'')"

definition manual_captureApprovedOrder :: "rail_error + capture_outcome" where
  "manual_captureApprovedOrder = Inl (RailError Unsupported
     ''the manual rail has no order to collect; an operator credit is settled the moment it is written'')"

definition settlement_insert :: "string \<Rightarrow> settlement_event \<Rightarrow> string \<Rightarrow> string \<Rightarrow> ledger_insert" where
  "settlement_insert railId e rowId now =
     \<lparr>i_id = rowId, i_tenantId = se_tenant_id e, i_kind = Purchase,
      i_deltaMicroUsd = se_amount_micro_usd e, i_costMicroUsd = None,
      i_idemRef = railId @ '':'' @ se_external_ref e, i_priceListId = None,
      i_externalRef = Some (se_external_ref e), i_note = se_note e, i_now = now\<rparr>"

definition applySettlement ::
  "credit_db \<Rightarrow> string \<Rightarrow> settlement_event \<Rightarrow> string \<Rightarrow> string \<Rightarrow> db_error + (bool \<times> credit_db)" where
  "applySettlement db railId e rowId now =
     (case appendLedgerRow db (settlement_insert railId e rowId now) of
        Inl x \<Rightarrow> Inl x
      | Inr ((ok, _), db') \<Rightarrow> Inr (ok, db'))"

section \<open>PayPal amounts\<close>

definition MICRO_PER_CENT :: int where
  "MICRO_PER_CENT = 10000"

definition microUsdToPayPalValue :: "jsnum \<Rightarrow> rail_error + string" where
  "microUsdToPayPalValue micro =
     (case as_safe_int micro of
        Some m \<Rightarrow>
          if m \<le> 0 \<or> m mod MICRO_PER_CENT \<noteq> 0 then
            Inl (RailError InvalidAmount
              ''amount_micro_usd must be a positive whole number of cents (1e-2 USD) in micro-USD'')
          else Inr (show_int (m div MICRO_PER_USD) @ ''.''
                    @ pad_start 2 (CHR ''0'') (show_int (m mod MICRO_PER_USD div MICRO_PER_CENT)))
      | None \<Rightarrow> Inl (RailError InvalidAmount
              ''amount_micro_usd must be a positive whole number of cents (1e-2 USD) in micro-USD''))"

text \<open>
  \<^verbatim>\<open>/^([0-9]+)\.([0-9]{2})$/\<close>.  A dollar part too long to be exact makes the product far larger than
  a safe integer, so the exact product and the rounded one are refused together.
\<close>

definition paypalValueToMicroUsd :: "string \<Rightarrow> int option" where
  "paypalValueToMicroUsd v =
     (let k = length v - 3; d = take k v; c = drop (k + 1) v in
      if 4 \<le> length v \<and> list_all is_digit d \<and> v ! k = CHR ''.'' \<and> list_all is_digit c
      then let micro = int (read_nat d) * MICRO_PER_USD + int (read_nat c) * MICRO_PER_CENT
           in if micro \<le> max_safe_integer then Some micro else None
      else None)"

section \<open>The PayPal rail\<close>

record paypal_env =
  PAYPAL_CLIENT_ID :: "string option"
  PAYPAL_CLIENT_SECRET :: "string option"
  PAYPAL_WEBHOOK_ID :: "string option"
  PAYPAL_ENV :: "string option"

record paypal_rail =
  clientId :: string
  clientSecret :: string
  webhookId :: string
  base :: string
  returnUrl :: string
  cancelUrl :: string

record cached_token =
  ct_token :: string
  ct_expiresAtMs :: jsnum
  ct_clientId :: string

definition paypalApiBase :: "string option \<Rightarrow> string" where
  "paypalApiBase paypalEnv =
     (if trim_or_empty paypalEnv = ''live'' then ''https://api-m.paypal.com''
      else ''https://api-m.sandbox.paypal.com'')"

definition paypalCredentialsPresent :: "paypal_env \<Rightarrow> bool" where
  "paypalCredentialsPresent env \<longleftrightarrow>
     trim_or_empty (PAYPAL_CLIENT_ID env) \<noteq> [] \<and> trim_or_empty (PAYPAL_CLIENT_SECRET env) \<noteq> []"

definition paypalDoorConfigured :: "paypal_env \<Rightarrow> bool" where
  "paypalDoorConfigured env \<longleftrightarrow>
     paypalCredentialsPresent env \<and> trim_or_empty (PAYPAL_WEBHOOK_ID env) \<noteq> []"

definition paypalRailFromEnv :: "paypal_env \<Rightarrow> string \<Rightarrow> paypal_rail option" where
  "paypalRailFromEnv env origin =
     (if \<not> paypalCredentialsPresent env then None
      else Some \<lparr>clientId = trim_or_empty (PAYPAL_CLIENT_ID env),
                 clientSecret = trim_or_empty (PAYPAL_CLIENT_SECRET env),
                 webhookId = trim_or_empty (PAYPAL_WEBHOOK_ID env),
                 base = paypalApiBase (PAYPAL_ENV env),
                 returnUrl = js_trim (origin @ ''/?topup=done''),
                 cancelUrl = js_trim (origin @ ''/?topup=cancelled'')\<rparr>)"

text \<open>\<^verbatim>\<open>expiresAtMs > now + 30_000\<close> and \<^verbatim>\<open>now + expiresInSec * 1000\<close>, with exact arithmetic.\<close>

fun later_than :: "jsnum \<Rightarrow> int \<Rightarrow> bool" where
  "later_than (Fin r) t = (r > of_int t)"
| "later_than PosInf t = True"
| "later_than _ t = False"

definition expires_in :: "json \<Rightarrow> jsnum" where
  "expires_in b =
     (case jget b ''expires_in'' of
        Some (JNum (Fin r)) \<Rightarrow> if r > 0 then Fin r else Fin 300
      | Some (JNum PosInf) \<Rightarrow> PosInf
      | _ \<Rightarrow> Fin 300)"

fun expiry_ms :: "int \<Rightarrow> jsnum \<Rightarrow> jsnum" where
  "expiry_ms now (Fin r) = Fin (of_int now + r * 1000)"
| "expiry_ms now x = x"

definition token_request :: "paypal_rail \<Rightarrow> string \<Rightarrow> http_request" where
  "token_request rail reqId =
     \<lparr>q_method = ''POST'', q_url = base rail @ ''/v1/oauth2/token'',
      q_headers = [(''authorization'', ''Basic '' @ btoa (clientId rail @ '':'' @ clientSecret rail)),
                   (''content-type'', ''application/x-www-form-urlencoded''),
                   (''paypal-request-id'', reqId)],
      q_body = TextBody ''grant_type=client_credentials''\<rparr>"

type_synonym paypal_api = "http_request \<Rightarrow> http_response"

text \<open>A request without a usable cached token; a body of \<^verbatim>\<open>null\<close> throws when its property is read.\<close>

definition fetch_token ::
  "paypal_api \<Rightarrow> paypal_rail \<Rightarrow> string \<Rightarrow> int \<Rightarrow> rail_error + (string \<times> cached_token option)" where
  "fetch_token api rail reqId now =
     (let res = api (token_request rail reqId) in
      if \<not> res_ok res then Inl (OtherError (''paypal_oauth_failed:'' @ show_nat (s_status res)))
      else case s_json res of
        None \<Rightarrow> Inl (OtherError ''SyntaxError'')
      | Some JNull \<Rightarrow> Inl (OtherError ''TypeError'')
      | Some b \<Rightarrow>
          (let tok = plain_string (jget b ''access_token'') in
           if tok = [] then Inl (OtherError ''paypal_oauth_missing_token'')
           else Inr (tok, Some \<lparr>ct_token = tok, ct_expiresAtMs = expiry_ms now (expires_in b),
                                ct_clientId = clientId rail\<rparr>)))"

definition accessToken ::
  "paypal_api \<Rightarrow> paypal_rail \<Rightarrow> string \<Rightarrow> int \<Rightarrow> cached_token option
     \<Rightarrow> rail_error + (string \<times> cached_token option)" where
  "accessToken api rail reqId now cached =
     (case cached of
        Some c \<Rightarrow>
          if ct_clientId c = clientId rail \<and> later_than (ct_expiresAtMs c) (now + 30000)
          then Inr (ct_token c, cached) else fetch_token api rail reqId now
      | None \<Rightarrow> fetch_token api rail reqId now)"

section \<open>Checkout\<close>

definition order_body :: "paypal_rail \<Rightarrow> string \<Rightarrow> string \<Rightarrow> json" where
  "order_body rail tenantId v =
     JObj ([(''intent'', JStr ''CAPTURE''),
            (''purchase_units'', JArr [JObj [
               (''amount'', JObj [(''currency_code'', JStr ''USD''), (''value'', JStr v)]),
               (''custom_id'', JStr tenantId)]])]
       @ (if returnUrl rail \<noteq> [] \<and> cancelUrl rail \<noteq> []
          then [(''application_context'', JObj [
                  (''return_url'', JStr (returnUrl rail)), (''cancel_url'', JStr (cancelUrl rail)),
                  (''user_action'', JStr ''PAY_NOW''), (''shipping_preference'', JStr ''NO_SHIPPING'')])]
          else []))"

definition order_request :: "paypal_rail \<Rightarrow> string \<Rightarrow> string \<Rightarrow> string \<Rightarrow> string \<Rightarrow> http_request" where
  "order_request rail token reqId tenantId v =
     \<lparr>q_method = ''POST'', q_url = base rail @ ''/v2/checkout/orders'',
      q_headers = [(''authorization'', ''Bearer '' @ token), (''content-type'', ''application/json''),
                   (''paypal-request-id'', reqId)],
      q_body = JsonBody (order_body rail tenantId v)\<rparr>"

text \<open>\<^verbatim>\<open>links.find(...)\<close> stops at the first approve link; reading a property of \<^verbatim>\<open>null\<close> throws.\<close>

fun find_approve :: "json list \<Rightarrow> rail_error + string option" where
  "find_approve [] = Inr None"
| "find_approve (JNull # ls) = Inl (OtherError ''TypeError'')"
| "find_approve (l # ls) =
     (case (jget l ''rel'', jget l ''href'') of
        (Some (JStr rel), Some (JStr href)) \<Rightarrow>
          if rel = ''approve'' then Inr (Some href) else find_approve ls
      | _ \<Rightarrow> find_approve ls)"

definition read_order :: "json \<Rightarrow> rail_error + topup_intent" where
  "read_order b =
     (if b = JNull then Inl (OtherError ''TypeError'')
      else let orderId = plain_string (jget b ''id'');
               approve = (case jget b ''links'' of
                   None \<Rightarrow> Inr None | Some JNull \<Rightarrow> Inr None
                 | Some (JArr ls) \<Rightarrow> find_approve ls
                 | Some _ \<Rightarrow> Inl (OtherError ''TypeError''))
           in case approve of
                Inl e \<Rightarrow> Inl e
              | Inr None \<Rightarrow> Inl (OtherError ''paypal_order_missing_approve_link'')
              | Inr (Some href) \<Rightarrow>
                  if orderId = [] then Inl (OtherError ''paypal_order_missing_approve_link'')
                  else Inr \<lparr>checkout_url = Some href, intent_ref = orderId\<rparr>)"

definition createTopUp ::
  "paypal_api \<Rightarrow> paypal_rail \<Rightarrow> string \<Rightarrow> string \<Rightarrow> int \<Rightarrow> cached_token option \<Rightarrow> string \<Rightarrow> jsnum
     \<Rightarrow> (rail_error + topup_intent) \<times> cached_token option" where
  "createTopUp api rail reqId1 reqId2 now cached tenantId amount =
     (if clientId rail = [] \<or> clientSecret rail = [] then
        (Inl (RailError NotConfigured ''PayPal client id and secret are not set''), cached)
      else case as_safe_int amount of
        None \<Rightarrow> (Inl (RailError InvalidAmount (''amount_micro_usd must be at least ''
                  @ show_int MIN_TENANT_TOPUP_MICRO_USD @ '' (USD 10)'')), cached)
      | Some m \<Rightarrow>
          if m < MIN_TENANT_TOPUP_MICRO_USD then
            (Inl (RailError InvalidAmount (''amount_micro_usd must be at least ''
                  @ show_int MIN_TENANT_TOPUP_MICRO_USD @ '' (USD 10)'')), cached)
          else case microUsdToPayPalValue amount of
            Inl e \<Rightarrow> (Inl e, cached)
          | Inr v \<Rightarrow>
              (case accessToken api rail reqId1 now cached of
                 Inl e \<Rightarrow> (Inl e, cached)
               | Inr (token, cached') \<Rightarrow>
                   let res = api (order_request rail token reqId2 tenantId v) in
                   if \<not> res_ok res
                   then (Inl (OtherError (''paypal_order_create_failed:'' @ show_nat (s_status res))), cached')
                   else case s_json res of
                     None \<Rightarrow> (Inl (OtherError ''SyntaxError''), cached')
                   | Some b \<Rightarrow> (read_order b, cached')))"

section \<open>Webhook events\<close>

definition amount_of :: "json \<Rightarrow> int option" where
  "amount_of cap =
     (case object_of (jget cap ''amount'') of
        None \<Rightarrow> None
      | Some a \<Rightarrow>
          (case jget a ''value'' of
             Some (JStr v) \<Rightarrow>
               if jget a ''currency_code'' = Some (JStr ''USD'') then
                 (case paypalValueToMicroUsd v of
                    None \<Rightarrow> None
                  | Some m \<Rightarrow> if m \<le> 0 then None else Some m)
               else None
           | _ \<Rightarrow> None))"

definition orderIdFromCapture :: "json \<Rightarrow> string" where
  "orderIdFromCapture cap =
     (case object_of (jget cap ''supplementary_data'') of
        None \<Rightarrow> []
      | Some supp \<Rightarrow>
          (case object_of (jget supp ''related_ids'') of
             None \<Rightarrow> [] | Some rel \<Rightarrow> plain_string (jget rel ''order_id'')))"

definition settlementFromVerifiedEvent :: "json \<Rightarrow> settlement_event option" where
  "settlementFromVerifiedEvent ev =
     (if \<not> is_object ev \<or> jget ev ''event_type'' \<noteq> Some (JStr ''PAYMENT.CAPTURE.COMPLETED'') then None
      else case object_of (jget ev ''resource'') of
        None \<Rightarrow> None
      | Some cap \<Rightarrow>
          let tenantId = trimmed_string (jget cap ''custom_id'') in
          if tenantId = [] then None
          else case amount_of cap of
            None \<Rightarrow> None
          | Some amount \<Rightarrow>
              let captureId = plain_string (jget cap ''id'');
                  ext = (if captureId \<noteq> [] then captureId else orderIdFromCapture cap)
              in if ext = [] then None
                 else Some \<lparr>se_tenant_id = tenantId, se_amount_micro_usd = amount,
                            se_external_ref = ext, se_note = Some ''paypal PAYMENT.CAPTURE.COMPLETED''\<rparr>)"

fun first_custom_id :: "json list \<Rightarrow> string" where
  "first_custom_id [] = []"
| "first_custom_id (u # us) =
     (let t = (if is_object u then trimmed_string (jget u ''custom_id'') else [])
      in if t \<noteq> [] then t else first_custom_id us)"

definition approvedFromOrderResource :: "json option \<Rightarrow> approved_order option" where
  "approvedFromOrderResource resource =
     (case object_of resource of
        None \<Rightarrow> None
      | Some order \<Rightarrow>
          let orderRef = trimmed_string (jget order ''id'') in
          if orderRef = [] then None
          else case jget order ''purchase_units'' of
            Some (JArr units) \<Rightarrow>
              (let t = first_custom_id units in
               if t = [] then None else Some \<lparr>order_ref = orderRef, tenant_ref = t\<rparr>)
          | _ \<Rightarrow> None)"

definition railEventFromVerifiedEvent :: "json \<Rightarrow> rail_event option" where
  "railEventFromVerifiedEvent ev =
     (if \<not> is_object ev then None
      else if jget ev ''event_type'' = Some (JStr ''CHECKOUT.ORDER.APPROVED'')
        then map_option Approved (approvedFromOrderResource (jget ev ''resource''))
      else map_option Settlement (settlementFromVerifiedEvent ev))"

definition transmission_headers :: "(string \<times> string) list" where
  "transmission_headers =
     [(''auth_algo'', ''paypal-auth-algo''), (''cert_url'', ''paypal-cert-url''),
      (''transmission_id'', ''paypal-transmission-id''), (''transmission_sig'', ''paypal-transmission-sig''),
      (''transmission_time'', ''paypal-transmission-time'')]"

definition transmission :: "headers \<Rightarrow> (string \<times> string) list" where
  "transmission hs =
     map (\<lambda>(k, h). (k, case header_get hs h of None \<Rightarrow> [] | Some v \<Rightarrow> v)) transmission_headers"

definition verify_request :: "paypal_rail \<Rightarrow> string \<Rightarrow> string \<Rightarrow> headers \<Rightarrow> json \<Rightarrow> http_request" where
  "verify_request rail token reqId hs ev =
     \<lparr>q_method = ''POST'', q_url = base rail @ ''/v1/notifications/verify-webhook-signature'',
      q_headers = [(''authorization'', ''Bearer '' @ token), (''content-type'', ''application/json''),
                   (''paypal-request-id'', reqId)],
      q_body = JsonBody (JObj (map (\<lambda>(k, v). (k, JStr v)) (transmission hs)
                 @ [(''webhook_id'', JStr (webhookId rail)), (''webhook_event'', ev)]))\<rparr>"

text \<open>The body arrives as what \<^verbatim>\<open>JSON.parse\<close> makes of it, \<^const>\<open>None\<close> when it throws.\<close>

definition parseSettlement ::
  "paypal_api \<Rightarrow> paypal_rail \<Rightarrow> string \<Rightarrow> string \<Rightarrow> int \<Rightarrow> cached_token option \<Rightarrow> headers \<Rightarrow> json option
     \<Rightarrow> (rail_error + rail_event option) \<times> cached_token option" where
  "parseSettlement api rail reqId1 reqId2 now cached hs parsed =
     (if clientId rail = [] \<or> clientSecret rail = [] \<or> webhookId rail = [] then
        (Inl (RailError NotConfigured ''PayPal webhook verification is not configured''), cached)
      else if list_ex (\<lambda>(k, v). v = []) (transmission hs) then
        (Inl (RailError Unverified ''missing PayPal transmission headers''), cached)
      else case parsed of
        None \<Rightarrow> (Inl (RailError Unverified ''webhook body is not JSON''), cached)
      | Some ev \<Rightarrow>
          (case accessToken api rail reqId1 now cached of
             Inl e \<Rightarrow> (Inl e, cached)
           | Inr (token, cached') \<Rightarrow>
               let res = api (verify_request rail token reqId2 hs ev) in
               if \<not> res_ok res then
                 (Inl (RailError Unverified (''paypal verify returned '' @ show_nat (s_status res))), cached')
               else case s_json res of
                 None \<Rightarrow> (Inl (OtherError ''SyntaxError''), cached')
               | Some JNull \<Rightarrow> (Inl (OtherError ''TypeError''), cached')
               | Some v \<Rightarrow>
                   if jget v ''verification_status'' \<noteq> Some (JStr ''SUCCESS'') then
                     (Inl (RailError Unverified ''paypal webhook signature was not SUCCESS''), cached')
                   else (Inr (railEventFromVerifiedEvent ev), cached')))"

section \<open>Collecting an approved order\<close>

fun first_completed :: "json list \<Rightarrow> json option" where
  "first_completed [] = None"
| "first_completed (c # cs) =
     (if is_object c \<and> jget c ''status'' = Some (JStr ''COMPLETED'') then Some c else first_completed cs)"

definition unit_captures :: "json \<Rightarrow> json list" where
  "unit_captures u =
     (if \<not> is_object u then []
      else case object_of (jget u ''payments'') of
        None \<Rightarrow> []
      | Some p \<Rightarrow> (case jget p ''captures'' of Some (JArr cs) \<Rightarrow> cs | _ \<Rightarrow> []))"

definition completedCaptureFrom :: "json \<Rightarrow> json option" where
  "completedCaptureFrom b =
     (if \<not> is_object b then None
      else case jget b ''purchase_units'' of
        Some (JArr units) \<Rightarrow> first_completed (concat (map unit_captures units))
      | _ \<Rightarrow> None)"

definition capture_request :: "paypal_rail \<Rightarrow> string \<Rightarrow> string \<Rightarrow> http_request" where
  "capture_request rail token orderRef =
     \<lparr>q_method = ''POST'',
      q_url = base rail @ ''/v2/checkout/orders/'' @ encodeURIComponent orderRef @ ''/capture'',
      q_headers = [(''authorization'', ''Bearer '' @ token), (''content-type'', ''application/json''),
                   (''paypal-request-id'', ''capture-'' @ orderRef)],
      q_body = TextBody ''{}''\<rparr>"

definition read_capture :: "approved_order \<Rightarrow> json \<Rightarrow> rail_error + capture_outcome" where
  "read_capture order b =
     (case completedCaptureFrom b of
        None \<Rightarrow> Inl (OtherError ''paypal_capture_missing_capture'')
      | Some cap \<Rightarrow>
          let capTenant = trimmed_string (jget cap ''custom_id'') in
          if capTenant \<noteq> [] \<and> capTenant \<noteq> tenant_ref order then
            Inl (OtherError (''paypal_capture_tenant_mismatch:order='' @ tenant_ref order
                             @ '':capture='' @ capTenant))
          else case amount_of cap of
            None \<Rightarrow> Inl (OtherError ''paypal_capture_bad_amount'')
          | Some amount \<Rightarrow>
              let captureId = trimmed_string (jget cap ''id'') in
              if captureId = [] then Inl (OtherError ''paypal_capture_missing_capture'')
              else Inr (Settled \<lparr>se_tenant_id = tenant_ref order, se_amount_micro_usd = amount,
                                 se_external_ref = captureId,
                                 se_note = Some (''paypal capture of order '' @ order_ref order)\<rparr>))"

definition captureApprovedOrder ::
  "paypal_api \<Rightarrow> paypal_rail \<Rightarrow> string \<Rightarrow> int \<Rightarrow> cached_token option \<Rightarrow> approved_order
     \<Rightarrow> (rail_error + capture_outcome) \<times> cached_token option" where
  "captureApprovedOrder api rail reqId now cached order =
     (if clientId rail = [] \<or> clientSecret rail = [] then
        (Inl (RailError NotConfigured ''PayPal client id and secret are not set''), cached)
      else case accessToken api rail reqId now cached of
        Inl e \<Rightarrow> (Inl e, cached)
      | Inr (token, cached') \<Rightarrow>
          let res = api (capture_request rail token (order_ref order)) in
          if \<not> res_ok res then
            (if s_status res = 422 \<and> str_includes (s_text res) ''ORDER_ALREADY_CAPTURED''
             then Inr AlreadyCaptured
             else Inl (OtherError (''paypal_order_capture_failed:'' @ show_nat (s_status res))), cached')
          else (case s_json res of
                  None \<Rightarrow> Inl (OtherError ''SyntaxError'') | Some b \<Rightarrow> read_capture order b, cached'))"

section \<open>Balance views\<close>

datatype activity_kind = APurchase | ACharge | ANoChargeFailed | AReserved | ARefund | AAdjustment

record activity_line =
  a_id :: string
  a_kind :: activity_kind
  a_delta_micro_usd :: int
  a_job_ref :: "string option"
  a_occurred_at :: string
  a_no_charge_reason :: "string option"

record credit_view =
  v_credits_apply :: bool
  v_topup_available :: bool
  v_settled_micro_usd :: int
  v_held_micro_usd :: int
  v_available_micro_usd :: int
  v_complete :: bool
  v_enforcing :: bool
  v_enforcement_configured :: bool
  v_enforcement_reason :: "string option"
  v_activity :: "activity_line list"
  v_activity_truncated :: bool

record admin_credit_view = credit_view +
  v_cost_known_micro_usd :: int
  v_charges_missing_cost :: nat
  v_price_to_cost :: "rat option"

definition creditsApplyToTenant :: "string \<Rightarrow> bool" where
  "creditsApplyToTenant tenantId = False"

definition topUpAvailable :: "paypal_env \<Rightarrow> bool" where
  "topUpAvailable env \<longleftrightarrow>
     trim_or_empty (PAYPAL_CLIENT_ID env) \<noteq> [] \<and> trim_or_empty (PAYPAL_CLIENT_SECRET env) \<noteq> []
     \<and> trim_or_empty (PAYPAL_WEBHOOK_ID env) \<noteq> []"

fun activity_kind_of :: "ledger_kind \<Rightarrow> activity_kind" where
  "activity_kind_of Debit = ACharge"
| "activity_kind_of Purchase = APurchase"
| "activity_kind_of Refund = ARefund"
| "activity_kind_of Adjustment = AAdjustment"

definition ledger_line :: "ledger_row \<Rightarrow> activity_line" where
  "ledger_line r =
     \<lparr>a_id = l_id r, a_kind = activity_kind_of (l_kind r), a_delta_micro_usd = l_delta_micro_usd r,
      a_job_ref = None, a_occurred_at = l_created_at r, a_no_charge_reason = None\<rparr>"

definition hold_line :: "hold_row \<Rightarrow> activity_line option" where
  "hold_line h =
     (if h_status h = HCaptured then None
      else if h_status h = HOpen then
        Some \<lparr>a_id = h_id h, a_kind = AReserved, a_delta_micro_usd = 0, a_job_ref = Some (h_job_ref h),
              a_occurred_at = h_created_at h, a_no_charge_reason = None\<rparr>
      else
        Some \<lparr>a_id = h_id h, a_kind = ANoChargeFailed, a_delta_micro_usd = 0, a_job_ref = Some (h_job_ref h),
              a_occurred_at = (case h_settled_at h of None \<Rightarrow> h_created_at h | Some t \<Rightarrow> t),
              a_no_charge_reason = Some (if h_status h = HExpired
                then ''this job never reported back, so the reservation was returned and you were not charged''
                else ''this job did not complete, so you were not charged for it'')\<rparr>)"

text \<open>
  The comparator puts later times first and, at one time, larger ids first; ids are unique (ledger
  rows and holds have different prefixes), so the order it describes is total and any sort gives it.
\<close>

definition newest_first :: "activity_line list \<Rightarrow> activity_line list" where
  "newest_first ls = rev (sort_key (\<lambda>l. (a_occurred_at l, a_id l)) ls)"

definition buildTenantCreditView ::
  "balance \<Rightarrow> ledger_row list \<Rightarrow> hold_row list \<Rightarrow> enforcement_state \<Rightarrow> bool \<Rightarrow> bool \<Rightarrow> bool \<Rightarrow> credit_view"
where
  "buildTenantCreditView b rows hs enf truncated applies topup =
     \<lparr>v_credits_apply = applies, v_topup_available = topup,
      v_settled_micro_usd = settled_micro_usd b, v_held_micro_usd = held_micro_usd b,
      v_available_micro_usd = available_micro_usd b, v_complete = complete b,
      v_enforcing = applied enf, v_enforcement_configured = configured enf,
      v_enforcement_reason = ereason enf,
      v_activity = newest_first (map ledger_line rows @ List.map_filter hold_line hs),
      v_activity_truncated = truncated\<rparr>"

text \<open>One pass over the rows: known cost, price of the rows whose cost is known, rows without a cost.\<close>

fun cost_pass :: "int \<times> int \<times> nat \<Rightarrow> ledger_row \<Rightarrow> int \<times> int \<times> nat" where
  "cost_pass (costKnown, price, missing) r =
     (if l_kind r \<noteq> Debit then (costKnown, price, missing)
      else case l_cost_micro_usd r of
        None \<Rightarrow> (costKnown, price, missing + 1)
      | Some c \<Rightarrow> (costKnown + c, price + \<bar>l_delta_micro_usd r\<bar>, missing))"

definition buildAdminCreditView ::
  "balance \<Rightarrow> ledger_row list \<Rightarrow> hold_row list \<Rightarrow> enforcement_state \<Rightarrow> bool \<Rightarrow> bool \<Rightarrow> bool
     \<Rightarrow> admin_credit_view" where
  "buildAdminCreditView b rows hs enf truncated applies topup =
     (case foldl cost_pass (0, 0, 0) rows of (costKnown, price, missing) \<Rightarrow>
      credit_view.extend (buildTenantCreditView b rows hs enf truncated applies topup)
        \<lparr>v_cost_known_micro_usd = costKnown, v_charges_missing_cost = missing,
         v_price_to_cost = (if costKnown > 0 then Some (of_int price / of_int costKnown) else None)\<rparr>)"

definition CREDIT_ACTIVITY_LIMIT :: nat where
  "CREDIT_ACTIVITY_LIMIT = 50"

record credit_activity =
  ca_balance :: balance
  ca_ledger :: "ledger_row list"
  ca_holds :: "hold_row list"
  ca_truncated :: bool

definition readCreditActivity :: "credit_db \<Rightarrow> string \<Rightarrow> credit_activity" where
  "readCreditActivity db t =
     (let totals = readBalanceSums db t;
          rows = listLedger db t CREDIT_ACTIVITY_LIMIT;
          hs = listHolds db t CREDIT_ACTIVITY_LIMIT
      in \<lparr>ca_balance = balanceFromSums (fst totals) (snd totals) True, ca_ledger = rows, ca_holds = hs,
          ca_truncated = (CREDIT_ACTIVITY_LIMIT \<le> length rows \<or> CREDIT_ACTIVITY_LIMIT \<le> length hs)\<rparr>)"

section \<open>Routes\<close>

definition tenant_credits_route :: "credit_db \<Rightarrow> paypal_env \<Rightarrow> string option \<Rightarrow> string \<Rightarrow> credit_view" where
  "tenant_credits_route db env enforcing t =
     (let r = readCreditActivity db t in
      buildTenantCreditView (ca_balance r) (ca_ledger r) (ca_holds r) (creditsEnforcementState enforcing)
        (ca_truncated r) (creditsApplyToTenant t) (topUpAvailable env))"

definition admin_credits_route ::
  "credit_db \<Rightarrow> paypal_env \<Rightarrow> string option \<Rightarrow> string \<Rightarrow> admin_credit_view" where
  "admin_credits_route db env enforcing t =
     (let r = readCreditActivity db t in
      buildAdminCreditView (ca_balance r) (ca_ledger r) (ca_holds r) (creditsEnforcementState enforcing)
        (ca_truncated r) (creditsApplyToTenant t) (topUpAvailable env))"

text \<open>
  The request of a webhook delivery, and the identifiers drawn while it is handled: two request ids
  of the rail, one for the capture's token, and the ledger row's id.
\<close>

record webhook_call =
  w_headers :: headers
  w_parsed :: "json option"
  w_reqId1 :: string
  w_reqId2 :: string
  w_reqId3 :: string
  w_rowId :: string
  w_nowMs :: int
  w_now :: string

definition settle_reply ::
  "credit_db \<Rightarrow> settlement_event \<Rightarrow> webhook_call \<Rightarrow> reply \<times> credit_db" where
  "settle_reply db e w =
     (case applySettlement db ''paypal'' e (w_rowId w) (w_now w) of
        Inl _ \<Rightarrow> (err ''credit_failed'' 503 [], db)
      | Inr (ok, db') \<Rightarrow> (ok_json [(''applied'', JBool ok)], db'))"

definition paypalWebhook ::
  "paypal_api \<Rightarrow> paypal_env \<Rightarrow> string \<Rightarrow> webhook_call \<Rightarrow> cached_token option \<Rightarrow> credit_db option
     \<Rightarrow> reply \<times> credit_db option \<times> cached_token option" where
  "paypalWebhook api env origin w cached credits =
     (case paypalRailFromEnv env origin of
        None \<Rightarrow> (err ''not_configured'' 503 [], credits, cached)
      | Some rail \<Rightarrow>
          (case credits of
             None \<Rightarrow> (err ''credits_unconfigured'' 503 [], credits, cached)
           | Some db \<Rightarrow>
               (case parseSettlement api rail (w_reqId1 w) (w_reqId2 w) (w_nowMs w) cached (w_headers w) (w_parsed w) of
                  (Inl (RailError Unverified _), c) \<Rightarrow> (err ''unverified'' 400 [], credits, c)
                | (Inl (RailError NotConfigured _), c) \<Rightarrow> (err ''not_configured'' 503 [], credits, c)
                | (Inl _, c) \<Rightarrow> (err ''webhook_failed'' 503 [], credits, c)
                | (Inr None, c) \<Rightarrow> (ok_json [(''applied'', JBool False)], credits, c)
                | (Inr (Some (Settlement e)), c) \<Rightarrow>
                    (case settle_reply db e w of (r, db') \<Rightarrow> (r, Some db', c))
                | (Inr (Some (Approved order)), c) \<Rightarrow>
                    (case captureApprovedOrder api rail (w_reqId3 w) (w_nowMs w) c order of
                       (Inl _, c') \<Rightarrow> (err ''capture_failed'' 503 [], credits, c')
                     | (Inr AlreadyCaptured, c') \<Rightarrow> (ok_json [(''applied'', JBool False)], credits, c')
                     | (Inr (Settled e), c') \<Rightarrow>
                         (case settle_reply db e w of (r, db') \<Rightarrow> (r, Some db', c'))))))"

text \<open>The owner's checkout route, after the tenant was looked up: its id and its owner.\<close>

definition topup_route ::
  "paypal_api \<Rightarrow> paypal_env \<Rightarrow> string \<Rightarrow> bool \<Rightarrow> string \<Rightarrow> (string \<times> string) option \<Rightarrow> json option
     \<Rightarrow> string \<Rightarrow> string \<Rightarrow> int \<Rightarrow> cached_token option \<Rightarrow> reply \<times> cached_token option" where
  "topup_route api env origin creditsPresent accountId tenant b reqId1 reqId2 now cached =
     (case tenant of
        None \<Rightarrow> (err ''not_found'' 404 [], cached)
      | Some (tid, owner) \<Rightarrow>
          if owner \<noteq> accountId then (err ''not_found'' 404 [], cached)
          else if \<not> creditsPresent then (err ''credits_unconfigured'' 503 [], cached)
          else case paypalRailFromEnv env origin of
            None \<Rightarrow> (err ''not_configured'' 503 [], cached)
          | Some rail \<Rightarrow>
              let raw = (case b of None \<Rightarrow> None | Some j \<Rightarrow> jget j ''amount_micro_usd'');
                  refused = err ''invalid_amount'' 400 [(''message'', JStr (
                    ''amount_micro_usd must be a whole number of micro-USD of at least ''
                    @ show_int MIN_TENANT_TOPUP_MICRO_USD @ '' (USD 10)''))]
              in case json_safe_int raw of
                   None \<Rightarrow> (refused, cached)
                 | Some m \<Rightarrow>
                     if m < MIN_TENANT_TOPUP_MICRO_USD then (refused, cached)
                     else case createTopUp api rail reqId1 reqId2 now cached tid (num_of_int m) of
                       (Inr i, c) \<Rightarrow>
                         (ok_json [(''checkout_url'', case checkout_url i of None \<Rightarrow> JNull | Some u \<Rightarrow> JStr u),
                                   (''external_ref'', JStr (intent_ref i)), (''rail'', JStr ''paypal'')], c)
                     | (Inl (RailError code msg), c) \<Rightarrow>
                         (err (refusal_code code) (if code = NotConfigured then 503 else 400)
                              [(''message'', JStr msg)], c)
                     | (Inl (OtherError _), c) \<Rightarrow> (err ''topup_failed'' 503 [], c))"

record audit_row =
  au_actor :: string
  au_action :: string
  au_tenant_id :: string
  au_detail :: "(string \<times> json) list"

text \<open>
  The operator's credit route, after the tenant was looked up.  The audit detail is kept as the
  properties of the object the code serialises.  The first definition is the part after the checks,
  which writes the credit and the audit row.
\<close>

definition issue_manual_credit ::
  "credit_db \<Rightarrow> string \<Rightarrow> string \<Rightarrow> int \<Rightarrow> (string \<times> string) list \<Rightarrow> string \<Rightarrow> string \<Rightarrow> string \<Rightarrow> string
     \<Rightarrow> reply \<times> credit_db option \<times> audit_row list" where
  "issue_manual_credit db tid actor amount attribution reason reference rowId now =
     (case applySettlement db ''manual''
        \<lparr>se_tenant_id = tid, se_amount_micro_usd = amount, se_external_ref = reference,
         se_note = Some (stringify_strings (attribution @ [(''reason'', reason)]))\<rparr> rowId now of
        Inl _ \<Rightarrow> (err ''credit_failed'' 503 [], Some db, [])
      | Inr (ok, db') \<Rightarrow>
          (ok_json [(''applied'', JBool ok), (''amount_micro_usd'', JNum (num_of_int amount)),
                    (''reference'', JStr reference)],
           Some db',
           [\<lparr>au_actor = actor, au_action = ''tenant.credit_manual'', au_tenant_id = tid,
             au_detail = [(''amount_micro_usd'', JNum (num_of_int amount)), (''reference'', JStr reference)]
               @ map (\<lambda>(k, v). (k, JStr v)) attribution
               @ [(''reason'', JStr reason), (''applied'', JBool ok), (''rail'', JStr ''manual'')]\<rparr>]))"

definition manual_credit_route ::
  "credit_db option \<Rightarrow> string option \<Rightarrow> string option \<Rightarrow> string \<Rightarrow> string option \<Rightarrow> json option \<Rightarrow> string \<Rightarrow> string
     \<Rightarrow> reply \<times> credit_db option \<times> audit_row list" where
  "manual_credit_route credits tenant ceilingVar actor authenticated b rowId now =
     (let refuse = (\<lambda>code st extra. (err code st extra, credits, []));
          field = (\<lambda>k. case b of None \<Rightarrow> None | Some j \<Rightarrow> jget j k);
          ceil = (case parseMicroUsd ceilingVar of None \<Rightarrow> DEFAULT_MANUAL_CREDIT_CEILING_MICRO_USD | Some n \<Rightarrow> n);
          claimed = trimmed_string (field ''operator'');
          named = (case authenticated of None \<Rightarrow> False | Some a \<Rightarrow> a \<noteq> []);
          operator = (case authenticated of None \<Rightarrow> claimed | Some a \<Rightarrow> a);
          reason = trimmed_string (field ''reason'');
          attribution = [(if named then ''operator_authenticated'' else ''operator_claimed'', operator)];
          reference = trimmed_string (field ''reference'')
      in case credits of
           None \<Rightarrow> refuse ''credits_unconfigured'' 503 []
         | Some db \<Rightarrow>
           (case tenant of
              None \<Rightarrow> refuse ''not_found'' 404 []
            | Some tid \<Rightarrow>
              (case validateCreditAmount (field ''amount_micro_usd'') ceil of
                 Inl msg \<Rightarrow> refuse ''invalid_amount'' 400 [(''message'', JStr msg)]
               | Inr amount \<Rightarrow>
                   if named \<and> claimed \<noteq> [] \<and> claimed \<noteq> operator then
                     refuse ''operator_mismatch'' 400 [(''message'', JStr (
                       ''this credential authenticates as '' @ operator
                       @ ''; it cannot issue a credit attributed to '' @ claimed))]
                   else if operator = [] then
                     refuse ''operator_required'' 400
                       [(''message'', JStr ''operator must name who is issuing this credit'')]
                   else if reason = [] then
                     refuse ''reason_required'' 400
                       [(''message'', JStr ''reason must say why this credit is being issued'')]
                   else if reference = [] then
                     refuse ''reference_required'' 400 [(''message'', JStr (
                       ''reference must be a caller-chosen unique id for this credit, so a retry cannot double-credit''))]
                   else issue_manual_credit db tid actor amount attribution reason reference rowId now)))"

section \<open>Amounts in PayPal's notation\<close>

lemma show_int_nonneg: "0 \<le> n \<Longrightarrow> show_int n = show_nat (nat n)"
  by (simp add: show_int_def)

lemma two_digits: "n < 100 \<Longrightarrow> pad_start 2 (CHR ''0'') (show_nat n) = [digit_char (n div 10), digit_char (n mod 10)]"
proof -
  have "char_of (48::nat) = CHR ''0''" by code_simp
  then show "n < 100 \<Longrightarrow> pad_start 2 (CHR ''0'') (show_nat n) = [digit_char (n div 10), digit_char (n mod 10)]"
    by (auto simp: pad_start_def show_nat.simps [of n] show_nat.simps [of "n div 10"] digit_char_def
          less_mult_imp_div_less)
qed

lemma read_two_digits: "n < 100 \<Longrightarrow> read_nat [digit_char (n div 10), digit_char (n mod 10)] = n"
  by (simp add: read_nat_def less_mult_imp_div_less)

lemma paypalValueToMicroUsd_decimal:
  assumes "c < 100"
  shows "paypalValueToMicroUsd (show_nat d @ ''.'' @ pad_start 2 (CHR ''0'') (show_nat c)) =
    (let micro = int d * 1000000 + int c * 10000
     in if micro \<le> max_safe_integer then Some micro else None)"
proof -
  let ?cs = "[digit_char (c div 10), digit_char (c mod 10)]"
  let ?v = "show_nat d @ ''.'' @ ?cs"
  have k: "length ?v - 3 = length (show_nat d)" "4 \<le> length ?v"
    by (simp_all add: Suc_le_eq)
  have "list_all is_digit ?cs" using assms by (simp add: less_mult_imp_div_less)
  then have "paypalValueToMicroUsd ?v = (let micro = int (read_nat (show_nat d)) * MICRO_PER_USD
      + int (read_nat ?cs) * MICRO_PER_CENT in if micro \<le> max_safe_integer then Some micro else None)"
    using k list_all_show_nat [of d]
    by (simp add: paypalValueToMicroUsd_def Let_def nth_append)
  then show ?thesis
    by (simp add: two_digits [OF assms] read_two_digits [OF assms] MICRO_PER_USD_def MICRO_PER_CENT_def)
qed

lemma as_safe_int_num: "as_safe_int (num_of_int m) = (if \<bar>m\<bar> \<le> max_safe_integer then Some m else None)"
  by (simp add: as_safe_int_def)

text \<open>
  No money is lost or made in PayPal's decimal notation.  An amount is put into an order exactly
  when it is a positive safe whole number of cents, and the value sent reads back as the same amount.
\<close>

theorem paypal_amount_round_trip:
  "(case microUsdToPayPalValue (num_of_int m) of
      Inr v \<Rightarrow> paypalValueToMicroUsd v = Some m
    | Inl _ \<Rightarrow> \<not> (0 < m \<and> m \<le> max_safe_integer \<and> 10000 dvd m))"
proof (cases "0 < m \<and> m \<le> max_safe_integer \<and> 10000 dvd m")
  case True
  then obtain q where m: "m = 10000 * q" and q: "0 < q" by (auto elim: dvdE)
  let ?d = "nat (q div 100)" and ?c = "nat (q mod 100)"
  have "m mod 1000000 = 10000 * (q mod 100)"
    using mult_mod_right [of 10000 q 100] by (simp add: m)
  then have dm: "m div 1000000 = int ?d" "m mod 1000000 div 10000 = int ?c" "?c < 100"
    using m q by (simp_all add: pos_imp_zdiv_nonneg_iff)
  have safe: "as_safe_int (num_of_int m) = Some m" using True by (simp add: as_safe_int_num)
  have cents: "m mod 10000 = 0" using True by (simp add: mod_eq_0_iff_dvd)
  have whole: "\<not> m \<le> 0" using True by simp
  have "microUsdToPayPalValue (num_of_int m) = Inr (show_int (int ?d) @ ''.'' @ pad_start 2 (CHR ''0'') (show_int (int ?c)))"
    unfolding microUsdToPayPalValue_def safe option.case dm(1,2) [symmetric]
    by (simp only: whole cents MICRO_PER_USD_def MICRO_PER_CENT_def not_True_eq_False if_False simp_thms)
  then have "microUsdToPayPalValue (num_of_int m) =
      Inr (show_nat ?d @ ''.'' @ pad_start 2 (CHR ''0'') (show_nat ?c))"
    by (simp only: show_int_nonneg of_nat_0_le_iff nat_int)
  moreover have "int ?d * 1000000 + int ?c * 10000 = m"
  proof -
    have "int ?d = q div 100" "int ?c = q mod 100" using q by (simp_all add: pos_imp_zdiv_nonneg_iff)
    moreover have "100 * (q div 100) + q mod 100 = q" by simp
    ultimately show ?thesis using m by linarith
  qed
  ultimately show ?thesis
    using True paypalValueToMicroUsd_decimal [OF dm(3), of ?d] by simp
next
  case False
  then show ?thesis
    by (auto simp: microUsdToPayPalValue_def as_safe_int_num MICRO_PER_CENT_def mod_eq_0_iff_dvd)
qed

section \<open>Settlements\<close>

lemma settlement_insert_colon [simp]: "CHR '':'' \<in> set (i_idemRef (settlement_insert r e i n))"
  by (simp add: settlement_insert_def)

lemma applySettlement_append:
  assumes "applySettlement db railId e rowId now = Inr (ok, db')"
  obtains r where "appendLedgerRow db (settlement_insert railId e rowId now) = Inr ((ok, r), db')"
  using assms by (auto simp: applySettlement_def split: sum.splits)

lemma applySettlement_effect:
  assumes "applySettlement db railId e rowId now = Inr (ok, db')"
  shows "db' = db\<lparr>ledger := ledger db @ (if ok then [row_of_insert (settlement_insert railId e rowId now)] else [])\<rparr>
         \<and> 0 < se_amount_micro_usd e"
proof -
  obtain r where r: "appendLedgerRow db (settlement_insert railId e rowId now) = Inr ((ok, r), db')"
    using assms by (rule applySettlement_append)
  then have "ledger_check Purchase (se_amount_micro_usd e)"
    by (auto simp: appendLedgerRow_def insert_ledger_def row_of_insert_def settlement_insert_def
        split: if_splits)
  with r show ?thesis
    by (cases rule: appendLedgerRow_cases) (auto dest: insert_ledger_Some)
qed

lemma applySettlement_step:
  "applySettlement db railId e rowId now = Inr (ok, db') \<Longrightarrow> credit_step db db'"
  by (erule applySettlement_append) (rule credit_step.append [OF settlement_insert_colon])

lemma settlement_again:
  assumes "credit_inv db" "applySettlement db railId e rowId now = Inr (ok, db1)"
    and "credit_step\<^sup>*\<^sup>* db1 db2"
    and "se_tenant_id e' = se_tenant_id e" "se_external_ref e' = se_external_ref e"
    and "0 < se_amount_micro_usd e'"
  shows "applySettlement db2 railId e' rowId' now' = Inr (False, db2)"
proof -
  let ?i = "settlement_insert railId e rowId now" and ?j = "settlement_insert railId e' rowId' now'"
  obtain r where r: "appendLedgerRow db ?i = Inr ((ok, r), db1)"
    using assms(2) by (rule applySettlement_append)
  have inv1: "credit_inv db1" using assms(1) settlement_insert_colon r by (rule d1.append_keeps)
  obtain rs where rs: "ledger db2 = ledger db1 @ rs" using credit_steps_ledger [OF assms(3)] by blast
  have "same_ledger_key (row_of_insert ?j) = same_ledger_key (row_of_insert ?i)"
    using assms(4,5) by (simp add: fun_eq_iff same_ledger_key_def row_of_insert_def settlement_insert_def)
  then have "list_ex (same_ledger_key (row_of_insert ?j)) (ledger db2)"
    using d1.append_recorded [OF assms(1) r] by (simp add: rs)
  then obtain r' where "appendLedgerRow db2 ?j = Inr ((False, r'), db2)"
    using d1.append_present [of db2 ?j] credit_steps_inv [OF assms(3) inv1] assms(6)
    by (auto simp: settlement_insert_def)
  then show ?thesis by (simp add: applySettlement_def)
qed

text \<open>
  C6: a settlement is credited once, for ever.  After a rail's settlement was accepted, and whatever
  the store did since, the same reference for the same tenant credits nothing, even when the retry
  claims another amount, and it is answered as a success.
\<close>

theorem settlement_credited_once:
  assumes "credit_reachable ts db" "applySettlement db railId e rowId now = Inr (ok, db1)"
    and "credit_step\<^sup>*\<^sup>* db1 db2"
    and "se_tenant_id e' = se_tenant_id e" "se_external_ref e' = se_external_ref e"
    and "0 < se_amount_micro_usd e'"
  shows "applySettlement db2 railId e' rowId' now' = Inr (False, db2)"
  using credit_reachable_inv [OF assms(1)] assms(2-6) by (rule settlement_again)

lemma amount_of_pos: "amount_of cap = Some m \<Longrightarrow> 0 < m"
  by (auto simp: amount_of_def split: option.splits json.splits if_splits)

lemma settlementFromVerifiedEvent_pos: "settlementFromVerifiedEvent ev = Some e \<Longrightarrow> 0 < se_amount_micro_usd e"
  by (auto simp: settlementFromVerifiedEvent_def Let_def dest: amount_of_pos split: option.splits if_splits)

lemma read_captureE:
  assumes "read_capture order b = Inr (Settled e)"
  obtains cap where "completedCaptureFrom b = Some cap"
    "se_tenant_id e = tenant_ref order" "se_external_ref e = trimmed_string (jget cap ''id'')"
    "amount_of cap = Some (se_amount_micro_usd e)"
  using assms by (auto simp: read_capture_def Let_def split: option.splits if_splits)

lemma settlementFromVerifiedEventE:
  assumes "settlementFromVerifiedEvent ev = Some e" "jget ev ''resource'' = Some cap"
  shows "se_tenant_id e = trimmed_string (jget cap ''custom_id'')"
    and "plain_string (jget cap ''id'') \<noteq> [] \<Longrightarrow> se_external_ref e = plain_string (jget cap ''id'')"
  using assms by (auto simp: settlementFromVerifiedEvent_def Let_def object_of_def split: option.splits if_splits)

text \<open>
  The two ways one payment can arrive credit it once.  When the plane collected an approved order
  and PayPal then reports the same capture (same id, without surrounding white space, for the tenant
  of the order), the report credits nothing.
\<close>

theorem capture_and_webhook_credit_once:
  assumes "credit_reachable ts db"
    and "read_capture order b = Inr (Settled e)" "completedCaptureFrom b = Some cap"
    and "settlementFromVerifiedEvent ev = Some e'" "jget ev ''resource'' = Some cap'"
    and "jget cap ''id'' = Some (JStr cid)" "jget cap' ''id'' = Some (JStr cid)" "js_trim cid = cid" "cid \<noteq> []"
    and "trimmed_string (jget cap' ''custom_id'') = tenant_ref order"
    and "applySettlement db ''paypal'' e rowId now = Inr (ok, db1)"
  shows "applySettlement db1 ''paypal'' e' rowId' now' = Inr (False, db1)"
proof (rule settlement_again)
  from assms(2,3,6,8) have "se_tenant_id e = tenant_ref order" "se_external_ref e = cid"
    by (auto elim!: read_captureE simp: trimmed_string_def)
  moreover have "se_tenant_id e' = tenant_ref order" "se_external_ref e' = cid"
    using settlementFromVerifiedEventE [OF assms(4,5)] assms(7,9,10) by (simp_all add: plain_string_def)
  ultimately show "se_tenant_id e' = se_tenant_id e" "se_external_ref e' = se_external_ref e" by simp_all
  show "0 < se_amount_micro_usd e'" using assms(4) by (rule settlementFromVerifiedEvent_pos)
qed (rule credit_reachable_inv [OF assms(1)], rule assms(11), rule rtranclp.rtrancl_refl)

section \<open>The webhook route\<close>

lemma parseSettlement_verified:
  assumes "parseSettlement api rail q1 q2 now cached hs parsed = (Inr (Some e), c)"
  obtains token ev v where "parsed = Some ev" "railEventFromVerifiedEvent ev = Some e"
    "res_ok (api (verify_request rail token q2 hs ev))"
    "s_json (api (verify_request rail token q2 hs ev)) = Some v"
    "jget v ''verification_status'' = Some (JStr ''SUCCESS'')"
  using assms
  by (auto simp: parseSettlement_def Let_def split: if_splits option.splits sum.splits json.splits)

lemma settle_reply_effect:
  assumes "settle_reply db e w = (r, db')" "ledger db' \<noteq> ledger db"
  shows "0 < se_amount_micro_usd e \<and> r = ok_json [(''applied'', JBool True)] \<and>
    db' = db\<lparr>ledger := ledger db @ [row_of_insert (settlement_insert ''paypal'' e (w_rowId w) (w_now w))]\<rparr>"
proof (cases "applySettlement db ''paypal'' e (w_rowId w) (w_now w)")
  case (Inl x)
  with assms show ?thesis by (simp add: settle_reply_def)
next
  case (Inr a)
  obtain ok db'' where a: "a = (ok, db'')" by (cases a)
  from applySettlement_effect [OF Inr [unfolded a]] assms Inr a show ?thesis
    by (cases ok) (auto simp: settle_reply_def)
qed

text \<open>
  The events that end in a settlement, with where it comes from: the verified event itself, or the
  capture of the order that the verified event approved.
\<close>

definition settles :: "paypal_api \<Rightarrow> paypal_rail \<Rightarrow> webhook_call \<Rightarrow> json \<Rightarrow> settlement_event \<Rightarrow> bool" where
  "settles api rail w ev e \<longleftrightarrow>
     railEventFromVerifiedEvent ev = Some (Settlement e)
     \<or> (\<exists>order c c'. railEventFromVerifiedEvent ev = Some (Approved order)
          \<and> captureApprovedOrder api rail (w_reqId3 w) (w_nowMs w) c order = (Inr (Settled e), c'))"

lemma paypalWebhook_settles:
  assumes "paypalWebhook api env origin w cached (Some db) = (r, Some db', c')" "ledger db' \<noteq> ledger db"
  obtains rail ev e c where "paypalRailFromEnv env origin = Some rail"
    "parseSettlement api rail (w_reqId1 w) (w_reqId2 w) (w_nowMs w) cached (w_headers w) (w_parsed w) = (Inr (Some ev), c)"
    "settle_reply db e w = (r, db')"
    "ev = Settlement e \<or> (\<exists>order d. ev = Approved order \<and>
       captureApprovedOrder api rail (w_reqId3 w) (w_nowMs w) c order = (Inr (Settled e), d))"
proof -
  from assms obtain rail where rail: "paypalRailFromEnv env origin = Some rail"
    by (auto simp: paypalWebhook_def split: option.splits)
  obtain p c where p: "parseSettlement api rail (w_reqId1 w) (w_reqId2 w) (w_nowMs w) cached
      (w_headers w) (w_parsed w) = (p, c)" by (cases "parseSettlement api rail (w_reqId1 w)
      (w_reqId2 w) (w_nowMs w) cached (w_headers w) (w_parsed w)")
  show thesis
  proof (cases p)
    case (Inl x)
    with assms rail p show thesis
      by (auto simp: paypalWebhook_def split: rail_error.splits rail_refusal.splits)
  next
    case (Inr q)
    show thesis
    proof (cases q)
      case None
      with assms rail p Inr show thesis by (simp add: paypalWebhook_def)
    next
      case (Some ev)
      show thesis
      proof (cases ev)
        case (Settlement e)
        with assms rail p Inr Some show thesis
          by (intro that [of rail ev c e]) (auto simp: paypalWebhook_def split: prod.splits)
      next
        case (Approved order)
        obtain o' d where o': "captureApprovedOrder api rail (w_reqId3 w) (w_nowMs w) c order = (o', d)"
          by (cases "captureApprovedOrder api rail (w_reqId3 w) (w_nowMs w) c order")
        with assms rail p Inr Some Approved show thesis
          by (cases o'; cases "projr o'")
            (auto simp: paypalWebhook_def split: prod.splits intro!: that [of rail ev c])
      qed
    qed
  qed
qed

text \<open>
  C3: money appears only from a verified event.  If a webhook delivery changes the ledger, then PayPal
  answered SUCCESS to the signature check of exactly the delivered body and headers, and the change is
  one purchase row of a positive amount that the event (or the capture of the order it approved)
  reported.
\<close>

theorem webhook_credits_only_verified:
  assumes "paypalWebhook api env origin w cached (Some db) = (r, Some db', c')" "ledger db' \<noteq> ledger db"
  shows "\<exists>rail token ev v e.
     paypalRailFromEnv env origin = Some rail \<and> w_parsed w = Some ev
     \<and> res_ok (api (verify_request rail token (w_reqId2 w) (w_headers w) ev))
     \<and> s_json (api (verify_request rail token (w_reqId2 w) (w_headers w) ev)) = Some v
     \<and> jget v ''verification_status'' = Some (JStr ''SUCCESS'')
     \<and> settles api rail w ev e \<and> 0 < se_amount_micro_usd e
     \<and> ledger db' = ledger db @ [row_of_insert (settlement_insert ''paypal'' e (w_rowId w) (w_now w))]
     \<and> r = ok_json [(''applied'', JBool True)]"
proof -
  obtain rail ev e c where *: "paypalRailFromEnv env origin = Some rail"
    "parseSettlement api rail (w_reqId1 w) (w_reqId2 w) (w_nowMs w) cached (w_headers w) (w_parsed w) = (Inr (Some ev), c)"
    "settle_reply db e w = (r, db')"
    "ev = Settlement e \<or> (\<exists>order d. ev = Approved order \<and>
       captureApprovedOrder api rail (w_reqId3 w) (w_nowMs w) c order = (Inr (Settled e), d))"
    using assms by (rule paypalWebhook_settles)
  obtain token j v where v: "w_parsed w = Some j" "railEventFromVerifiedEvent j = Some ev"
    "res_ok (api (verify_request rail token (w_reqId2 w) (w_headers w) j))"
    "s_json (api (verify_request rail token (w_reqId2 w) (w_headers w) j)) = Some v"
    "jget v ''verification_status'' = Some (JStr ''SUCCESS'')"
    using *(2) by (rule parseSettlement_verified)
  have "settles api rail w j e" using *(4) v(2) by (auto simp: settles_def)
  moreover note settle_reply_effect [OF *(3) assms(2)]
  ultimately show ?thesis using *(1) v
    by (intro exI [of _ rail] exI [of _ token] exI [of _ j] exI [of _ v] exI [of _ e]) simp
qed

section \<open>The manual credit route\<close>

lemma issue_manual_credit_effect:
  assumes "issue_manual_credit db tid actor amount attribution reason reference rowId now = (r, Some db', audit)"
    and "ledger db' \<noteq> ledger db"
  obtains au nt where "ledger db' = ledger db @ [row_of_insert (settlement_insert ''manual''
         \<lparr>se_tenant_id = tid, se_amount_micro_usd = amount, se_external_ref = reference, se_note = nt\<rparr> rowId now)]"
     "audit = [au]" "au_tenant_id au = tid" "au_actor au = actor"
     "(''applied'', JBool True) \<in> set (au_detail au)"
     "\<forall>k v. (k, v) \<in> set attribution \<longrightarrow> (k, JStr v) \<in> set (au_detail au)"
proof -
  define e where "e = \<lparr>se_tenant_id = tid, se_amount_micro_usd = amount, se_external_ref = reference,
         se_note = Some (stringify_strings (attribution @ [(''reason'', reason)]))\<rparr>"
  obtain ok where ok: "applySettlement db ''manual'' e rowId now = Inr (ok, db')"
    using assms by (cases "applySettlement db ''manual'' e rowId now")
      (auto simp: issue_manual_credit_def e_def [symmetric])
  with applySettlement_effect [OF ok] assms(2) have "ok"
    and led: "ledger db' = ledger db @ [row_of_insert (settlement_insert ''manual'' e rowId now)]"
    by (cases ok; simp)+
  from assms(1) ok \<open>ok\<close> obtain au where "audit = [au]" "au_tenant_id au = tid" "au_actor au = actor"
    "(''applied'', JBool True) \<in> set (au_detail au)"
    "\<forall>k v. (k, v) \<in> set attribution \<longrightarrow> (k, JStr v) \<in> set (au_detail au)"
    by (force simp: issue_manual_credit_def e_def [symmetric])
  then show thesis using led unfolding e_def by (intro that [of _ au])
qed

lemma manual_credit_issued:
  assumes "manual_credit_route (Some db) tenant ceilingVar actor authenticated b rowId now =
             (r, Some db', audit)"
    and "ledger db' \<noteq> ledger db"
  obtains tid amount attribution reason reference
    where "tenant = Some tid" "0 < amount"
      "amount \<le> (case parseMicroUsd ceilingVar of None \<Rightarrow> 100000000 | Some n \<Rightarrow> n)" "reference \<noteq> []"
      "issue_manual_credit db tid actor amount attribution reason reference rowId now = (r, Some db', audit)"
      "\<forall>name. authenticated = Some name \<and> name \<noteq> [] \<longrightarrow> (''operator_authenticated'', name) \<in> set attribution"
proof -
  let ?f = "\<lambda>k. case b of None \<Rightarrow> None | Some j \<Rightarrow> jget j k"
  let ?ceil = "case parseMicroUsd ceilingVar of None \<Rightarrow> DEFAULT_MANUAL_CREDIT_CEILING_MICRO_USD | Some n \<Rightarrow> n"
  from assms obtain tid where tid: "tenant = Some tid"
    by (cases tenant) (simp_all add: manual_credit_route_def Let_def)
  from assms tid obtain amount where amount: "validateCreditAmount (?f ''amount_micro_usd'') ?ceil = Inr amount"
    by (cases "validateCreditAmount (?f ''amount_micro_usd'') ?ceil")
      (simp_all add: manual_credit_route_def Let_def)
  then have bounds: "0 < amount" "amount \<le> (case parseMicroUsd ceilingVar of None \<Rightarrow> 100000000 | Some n \<Rightarrow> n)"
    by (auto simp: validateCreditAmount_def DEFAULT_MANUAL_CREDIT_CEILING_MICRO_USD_def
        split: option.splits if_splits)
  have refused: "(e, Some db, []) \<noteq> (r, Some db', audit)" for e using assms(2) by auto
  note chain = assms(1) [unfolded manual_credit_route_def Let_def tid option.case amount sum.case]
  note d1 = if_elseD [OF chain refused]
  note d2 = if_elseD [OF conjunct2 [OF d1] refused]
  note d3 = if_elseD [OF conjunct2 [OF d2] refused]
  note d4 = if_elseD [OF conjunct2 [OF d3] refused]
  show thesis
    by (rule that [OF tid bounds conjunct1 [OF d4] conjunct2 [OF d4]]) simp
qed

text \<open>
  An operator can not mint more than the ceiling, nor anonymously, nor unaudited.  If a manual
  credit request changes the ledger, it adds one purchase row with an amount above zero and within the
  configured ceiling, carrying a non-empty caller-chosen reference, and exactly one audit row of the
  same tenant records that it was applied; a credential that names its operator is the operator the
  audit row names as authenticated.
\<close>

theorem manual_credit_bounded_and_audited:
  assumes "manual_credit_route (Some db) tenant ceilingVar actor authenticated b rowId now =
             (r, Some db', audit)"
    and "ledger db' \<noteq> ledger db"
  shows "\<exists>tid amount reference nt au.
     tenant = Some tid \<and> 0 < amount
     \<and> amount \<le> (case parseMicroUsd ceilingVar of None \<Rightarrow> 100000000 | Some n \<Rightarrow> n)
     \<and> reference \<noteq> []
     \<and> ledger db' = ledger db @ [row_of_insert (settlement_insert ''manual''
         \<lparr>se_tenant_id = tid, se_amount_micro_usd = amount, se_external_ref = reference, se_note = nt\<rparr> rowId now)]
     \<and> audit = [au] \<and> au_tenant_id au = tid \<and> au_actor au = actor
     \<and> (''applied'', JBool True) \<in> set (au_detail au)
     \<and> (\<forall>name. authenticated = Some name \<and> name \<noteq> [] \<longrightarrow>
          (''operator_authenticated'', JStr name) \<in> set (au_detail au))"
proof -
  from assms obtain tid amount attribution reason reference
    where route: "tenant = Some tid" "0 < amount"
      "amount \<le> (case parseMicroUsd ceilingVar of None \<Rightarrow> 100000000 | Some n \<Rightarrow> n)" "reference \<noteq> []"
      "issue_manual_credit db tid actor amount attribution reason reference rowId now = (r, Some db', audit)"
      "\<forall>name. authenticated = Some name \<and> name \<noteq> [] \<longrightarrow> (''operator_authenticated'', name) \<in> set attribution"
    by (rule manual_credit_issued)
  obtain au nt where au: "ledger db' = ledger db @ [row_of_insert (settlement_insert ''manual''
         \<lparr>se_tenant_id = tid, se_amount_micro_usd = amount, se_external_ref = reference, se_note = nt\<rparr> rowId now)]"
     "audit = [au]" "au_tenant_id au = tid" "au_actor au = actor" "(''applied'', JBool True) \<in> set (au_detail au)"
     "\<forall>k v. (k, v) \<in> set attribution \<longrightarrow> (k, JStr v) \<in> set (au_detail au)"
    using route(5) assms(2) by (rule issue_manual_credit_effect)
  from route(6) au(6) have "\<forall>name. authenticated = Some name \<and> name \<noteq> [] \<longrightarrow>
      (''operator_authenticated'', JStr name) \<in> set (au_detail au)" by simp
  with route(1-4) au(1-5) show ?thesis by (intro exI conjI)
qed

section \<open>The balance view\<close>

lemma sum_by_mset: "mset s = mset t \<Longrightarrow> sum_by f s = sum_by f t"
  unfolding sum_by_def by (metis mset_map sum_mset_sum_list)

lemma sum_by_newest_first: "sum_by f (newest_first ls) = sum_by f ls"
  by (rule sum_by_mset) (simp add: newest_first_def)

lemma sum_by_hold_lines: "sum_by a_delta_micro_usd (List.map_filter hold_line hs) = 0"
  by (induction hs) (auto simp: map_filter_simps hold_line_def)

lemma listLedger_complete:
  assumes "length (listLedger db t n) < n"
  shows "mset (listLedger db t n) = mset (filter (\<lambda>r. l_tenant_id r = t) (ledger db))"
  using assms by (simp add: listLedger_def)

text \<open>
  The page adds up.  When the tenant's credit view says its activity is not truncated, the
  amounts of the lines it lists add up to the settled balance it shows, and the available balance is
  the settled one less what is held.
\<close>

theorem credit_view_reconciles:
  assumes "\<not> v_activity_truncated (tenant_credits_route db env enforcing t)"
  shows "sum_by a_delta_micro_usd (v_activity (tenant_credits_route db env enforcing t)) =
           v_settled_micro_usd (tenant_credits_route db env enforcing t)
       \<and> v_available_micro_usd (tenant_credits_route db env enforcing t) =
           v_settled_micro_usd (tenant_credits_route db env enforcing t)
           - v_held_micro_usd (tenant_credits_route db env enforcing t)"
proof -
  let ?rows = "listLedger db t CREDIT_ACTIVITY_LIMIT"
  have "length ?rows < CREDIT_ACTIVITY_LIMIT"
    using assms by (simp add: tenant_credits_route_def readCreditActivity_def buildTenantCreditView_def Let_def)
  then have "mset ?rows = mset (filter (\<lambda>r. l_tenant_id r = t) (ledger db))" by (rule listLedger_complete)
  then have "sum_by l_delta_micro_usd ?rows = fst (readBalanceSums db t)"
    by (simp add: readBalanceSums_def sum_by_mset)
  moreover have "sum_by a_delta_micro_usd (map ledger_line rs) = sum_by l_delta_micro_usd rs" for rs
    by (induction rs) (simp_all add: ledger_line_def)
  ultimately show ?thesis
    by (simp add: tenant_credits_route_def readCreditActivity_def buildTenantCreditView_def Let_def
          sum_by_newest_first sum_by_hold_lines balanceFromSums_def)
qed

section \<open>Concrete deliveries\<close>

definition ex_env :: paypal_env where
  "ex_env = \<lparr>PAYPAL_CLIENT_ID = Some ''cid'', PAYPAL_CLIENT_SECRET = Some ''sec'',
     PAYPAL_WEBHOOK_ID = Some ''wh1'', PAYPAL_ENV = None\<rparr>"

definition ex_capture_json :: json where
  "ex_capture_json = JObj [(''id'', JStr ''CAP1''), (''status'', JStr ''COMPLETED''), (''custom_id'', JStr ''ten_a''),
     (''amount'', JObj [(''currency_code'', JStr ''USD''), (''value'', JStr ''25.00'')])]"

definition ex_event :: json where
  "ex_event = JObj [(''event_type'', JStr ''PAYMENT.CAPTURE.COMPLETED''), (''resource'', ex_capture_json)]"

definition ex_order_json :: json where
  "ex_order_json = JObj [(''purchase_units'', JArr [JObj [(''payments'', JObj [(''captures'', JArr [ex_capture_json])])]])]"

definition ex_api :: paypal_api where
  "ex_api q =
     (if ends_with (q_url q) ''/v1/oauth2/token''
      then \<lparr>s_status = 200, s_text = [], s_json = Some (JObj [(''access_token'', JStr ''tok'')])\<rparr>
      else if ends_with (q_url q) ''/verify-webhook-signature''
      then \<lparr>s_status = 200, s_text = [], s_json = Some (JObj [(''verification_status'', JStr ''SUCCESS'')])\<rparr>
      else \<lparr>s_status = 404, s_text = [], s_json = None\<rparr>)"

definition ex_call :: webhook_call where
  "ex_call = \<lparr>w_headers = [(''PayPal-Auth-Algo'', ''a''), (''PayPal-Cert-Url'', ''b''),
       (''PayPal-Transmission-Id'', ''c''), (''PayPal-Transmission-Sig'', ''d''), (''PayPal-Transmission-Time'', ''e'')],
     w_parsed = Some ex_event, w_reqId1 = ''r1'', w_reqId2 = ''r2'', w_reqId3 = ''r3'', w_rowId = ''led_1'',
     w_nowMs = 0, w_now = ex_now\<rparr>"

definition ex_settlement :: settlement_event where
  "ex_settlement = \<lparr>se_tenant_id = ''ten_a'', se_amount_micro_usd = 25000000, se_external_ref = ''CAP1'',
     se_note = Some ''paypal PAYMENT.CAPTURE.COMPLETED''\<rparr>"

definition ex_credited :: credit_db where
  "ex_credited = ex_db0\<lparr>ledger := [row_of_insert (settlement_insert ''paypal'' ex_settlement ''led_1'' ex_now)]\<rparr>"

lemma ex_settle: "applySettlement ex_db0 ''paypal'' ex_settlement ''led_1'' ex_now = Inr (True, ex_credited)"
  by code_simp

theorem settlement_credited_once_witness:
  "applySettlement ex_credited ''paypal'' (ex_settlement\<lparr>se_amount_micro_usd := 99000000\<rparr>) ''led_9'' ex_now =
     Inr (False, ex_credited)"
  by (rule settlement_credited_once [OF ex_reach0 ex_settle rtranclp.rtrancl_refl]) (simp_all add: ex_settlement_def)

theorem capture_and_webhook_credit_once_witness:
  "\<exists>db1. applySettlement db1 ''paypal'' ex_settlement ''led_2'' ex_now = Inr (False, db1)"
proof -
  define order where "order = \<lparr>order_ref = ''O1'', tenant_ref = ''ten_a''\<rparr>"
  define e where "e = ex_settlement\<lparr>se_note := Some ''paypal capture of order O1''\<rparr>"
  define db1 where "db1 = ex_db0\<lparr>ledger := [row_of_insert (settlement_insert ''paypal'' e ''led_1'' ex_now)]\<rparr>"
  have 1: "read_capture order ex_order_json = Inr (Settled e)" unfolding order_def e_def by code_simp
  have 2: "completedCaptureFrom ex_order_json = Some ex_capture_json" by code_simp
  have 3: "settlementFromVerifiedEvent ex_event = Some ex_settlement" by code_simp
  have 4: "jget ex_event ''resource'' = Some ex_capture_json" by code_simp
  have 5: "jget ex_capture_json ''id'' = Some (JStr ''CAP1'')" by code_simp
  have 6: "js_trim ''CAP1'' = ''CAP1''" by code_simp
  have 7: "trimmed_string (jget ex_capture_json ''custom_id'') = tenant_ref order" unfolding order_def by code_simp
  have 8: "applySettlement ex_db0 ''paypal'' e ''led_1'' ex_now = Inr (True, db1)"
    unfolding e_def db1_def by code_simp
  have "applySettlement db1 ''paypal'' ex_settlement ''led_2'' ex_now = Inr (False, db1)"
    by (rule capture_and_webhook_credit_once [OF ex_reach0 1 2 3 4 5 5 6 _ 7 8]) simp
  then show ?thesis ..
qed

theorem webhook_credits_only_verified_witness:
  "\<exists>rail e. paypalRailFromEnv ex_env ''https://studio.example'' = Some rail
     \<and> settles ex_api rail ex_call ex_event e \<and> 0 < se_amount_micro_usd e"
proof -
  define P where "P = paypalWebhook ex_api ex_env ''https://studio.example'' ex_call None (Some ex_db0)"
  have "fst (snd P) = Some ex_credited" unfolding P_def by code_simp
  then have P: "paypalWebhook ex_api ex_env ''https://studio.example'' ex_call None (Some ex_db0) =
      (fst P, Some ex_credited, snd (snd P))"
    by (metis P_def prod.collapse)
  have "ledger ex_credited \<noteq> ledger ex_db0" by code_simp
  from webhook_credits_only_verified [OF P this] show ?thesis by (auto simp: ex_call_def)
qed

theorem manual_credit_bounded_and_audited_witness:
  "\<exists>r db' au. manual_credit_route (Some ex_db0) (Some ''ten_a'') None ''op'' (Some ''conrad'')
      (Some (JObj [(''amount_micro_usd'', JNum (num_of_int 3000000)), (''reason'', JStr ''incident''),
                   (''reference'', JStr ''ref1'')])) ''led_1'' ex_now = (r, Some db', [au])
     \<and> (''operator_authenticated'', JStr ''conrad'') \<in> set (au_detail au)"
proof -
  define P where "P = manual_credit_route (Some ex_db0) (Some ''ten_a'') None ''op'' (Some ''conrad'')
      (Some (JObj [(''amount_micro_usd'', JNum (num_of_int 3000000)), (''reason'', JStr ''incident''),
                   (''reference'', JStr ''ref1'')])) ''led_1'' ex_now"
  define db' where "db' = the (fst (snd P))"
  have ne: "fst (snd P) \<noteq> None" unfolding P_def by code_simp
  have led: "map l_delta_micro_usd (ledger db') = [3000000]" unfolding db'_def P_def by code_simp
  have P: "manual_credit_route (Some ex_db0) (Some ''ten_a'') None ''op'' (Some ''conrad'')
      (Some (JObj [(''amount_micro_usd'', JNum (num_of_int 3000000)), (''reason'', JStr ''incident''),
                   (''reference'', JStr ''ref1'')])) ''led_1'' ex_now = (fst P, Some db', snd (snd P))"
    using ne unfolding P_def [symmetric] db'_def by (cases P) auto
  have "ledger db' \<noteq> ledger ex_db0" using led by (auto simp: ex_db0_def)
  from manual_credit_bounded_and_audited [OF P this]
  obtain au where "snd (snd P) = [au]" "(''operator_authenticated'', JStr ''conrad'') \<in> set (au_detail au)"
    by auto
  with P show ?thesis by metis
qed

theorem credit_view_reconciles_witness:
  "sum_by a_delta_micro_usd (v_activity (tenant_credits_route ex_db3 ex_env None ''ten_a'')) = 6000000"
proof -
  have "\<not> v_activity_truncated (tenant_credits_route ex_db3 ex_env None ''ten_a'')" by code_simp
  moreover have "v_settled_micro_usd (tenant_credits_route ex_db3 ex_env None ''ten_a'') = 6000000" by code_simp
  ultimately show ?thesis using credit_view_reconciles by auto
qed

end
