(* ===== verification/Metering.thy ===== *)
theory Metering
  imports Credits
begin

text \<open>
  Billing a metered window: \<^verbatim>\<open>src/src/meter-window.ts\<close>, \<^verbatim>\<open>src/src/meter-debit.ts\<close> (the decision),
  \<^verbatim>\<open>src/src/meter-settle.ts\<close> (one tenant) and \<^verbatim>\<open>src/src/meter-settle-run.ts\<close> (the run over all
  tenants of a billing period).

  The ledger a settlement writes to is an argument, as it is in the code (\<^verbatim>\<open>OverageLedger\<close>); what is
  proved of a settlement is proved from the laws of the interface and then used on the D1 store.  The
  sentences shown to operators for a refusal are constructors that carry the values they mention.
\<close>

section \<open>Windows and decisions\<close>

record meter_window =
  window_start :: string
  window_end :: string
  window_complete :: bool
  window_reason :: "string option"

definition isUnbillable :: "meter_window \<Rightarrow> bool" where
  "isUnbillable w \<longleftrightarrow> \<not> window_complete w"

datatype meter_class = Llm | R2Storage

fun meter_name :: "meter_class \<Rightarrow> string" where
  "meter_name Llm = ''llm''"
| "meter_name R2Storage = ''r2_storage''"

datatype unbillable_reason =
    NotObserved meter_class string string "string option"
  | BadUsage meter_class jsnum
  | NoAllowance meter_class
  | BadAllowance meter_class jsnum
  | SettlementThrew db_error

datatype debit_decision =
    DebitOwed int int string string
  | WithinAllowance int int string
  | Unbillable unbillable_reason

definition overageIdemRef :: "meter_class \<Rightarrow> string \<Rightarrow> string" where
  "overageIdemRef meter periodKey = ''overage:'' @ meter_name meter @ '':'' @ periodKey"

text \<open>\<^verbatim>\<open>Number.isInteger(x) && x >= 0\<close>.\<close>

definition whole_amount :: "jsnum \<Rightarrow> int option" where
  "whole_amount x = (case as_int x of Some n \<Rightarrow> if n < 0 then None else Some n | None \<Rightarrow> None)"

definition show_whole :: "int \<Rightarrow> string" where
  "show_whole n = show_nat (nat n)"

definition decideOverageDebit ::
  "meter_class \<Rightarrow> meter_window \<Rightarrow> jsnum \<Rightarrow> jsnum option \<Rightarrow> string \<Rightarrow> debit_decision" where
  "decideOverageDebit meter w usedMicroUsd allowanceMicroUsd periodKey =
     (if isUnbillable w then
        Unbillable (NotObserved meter (window_start w) (window_end w) (window_reason w))
      else case whole_amount usedMicroUsd of
        None \<Rightarrow> Unbillable (BadUsage meter usedMicroUsd)
      | Some used \<Rightarrow>
          (case allowanceMicroUsd of
             None \<Rightarrow> Unbillable (NoAllowance meter)
           | Some a \<Rightarrow>
               (case whole_amount a of
                  None \<Rightarrow> Unbillable (BadAllowance meter a)
                | Some allowance \<Rightarrow>
                    if used \<le> allowance then
                      WithinAllowance used allowance
                        (show_whole used @ '' of '' @ show_whole allowance @ '' micro-USD included ''
                         @ meter_name meter @ '' allowance used in '' @ periodKey @ ''; nothing owed'')
                    else
                      DebitOwed (used - allowance) used (overageIdemRef meter periodKey)
                        (meter_name meter @ '' overage for '' @ periodKey @ '': '' @ show_whole used
                         @ '' micro-USD used against a '' @ show_whole allowance
                         @ '' micro-USD included allowance''))))"

section \<open>Settling one tenant\<close>

datatype settle_outcome =
    Debited int string string
  | AlreadySettled string string
  | Within int int
  | OutUnbillable unbillable_reason

type_synonym 's append_op = "'s \<Rightarrow> ledger_insert \<Rightarrow> db_error + ((bool \<times> ledger_row) \<times> 's)"

definition overage_insert :: "string \<Rightarrow> int \<Rightarrow> int \<Rightarrow> string \<Rightarrow> string \<Rightarrow> string \<Rightarrow> string \<Rightarrow> ledger_insert" where
  "overage_insert tenantId amount cost idemRef nt rowId now =
     \<lparr>i_id = rowId, i_tenantId = tenantId, i_kind = Debit, i_deltaMicroUsd = - amount,
      i_costMicroUsd = Some cost, i_idemRef = idemRef, i_priceListId = None, i_externalRef = None,
      i_note = Some nt, i_now = now\<rparr>"

definition settleMeterOverage ::
  "'s append_op \<Rightarrow> 's \<Rightarrow> string \<Rightarrow> meter_class \<Rightarrow> meter_window \<Rightarrow> jsnum \<Rightarrow> jsnum option \<Rightarrow> string
     \<Rightarrow> string \<Rightarrow> string \<Rightarrow> db_error + (settle_outcome \<times> 's)" where
  "settleMeterOverage post s tenantId meter w used allowance periodKey rowId now =
     (case decideOverageDebit meter w used allowance periodKey of
        Unbillable reason \<Rightarrow> Inr (OutUnbillable reason, s)
      | WithinAllowance u a _ \<Rightarrow> Inr (Within u a, s)
      | DebitOwed amount cost idemRef nt \<Rightarrow>
          (case post s (overage_insert tenantId amount cost idemRef nt rowId now) of
             Inl e \<Rightarrow> Inl e
           | Inr ((True, r), s') \<Rightarrow> Inr (Debited amount idemRef (l_id r), s')
           | Inr ((False, r), s') \<Rightarrow> Inr (AlreadySettled idemRef (l_id r), s')))"

section \<open>A settlement run\<close>

record llm_spend_window = meter_window +
  cost_micro_usd :: jsnum
  requests :: nat
  window_periods :: nat
  unpriced_requests :: nat

record tenant_entry =
  te_id :: string
  te_slug :: "string option"
  te_deleted_at :: "string option"

record billing_period =
  bp_key :: string
  bp_windowStart :: string
  bp_windowEnd :: string

record settlement_row =
  sr_tenantId :: string
  sr_slug :: "string option"
  sr_outcome :: settle_outcome

record settlement_report =
  rp_periodKey :: string
  rp_windowStart :: string
  rp_windowEnd :: string
  rp_censusComplete :: bool
  rp_considered :: nat
  rp_debited :: nat
  rp_alreadySettled :: nat
  rp_within :: nat
  rp_unbillable :: nat
  rp_totalDebitedMicroUsd :: int
  rp_rows :: "settlement_row list"

text \<open>
  What a run is given besides the ledger: the spend reader, which may throw, the allowance, and the
  id and time its calls return for the tenant at a position of the run (each is called at most once
  per tenant).
\<close>

record settlement_deps =
  sd_readSpend :: "string \<Rightarrow> string \<Rightarrow> string \<Rightarrow> db_error + llm_spend_window"
  sd_allowance :: "jsnum option"
  sd_censusComplete :: "nat \<Rightarrow> bool"
  sd_newId :: "nat \<Rightarrow> string"
  sd_now :: "nat \<Rightarrow> string"

definition settle_tenant ::
  "'s append_op \<Rightarrow> settlement_deps \<Rightarrow> billing_period \<Rightarrow> nat \<Rightarrow> 's \<Rightarrow> tenant_entry \<Rightarrow> settle_outcome \<times> 's" where
  "settle_tenant post deps period n s t =
     (case sd_readSpend deps (te_id t) (bp_windowStart period) (bp_windowEnd period) of
        Inl e \<Rightarrow> (OutUnbillable (SettlementThrew e), s)
      | Inr w \<Rightarrow>
          (case settleMeterOverage post s (te_id t) Llm (meter_window.truncate w) (cost_micro_usd w)
                  (sd_allowance deps) (bp_key period) (sd_newId deps n) (sd_now deps n) of
             Inl e \<Rightarrow> (OutUnbillable (SettlementThrew e), s)
           | Inr (out, s') \<Rightarrow> (out, s')))"

text \<open>The loop over the live tenants, one row each; the counter is the position in the run.\<close>

fun settle_loop ::
  "'s append_op \<Rightarrow> settlement_deps \<Rightarrow> billing_period \<Rightarrow> nat \<Rightarrow> 's \<Rightarrow> tenant_entry list \<Rightarrow> settlement_row list \<times> 's"
where
  "settle_loop post deps period n s [] = ([], s)"
| "settle_loop post deps period n s (t # ts) =
     (case settle_tenant post deps period n s t of (out, s') \<Rightarrow>
      (case settle_loop post deps period (Suc n) s' ts of (rows, s'') \<Rightarrow>
        (\<lparr>sr_tenantId = te_id t, sr_slug = te_slug t, sr_outcome = out\<rparr> # rows, s'')))"

definition debited_amount :: "settle_outcome \<Rightarrow> int" where
  "debited_amount out = (case out of Debited amount _ _ \<Rightarrow> amount | _ \<Rightarrow> 0)"

definition is_debited :: "settle_outcome \<Rightarrow> bool" where
  "is_debited out = (case out of Debited _ _ _ \<Rightarrow> True | _ \<Rightarrow> False)"

definition is_already_settled :: "settle_outcome \<Rightarrow> bool" where
  "is_already_settled out = (case out of AlreadySettled _ _ \<Rightarrow> True | _ \<Rightarrow> False)"

definition is_within :: "settle_outcome \<Rightarrow> bool" where
  "is_within out = (case out of Within _ _ \<Rightarrow> True | _ \<Rightarrow> False)"

definition is_unbillable :: "settle_outcome \<Rightarrow> bool" where
  "is_unbillable out = (case out of OutUnbillable _ \<Rightarrow> True | _ \<Rightarrow> False)"

definition runLlmSettlement ::
  "'s append_op \<Rightarrow> settlement_deps \<Rightarrow> billing_period \<Rightarrow> tenant_entry list \<Rightarrow> 's \<Rightarrow> settlement_report \<times> 's" where
  "runLlmSettlement post deps period tenants s =
     (let live = filter (\<lambda>t. te_deleted_at t = None \<or> te_deleted_at t = Some []) tenants in
      case settle_loop post deps period 0 s live of (rows, s') \<Rightarrow>
        (let outs = map sr_outcome rows in
         (\<lparr>rp_periodKey = bp_key period, rp_windowStart = bp_windowStart period,
           rp_windowEnd = bp_windowEnd period,
           rp_censusComplete = sd_censusComplete deps (length tenants),
           rp_considered = length live,
           rp_debited = changes is_debited outs,
           rp_alreadySettled = changes is_already_settled outs,
           rp_within = changes is_within outs,
           rp_unbillable = changes is_unbillable outs,
           rp_totalDebitedMicroUsd = sum_by debited_amount outs,
           rp_rows = rows\<rparr>, s')))"

section \<open>The decision\<close>

lemma decideOverageDebit_owed:
  assumes "decideOverageDebit meter w used allowance key = DebitOwed amount cost ref nt"
  obtains a allow where "window_complete w" "whole_amount used = Some cost" "allowance = Some a"
    "whole_amount a = Some allow" "allow < cost" "amount = cost - allow" "ref = overageIdemRef meter key"
  using assms
  by (auto simp: decideOverageDebit_def isUnbillable_def split: if_splits option.splits)

lemma whole_amount_nonneg: "whole_amount x = Some n \<Longrightarrow> 0 \<le> n"
  by (auto simp: whole_amount_def split: option.splits if_splits)

lemma overageIdemRef_colon [simp]: "CHR '':'' \<in> set (overageIdemRef meter key)"
  by (simp add: overageIdemRef_def)

section \<open>Settling against any idempotent ledger\<close>

text \<open>The rows of one tenant and one reference, which is what a settlement of a period writes.\<close>

definition settled_ref :: "ledger_row list \<Rightarrow> string \<Rightarrow> string \<Rightarrow> bool" where
  "settled_ref rows t ref \<longleftrightarrow> list_ex (\<lambda>r. l_tenant_id r = t \<and> l_idem_ref r = ref) rows"

context idempotent_ledger
begin

lemma settle_cases:
  assumes "inv s" "settleMeterOverage append s t meter w used allowance key rowId now = Inr (out, s')"
  obtains (debited) amount cost nt where "out = Debited amount (overageIdemRef meter key) rowId"
      "decideOverageDebit meter w used allowance key = DebitOwed amount cost (overageIdemRef meter key) nt"
      "rows s' = rows s @ [row_of_insert (overage_insert t amount cost (overageIdemRef meter key) nt rowId now)]"
      "inv s'" "\<not> settled_ref (rows s) t (overageIdemRef meter key)"
  | (already) rid where "out = AlreadySettled (overageIdemRef meter key) rid" "s' = s"
      "settled_ref (rows s) t (overageIdemRef meter key)"
  | (free) "\<not> is_debited out" "\<not> is_already_settled out" "s' = s"
proof (cases "decideOverageDebit meter w used allowance key")
  case (DebitOwed amount cost ref nt)
  then have ref: "ref = overageIdemRef meter key" by (auto elim: decideOverageDebit_owed)
  let ?i = "overage_insert t amount cost ref nt rowId now"
  from assms(2) DebitOwed obtain ok r where a: "append s ?i = Inr ((ok, r), s')"
    and out: "out = (if ok then Debited amount ref (l_id r) else AlreadySettled ref (l_id r))"
    by (auto simp: settleMeterOverage_def split: sum.splits prod.splits bool.splits)
  show thesis
  proof (cases ok)
    case True
    with a have "append s ?i = Inr ((True, r), s')" by simp
    from append_applied [OF assms(1) this] have r: "r = row_of_insert ?i" "rows s' = rows s @ [r]"
      "\<not> list_ex (same_ledger_key r) (rows s)" by blast+
    have "CHR '':'' \<in> set (i_idemRef ?i)" using ref by (simp add: overage_insert_def)
    then have "inv s'" using append_keeps [OF assms(1) _ a] by blast
    moreover have "\<not> settled_ref (rows s) t (overageIdemRef meter key)"
      using r(1,3) ref
      by (auto simp: settled_ref_def same_ledger_key_def row_of_insert_def overage_insert_def list_ex_iff)
    ultimately show thesis
      using DebitOwed r True out ref
      by (intro debited) (auto simp: row_of_insert_def overage_insert_def)
  next
    case False
    with a have "append s ?i = Inr ((False, r), s')" by simp
    from append_replay [OF assms(1) this]
    have r: "s' = s" "r \<in> set (rows s)" "same_ledger_key (row_of_insert ?i) r" by blast+
    then have "settled_ref (rows s) t (overageIdemRef meter key)"
      using ref by (auto simp: settled_ref_def same_ledger_key_def row_of_insert_def overage_insert_def list_ex_iff)
    with r(1) False out ref show thesis by (intro already) auto
  qed
next
  case (WithinAllowance u a nt)
  with assms(2) show thesis
    by (intro free) (auto simp: settleMeterOverage_def is_debited_def is_already_settled_def)
next
  case (Unbillable reason)
  with assms(2) show thesis
    by (intro free) (auto simp: settleMeterOverage_def is_debited_def is_already_settled_def)
qed

lemma settle_tenant_cases:
  assumes "inv s" "settle_tenant append deps period n s t = (out, s')"
  obtains (debited) w amount cost nt rid where "out = Debited amount (overageIdemRef Llm (bp_key period)) rid"
      "sd_readSpend deps (te_id t) (bp_windowStart period) (bp_windowEnd period) = Inr w"
      "decideOverageDebit Llm (meter_window.truncate w) (cost_micro_usd w) (sd_allowance deps) (bp_key period) =
         DebitOwed amount cost (overageIdemRef Llm (bp_key period)) nt"
      "rows s' = rows s @ [row_of_insert (overage_insert (te_id t) amount cost
         (overageIdemRef Llm (bp_key period)) nt (sd_newId deps n) (sd_now deps n))]"
      "inv s'" "\<not> settled_ref (rows s) (te_id t) (overageIdemRef Llm (bp_key period))"
  | (already) rid where "out = AlreadySettled (overageIdemRef Llm (bp_key period)) rid" "s' = s"
      "settled_ref (rows s) (te_id t) (overageIdemRef Llm (bp_key period))"
  | (free) "\<not> is_debited out" "\<not> is_already_settled out" "s' = s"
proof (cases "sd_readSpend deps (te_id t) (bp_windowStart period) (bp_windowEnd period)")
  case (Inl e)
  with assms(2) show thesis
    by (intro free) (auto simp: settle_tenant_def is_debited_def is_already_settled_def)
next
  case (Inr w)
  show thesis
  proof (cases "settleMeterOverage append s (te_id t) Llm (meter_window.truncate w) (cost_micro_usd w)
      (sd_allowance deps) (bp_key period) (sd_newId deps n) (sd_now deps n)")
    case (Inl e)
    with Inr assms(2) show thesis
      by (intro free) (auto simp: settle_tenant_def is_debited_def is_already_settled_def)
  next
    fix q
    assume q: "settleMeterOverage append s (te_id t) Llm (meter_window.truncate w) (cost_micro_usd w)
      (sd_allowance deps) (bp_key period) (sd_newId deps n) (sd_now deps n) = Inr q"
    with Inr assms(2) have "q = (out, s')" by (auto simp: settle_tenant_def split: prod.splits)
    with assms(1) q have "inv s" "settleMeterOverage append s (te_id t) Llm (meter_window.truncate w)
      (cost_micro_usd w) (sd_allowance deps) (bp_key period) (sd_newId deps n) (sd_now deps n) = Inr (out, s')"
      by simp_all
    then show thesis
    proof (cases rule: settle_cases)
      case (debited amount cost nt)
      with Inr show thesis by (intro that(1))
    next
      case (already rid)
      then show thesis by (intro that(2))
    next
      case free
      then show thesis by (intro that(3))
    qed
  qed
qed

lemma settle_tenant_keeps:
  assumes "inv s" "settle_tenant append deps period n s t = (out, s')"
  shows "inv s'"
  using assms by (cases rule: settle_tenant_cases) (use assms(1) in auto)

lemma settle_loop_keeps:
  "inv s \<Longrightarrow> settle_loop append deps period n s ts = (rs, s') \<Longrightarrow> inv s'"
proof (induction ts arbitrary: n s rs s')
  case (Cons t ts)
  obtain out s1 where 1: "settle_tenant append deps period n s t = (out, s1)" by fastforce
  obtain rs2 s2 where 2: "settle_loop append deps period (Suc n) s1 ts = (rs2, s2)" by fastforce
  from 1 2 Cons.prems(2) have "s' = s2" by simp
  with Cons.IH [OF settle_tenant_keeps [OF Cons.prems(1) 1] 2] show ?case by simp
qed simp

lemma settle_tenant_settled:
  assumes "inv s" "settle_tenant append deps period n s u = (out, s')"
  shows "settled_of (rows s') t = settled_of (rows s) t - (if te_id u = t then debited_amount out else 0)"
  using assms
proof (cases rule: settle_tenant_cases)
  case (debited w amount cost nt rid)
  then show ?thesis by (simp add: debited_amount_def row_of_insert_def overage_insert_def)
next
  case (already rid)
  then show ?thesis by (simp add: debited_amount_def)
next
  case free
  then have "debited_amount out = 0" by (cases out) (simp_all add: debited_amount_def is_debited_def)
  with free show ?thesis by simp
qed

lemma settle_loop_settled:
  "inv s \<Longrightarrow> settle_loop append deps period n s ts = (rs, s') \<Longrightarrow>
   settled_of (rows s') t =
     settled_of (rows s) t - sum_by (\<lambda>r. if sr_tenantId r = t then debited_amount (sr_outcome r) else 0) rs"
proof (induction ts arbitrary: n s rs s')
  case (Cons u ts)
  obtain out s1 where 1: "settle_tenant append deps period n s u = (out, s1)" by fastforce
  obtain rs2 s2 where 2: "settle_loop append deps period (Suc n) s1 ts = (rs2, s2)" by fastforce
  from 1 2 Cons.prems(2) have "s' = s2"
    and rs: "rs = \<lparr>sr_tenantId = te_id u, sr_slug = te_slug u, sr_outcome = out\<rparr> # rs2" by simp_all
  with Cons.IH [OF settle_tenant_keeps [OF Cons.prems(1) 1] 2] settle_tenant_settled [OF Cons.prems(1) 1]
  show ?case by simp
qed simp

text \<open>What one tenant's settlement leaves on record, and what a later one finds.\<close>

lemma settled_ref_mono: "settled_ref rs t ref \<Longrightarrow> settled_ref (rs @ rs') t ref"
  by (simp add: settled_ref_def)

lemma settle_tenant_rows:
  assumes "inv s" "settle_tenant append deps period n s u = (out, s')"
  shows "\<exists>rs. rows s' = rows s @ rs"
  using assms by (cases rule: settle_tenant_cases) auto

lemma settle_tenant_recorded:
  assumes "inv s" "settle_tenant append deps period n s u = (out, s')" "is_debited out \<or> is_already_settled out"
  shows "settled_ref (rows s') (te_id u) (overageIdemRef Llm (bp_key period))"
  using assms(1,2)
proof (cases rule: settle_tenant_cases)
  case (debited w amount cost nt rid)
  then show ?thesis by (simp add: settled_ref_def row_of_insert_def overage_insert_def)
next
  case (already rid)
  then show ?thesis by simp
next
  case free
  with assms(3) show ?thesis by simp
qed

lemma settle_tenant_recorded_final:
  assumes "inv s" "settled_ref (rows s) (te_id u) (overageIdemRef Llm (bp_key period))"
    and "settle_tenant append deps period n s u = (out, s')"
  shows "\<not> is_debited out \<and> s' = s"
  using assms(1,3)
proof (cases rule: settle_tenant_cases)
  case (debited w amount cost nt rid)
  with assms(2) show ?thesis by simp
qed (auto simp: is_debited_def)

lemma settle_loop_recorded:
  "inv s \<Longrightarrow> settle_loop append deps period n s ts = (rs, s') \<Longrightarrow>
   (\<exists>rs'. rows s' = rows s @ rs') \<and>
   (\<forall>r \<in> set rs. is_debited (sr_outcome r) \<or> is_already_settled (sr_outcome r) \<longrightarrow>
      settled_ref (rows s') (sr_tenantId r) (overageIdemRef Llm (bp_key period)))"
proof (induction ts arbitrary: n s rs s')
  case (Cons u ts)
  let ?ref = "overageIdemRef Llm (bp_key period)"
  obtain out s1 where 1: "settle_tenant append deps period n s u = (out, s1)" by fastforce
  obtain rs2 s2 where 2: "settle_loop append deps period (Suc n) s1 ts = (rs2, s2)" by fastforce
  from 1 2 Cons.prems(2) have s': "s' = s2"
    and rs: "rs = \<lparr>sr_tenantId = te_id u, sr_slug = te_slug u, sr_outcome = out\<rparr> # rs2" by simp_all
  from Cons.IH [OF settle_tenant_keeps [OF Cons.prems(1) 1] 2]
  obtain rs' where rs': "rows s2 = rows s1 @ rs'"
    and ih: "\<forall>r \<in> set rs2. is_debited (sr_outcome r) \<or> is_already_settled (sr_outcome r) \<longrightarrow>
      settled_ref (rows s2) (sr_tenantId r) ?ref" by blast
  from settle_tenant_rows [OF Cons.prems(1) 1] obtain rs1 where rs1: "rows s1 = rows s @ rs1" by blast
  have "is_debited out \<or> is_already_settled out \<longrightarrow> settled_ref (rows s2) (te_id u) ?ref"
    using settle_tenant_recorded [OF Cons.prems(1) 1] by (auto simp: rs' intro: settled_ref_mono)
  with ih rs1 rs' show ?case unfolding s' rs by simp
qed simp

lemma settle_loop_final:
  "inv s \<Longrightarrow> settle_loop append deps period n s ts = (rs, s') \<Longrightarrow>
   settled_ref (rows s) t (overageIdemRef Llm (bp_key period)) \<Longrightarrow>
   \<forall>r \<in> set rs. sr_tenantId r = t \<longrightarrow> \<not> is_debited (sr_outcome r)"
proof (induction ts arbitrary: n s rs s')
  case (Cons u ts)
  obtain out s1 where 1: "settle_tenant append deps period n s u = (out, s1)" by fastforce
  obtain rs2 s2 where 2: "settle_loop append deps period (Suc n) s1 ts = (rs2, s2)" by fastforce
  from 1 2 Cons.prems(2)
  have rs: "rs = \<lparr>sr_tenantId = te_id u, sr_slug = te_slug u, sr_outcome = out\<rparr> # rs2" by simp
  from settle_tenant_rows [OF Cons.prems(1) 1] Cons.prems(3)
  have "settled_ref (rows s1) t (overageIdemRef Llm (bp_key period))" by (auto intro: settled_ref_mono)
  with Cons.IH [OF settle_tenant_keeps [OF Cons.prems(1) 1] 2]
  have "\<forall>r \<in> set rs2. sr_tenantId r = t \<longrightarrow> \<not> is_debited (sr_outcome r)" by blast
  moreover have "te_id u = t \<longrightarrow> \<not> is_debited out"
    using settle_tenant_recorded_final [OF Cons.prems(1) _ 1] Cons.prems(3) by blast
  ultimately show ?case unfolding rs by simp
qed simp

end

section \<open>Properties of a run on the D1 ledger\<close>

lemma run_loop:
  assumes "runLlmSettlement app deps period tenants s = (rp, s')"
  shows "settle_loop app deps period 0 s
           (filter (\<lambda>t. te_deleted_at t = None \<or> te_deleted_at t = Some []) tenants) = (rp_rows rp, s')"
  using assms by (auto simp: runLlmSettlement_def Let_def split: prod.splits)

lemma length_settle_loop: "settle_loop app deps period n s ts = (rs, s') \<Longrightarrow> length rs = length ts"
  by (induction ts arbitrary: n s rs) (auto split: prod.splits)

lemma outcome_partition:
  "changes is_debited outs + changes is_already_settled outs + changes is_within outs
     + changes is_unbillable outs = length outs"
proof (induction outs)
  case (Cons out outs)
  then show ?case
    by (cases out) (simp_all add: is_debited_def is_already_settled_def is_within_def is_unbillable_def)
qed simp

text \<open>
  The report is the ledger.  After a settlement run, each tenant's settled balance went down by
  exactly what the rows of the report say was debited for it, the total is the sum of those amounts,
  and every live tenant was counted in exactly one of the four outcomes.
\<close>

theorem settlement_report_matches_ledger:
  assumes "credit_reachable ts db" "runLlmSettlement appendLedgerRow deps period tenants db = (rp, db')"
  shows "fst (readBalanceSums db' t) = fst (readBalanceSums db t)
           - sum_by (\<lambda>r. if sr_tenantId r = t then debited_amount (sr_outcome r) else 0) (rp_rows rp)
       \<and> rp_totalDebitedMicroUsd rp = sum_by (\<lambda>r. debited_amount (sr_outcome r)) (rp_rows rp)
       \<and> rp_debited rp + rp_alreadySettled rp + rp_within rp + rp_unbillable rp = rp_considered rp"
proof -
  note loop = run_loop [OF assms(2)]
  have sum_map: "sum_by debited_amount (map sr_outcome rs) = sum_by (\<lambda>r. debited_amount (sr_outcome r)) rs" for rs
    by (induction rs) simp_all
  have "settled_of (ledger db') t = settled_of (ledger db) t
      - sum_by (\<lambda>r. if sr_tenantId r = t then debited_amount (sr_outcome r) else 0) (rp_rows rp)"
    using credit_reachable_inv [OF assms(1)] loop by (rule d1.settle_loop_settled)
  moreover have "rp_totalDebitedMicroUsd rp = sum_by debited_amount (map sr_outcome (rp_rows rp))"
    "rp_debited rp + rp_alreadySettled rp + rp_within rp + rp_unbillable rp = length (rp_rows rp)"
    "rp_considered rp = length (rp_rows rp)"
    using assms(2) length_settle_loop [OF loop] outcome_partition [of "map sr_outcome (rp_rows rp)"]
    by (auto simp: runLlmSettlement_def Let_def split: prod.splits)
  ultimately show ?thesis by (simp add: readBalanceSums_eq sum_map)
qed

text \<open>
  C15: a period is billed once.  A tenant that one run debited, or found already settled, is never
  debited again for the same period by any later run, whatever its spend, allowance or census then is
  and whatever else the credit store did in between.
\<close>

theorem period_billed_once:
  assumes "credit_reachable ts db"
    and "runLlmSettlement appendLedgerRow deps period tenants db = (rp, db1)"
    and "credit_step\<^sup>*\<^sup>* db1 db2"
    and "runLlmSettlement appendLedgerRow deps' period' tenants' db2 = (rp', db3)"
    and "bp_key period' = bp_key period"
    and "r \<in> set (rp_rows rp)" "is_debited (sr_outcome r) \<or> is_already_settled (sr_outcome r)"
  shows "\<forall>r' \<in> set (rp_rows rp'). sr_tenantId r' = sr_tenantId r \<longrightarrow> \<not> is_debited (sr_outcome r')"
proof -
  note inv = credit_reachable_inv [OF assms(1)]
  have "settled_ref (ledger db1) (sr_tenantId r) (overageIdemRef Llm (bp_key period'))"
    using d1.settle_loop_recorded [OF inv run_loop [OF assms(2)]] assms(5-7) by auto
  then have rec: "settled_ref (ledger db2) (sr_tenantId r) (overageIdemRef Llm (bp_key period'))"
    using credit_steps_ledger [OF assms(3)] by (auto simp: settled_ref_def)
  have "credit_inv db2"
    using credit_steps_inv [OF assms(3)] d1.settle_loop_keeps [OF inv run_loop [OF assms(2)]] by blast
  from d1.settle_loop_final [OF this run_loop [OF assms(4)] rec] show ?thesis .
qed

lemma settle_loop_debits:
  "settle_loop app deps period n s ts = (rs, s') \<Longrightarrow> r \<in> set rs \<Longrightarrow> sr_outcome r = Debited amount ref rid \<Longrightarrow>
   \<exists>w cost nt. sd_readSpend deps (sr_tenantId r) (bp_windowStart period) (bp_windowEnd period) = Inr w \<and>
     decideOverageDebit Llm (meter_window.truncate w) (cost_micro_usd w) (sd_allowance deps) (bp_key period) =
       DebitOwed amount cost ref nt"
proof (induction ts arbitrary: n s rs s')
  case (Cons u ts)
  obtain out s1 where 1: "settle_tenant app deps period n s u = (out, s1)" by fastforce
  obtain rs2 s2 where 2: "settle_loop app deps period (Suc n) s1 ts = (rs2, s2)" by fastforce
  from 1 2 Cons.prems(1)
  have rs: "rs = \<lparr>sr_tenantId = te_id u, sr_slug = te_slug u, sr_outcome = out\<rparr> # rs2" by simp
  show ?case
  proof (cases "r \<in> set rs2")
    case True
    then show ?thesis using Cons.IH [OF 2 _ Cons.prems(3)] by simp
  next
    case False
    with Cons.prems(2,3) rs have "sr_tenantId r = te_id u" "out = Debited amount ref rid" by auto
    with 1 show ?thesis
      by (auto simp: settle_tenant_def settleMeterOverage_def
          split: sum.splits prod.splits debit_decision.splits bool.splits)
  qed
qed simp

text \<open>
  Only what was fully observed is billed, and only the overage.  Every debit a run reports comes
  from a complete window whose usage is a whole non-negative amount and from a configured whole
  allowance, is exactly the usage above that allowance, and is positive.
\<close>

theorem only_observed_overage_billed:
  assumes "runLlmSettlement app deps period tenants s = (rp, s')"
    and "r \<in> set (rp_rows rp)" "sr_outcome r = Debited amount ref rid"
  shows "\<exists>w used a allow.
     sd_readSpend deps (sr_tenantId r) (bp_windowStart period) (bp_windowEnd period) = Inr w
     \<and> window_complete w \<and> whole_amount (cost_micro_usd w) = Some used
     \<and> sd_allowance deps = Some a \<and> whole_amount a = Some allow
     \<and> amount = used - allow \<and> 0 < amount \<and> ref = overageIdemRef Llm (bp_key period)"
proof -
  obtain w cost nt where w: "sd_readSpend deps (sr_tenantId r) (bp_windowStart period) (bp_windowEnd period) = Inr w"
    and d: "decideOverageDebit Llm (meter_window.truncate w) (cost_micro_usd w) (sd_allowance deps) (bp_key period) =
       DebitOwed amount cost ref nt"
    using settle_loop_debits [OF run_loop [OF assms(1)] assms(2,3)] by blast
  from d obtain a allow where "window_complete (meter_window.truncate w)"
    "whole_amount (cost_micro_usd w) = Some cost" "sd_allowance deps = Some a" "whole_amount a = Some allow"
    "allow < cost" "amount = cost - allow" "ref = overageIdemRef Llm (bp_key period)"
    by (rule decideOverageDebit_owed)
  with w show ?thesis by (auto simp: meter_window.truncate_def)
qed

section \<open>A settlement run evaluated\<close>

definition ex_window :: "int \<Rightarrow> llm_spend_window" where
  "ex_window n = \<lparr>window_start = ''2026-07-01T00:00:00.000Z'', window_end = ''2026-08-01T00:00:00.000Z'',
     window_complete = True, window_reason = None, cost_micro_usd = num_of_int n, requests = 3,
     window_periods = 2, unpriced_requests = 0\<rparr>"

definition ex_deps :: settlement_deps where
  "ex_deps = \<lparr>sd_readSpend = (\<lambda>t a b. Inr (ex_window 7)), sd_allowance = Some (num_of_int 5),
     sd_censusComplete = (\<lambda>n. True), sd_newId = (\<lambda>n. ''led_'' @ show_nat n), sd_now = (\<lambda>n. ex_now)\<rparr>"

definition ex_period :: billing_period where
  "ex_period = \<lparr>bp_key = ''2026-07'', bp_windowStart = ''2026-07-01T00:00:00.000Z'',
     bp_windowEnd = ''2026-08-01T00:00:00.000Z''\<rparr>"

definition ex_tenants :: "tenant_entry list" where
  "ex_tenants = [\<lparr>te_id = ''ten_a'', te_slug = Some ''a'', te_deleted_at = None\<rparr>]"

definition ex_row :: settlement_row where
  "ex_row = \<lparr>sr_tenantId = ''ten_a'', sr_slug = Some ''a'',
     sr_outcome = Debited 2 (overageIdemRef Llm ''2026-07'') ''led_0''\<rparr>"

abbreviation "ex_run \<equiv> runLlmSettlement appendLedgerRow ex_deps ex_period ex_tenants ex_db0"

lemma ex_run_rows: "rp_rows (fst ex_run) = [ex_row]"
  by code_simp

theorem settlement_report_matches_ledger_witness:
  "fst (readBalanceSums (snd ex_run) ''ten_a'') = -2"
proof -
  have "fst (readBalanceSums ex_db0 ''ten_a'') = 0" by code_simp
  then show ?thesis
    using settlement_report_matches_ledger [OF ex_reach0 surjective_pairing, of ex_deps ex_period ex_tenants "''ten_a''"]
    by (simp add: ex_run_rows ex_row_def debited_amount_def)
qed

theorem period_billed_once_witness:
  "filter (\<lambda>r'. sr_tenantId r' = ''ten_a'' \<and> is_debited (sr_outcome r'))
     (rp_rows (fst (runLlmSettlement appendLedgerRow ex_deps ex_period ex_tenants (snd ex_run)))) = []"
proof -
  have "ex_row \<in> set (rp_rows (fst ex_run))" by (simp add: ex_run_rows)
  moreover have "is_debited (sr_outcome ex_row) \<or> is_already_settled (sr_outcome ex_row)"
    by (simp add: ex_row_def is_debited_def)
  ultimately have "\<forall>r' \<in> set (rp_rows (fst (runLlmSettlement appendLedgerRow ex_deps ex_period ex_tenants (snd ex_run)))).
     sr_tenantId r' = sr_tenantId ex_row \<longrightarrow> \<not> is_debited (sr_outcome r')"
    by (rule period_billed_once [OF ex_reach0 surjective_pairing rtranclp.rtrancl_refl surjective_pairing refl])
  then show ?thesis by (simp add: ex_row_def filter_empty_conv)
qed

theorem only_observed_overage_billed_witness:
  "\<exists>w. sd_readSpend ex_deps ''ten_a'' (bp_windowStart ex_period) (bp_windowEnd ex_period) = Inr w \<and> window_complete w"
proof -
  have "ex_row \<in> set (rp_rows (fst ex_run))" by (simp add: ex_run_rows)
  moreover have "sr_outcome ex_row = Debited 2 (overageIdemRef Llm ''2026-07'') ''led_0''"
    by (simp add: ex_row_def)
  ultimately show ?thesis
    using only_observed_overage_billed [OF surjective_pairing, of ex_row appendLedgerRow ex_deps ex_period
        ex_tenants ex_db0] by (auto simp: ex_row_def)
qed

end
