(* ===== verification/Dates.thy ===== *)
theory Dates
  imports Prelude
begin

text \<open>
  The part of ECMAScript's \<^verbatim>\<open>Date\<close> the sources use: a time value is an integer number of milliseconds
  since 1970 (UTC); \<^verbatim>\<open>getUTCFullYear\<close>, \<^verbatim>\<open>getUTCMonth\<close>, \<^verbatim>\<open>Date.UTC\<close>, \<^verbatim>\<open>toISOString\<close>, and
  \<^verbatim>\<open>Date.parse\<close> of what \<^verbatim>\<open>toISOString\<close> prints.  Almost every comparison of times in the store is a
  comparison of such strings, so the theory ends with the fact that their order is that of the times.
\<close>

section \<open>Calendar arithmetic\<close>

definition ms_per_day :: int where
  "ms_per_day = 86400000"

definition leap :: "int \<Rightarrow> bool" where
  "leap y \<longleftrightarrow> y mod 4 = 0 \<and> (y mod 100 \<noteq> 0 \<or> y mod 400 = 0)"

definition day_from_year :: "int \<Rightarrow> int" where
  "day_from_year y = 365 * (y - 1970) + (y - 1969) div 4 - (y - 1901) div 100 + (y - 1601) div 400"

text \<open>The year a day lies in: an estimate from the mean length of a year, off by at most one.\<close>

definition year_of_day :: "int \<Rightarrow> int" where
  "year_of_day d =
     (let y = 1970 + d * 400 div 146097 in
      if d < day_from_year y then y - 1 else if day_from_year (y + 1) \<le> d then y + 1 else y)"

definition days_before_month :: "bool \<Rightarrow> int \<Rightarrow> int" where
  "days_before_month l m =
     (if m \<le> 0 then 0 else if m = 1 then 31
      else (if l then 1 else 0) +
        (if m = 2 then 59 else if m = 3 then 90 else if m = 4 then 120 else if m = 5 then 151
         else if m = 6 then 181 else if m = 7 then 212 else if m = 8 then 243 else if m = 9 then 273
         else if m = 10 then 304 else if m = 11 then 334 else 365))"

definition month_of_day :: "bool \<Rightarrow> int \<Rightarrow> int" where
  "month_of_day l n =
     (if n < days_before_month l 1 then 0 else if n < days_before_month l 2 then 1
      else if n < days_before_month l 3 then 2 else if n < days_before_month l 4 then 3
      else if n < days_before_month l 5 then 4 else if n < days_before_month l 6 then 5
      else if n < days_before_month l 7 then 6 else if n < days_before_month l 8 then 7
      else if n < days_before_month l 9 then 8 else if n < days_before_month l 10 then 9
      else if n < days_before_month l 11 then 10 else 11)"

definition getUTCFullYear :: "int \<Rightarrow> int" where
  "getUTCFullYear t = year_of_day (t div ms_per_day)"

definition getUTCMonth :: "int \<Rightarrow> int" where
  "getUTCMonth t =
     (let d = t div ms_per_day; y = year_of_day d in month_of_day (leap y) (d - day_from_year y))"

definition getUTCDate :: "int \<Rightarrow> int" where
  "getUTCDate t =
     (let d = t div ms_per_day; y = year_of_day d; n = d - day_from_year y
      in n - days_before_month (leap y) (month_of_day (leap y) n) + 1)"

text \<open>\<^verbatim>\<open>Date.UTC(y, m, 1)\<close>: months outside 0..11 carry into the year, years 0..99 mean 1900..1999.\<close>

definition make_day :: "int \<Rightarrow> int \<Rightarrow> int" where
  "make_day y m =
     (let ym = y + m div 12 in day_from_year ym + days_before_month (leap ym) (m mod 12))"

definition Date_UTC :: "int \<Rightarrow> int \<Rightarrow> int" where
  "Date_UTC y m = make_day (if 0 \<le> y \<and> y \<le> 99 then 1900 + y else y) m * ms_per_day"

section \<open>ISO strings\<close>

definition iso_year :: "int \<Rightarrow> string" where
  "iso_year y =
     (if 0 \<le> y \<and> y \<le> 9999 then fixed_nat 4 (nat y)
      else (if y < 0 then ''-'' else ''+'') @ fixed_nat 6 (nat \<bar>y\<bar>))"

definition iso_clock :: "int \<Rightarrow> string" where
  "iso_clock s =
     fixed_nat 2 (nat (s div 3600000)) @ '':'' @ fixed_nat 2 (nat (s div 60000 mod 60)) @ '':''
     @ fixed_nat 2 (nat (s div 1000 mod 60)) @ ''.'' @ fixed_nat 3 (nat (s mod 1000)) @ ''Z''"

definition toISOString :: "int \<Rightarrow> string" where
  "toISOString t =
     iso_year (getUTCFullYear t) @ ''-'' @ fixed_nat 2 (nat (getUTCMonth t + 1)) @ ''-''
     @ fixed_nat 2 (nat (getUTCDate t)) @ ''T'' @ iso_clock (t mod ms_per_day)"

text \<open>\<^verbatim>\<open>Date.parse\<close> on the strings \<^verbatim>\<open>toISOString\<close> prints: a year of four digits, or a sign and six.\<close>

definition Date_parse :: "string \<Rightarrow> int" where
  "Date_parse s =
     (let ext = (hd s = CHR ''+'' \<or> hd s = CHR ''-'');
          y = (if ext then (if hd s = CHR ''-'' then -1 else 1) * int (read_nat (take 6 (drop 1 s)))
               else int (read_nat (take 4 s)));
          r = drop (if ext then 7 else 4) s;
          f = (\<lambda>i n. int (read_nat (take n (drop i r))))
      in (make_day y (f 1 2 - 1) + f 4 2 - 1) * ms_per_day
         + f 7 2 * 3600000 + f 10 2 * 60000 + f 13 2 * 1000 + f 16 3)"

section \<open>Years and months of a day\<close>

lemma div_Suc_int:
  assumes "0 < (c::int)"
  shows "(x + 1) div c = x div c + (if c dvd x + 1 then 1 else 0)"
proof -
  have x: "x = c * (x div c) + x mod c" "0 \<le> x mod c" "x mod c < c" using assms by simp_all
  show ?thesis
  proof (cases "x mod c = c - 1")
    case True
    with x(1) have e: "x + 1 = c * (x div c + 1)" by (simp add: algebra_simps)
    then have "(x + 1) div c = x div c + 1" using assms by (metis nonzero_mult_div_cancel_left order_less_irrefl)
    moreover have "c dvd x + 1" using e by simp
    ultimately show ?thesis by simp
  next
    case False
    have "x + 1 = c * (x div c) + (x mod c + 1)" using x(1) by simp
    moreover have "0 \<le> x mod c + 1" "x mod c + 1 < c" using x False by linarith+
    ultimately have d: "(x + 1) div c = x div c" "(x + 1) mod c = x mod c + 1"
      by (rule int_div_pos_eq, rule int_mod_pos_eq)
    then have "\<not> c dvd x + 1" using x(2) by (simp add: dvd_eq_mod_eq_0)
    with d show ?thesis by simp
  qed
qed

lemma leap_sum:
  fixes A B C y :: int
  assumes "r \<longrightarrow> q" "q \<longrightarrow> p"
  shows "365 * (y + 1 - 1970) + (A + (if p then 1 else 0)) - (B + (if q then 1 else 0)) + (C + (if r then 1 else 0)) =
         365 * (y - 1970) + A - B + C + 365 + (if p \<and> (\<not> q \<or> r) then 1 else 0)"
  using assms by (cases p; cases q; cases r) simp_all

lemma day_from_year_Suc: "day_from_year (y + 1) = day_from_year y + 365 + (if leap y then 1 else 0)"
proof -
  have 4: "(y + 1 - 1969) div 4 = (y - 1969) div 4 + (if 4 dvd y - 1968 then 1 else 0)"
    using div_Suc_int [of 4 "y - 1969"] by (simp add: algebra_simps)
  have 100: "(y + 1 - 1901) div 100 = (y - 1901) div 100 + (if 100 dvd y - 1900 then 1 else 0)"
    using div_Suc_int [of 100 "y - 1901"] by (simp add: algebra_simps)
  have 400: "(y + 1 - 1601) div 400 = (y - 1601) div 400 + (if 400 dvd y - 1600 then 1 else 0)"
    using div_Suc_int [of 400 "y - 1601"] by (simp add: algebra_simps)
  have d: "4 dvd y - 1968 \<longleftrightarrow> 4 dvd y" "100 dvd y - 1900 \<longleftrightarrow> 100 dvd y" "400 dvd y - 1600 \<longleftrightarrow> 400 dvd y"
    by (rule dvd_diff_left_iff, simp)+
  have "400 dvd y \<Longrightarrow> 100 dvd y" "100 dvd y \<Longrightarrow> 4 dvd y"
    using dvd_trans [of 100 400 y] dvd_trans [of 4 100 y] by simp_all
  then have l: "leap y \<longleftrightarrow> 4 dvd y \<and> (\<not> 100 dvd y \<or> 400 dvd y)"
    by (auto simp: leap_def dvd_eq_mod_eq_0)
  show ?thesis
    unfolding day_from_year_def 4 100 400 d l
    by (rule leap_sum) (use \<open>400 dvd y \<Longrightarrow> 100 dvd y\<close> \<open>100 dvd y \<Longrightarrow> 4 dvd y\<close> in blast)+
qed

lemma day_from_year_less: "y < z \<Longrightarrow> day_from_year y < day_from_year z"
  by (induction z rule: int_gr_induct) (simp_all add: day_from_year_Suc)

lemma day_from_year_mono: "y \<le> z \<Longrightarrow> day_from_year y \<le> day_from_year z"
  using day_from_year_less [of y z] by (cases "y = z") auto

lemma day_from_year_bounds:
  "400 * day_from_year y \<le> 146097 * (y - 1970) + 591"
  "146097 * (y - 1970) - 514 \<le> 400 * day_from_year y"
proof -
  have le: "x div c * c \<le> x" "x < x div c * c + c" if "0 < c" for x c :: int
    using div_mult_mod_eq [of x c] pos_mod_bound [OF that, of x] pos_mod_sign [OF that, of x]
    by linarith+
  have "(y - 1969) div 4 * 4 \<le> y - 1969" "y - 1969 < (y - 1969) div 4 * 4 + 4"
    "(y - 1901) div 100 * 100 \<le> y - 1901" "y - 1901 < (y - 1901) div 100 * 100 + 100"
    "(y - 1601) div 400 * 400 \<le> y - 1601" "y - 1601 < (y - 1601) div 400 * 400 + 400"
    by (rule le; simp)+
  then show "400 * day_from_year y \<le> 146097 * (y - 1970) + 591"
    "146097 * (y - 1970) - 514 \<le> 400 * day_from_year y"
    unfolding day_from_year_def by simp_all
qed

lemma year_of_day: "day_from_year (year_of_day d) \<le> d \<and> d < day_from_year (year_of_day d + 1)"
proof -
  define k where "k = d * 400 div 146097"
  have k: "146097 * k \<le> d * 400" "d * 400 < 146097 * k + 146097" 
    using div_mult_mod_eq [of "d * 400" 146097] pos_mod_bound [of 146097 "d * 400"]
      pos_mod_sign [of 146097 "d * 400"] unfolding k_def by linarith+
  have lo: "day_from_year (1970 + k - 1) \<le> d"
    using day_from_year_bounds(1) [of "1970 + k - 1"] k by simp
  have hi: "d < day_from_year (1970 + k + 1 + 1)"
    using day_from_year_bounds(2) [of "1970 + k + 1 + 1"] k by simp
  show ?thesis
  proof (cases "d < day_from_year (1970 + k)")
    case True
    with lo show ?thesis by (simp add: year_of_day_def Let_def k_def)
  next
    case False
    with hi show ?thesis by (simp add: year_of_day_def Let_def k_def)
  qed
qed

lemma year_of_day_unique:
  assumes "day_from_year y \<le> d" "d < day_from_year (y + 1)"
  shows "year_of_day d = y"
proof (rule ccontr)
  assume "year_of_day d \<noteq> y"
  then consider "year_of_day d + 1 \<le> y" | "y + 1 \<le> year_of_day d" by linarith
  then show False
    using assms year_of_day [of d] day_from_year_mono [of "year_of_day d + 1" y]
      day_from_year_mono [of "y + 1" "year_of_day d"] by cases linarith+
qed

lemma month_cases:
  fixes m :: int
  assumes "0 \<le> m" "m < 12"
  shows "m = 0 \<or> m = 1 \<or> m = 2 \<or> m = 3 \<or> m = 4 \<or> m = 5 \<or> m = 6 \<or> m = 7 \<or> m = 8 \<or> m = 9 \<or> m = 10 \<or> m = 11"
  using assms by presburger

lemma month_of_day:
  assumes "0 \<le> n" "n < 365 + (if l then 1 else 0)"
  shows "0 \<le> month_of_day l n \<and> month_of_day l n < 12
       \<and> days_before_month l (month_of_day l n) \<le> n \<and> n < days_before_month l (month_of_day l n + 1)"
  using assms unfolding month_of_day_def
  by (cases l) (simp_all add: days_before_month_def)

lemma days_before_month_Suc: "days_before_month l m \<le> days_before_month l (m + 1)"
  by (cases l) (auto simp: days_before_month_def)

lemma days_before_month_mono: "m \<le> k \<Longrightarrow> days_before_month l m \<le> days_before_month l k"
proof (induction k rule: int_ge_induct)
  case (step i)
  then show ?case using days_before_month_Suc [of l i] by linarith
qed simp

lemma month_of_day_unique:
  assumes "0 \<le> m" "m < 12" "days_before_month l m \<le> n" "n < days_before_month l (m + 1)"
  shows "month_of_day l n = m"
proof (rule ccontr)
  have "0 \<le> n" "n < 365 + (if l then 1 else 0)"
    using assms days_before_month_mono [of 0 m l] days_before_month_mono [of "m + 1" 12 l]
    by (auto simp: days_before_month_def split: if_splits)
  note mo = month_of_day [OF this]
  assume "month_of_day l n \<noteq> m"
  then consider "month_of_day l n + 1 \<le> m" | "m + 1 \<le> month_of_day l n" by linarith
  then show False
    using assms mo days_before_month_mono [of "month_of_day l n + 1" m l]
      days_before_month_mono [of "m + 1" "month_of_day l n" l] by cases linarith+
qed

section \<open>Fields of a time value\<close>

lemma month_length: "0 \<le> m \<Longrightarrow> m < 12 \<Longrightarrow> days_before_month l (m + 1) \<le> days_before_month l m + 31"
  using month_cases [of m] by (cases l) (auto simp: days_before_month_def)

lemma make_day_month: "0 \<le> m \<Longrightarrow> m < 12 \<Longrightarrow> make_day y m = day_from_year y + days_before_month (leap y) m"
  by (simp add: make_day_def)

lemma make_day_12: "make_day y 12 = day_from_year (y + 1)"
  by (simp add: make_day_def days_before_month_def)

lemma days_before_month_12: "days_before_month l 12 = 365 + (if l then 1 else 0)"
  by (simp add: days_before_month_def)

lemma fields:
  fixes t :: int
  defines "y \<equiv> getUTCFullYear t" and "m \<equiv> getUTCMonth t"
  shows "0 \<le> m" "m < 12" "make_day y m \<le> t div ms_per_day" "t div ms_per_day < make_day y (m + 1)"
    and "1 \<le> getUTCDate t" "getUTCDate t \<le> 31" "t div ms_per_day = make_day y m + getUTCDate t - 1"
proof -
  let ?d = "t div ms_per_day"
  let ?n = "?d - day_from_year y"
  have y: "day_from_year y \<le> ?d" "?d < day_from_year y + 365 + (if leap y then 1 else 0)"
    using year_of_day [of ?d] by (simp_all add: y_def getUTCFullYear_def day_from_year_Suc)
  have m_eq: "m = month_of_day (leap y) ?n" by (simp add: m_def y_def getUTCMonth_def getUTCFullYear_def Let_def)
  have n: "0 \<le> ?n" "?n < 365 + (if leap y then 1 else 0)" using y by simp_all
  show m: "0 \<le> m" "m < 12" using month_of_day [OF n] by (simp_all add: m_eq)
  have b: "days_before_month (leap y) m \<le> ?n" "?n < days_before_month (leap y) (m + 1)"
    using month_of_day [OF n] by (simp_all add: m_eq)
  then show lo: "make_day y m \<le> ?d" using m by (simp add: make_day_month)
  show "?d < make_day y (m + 1)"
  proof (cases "m = 11")
    case True
    with y show ?thesis by (simp add: make_day_12 day_from_year_Suc)
  next
    case False
    with b m show ?thesis by (simp add: make_day_month)
  qed
  have date: "getUTCDate t = ?n - days_before_month (leap y) m + 1"
    by (simp add: getUTCDate_def m_eq y_def getUTCFullYear_def Let_def)
  show "1 \<le> getUTCDate t" "getUTCDate t \<le> 31"
    using b month_length [OF m, of "leap y"] by (simp_all add: date)
  show "?d = make_day y m + getUTCDate t - 1" using m by (simp add: date make_day_month)
qed

text \<open>A time value inside a month has that month's year and month.\<close>

lemma fields_unique:
  assumes "0 \<le> m" "m < 12" "make_day y m \<le> t div ms_per_day" "t div ms_per_day < make_day y (m + 1)"
  shows "getUTCFullYear t = y" "getUTCMonth t = m"
proof -
  let ?d = "t div ms_per_day"
  have end_month: "make_day y (m + 1) = day_from_year y + days_before_month (leap y) (m + 1)"
    using assms(1,2)
    by (cases "m = 11") (simp_all add: make_day_12 make_day_month day_from_year_Suc days_before_month_12)
  have lo: "0 \<le> days_before_month (leap y) m"
    using days_before_month_mono [OF assms(1)] by (simp add: days_before_month_def)
  have hi: "days_before_month (leap y) (m + 1) \<le> 365 + (if leap y then 1 else 0)"
    using days_before_month_mono [of "m + 1" 12 "leap y"] assms(2) by (simp add: days_before_month_12)
  have "day_from_year y \<le> ?d" "?d < day_from_year (y + 1)"
    using assms(3,4) lo hi by (simp_all add: end_month make_day_month assms(1,2) day_from_year_Suc)
  then show y: "getUTCFullYear t = y" unfolding getUTCFullYear_def by (rule year_of_day_unique)
  have "month_of_day (leap y) (?d - day_from_year y) = m"
    using assms by (intro month_of_day_unique) (simp_all add: end_month make_day_month)
  then show "getUTCMonth t = m"
    using y by (simp add: getUTCMonth_def getUTCFullYear_def Let_def)
qed

lemma clock_fields:
  fixes s :: int
  assumes "0 \<le> s" "s < ms_per_day"
  shows "s div 3600000 * 3600000 + s div 60000 mod 60 * 60000 + s div 1000 mod 60 * 1000 + s mod 1000 = s"
    and "0 \<le> s div 3600000" "s div 3600000 < 24"
proof -
  have q: "s div 60000 = s div 1000 div 60" "s div 3600000 = s div 1000 div 60 div 60"
    by (simp_all add: zdiv_zmult2_eq [symmetric])
  have "s div 1000 * 1000 + s mod 1000 = s" "s div 1000 div 60 * 60 + s div 1000 mod 60 = s div 1000"
    "s div 1000 div 60 div 60 * 60 + s div 1000 div 60 mod 60 = s div 1000 div 60"
    by (rule div_mult_mod_eq)+
  then show "s div 3600000 * 3600000 + s div 60000 mod 60 * 60000 + s div 1000 mod 60 * 1000 + s mod 1000 = s"
    unfolding q by linarith
  show "0 \<le> s div 3600000" "s div 3600000 < 24"
    using assms by (simp_all add: ms_per_day_def pos_imp_zdiv_nonneg_iff div_less_iff_less_mult zdiv_mono_strict)
qed

section \<open>ISO strings denote times\<close>

definition four_digit_year :: "int \<Rightarrow> bool" where
  "four_digit_year t \<longleftrightarrow> 0 \<le> getUTCFullYear t \<and> getUTCFullYear t \<le> 9999"

lemma iso_year_digits: "0 \<le> y \<Longrightarrow> y \<le> 9999 \<Longrightarrow> iso_year y = fixed_nat 4 (nat y)"
  by (simp add: iso_year_def)

lemma hd_fixed_nat: "0 < w \<Longrightarrow> is_digit (hd (fixed_nat w n))"
  using set_fixed_nat [of "hd (fixed_nat w n)" w n] by (simp add: length_greater_0_conv [symmetric] del: length_greater_0_conv)

lemma Date_parse_fields:
  assumes "length A = 4" "length B = 2" "length C = 2" "length D = 2" "length E = 2" "length F = 2" "length G = 3"
    and "hd A \<noteq> CHR ''+''" "hd A \<noteq> CHR ''-''"
  shows "Date_parse (A @ ''-'' @ B @ ''-'' @ C @ ''T'' @ D @ '':'' @ E @ '':'' @ F @ ''.'' @ G @ ''Z'') =
    (make_day (int (read_nat A)) (int (read_nat B) - 1) + int (read_nat C) - 1) * ms_per_day
      + int (read_nat D) * 3600000 + int (read_nat E) * 60000 + int (read_nat F) * 1000 + int (read_nat G)"
proof -
  let ?r = "''-'' @ B @ ''-'' @ C @ ''T'' @ D @ '':'' @ E @ '':'' @ F @ ''.'' @ G @ ''Z''"
  have ne: "A \<noteq> []" using assms(1) by auto
  have year: "take 4 (A @ ?r) = A" "drop 4 (A @ ?r) = ?r" using assms(1) by simp_all
  have parts: "take 2 (drop 1 ?r) = B" "take 2 (drop 4 ?r) = C" "take 2 (drop 7 ?r) = D"
    "take 2 (drop 10 ?r) = E" "take 2 (drop 13 ?r) = F" "take 3 (drop 16 ?r) = G"
    using assms(2-7) by simp_all
  have sign: "(hd (A @ ?r) = CHR ''+'' \<or> hd (A @ ?r) = CHR ''-'') = False"
    using assms(8,9) ne by simp
  show ?thesis
    unfolding Date_parse_def Let_def sign if_False year parts by (rule refl)
qed

lemma Date_parse_toISOString:
  assumes "four_digit_year t"
  shows "Date_parse (toISOString t) = t"
proof -
  let ?y = "getUTCFullYear t" and ?m = "getUTCMonth t" and ?c = "t mod ms_per_day"
  have y: "0 \<le> ?y" "?y \<le> 9999" using assms by (simp_all add: four_digit_year_def)
  have c: "0 \<le> ?c" "?c < ms_per_day" by (simp_all add: ms_per_day_def)
  note f = fields [of t] and k = clock_fields [OF c]
  have m60: "0 \<le> ?c div 60000 mod 60" "?c div 60000 mod 60 < 60" "0 \<le> ?c div 1000 mod 60"
    "?c div 1000 mod 60 < 60" "0 \<le> ?c mod 1000" "?c mod 1000 < 1000" by simp_all
  have rd: "int (read_nat (fixed_nat w (nat n))) = n" if "0 \<le> n" "nat n < 10 ^ w" for n w
    using that by (simp add: read_nat_fixed)
  have rd2: "int (read_nat (fixed_nat 2 (nat n))) = n" if "0 \<le> n" "n < 100" for n
    using that by (intro rd) (simp_all add: nat_less_iff)
  have rd3: "int (read_nat (fixed_nat 3 (nat n))) = n" if "0 \<le> n" "n < 1000" for n
    using that by (intro rd) (simp_all add: nat_less_iff)
  have rd4: "int (read_nat (fixed_nat 4 (nat n))) = n" if "0 \<le> n" "n \<le> 9999" for n
    using that by (intro rd) (simp_all add: nat_less_iff)
  have reads: "int (read_nat (fixed_nat 4 (nat ?y))) = ?y" "int (read_nat (fixed_nat 2 (nat (?m + 1)))) = ?m + 1"
    "int (read_nat (fixed_nat 2 (nat (getUTCDate t)))) = getUTCDate t"
    "int (read_nat (fixed_nat 2 (nat (?c div 3600000)))) = ?c div 3600000"
    "int (read_nat (fixed_nat 2 (nat (?c div 60000 mod 60)))) = ?c div 60000 mod 60"
    "int (read_nat (fixed_nat 2 (nat (?c div 1000 mod 60)))) = ?c div 1000 mod 60"
    "int (read_nat (fixed_nat 3 (nat (?c mod 1000)))) = ?c mod 1000"
    using y f(1,2,5,6) k(2,3) m60 by (intro rd4 rd2 rd3; linarith)+
  have "is_digit (hd (fixed_nat 4 (nat ?y)))" by (rule hd_fixed_nat) simp
  then have sign: "hd (fixed_nat 4 (nat ?y)) \<noteq> CHR ''+''" "hd (fixed_nat 4 (nat ?y)) \<noteq> CHR ''-''"
    by (auto simp: is_digit_def)
  have "Date_parse (toISOString t) = (make_day ?y (?m + 1 - 1) + getUTCDate t - 1) * ms_per_day
      + ?c div 3600000 * 3600000 + ?c div 60000 mod 60 * 60000 + ?c div 1000 mod 60 * 1000 + ?c mod 1000"
    unfolding toISOString_def iso_clock_def iso_year_digits [OF y]
    by (subst Date_parse_fields) (simp_all only: length_fixed_nat reads sign not_False_eq_True)
  also have "make_day ?y (?m + 1 - 1) + getUTCDate t - 1 = t div ms_per_day"
    unfolding add_diff_cancel_right' using f(7) by linarith
  also have "t div ms_per_day * ms_per_day + ?c div 3600000 * 3600000 + ?c div 60000 mod 60 * 60000
      + ?c div 1000 mod 60 * 1000 + ?c mod 1000 = t div ms_per_day * ms_per_day + ?c"
    using k(1) by linarith
  finally show ?thesis by (simp only: div_mult_mod_eq)
qed

section \<open>ISO strings are ordered as times\<close>

lemma fixed_nat_less_int:
  assumes "0 \<le> a" "a < 10 ^ w" "0 \<le> b" "b < 10 ^ w"
  shows "fixed_nat w (nat a) < fixed_nat w (nat b) \<longleftrightarrow> a < b"
    and "fixed_nat w (nat a) = fixed_nat w (nat b) \<longleftrightarrow> a = b"
proof -
  have n: "nat a < 10 ^ w" "nat b < 10 ^ w" using assms by (simp_all add: nat_less_iff)
  show "fixed_nat w (nat a) < fixed_nat w (nat b) \<longleftrightarrow> a < b"
    using fixed_nat_less [OF n] assms by linarith
  show "fixed_nat w (nat a) = fixed_nat w (nat b) \<longleftrightarrow> a = b"
    using fixed_nat_inject [OF n] assms by (metis nat_eq_iff2)
qed

lemma clock_lex:
  fixes s s' :: int
  assumes "0 \<le> s" "s < s'" "s' < ms_per_day"
  shows "s div 3600000 < s' div 3600000 \<or> s div 3600000 = s' div 3600000 \<and>
    (s div 60000 mod 60 < s' div 60000 mod 60 \<or> s div 60000 mod 60 = s' div 60000 mod 60 \<and>
     (s div 1000 mod 60 < s' div 1000 mod 60 \<or> s div 1000 mod 60 = s' div 1000 mod 60 \<and>
      s mod 1000 < s' mod 1000))"
proof -
  define h m c k h' m' c' k' where
    "h = s div 3600000" "m = s div 60000 mod 60" "c = s div 1000 mod 60" "k = s mod 1000"
    "h' = s' div 3600000" "m' = s' div 60000 mod 60" "c' = s' div 1000 mod 60" "k' = s' mod 1000"
  note d = this
  have e: "h * 3600000 + m * 60000 + c * 1000 + k = s" "h' * 3600000 + m' * 60000 + c' * 1000 + k' = s'"
    unfolding d by (rule clock_fields(1); use assms in linarith)+
  have b: "0 \<le> m" "m < 60" "0 \<le> c" "c < 60" "0 \<le> k" "k < 1000" "0 \<le> m'" "m' < 60" "0 \<le> c'" "c' < 60" "0 \<le> k'" "k' < 1000"
    unfolding d by simp_all
  show ?thesis
    unfolding d [symmetric]
  proof (rule ccontr)
    assume "\<not> (h < h' \<or> h = h' \<and> (m < m' \<or> m = m' \<and> (c < c' \<or> c = c' \<and> k < k')))"
    then consider "h' + 1 \<le> h" | "h = h'" "m' + 1 \<le> m" | "h = h'" "m = m'" "c' + 1 \<le> c"
      | "h = h'" "m = m'" "c = c'" "k' \<le> k" by linarith
    then show False using e b assms(2) by cases linarith+
  qed
qed

lemma iso_clock_less:
  assumes "0 \<le> s" "s < s'" "s' < ms_per_day"
  shows "iso_clock s < iso_clock s'"
proof -
  have h: "0 \<le> s div 3600000" "s div 3600000 < 10 ^ 2" "0 \<le> s' div 3600000" "s' div 3600000 < 10 ^ 2"
    using assms by (intro clock_fields(2) less_trans [OF clock_fields(3)]; simp)+
  have m: "0 \<le> (x::int) mod 60" "x mod 60 < 10 ^ 2" for x
    using less_trans [OF pos_mod_bound [of 60 x], of "10 ^ 2"] by simp_all
  have k: "0 \<le> (x::int) mod 1000" "x mod 1000 < 10 ^ 3" for x
    by simp_all
  show ?thesis
    using clock_lex [OF assms] unfolding iso_clock_def
    by (simp only: less_append_same_length length_fixed_nat fixed_nat_less_int [OF h]
        fixed_nat_less_int [OF m m] fixed_nat_less_int [OF k k] less_irrefl simp_thms)
qed

lemma day_lex:
  fixes t u :: int
  assumes "t div ms_per_day < u div ms_per_day"
  shows "getUTCFullYear t < getUTCFullYear u \<or> getUTCFullYear t = getUTCFullYear u \<and>
    (getUTCMonth t < getUTCMonth u \<or> getUTCMonth t = getUTCMonth u \<and> getUTCDate t < getUTCDate u)"
proof -
  note ft = fields [of t] and fu = fields [of u]
  have yt: "day_from_year (getUTCFullYear t) \<le> t div ms_per_day"
    and yu: "u div ms_per_day < day_from_year (getUTCFullYear u + 1)"
    using year_of_day [of "t div ms_per_day"] year_of_day [of "u div ms_per_day"]
    by (simp_all add: getUTCFullYear_def)
  show ?thesis
  proof (cases "getUTCFullYear t" "getUTCFullYear u" rule: linorder_cases)
    case greater
    then have "day_from_year (getUTCFullYear u + 1) \<le> day_from_year (getUTCFullYear t)"
      by (intro day_from_year_mono) linarith
    with yt yu assms show ?thesis by linarith
  next
    case equal
    show ?thesis
    proof (cases "getUTCMonth t" "getUTCMonth u" rule: linorder_cases)
      case greater
      then have "days_before_month (leap (getUTCFullYear u)) (getUTCMonth u + 1)
          \<le> days_before_month (leap (getUTCFullYear u)) (getUTCMonth t)"
        by (intro days_before_month_mono) linarith
      then have "make_day (getUTCFullYear u) (getUTCMonth u + 1) \<le> make_day (getUTCFullYear t) (getUTCMonth t)"
        using greater ft(1,2) fu(1,2) equal by (simp add: make_day_month)
      with ft(3) fu(4) assms show ?thesis by linarith
    next
      case equal
      with \<open>getUTCFullYear t = getUTCFullYear u\<close> ft(7) fu(7) assms have "getUTCDate t < getUTCDate u"
        by simp
      with equal \<open>getUTCFullYear t = getUTCFullYear u\<close> show ?thesis by simp
    qed (use equal in simp)
  qed simp
qed

lemma toISOString_less_same_day:
  assumes "t div ms_per_day = u div ms_per_day" "t < u"
  shows "toISOString t < toISOString u"
proof -
  have "getUTCFullYear t = getUTCFullYear u" "getUTCMonth t = getUTCMonth u" "getUTCDate t = getUTCDate u"
    by (simp_all add: getUTCFullYear_def getUTCMonth_def getUTCDate_def assms(1))
  moreover have "iso_clock (t mod ms_per_day) < iso_clock (u mod ms_per_day)"
  proof (rule iso_clock_less)
    show "0 \<le> t mod ms_per_day" "u mod ms_per_day < ms_per_day" by (simp_all add: ms_per_day_def)
    show "t mod ms_per_day < u mod ms_per_day"
      using assms(2) div_mult_mod_eq [of t ms_per_day] div_mult_mod_eq [of u ms_per_day]
      unfolding assms(1) by linarith
  qed
  ultimately show ?thesis
    unfolding toISOString_def by (simp only: less_append_same_length less_irrefl simp_thms)
qed

lemma toISOString_less_day:
  assumes "four_digit_year t" "four_digit_year u" "t div ms_per_day < u div ms_per_day"
  shows "toISOString t < toISOString u"
proof -
  have y: "0 \<le> getUTCFullYear v" "getUTCFullYear v < 10 ^ 4" if "v = t \<or> v = u" for v
    using assms(1,2) that by (auto simp: four_digit_year_def)
  have m: "0 \<le> getUTCMonth v + 1" "getUTCMonth v + 1 < 10 ^ 2" for v
    using fields(1,2) [of v] by simp_all
  have d: "0 \<le> getUTCDate v" "getUTCDate v < 10 ^ 2" for v
    using fields(5,6) [of v] by simp_all
  have iy: "iso_year (getUTCFullYear t) = fixed_nat 4 (nat (getUTCFullYear t))"
    "iso_year (getUTCFullYear u) = fixed_nat 4 (nat (getUTCFullYear u))"
    using assms(1,2) by (simp_all add: four_digit_year_def iso_year_digits)
  note yy = fixed_nat_less_int [OF y [of t] y [of u], simplified]
  note mm = fixed_nat_less_int [OF m [of t] m [of u]]
  note dd = fixed_nat_less_int [OF d [of t] d [of u]]
  show ?thesis
    using day_lex [OF assms(3)] unfolding toISOString_def iy
    by (auto simp: less_append_same_length yy mm dd)
qed

text \<open>The order of the strings the store compares is the order of the times they denote.\<close>

lemma toISOString_less_iff:
  assumes "four_digit_year t" "four_digit_year u"
  shows "toISOString t < toISOString u \<longleftrightarrow> t < u"
proof
  assume "t < u"
  then have "t div ms_per_day \<le> u div ms_per_day" by (intro zdiv_mono1) (simp_all add: ms_per_day_def)
  then show "toISOString t < toISOString u"
    using toISOString_less_day [OF assms] toISOString_less_same_day \<open>t < u\<close> by fastforce
next
  assume less: "toISOString t < toISOString u"
  show "t < u"
  proof (rule ccontr)
    assume "\<not> t < u"
    then consider "t = u" | "u < t" by linarith
    then show False
    proof cases
      case 1
      with less show False by simp
    next
      case 2
      then have "u div ms_per_day \<le> t div ms_per_day" by (intro zdiv_mono1) (simp_all add: ms_per_day_def)
      with 2 have "toISOString u < toISOString t"
        using toISOString_less_day [OF assms(2,1)] toISOString_less_same_day by fastforce
      with less show False by simp
    qed
  qed
qed

lemma toISOString_le_iff:
  assumes "four_digit_year t" "four_digit_year u"
  shows "toISOString t \<le> toISOString u \<longleftrightarrow> t \<le> u"
  using toISOString_less_iff [OF assms(2,1)] by (simp add: linorder_not_less [symmetric])

section \<open>First instants of months\<close>

lemma make_day_less:
  assumes "0 \<le> m" "m < 12"
  shows "make_day y m < make_day y (m + 1)"
proof (cases "m = 11")
  case True
  then show ?thesis by (simp add: make_day_12 make_day_month day_from_year_Suc days_before_month_def)
next
  case False
  with assms month_cases [OF assms] show ?thesis
    by (auto simp: make_day_month days_before_month_def)
qed

lemma month_start_fields:
  assumes "0 \<le> m" "m < 12"
  shows "getUTCFullYear (make_day y m * ms_per_day) = y" "getUTCMonth (make_day y m * ms_per_day) = m"
proof -
  have d: "make_day y m * ms_per_day div ms_per_day = make_day y m" by (simp add: ms_per_day_def)
  show "getUTCFullYear (make_day y m * ms_per_day) = y" "getUTCMonth (make_day y m * ms_per_day) = m"
    by (rule fields_unique; use assms make_day_less [OF assms, of y] in \<open>simp add: d\<close>)+
qed

lemma make_day_carry: "make_day y 12 = make_day (y + 1) 0"
  by (simp add: make_day_12 make_day_def days_before_month_def)

lemma mult_le_iff_le_div:
  assumes "0 < (c::int)"
  shows "a * c \<le> t \<longleftrightarrow> a \<le> t div c"
proof
  assume "a * c \<le> t"
  then have "a * c div c \<le> t div c" using assms by (rule zdiv_mono1)
  then show "a \<le> t div c" using assms by simp
next
  assume "a \<le> t div c"
  then have "a * c \<le> t div c * c" using assms by (simp add: mult_right_mono)
  also have "\<dots> \<le> t" using assms div_mult_mod_eq [of t c] pos_mod_sign [of c t] by linarith
  finally show "a * c \<le> t" .
qed

lemma in_month_iff:
  assumes "0 \<le> m" "m < 12"
  shows "getUTCFullYear t = y \<and> getUTCMonth t = m \<longleftrightarrow>
    make_day y m * ms_per_day \<le> t \<and> t < make_day y (m + 1) * ms_per_day"
proof -
  have "make_day y m * ms_per_day \<le> t \<longleftrightarrow> make_day y m \<le> t div ms_per_day"
    by (rule mult_le_iff_le_div) (simp add: ms_per_day_def)
  moreover have "t < make_day y (m + 1) * ms_per_day \<longleftrightarrow> t div ms_per_day < make_day y (m + 1)"
    using mult_le_iff_le_div [of ms_per_day "make_day y (m + 1)" t]
    by (simp add: linorder_not_le [symmetric] ms_per_day_def)
  ultimately show ?thesis using fields(3,4) [of t] fields_unique [OF assms] by blast
qed

end
