(* ===== verification/Periods.thy ===== *)
theory Periods
  imports Dates Metering
begin

text \<open>
  Billing periods: \<^verbatim>\<open>src/src/meter-period.ts\<close>.  A period is a UTC calendar month, its key is derived from
  the month and its window is half-open.  The key is what makes a settlement idempotent, so what is
  shown is that months partition time, that the key determines the window, and that the period a
  settlement takes by default has ended.
\<close>

section \<open>Operations\<close>

text \<open>\<^verbatim>\<open>String(n).padStart(w, "0")\<close>; a negative year would keep its sign inside the padding.\<close>

definition show_signed :: "int \<Rightarrow> string" where
  "show_signed n = (if n < 0 then ''-'' @ show_nat (nat (- n)) else show_nat (nat n))"

definition pad :: "int \<Rightarrow> string" where
  "pad n = pad_start 2 (CHR ''0'') (show_signed n)"

definition pad4 :: "int \<Rightarrow> string" where
  "pad4 n = pad_start 4 (CHR ''0'') (show_signed n)"

definition billingPeriodContaining :: "int \<Rightarrow> billing_period" where
  "billingPeriodContaining t =
     (let y = getUTCFullYear t; m = getUTCMonth t
      in \<lparr>bp_key = pad4 y @ ''-'' @ pad (m + 1),
          bp_windowStart = toISOString (Date_UTC y m),
          bp_windowEnd = toISOString (Date_UTC y (m + 1))\<rparr>)"

definition lastClosedBillingPeriod :: "int \<Rightarrow> billing_period" where
  "lastClosedBillingPeriod now =
     (let current = billingPeriodContaining now
      in billingPeriodContaining (Date_parse (bp_windowStart current) - 1))"

definition billingPeriodIsClosed :: "billing_period \<Rightarrow> int \<Rightarrow> bool" where
  "billingPeriodIsClosed p now \<longleftrightarrow> Date_parse (bp_windowEnd p) \<le> now"

text \<open>\<^verbatim>\<open>/^(\d{4})-(\d{2})$/\<close> on the trimmed key, the range of the month, and the round trip.\<close>

definition parseBillingPeriodKey :: "string \<Rightarrow> billing_period option" where
  "parseBillingPeriodKey key =
     (let k = js_trim key in
      if length k = 7 \<and> list_all is_digit (take 4 k) \<and> k ! 4 = CHR ''-'' \<and> list_all is_digit (drop 5 k)
      then let year = int (read_nat (take 4 k)); month = int (read_nat (drop 5 k)) in
           if month < 1 \<or> month > 12 then None
           else let p = billingPeriodContaining (Date_UTC year (month - 1))
                in if bp_key p = k then Some p else None
      else None)"

section \<open>Months partition time\<close>

text \<open>The years in which \<^verbatim>\<open>Date.UTC\<close> takes a year at face value and a month ends in a four-digit year.\<close>

definition plain_year :: "int \<Rightarrow> bool" where
  "plain_year t \<longleftrightarrow> 100 \<le> getUTCFullYear t \<and> getUTCFullYear t < 9999"

lemma fixed_nat_0: "fixed_nat w 0 = replicate w (CHR ''0'')"
proof (induction w)
  case (Suc w)
  have "digit_char 0 = CHR ''0''" by code_simp
  with Suc show ?case by (simp add: replicate_append_same)
qed simp

lemma pad_fixed: "n < 10 ^ Suc w \<Longrightarrow> pad_start (Suc w) (CHR ''0'') (show_nat n) = fixed_nat (Suc w) n"
proof (induction w arbitrary: n)
  case 0
  then show ?case by (simp add: show_nat.simps [of n] pad_start_def)
next
  case (Suc w)
  show ?case
  proof (cases "n < 10")
    case True
    have "fixed_nat (Suc (Suc w)) n = replicate (Suc w) (CHR ''0'') @ [digit_char n]"
      using True fixed_nat_0 [of "Suc w"] by (subst fixed_nat.simps) simp
    with True show ?thesis by (simp add: show_nat.simps [of n] pad_start_def)
  next
    case False
    have "n div 10 < 10 ^ Suc w" using Suc.prems by (simp add: less_mult_imp_div_less mult.commute)
    then have "fixed_nat (Suc (Suc w)) n = pad_start (Suc w) (CHR ''0'') (show_nat (n div 10)) @ [digit_char (n mod 10)]"
      using Suc.IH by (subst fixed_nat.simps) simp
    with False show ?thesis by (simp add: show_nat.simps [of n] pad_start_def)
  qed
qed

lemma pad4_fixed: "0 \<le> y \<Longrightarrow> y < 10000 \<Longrightarrow> pad4 y = fixed_nat 4 (nat y)"
  using pad_fixed [of "nat y" 3] by (simp add: pad4_def show_signed_def nat_less_iff)

lemma pad_fixed_2: "0 \<le> y \<Longrightarrow> y < 100 \<Longrightarrow> pad y = fixed_nat 2 (nat y)"
  using pad_fixed [of "nat y" 1] unfolding One_nat_def [symmetric] Suc_1
  by (simp only: pad_def show_signed_def) (simp add: nat_less_iff)

lemma Date_UTC_plain: "100 \<le> y \<Longrightarrow> Date_UTC y m = make_day y m * ms_per_day"
  by (simp add: Date_UTC_def)

lemma month_start_four_digit:
  assumes "0 \<le> m" "m < 12" "0 \<le> y" "y \<le> 9999"
  shows "four_digit_year (make_day y m * ms_per_day)"
  using assms by (simp add: four_digit_year_def month_start_fields)

lemma month_end_four_digit:
  assumes "0 \<le> m" "m < 12" "0 \<le> y" "y < 9999"
  shows "four_digit_year (make_day y (m + 1) * ms_per_day)"
proof (cases "m = 11")
  case True
  then show ?thesis using assms month_start_four_digit [of 0 "y + 1"] by (simp add: make_day_carry)
next
  case False
  then show ?thesis using assms by (intro month_start_four_digit) auto
qed

lemma period_window:
  assumes "plain_year t"
  shows "Date_parse (bp_windowStart (billingPeriodContaining t)) =
           make_day (getUTCFullYear t) (getUTCMonth t) * ms_per_day"
    and "Date_parse (bp_windowEnd (billingPeriodContaining t)) =
           make_day (getUTCFullYear t) (getUTCMonth t + 1) * ms_per_day"
  using assms fields(1,2) [of t]
  by (simp_all add: billingPeriodContaining_def Let_def plain_year_def Date_UTC_plain
        Date_parse_toISOString month_start_four_digit month_end_four_digit)

lemma key_fields:
  assumes "plain_year t"
  shows "bp_key (billingPeriodContaining t) =
    fixed_nat 4 (nat (getUTCFullYear t)) @ ''-'' @ fixed_nat 2 (nat (getUTCMonth t + 1))"
  using assms fields(1,2) [of t]
  by (simp add: billingPeriodContaining_def Let_def plain_year_def pad4_fixed pad_fixed_2)

lemma key_inject:
  assumes "plain_year t" "plain_year u"
  shows "bp_key (billingPeriodContaining t) = bp_key (billingPeriodContaining u) \<longleftrightarrow>
    getUTCFullYear t = getUTCFullYear u \<and> getUTCMonth t = getUTCMonth u"
proof -
  have y: "nat (getUTCFullYear v) < 10 ^ 4" "0 \<le> getUTCFullYear v" if "plain_year v" for v
    using that by (auto simp: plain_year_def nat_less_iff)
  have m: "nat (getUTCMonth v + 1) < 10 ^ 2" "0 \<le> getUTCMonth v" for v
    using fields(1,2) [of v] by (simp_all add: nat_less_iff)
  show ?thesis
    unfolding key_fields [OF assms(1)] key_fields [OF assms(2)]
    using fixed_nat_inject [OF y(1) [OF assms(1)] y(1) [OF assms(2)]] fixed_nat_inject [OF m(1) [of t] m(1) [of u]]
      y(2) [OF assms(1)] y(2) [OF assms(2)] m(2) [of t] m(2) [of u]
    by (auto simp: append_eq_append_conv)
qed

text \<open>
  Billing periods partition time and their keys name them.  Every instant lies in the half-open
  window of the period computed for it; another instant has the same key, and then the same window,
  exactly when it lies in that window; and the next period starts where this one ends.
\<close>

theorem periods_partition_time:
  assumes "plain_year t" "plain_year u"
  shows "Date_parse (bp_windowStart (billingPeriodContaining t)) \<le> t
       \<and> t < Date_parse (bp_windowEnd (billingPeriodContaining t))
       \<and> (bp_key (billingPeriodContaining u) = bp_key (billingPeriodContaining t) \<longleftrightarrow>
            Date_parse (bp_windowStart (billingPeriodContaining t)) \<le> u
            \<and> u < Date_parse (bp_windowEnd (billingPeriodContaining t)))
       \<and> (bp_key (billingPeriodContaining u) = bp_key (billingPeriodContaining t) \<longrightarrow>
            billingPeriodContaining u = billingPeriodContaining t)
       \<and> bp_windowStart (billingPeriodContaining (Date_parse (bp_windowEnd (billingPeriodContaining t)))) =
            bp_windowEnd (billingPeriodContaining t)"
proof -
  let ?y = "getUTCFullYear t" and ?m = "getUTCMonth t"
  note f = fields(1,2) [of t]
  note month = in_month_iff [OF f, of _ ?y]
  have next_start: "bp_windowStart (billingPeriodContaining (make_day ?y (?m + 1) * ms_per_day)) =
      toISOString (make_day ?y (?m + 1) * ms_per_day)"
  proof (cases "?m = 11")
    case True
    then show ?thesis using assms(1) month_start_fields [of 0 "?y + 1"]
      by (simp add: make_day_carry billingPeriodContaining_def Let_def Date_UTC_plain plain_year_def)
  next
    case False
    then show ?thesis using assms(1) f month_start_fields [of "?m + 1" ?y]
      by (simp add: billingPeriodContaining_def Let_def Date_UTC_plain plain_year_def)
  qed
  have end_eq: "bp_windowEnd (billingPeriodContaining t) = toISOString (make_day ?y (?m + 1) * ms_per_day)"
    using assms(1) by (simp add: billingPeriodContaining_def Let_def Date_UTC_plain plain_year_def)
  have "bp_windowStart (billingPeriodContaining (Date_parse (bp_windowEnd (billingPeriodContaining t)))) =
      bp_windowEnd (billingPeriodContaining t)"
    by (subst period_window(2) [OF assms(1)]) (simp only: end_eq next_start)
  moreover have "bp_key (billingPeriodContaining u) = bp_key (billingPeriodContaining t) \<longrightarrow>
      billingPeriodContaining u = billingPeriodContaining t"
    unfolding key_inject [OF assms(2,1)] by (simp add: billingPeriodContaining_def Let_def)
  ultimately show ?thesis
    using month [of t] month [of u] key_inject [OF assms(2,1)]
    unfolding period_window [OF assms(1)] by blast
qed

text \<open>
  The default settlement takes a month that is over.  The last closed period ends exactly where
  the current one starts, so it is closed now and its key differs from the current one.
\<close>

theorem last_closed_period_is_closed:
  assumes "plain_year now" "100 < getUTCFullYear now"
  shows "billingPeriodIsClosed (lastClosedBillingPeriod now) now
       \<and> bp_windowEnd (lastClosedBillingPeriod now) = bp_windowStart (billingPeriodContaining now)
       \<and> bp_key (lastClosedBillingPeriod now) \<noteq> bp_key (billingPeriodContaining now)
       \<and> \<not> billingPeriodIsClosed (billingPeriodContaining now) now"
proof -
  let ?y = "getUTCFullYear now" and ?m = "getUTCMonth now"
  note f = fields(1,2) [of now]
  define py pm where "py = (if ?m = 0 then ?y - 1 else ?y)" and "pm = (if ?m = 0 then 11 else ?m - 1)"
  have pm: "0 \<le> pm" "pm < 12" using f by (auto simp: pm_def)
  have carry: "make_day py (pm + 1) = make_day ?y ?m"
    using make_day_carry [of "?y - 1"] by (simp add: py_def pm_def)
  define t where "t = make_day ?y ?m * ms_per_day - 1"
  have "make_day py pm * ms_per_day \<le> t" "t < make_day py (pm + 1) * ms_per_day"
  proof -
    have "make_day py pm + 1 \<le> make_day ?y ?m" using make_day_less [OF pm, of py] carry by simp
    then have "(make_day py pm + 1) * ms_per_day \<le> make_day ?y ?m * ms_per_day"
      by (intro mult_right_mono) (simp_all add: ms_per_day_def)
    then show "make_day py pm * ms_per_day \<le> t" by (simp add: t_def ms_per_day_def)
    show "t < make_day py (pm + 1) * ms_per_day" by (simp add: t_def carry)
  qed
  then have t: "getUTCFullYear t = py" "getUTCMonth t = pm" using in_month_iff [OF pm, of t py] by simp_all
  then have plain: "plain_year t" using assms f by (auto simp: plain_year_def py_def)
  have last: "lastClosedBillingPeriod now = billingPeriodContaining t"
    by (simp add: lastClosedBillingPeriod_def Let_def period_window [OF assms(1)] t_def)
  have "bp_windowEnd (billingPeriodContaining t) = bp_windowStart (billingPeriodContaining now)"
    using plain assms(1) t carry by (simp add: billingPeriodContaining_def Let_def plain_year_def Date_UTC_plain)
  moreover have "bp_key (billingPeriodContaining t) \<noteq> bp_key (billingPeriodContaining now)"
    using key_inject [OF plain assms(1)] t f by (auto simp: py_def pm_def split: if_splits)
  moreover have "make_day ?y ?m * ms_per_day \<le> now" "now < make_day ?y (?m + 1) * ms_per_day"
    using in_month_iff [OF f, of now ?y] by simp_all
  ultimately show ?thesis
    using period_window [OF assms(1)] period_window [OF plain] t carry
    by (simp add: last billingPeriodIsClosed_def)
qed

lemma js_trim_key:
  assumes "list_all is_digit a" "list_all is_digit b" "a \<noteq> []" "b \<noteq> []"
  shows "js_trim (a @ ''-'' @ b) = a @ ''-'' @ b"
proof -
  have "\<not> is_ws (hd a)" "\<not> is_ws (hd (rev b))"
    using assms by (auto simp: list_all_iff hd_rev intro!: is_digit_not_ws)
  then show ?thesis
    using assms(3,4) by (cases a; cases "rev b") (auto simp: js_trim_def)
qed

text \<open>
  A key this module makes is one it accepts.  Parsing the key of any instant's period gives back
  that very period.
\<close>

theorem billing_key_round_trip:
  assumes "plain_year t"
  shows "parseBillingPeriodKey (bp_key (billingPeriodContaining t)) = Some (billingPeriodContaining t)"
proof -
  let ?y = "getUTCFullYear t" and ?m = "getUTCMonth t"
  let ?a = "fixed_nat 4 (nat ?y)" and ?b = "fixed_nat 2 (nat (?m + 1))"
  note f = fields(1,2) [of t]
  have y: "100 \<le> ?y" "?y < 9999" using assms by (simp_all add: plain_year_def)
  have digits: "list_all is_digit ?a" "list_all is_digit ?b" by (auto simp: list_all_iff dest: set_fixed_nat)
  have ne: "?a \<noteq> []" "?b \<noteq> []"
    using length_fixed_nat [of 4 "nat ?y"] length_fixed_nat [of 2 "nat (?m + 1)"] by fastforce+
  have trim: "js_trim (?a @ ''-'' @ ?b) = ?a @ ''-'' @ ?b" using digits ne by (rule js_trim_key)
  have parts: "length (?a @ ''-'' @ ?b) = 7" "take 4 (?a @ ''-'' @ ?b) = ?a" "drop 5 (?a @ ''-'' @ ?b) = ?b"
    "(?a @ ''-'' @ ?b) ! 4 = CHR ''-''" by (simp_all add: nth_append)
  have reads: "int (read_nat ?a) = ?y" "int (read_nat ?b) = ?m + 1"
    using y f by (simp_all add: read_nat_fixed nat_less_iff)
  have "billingPeriodContaining (Date_UTC ?y (?m + 1 - 1)) = billingPeriodContaining t"
    using month_start_fields [OF f, of ?y] y(1)
    by (simp add: billingPeriodContaining_def Let_def Date_UTC_plain)
  then show ?thesis
    unfolding parseBillingPeriodKey_def Let_def key_fields [OF assms] trim parts(2,3) reads
    using digits parts(1,4) f key_fields [OF assms] by simp
qed

section \<open>Instants evaluated\<close>

definition ex_now_ms :: int where
  "ex_now_ms = 1785801600000"

lemma ex_now_plain: "plain_year ex_now_ms"
  by code_simp

theorem periods_partition_time_witness:
  "Date_parse (bp_windowStart (billingPeriodContaining ex_now_ms)) \<le> ex_now_ms"
  using periods_partition_time [OF ex_now_plain ex_now_plain] by simp

theorem last_closed_period_is_closed_witness:
  "billingPeriodIsClosed (lastClosedBillingPeriod ex_now_ms) ex_now_ms"
proof -
  have "100 < getUTCFullYear ex_now_ms" by code_simp
  from last_closed_period_is_closed [OF ex_now_plain this] show ?thesis by simp
qed

theorem billing_key_round_trip_witness: "parseBillingPeriodKey (bp_key (billingPeriodContaining ex_now_ms)) \<noteq> None"
  using billing_key_round_trip [OF ex_now_plain] by simp

end
