(* ===== verification/Float64.thy ===== *)
theory Float64
  imports Prelude "HOL-Library.Log_Nat"
begin

text \<open>
  IEEE 754 binary64 as JavaScript uses it: rounding an exact result to the nearest double, ties to even,
  with gradual underflow and overflow to infinity, and \<^verbatim>\<open>Math.round\<close>.  Multiplication of doubles is the
  rounding of the exact product.  What the meters need of it is the size of the rounding error.
\<close>

section \<open>Rounding\<close>

definition pow2 :: "int \<Rightarrow> rat" where
  "pow2 e = (if 0 \<le> e then 2 ^ nat e else 1 / 2 ^ nat (- e))"

definition round_even :: "rat \<Rightarrow> int" where
  "round_even x =
     (let f = \<lfloor>x\<rfloor>; d = x - of_int f in
      if d < 1 / 2 then f else if d > 1 / 2 then f + 1 else if even f then f else f + 1)"

text \<open>The exponent of the leading bit of a positive rational.\<close>

definition ilog2 :: "rat \<Rightarrow> int" where
  "ilog2 r =
     (case quotient_of r of (p, q) \<Rightarrow>
       (let e = int (floorlog 2 (nat p)) - int (floorlog 2 (nat q))
        in if pow2 e \<le> r then e else e - 1))"

definition fl64_pos :: "rat \<Rightarrow> jsnum" where
  "fl64_pos r =
     (let e = max (ilog2 r - 52) (- 1074);
          v = of_int (round_even (r / pow2 e)) * pow2 e
      in if v \<ge> 2 ^ 1024 then PosInf else Fin v)"

definition fl64 :: "rat \<Rightarrow> jsnum" where
  "fl64 r =
     (if r = 0 then Fin 0
      else if r > 0 then fl64_pos r
      else (case fl64_pos (- r) of Fin v \<Rightarrow> Fin (- v) | _ \<Rightarrow> NegInf))"

text \<open>\<^verbatim>\<open>Math.round\<close>: the nearest integer, a half going up.\<close>

fun Math_round :: "jsnum \<Rightarrow> jsnum" where
  "Math_round (Fin r) = Fin (of_int \<lfloor>r + 1 / 2\<rfloor>)"
| "Math_round x = x"

section \<open>The rounding error\<close>

lemma pow2_pos [simp]: "0 < pow2 e"
  by (simp add: pow2_def)

lemma pow2_add: "pow2 (a + b) = pow2 a * pow2 b"
proof -
  have powi: "pow2 e = 2 powi e" for e by (simp add: pow2_def power_int_def power_one_over inverse_eq_divide)
  show ?thesis unfolding powi by (simp add: power_int_add)
qed

lemma pow2_nat: "pow2 (int n) = 2 ^ n"
  by (simp add: pow2_def)

lemma pow2_52: "pow2 (e + 52) = pow2 e * 2 ^ 52"
  using pow2_nat [of 52] by (simp only: pow2_add of_nat_numeral)

lemma round_even_error: "\<bar>of_int (round_even x) - x\<bar> \<le> 1 / 2"
proof -
  define f d where "f = \<lfloor>x\<rfloor>" and "d = x - of_int f"
  have x: "x = of_int f + d" "0 \<le> d" "d < 1" unfolding d_def f_def by linarith+
  have "round_even x = (if d < 1 / 2 then f else if d > 1 / 2 then f + 1 else if even f then f else f + 1)"
    unfolding round_even_def Let_def d_def f_def by (rule refl)
  then consider "d < 1 / 2" "round_even x = f" | "d > 1 / 2" "round_even x = f + 1"
    | "d = 1 / 2" "round_even x = f \<or> round_even x = f + 1" by (auto split: if_splits)
  then show ?thesis using x by cases (auto simp: abs_le_iff)
qed

lemma floorlog_pow:
  assumes "0 < n"
  shows "2 ^ (floorlog 2 n - 1) \<le> n" "n < 2 ^ floorlog 2 n" "1 \<le> floorlog 2 n"
proof -
  show b: "2 ^ (floorlog 2 n - 1) \<le> n" "n < 2 ^ floorlog 2 n"
    using assms floorlog_bounds [of n 2] by simp_all
  show "1 \<le> floorlog 2 n" using assms b(2) by (cases "floorlog 2 n") auto
qed

lemma ilog2_le:
  assumes "0 < r"
  shows "pow2 (ilog2 r) \<le> r"
proof -
  obtain p q where pq: "quotient_of r = (p, q)" by fastforce
  have q: "0 < q" using pq by (rule quotient_of_denom_pos)
  have r: "r = of_int p / of_int q" using pq by (rule quotient_of_div)
  with assms q have p: "0 < p" by (simp add: zero_less_divide_iff)
  define a b where "a = floorlog 2 (nat p)" and "b = floorlog 2 (nat q)"
  have np: "(2::rat) ^ (a - 1) \<le> of_int p"
  proof -
    have "2 ^ (a - 1) \<le> nat p" using p floorlog_pow(1) [of "nat p"] by (simp add: a_def)
    then have "(of_nat (2 ^ (a - 1)) :: rat) \<le> of_nat (nat p)" by (simp only: of_nat_le_iff)
    with p show ?thesis by simp
  qed
  have nq: "of_int q \<le> (2::rat) ^ b"
  proof -
    have "nat q \<le> 2 ^ b" using q floorlog_pow(2) [of "nat q"] by (simp add: b_def)
    then have "(of_nat (nat q) :: rat) \<le> of_nat (2 ^ b)" by (simp only: of_nat_le_iff)
    with q show ?thesis by simp
  qed
  have a: "1 \<le> a" using p floorlog_pow(3) [of "nat p"] by (simp add: a_def)
  have "pow2 (int a - int b - 1) * 2 ^ b = 2 ^ (a - 1)"
    using pow2_add [of "int a - int b - 1" "int b"] pow2_nat [of b] pow2_nat [of "a - 1"] a
    by (simp add: of_nat_diff)
  then have "pow2 (int a - int b - 1) * of_int q \<le> 2 ^ (a - 1)"
    using mult_left_mono [OF nq, of "pow2 (int a - int b - 1)"] by (simp add: less_imp_le)
  then have "pow2 (int a - int b - 1) * of_int q \<le> of_int p" using np by (rule order_trans)
  then have "pow2 (int a - int b - 1) \<le> r" using q by (simp add: r field_simps)
  then show ?thesis by (simp add: ilog2_def pq Let_def a_def b_def)
qed

text \<open>The rounding error of a normal number is at most one part in \<open>2 ^ 53\<close>.\<close>

lemma fl64_error:
  assumes "pow2 (- 1022) \<le> r" "fl64 r = Fin v"
  shows "\<bar>v - r\<bar> \<le> r / 2 ^ 53"
proof -
  have pos: "0 < r" using assms(1) pow2_pos [of "- 1022"] by linarith
  define e where "e = max (ilog2 r - 52) (- 1074)"
  have v: "v = of_int (round_even (r / pow2 e)) * pow2 e"
    using assms(2) pos by (simp add: fl64_def fl64_pos_def Let_def e_def split: if_splits)
  have scale: "pow2 e * 2 ^ 52 \<le> r"
  proof (cases "ilog2 r - 52 \<ge> - 1074")
    case True
    then show ?thesis using ilog2_le [OF pos] pow2_52 [of "ilog2 r - 52"] by (simp add: e_def)
  next
    case False
    then show ?thesis using assms(1) pow2_52 [of "- 1074"] by (simp add: e_def)
  qed
  have "v - r = (of_int (round_even (r / pow2 e)) - r / pow2 e) * pow2 e"
    using pow2_pos [of e, THEN less_imp_neq] by (simp add: v algebra_simps)
  then have "\<bar>v - r\<bar> = \<bar>of_int (round_even (r / pow2 e)) - r / pow2 e\<bar> * pow2 e"
    using abs_of_pos [OF pow2_pos, of e] by (simp add: abs_mult)
  also have "\<dots> \<le> 1 / 2 * pow2 e"
    using round_even_error [of "r / pow2 e"] by (intro mult_right_mono) (simp_all add: less_imp_le)
  also have "\<dots> \<le> r / 2 ^ 53" using scale by simp
  finally show ?thesis .
qed

section \<open>Millionths\<close>

lemma round_within_half:
  assumes "\<bar>v - of_int m\<bar> < 1 / 2"
  shows "\<lfloor>v + 1 / 2 :: rat\<rfloor> = m"
  using assms unfolding abs_less_iff by (intro floor_unique) linarith+

text \<open>
  A whole number of millionths, divided by a million and rounded to a double, and that double
  multiplied by a million and rounded again, is still closer to the number than a half.
\<close>

lemma millionths_error:
  assumes "0 < m" "m \<le> 2 ^ 50" "fl64 (of_int m / 1000000) = Fin c" "fl64 (c * 1000000) = Fin p"
  shows "\<bar>p - of_int m\<bar> < 1 / 2"
proof -
  let ?m = "of_int m :: rat"
  let ?u = "1 / 2 ^ 53 :: rat"
  have m: "1 \<le> ?m" "?m \<le> 2 ^ 50" using assms(1,2) by (simp_all add: of_int_le_iff [of m "2 ^ 50", symmetric, where ?'a = rat])
  have tiny: "pow2 (- 1022) \<le> 1 / 4000000" by (simp add: pow2_def)
  have "\<bar>c - ?m / 1000000\<bar> \<le> ?m / 1000000 * ?u"
    using fl64_error [OF _ assms(3)] m(1) tiny by (simp add: field_simps)
  then have c: "?m - ?m * ?u \<le> c * 1000000" "c * 1000000 \<le> ?m + ?m * ?u"
    unfolding abs_le_iff by (simp_all add: field_simps)
  then have "1 / 2 \<le> c * 1000000" using m(1) by simp
  then have "\<bar>p - c * 1000000\<bar> \<le> c * 1000000 * ?u"
    using fl64_error [OF _ assms(4)] tiny by simp
  also have "\<dots> \<le> (?m + ?m * ?u) * ?u" using c(2) by (intro mult_right_mono) simp_all
  finally have "\<bar>p - c * 1000000\<bar> \<le> (?m + ?m * ?u) * ?u" .
  moreover have "\<bar>c * 1000000 - ?m\<bar> \<le> ?m * ?u" using c unfolding abs_le_iff by linarith
  ultimately have "\<bar>p - ?m\<bar> \<le> ?m * ?u + (?m + ?m * ?u) * ?u" unfolding abs_le_iff by linarith
  also have "\<dots> < 1 / 2" using m by simp
  finally show ?thesis .
qed

text \<open>Nothing below \<open>2 ^ 1000\<close> rounds to infinity.\<close>

lemma fl64_finite:
  assumes "pow2 (- 1022) \<le> r" "r \<le> 2 ^ 1000"
  obtains v where "fl64 r = Fin v"
proof -
  have pos: "0 < r" using assms(1) pow2_pos [of "- 1022"] by linarith
  define e where "e = max (ilog2 r - 52) (- 1074)"
  define v where "v = of_int (round_even (r / pow2 e)) * pow2 e"
  have "pow2 e \<le> r"
  proof (cases "ilog2 r - 52 \<ge> - 1074")
    case True
    have "pow2 (ilog2 r - 52) * 2 ^ 52 \<le> r" using ilog2_le [OF pos] pow2_52 [of "ilog2 r - 52"] by simp
    moreover have "pow2 (ilog2 r - 52) * 1 \<le> pow2 (ilog2 r - 52) * 2 ^ 52"
      by (intro mult_left_mono) (simp_all add: less_imp_le)
    ultimately have "pow2 (ilog2 r - 52) * 1 \<le> r" by (rule order_trans [rotated])
    then show ?thesis using True by (simp add: e_def)
  next
    case False
    have "pow2 (- 1074) * 1 \<le> pow2 (- 1074) * 2 ^ 52" by (intro mult_left_mono) (simp_all add: less_imp_le)
    also have "\<dots> = pow2 (- 1022)" using pow2_52 [of "- 1074"] by simp
    also note assms(1)
    finally show ?thesis using False by (simp add: e_def)
  qed
  have "of_int (round_even (r / pow2 e)) \<le> r / pow2 e + 1 / 2"
    using round_even_error [of "r / pow2 e"] unfolding abs_le_iff by linarith
  then have "v \<le> (r / pow2 e + 1 / 2) * pow2 e"
    unfolding v_def by (intro mult_right_mono) (simp_all add: less_imp_le)
  also have "\<dots> = r + pow2 e / 2" using pow2_pos [of e, THEN less_imp_neq] by (simp add: algebra_simps)
  also have "\<dots> \<le> 2 ^ 1000 + 2 ^ 1000" using \<open>pow2 e \<le> r\<close> assms(2) pos by linarith
  also have "\<dots> < 2 ^ 1024" by simp
  finally have "v < 2 ^ 1024" .
  then have "fl64 r = Fin v"
    using pos by (simp add: fl64_def fl64_pos_def Let_def e_def [symmetric] v_def [symmetric] linorder_not_le)
  then show thesis by (rule that)
qed

end
