(* ===== verification/LlmSpend.thy ===== *)
theory LlmSpend
  imports Float64 Http Metering
begin

text \<open>
  The LLM spend meter: reading the AI gateway's log (\<^verbatim>\<open>src/src/ai-gateway-logs.ts\<close>), the roll-up of one
  run (\<^verbatim>\<open>src/src/llm-spend-rollup.ts\<close>), its ingestion (\<^verbatim>\<open>src/src/llm-spend-ingest.ts\<close>), the window a
  settlement reads (\<^verbatim>\<open>src/src/llm-spend-window.ts\<close>) and the tables behind it (\<^verbatim>\<open>LlmSpendD1\<close> of
  \<^verbatim>\<open>src/src/store-d1.ts\<close>, migration 0015).

  The gateway is a function from page requests to answers.  The sentences of the notes and reasons are
  constructors that carry the values they mention.
\<close>

section \<open>One row of the gateway's log\<close>

record spend_event =
  ev_source :: string
  ev_sourceId :: string
  ev_tenantId :: "string option"
  ev_slug :: "string option"
  ev_model :: "string option"
  ev_costMicroUsd :: "jsnum option"
  ev_tokensIn :: "int option"
  ev_tokensOut :: "int option"
  ev_cached :: "bool option"
  ev_occurredAt :: string

text \<open>\<^verbatim>\<open>cost * 1_000_000\<close> is the double nearest to the exact product.\<close>

definition toMicroUsd :: "json option \<Rightarrow> jsnum option" where
  "toMicroUsd cost =
     (case cost of
        Some (JNum (Fin r)) \<Rightarrow> if r < 0 then None else Some (Math_round (fl64 (r * 1000000)))
      | _ \<Rightarrow> None)"

definition str :: "json option \<Rightarrow> string option" where
  "str v = (case v of Some (JStr s) \<Rightarrow> if js_trim s = [] then None else Some (js_trim s) | _ \<Rightarrow> None)"

definition num :: "json option \<Rightarrow> int option" where
  "num v = (case v of Some (JNum (Fin r)) \<Rightarrow> Some (if r < 0 then \<lceil>r\<rceil> else \<lfloor>r\<rfloor>) | _ \<Rightarrow> None)"

definition parseLogRow :: "json \<Rightarrow> spend_event option" where
  "parseLogRow row =
     (case (str (jget row ''id''), str (jget row ''created_at'')) of
        (Some sourceId, Some occurredAt) \<Rightarrow>
          let meta = object_of (jget row ''metadata'');
              meta_str = (\<lambda>k. case meta of None \<Rightarrow> None | Some m \<Rightarrow> str (jget m k))
          in Some \<lparr>ev_source = ''ai_gateway'', ev_sourceId = sourceId, ev_tenantId = meta_str ''tenant_id'',
                   ev_slug = meta_str ''slug'', ev_model = str (jget row ''model''),
                   ev_costMicroUsd = toMicroUsd (jget row ''cost''),
                   ev_tokensIn = num (jget row ''tokens_in''), ev_tokensOut = num (jget row ''tokens_out''),
                   ev_cached = (case jget row ''cached'' of Some (JBool b) \<Rightarrow> Some b | _ \<Rightarrow> None),
                   ev_occurredAt = occurredAt\<rparr>
      | _ \<Rightarrow> None)"

definition newestOccurredAt :: "spend_event list \<Rightarrow> string option" where
  "newestOccurredAt events =
     foldl (\<lambda>best e. case best of
              None \<Rightarrow> Some (ev_occurredAt e)
            | Some b \<Rightarrow> if ev_occurredAt e > b then Some (ev_occurredAt e) else Some b) None events"

section \<open>Walking the log\<close>

record gateway_page =
  gp_rows :: "json list"
  gp_totalCount :: "jsnum option"

record gateway_reader =
  gr_list :: "string option \<Rightarrow> nat \<Rightarrow> nat \<Rightarrow> string + gateway_page"
  gr_probe :: "string + (jsnum option \<times> string option)"

definition MAX_PER_PAGE :: nat where
  "MAX_PER_PAGE = 50"

record collected =
  co_events :: "spend_event list"
  co_rowsSeen :: nat
  co_rowsDropped :: nat
  co_exhausted :: bool

definition add_rows :: "collected \<Rightarrow> json list \<Rightarrow> collected" where
  "add_rows c rows =
     \<lparr>co_events = co_events c @ List.map_filter parseLogRow rows,
      co_rowsSeen = co_rowsSeen c + length rows,
      co_rowsDropped = co_rowsDropped c + changes (\<lambda>r. parseLogRow r = None) rows,
      co_exhausted = co_exhausted c\<rparr>"

text \<open>The page loop; the first argument counts the pages that may still be asked for.\<close>

fun collect_pages ::
  "nat \<Rightarrow> gateway_reader \<Rightarrow> string option \<Rightarrow> nat \<Rightarrow> nat \<Rightarrow> collected \<Rightarrow> string + collected" where
  "collect_pages 0 reader after perPage page c = Inr c"
| "collect_pages (Suc left) reader after perPage page c =
     (case gr_list reader after page perPage of
        Inl e \<Rightarrow> Inl e
      | Inr got \<Rightarrow>
          (let c' = add_rows c (gp_rows got) in
           if length (gp_rows got) < perPage then Inr (c'\<lparr>co_exhausted := True\<rparr>)
           else collect_pages left reader after perPage (Suc page) c'))"

definition collectSince :: "gateway_reader \<Rightarrow> string option \<Rightarrow> nat \<Rightarrow> nat \<Rightarrow> string + collected" where
  "collectSince reader after pageCap perPage =
     collect_pages pageCap reader after perPage 1
       \<lparr>co_events = [], co_rowsSeen = 0, co_rowsDropped = 0, co_exhausted = False\<rparr>"

datatype rollup_status = RComplete | RIncomplete | RFailed

datatype rollup_note =
    ControlThrew string
  | PagingFailed string
  | ControlFailed "jsnum option"
  | PageCapReached nat
  | Gap "string option" "string option"
  | Unpriced nat
  | Dropped nat
  | Unattributed nat

record rollup_result =
  ro_status :: rollup_status
  ro_controlPassed :: bool
  ro_gapDetected :: bool
  ro_events :: "spend_event list"
  ro_rowsSeen :: nat
  ro_rowsDropped :: nat
  ro_newWatermark :: "string option"
  ro_notes :: "rollup_note list"

definition positive_count :: "jsnum option \<Rightarrow> bool" where
  "positive_count tot = (case tot of Some (Fin r) \<Rightarrow> r > 0 | Some PosInf \<Rightarrow> True | _ \<Rightarrow> False)"

definition gap_between :: "string option \<Rightarrow> string option \<Rightarrow> bool" where
  "gap_between after oldest =
     (case (after, oldest) of (Some a, Some b) \<Rightarrow> a \<noteq> [] \<and> b \<noteq> [] \<and> b > a | _ \<Rightarrow> False)"

definition failed_rollup :: "bool \<Rightarrow> bool \<Rightarrow> rollup_note \<Rightarrow> rollup_result" where
  "failed_rollup control gap nt =
     \<lparr>ro_status = RFailed, ro_controlPassed = control, ro_gapDetected = gap, ro_events = [], ro_rowsSeen = 0,
      ro_rowsDropped = 0, ro_newWatermark = None, ro_notes = [nt]\<rparr>"

definition runRollup :: "gateway_reader \<Rightarrow> string option \<Rightarrow> nat \<Rightarrow> rollup_result" where
  "runRollup reader after pageCap =
     (case gr_probe reader of
        Inl e \<Rightarrow> failed_rollup False False (ControlThrew e)
      | Inr (tot, oldest) \<Rightarrow>
          (let controlPassed = positive_count tot; gapDetected = gap_between after oldest in
           case collectSince reader after pageCap MAX_PER_PAGE of
             Inl e \<Rightarrow> failed_rollup controlPassed gapDetected (PagingFailed e)
           | Inr c \<Rightarrow>
               (let unpriced = changes (\<lambda>e. ev_costMicroUsd e = None) (co_events c);
                    unattributed = changes (\<lambda>e. ev_tenantId e = None) (co_events c)
                in \<lparr>ro_status = (if co_exhausted c \<and> \<not> gapDetected then RComplete else RIncomplete),
                    ro_controlPassed = controlPassed, ro_gapDetected = gapDetected,
                    ro_events = co_events c, ro_rowsSeen = co_rowsSeen c, ro_rowsDropped = co_rowsDropped c,
                    ro_newWatermark = newestOccurredAt (co_events c),
                    ro_notes =
                      (if controlPassed then [] else [ControlFailed tot])
                      @ (if co_exhausted c then [] else [PageCapReached pageCap])
                      @ (if gapDetected then [Gap oldest after] else [])
                      @ (if unpriced > 0 then [Unpriced unpriced] else [])
                      @ (if co_rowsDropped c > 0 then [Dropped (co_rowsDropped c)] else [])
                      @ (if unattributed > 0 then [Unattributed unattributed] else [])\<rparr>)))"

section \<open>The tables\<close>

record period_row =
  p_id :: string
  p_window_start :: string
  p_window_end :: string
  p_status :: rollup_status
  p_control_passed :: bool
  p_rows_ingested :: nat
  p_gap_detected :: bool
  p_started_at :: string
  p_finished_at :: "string option"

record event_row =
  e_event :: spend_event
  e_inserted_at :: string
  e_period_id :: string

record watermark_row =
  m_id :: string
  m_last_seen_at :: string
  m_updated_at :: string

record spend_db =
  sp_periods :: "period_row list"
  sp_events :: "event_row list"
  sp_marks :: "watermark_row list"

definition readLlmWatermark :: "spend_db \<Rightarrow> string \<Rightarrow> string option" where
  "readLlmWatermark db source = map_option m_last_seen_at (first_where (\<lambda>m. m_id m = source) (sp_marks db))"

text \<open>\<^verbatim>\<open>ORDER BY window_end DESC LIMIT 1\<close>.\<close>

definition readLastPeriodEnd :: "spend_db \<Rightarrow> string option" where
  "readLastPeriodEnd db =
     (case sort (map p_window_end (sp_periods db)) of [] \<Rightarrow> None | es \<Rightarrow> Some (last es))"

definition openLlmRollupPeriod :: "spend_db \<Rightarrow> period_row \<Rightarrow> db_error + spend_db" where
  "openLlmRollupPeriod db p =
     (if p_id p \<in> set (map p_id (sp_periods db)) then Inl UniqueFailed
      else Inr (db\<lparr>sp_periods := sp_periods db @ [p\<lparr>p_rows_ingested := 0, p_finished_at := None\<rparr>]\<rparr>))"

definition same_event :: "spend_event \<Rightarrow> event_row \<Rightarrow> bool" where
  "same_event e r \<longleftrightarrow> ev_source (e_event r) = ev_source e \<and> ev_sourceId (e_event r) = ev_sourceId e"

text \<open>
  \<^verbatim>\<open>INSERT OR IGNORE\<close>: a second row with the key, or a negative cost, is skipped; a period that does not
  exist is an error.  The result is the statement's change count.
\<close>

definition insert_event :: "string \<Rightarrow> string \<Rightarrow> spend_db \<Rightarrow> spend_event \<Rightarrow> db_error + (nat \<times> spend_db)" where
  "insert_event pid insertedAt db e =
     (if list_ex (same_event e) (sp_events db)
         \<or> (case ev_costMicroUsd e of Some (Fin r) \<Rightarrow> r < 0 | Some NegInf \<Rightarrow> True | _ \<Rightarrow> False)
      then Inr (0, db)
      else if pid \<notin> set (map p_id (sp_periods db)) then Inl ForeignKeyFailed
      else Inr (1, db\<lparr>sp_events := sp_events db @ [\<lparr>e_event = e, e_inserted_at = insertedAt, e_period_id = pid\<rparr>]\<rparr>))"

text \<open>One batch is a transaction: an error undoes the whole batch.\<close>

fun insert_batch :: "string \<Rightarrow> string \<Rightarrow> spend_db \<Rightarrow> spend_event list \<Rightarrow> db_error + (nat \<times> spend_db)" where
  "insert_batch pid insertedAt db [] = Inr (0, db)"
| "insert_batch pid insertedAt db (e # es) =
     (case insert_event pid insertedAt db e of
        Inl x \<Rightarrow> Inl x
      | Inr (n, db') \<Rightarrow>
          (case insert_batch pid insertedAt db' es of Inl x \<Rightarrow> Inl x | Inr (k, db'') \<Rightarrow> Inr (n + k, db'')))"

text \<open>Batches of fifty; the tables keep what earlier batches wrote when a later one fails.\<close>

function write_chunks ::
  "string \<Rightarrow> string \<Rightarrow> spend_db \<Rightarrow> spend_event list \<Rightarrow> (db_error + nat) \<times> spend_db" where
  "write_chunks pid insertedAt db es =
     (if es = [] then (Inr 0, db)
      else case insert_batch pid insertedAt db (take 50 es) of
        Inl x \<Rightarrow> (Inl x, db)
      | Inr (n, db') \<Rightarrow>
          (case write_chunks pid insertedAt db' (drop 50 es) of
             (Inl x, db'') \<Rightarrow> (Inl x, db'')
           | (Inr k, db'') \<Rightarrow> (Inr (n + k), db'')))"
  by auto
termination
  by (relation "measure (\<lambda>(pid, insertedAt, db, es). length es)") (auto simp: length_greater_0_conv [symmetric] simp del: length_greater_0_conv)

declare write_chunks.simps [simp del]

definition writeLlmSpendEvents ::
  "spend_db \<Rightarrow> string \<Rightarrow> spend_event list \<Rightarrow> string \<Rightarrow> (db_error + nat) \<times> spend_db" where
  "writeLlmSpendEvents db pid es insertedAt = write_chunks pid insertedAt db es"

definition closeLlmRollupPeriod :: "spend_db \<Rightarrow> string \<Rightarrow> nat \<Rightarrow> string \<Rightarrow> spend_db" where
  "closeLlmRollupPeriod db pid n finishedAt =
     db\<lparr>sp_periods := update_where (\<lambda>p. p_id p = pid)
          (\<lambda>p. p\<lparr>p_rows_ingested := n, p_finished_at := Some finishedAt\<rparr>) (sp_periods db)\<rparr>"

definition advanceLlmWatermark :: "spend_db \<Rightarrow> string \<Rightarrow> string \<Rightarrow> string \<Rightarrow> spend_db" where
  "advanceLlmWatermark db source lastSeenAt updatedAt =
     (if list_ex (\<lambda>m. m_id m = source) (sp_marks db)
      then db\<lparr>sp_marks := update_where (\<lambda>m. m_id m = source)
             (\<lambda>m. m\<lparr>m_last_seen_at := max (m_last_seen_at m) lastSeenAt, m_updated_at := updatedAt\<rparr>)
             (sp_marks db)\<rparr>
      else db\<lparr>sp_marks := sp_marks db @
             [\<lparr>m_id = source, m_last_seen_at = lastSeenAt, m_updated_at = updatedAt\<rparr>]\<rparr>)"

section \<open>One ingestion\<close>

definition DEFAULT_PAGE_CAP :: nat where
  "DEFAULT_PAGE_CAP = 40"

record ingest_outcome =
  io_periodId :: string
  io_windowStart :: string
  io_windowEnd :: string
  io_status :: rollup_status
  io_controlPassed :: bool
  io_gapDetected :: bool
  io_rowsSeen :: nat
  io_rowsDropped :: nat
  io_eventsWritten :: nat
  io_watermarkBefore :: "string option"
  io_watermarkAfter :: "string option"
  io_notes :: "rollup_note list"

text \<open>
  The three readings of the clock (start, close, advance) and the new period's id are arguments.  What
  is written stays when a later statement throws.
\<close>

definition ingestLlmSpend ::
  "gateway_reader \<Rightarrow> nat \<Rightarrow> string \<Rightarrow> string \<Rightarrow> string \<Rightarrow> string \<Rightarrow> spend_db
     \<Rightarrow> (db_error + ingest_outcome) \<times> spend_db" where
  "ingestLlmSpend reader pageCap periodId startedAt closedAt advancedAt db =
     (let before = readLlmWatermark db ''ai_gateway'';
          lastEnd = readLastPeriodEnd db;
          result = runRollup reader before pageCap;
          period = \<lparr>p_id = periodId,
             p_window_start = (case lastEnd of None \<Rightarrow> startedAt | Some e \<Rightarrow> e),
             p_window_end = startedAt, p_status = ro_status result,
             p_control_passed = ro_controlPassed result, p_rows_ingested = 0,
             p_gap_detected = ro_gapDetected result, p_started_at = startedAt, p_finished_at = None\<rparr>
      in case openLlmRollupPeriod db period of
           Inl e \<Rightarrow> (Inl e, db)
         | Inr db1 \<Rightarrow>
             (case (if ro_events result = [] then (Inr 0, db1)
                    else writeLlmSpendEvents db1 periodId (ro_events result) startedAt) of
                (Inl e, db2) \<Rightarrow> (Inl e, db2)
              | (Inr written, db2) \<Rightarrow>
                  (let db3 = closeLlmRollupPeriod db2 periodId written closedAt;
                       mark = (if ro_controlPassed result
                               then (case ro_newWatermark result of Some (c # cs) \<Rightarrow> Some (c # cs) | _ \<Rightarrow> None)
                               else None);
                       db4 = (case mark of None \<Rightarrow> db3
                              | Some m \<Rightarrow> advanceLlmWatermark db3 ''ai_gateway'' m advancedAt)
                   in (Inr \<lparr>io_periodId = periodId, io_windowStart = p_window_start period,
                            io_windowEnd = startedAt, io_status = ro_status result,
                            io_controlPassed = ro_controlPassed result, io_gapDetected = ro_gapDetected result,
                            io_rowsSeen = ro_rowsSeen result, io_rowsDropped = ro_rowsDropped result,
                            io_eventsWritten = written, io_watermarkBefore = before,
                            io_watermarkAfter = (case mark of None \<Rightarrow> before | Some m \<Rightarrow> Some m),
                            io_notes = ro_notes result\<rparr>, db4))))"

section \<open>The window a settlement reads\<close>

datatype window_reason_tag =
    CensusTruncated
  | NoRun
  | Unfinished nat
  | NotExhausted nat
  | ControlsFailed nat
  | Gapped nat
  | UnpricedRequests nat

definition periodBelongsToWindow :: "period_row \<Rightarrow> string \<Rightarrow> string \<Rightarrow> bool" where
  "periodBelongsToWindow p windowStart windowEnd \<longleftrightarrow> windowStart \<le> p_window_end p \<and> p_window_end p < windowEnd"

record window_sums =
  ws_cost :: jsnum
  ws_requests :: nat
  ws_unpriced :: nat

text \<open>The sentence of each reason, as the summary joins them.\<close>

fun reason_text :: "window_reason_tag \<Rightarrow> string" where
  "reason_text CensusTruncated =
     ''the period census for this window hit its own row limit, so the periods below are a subset ''
     @ ''and every count drawn from them is a floor''"
| "reason_text NoRun =
     ''no roll-up run is assigned to this window, so the meter made no observation of it. That is ''
     @ ''NOT the same fact as zero spend, and the zero below must not be billed as one''"
| "reason_text (Unfinished n) =
     show_nat n @ '' assigned run(s) never finished writing, so their event sets are partial''"
| "reason_text (NotExhausted n) =
     show_nat n @ '' assigned run(s) did not paginate to exhaustion (status incomplete or failed)''"
| "reason_text (ControlsFailed n) =
     show_nat n @ '' assigned run(s) FAILED their positive control, so what they read is not evidence ''
     @ ''(an empty gateway read is indistinguishable from wrong-gateway or no-permission)''"
| "reason_text (Gapped n) =
     show_nat n @ '' assigned run(s) detected a retention GAP: rows were deleted unread and are gone for good, ''
     @ ''so this window under-counts by an unknown amount that will never arrive''"
| "reason_text (UnpricedRequests n) =
     show_nat n @ '' request(s) in this window carried no usable cost from the gateway and are counted but NOT ''
     @ ''summed, so the total is a floor''"

definition window_reasons :: "period_row list \<Rightarrow> nat \<Rightarrow> bool \<Rightarrow> window_reason_tag list" where
  "window_reasons periods unpriced truncated =
     (let unfinished = changes (\<lambda>p. p_finished_at p = None \<or> p_finished_at p = Some []) periods;
          notComplete = changes (\<lambda>p. p_status p \<noteq> RComplete) periods;
          controlFailed = changes (\<lambda>p. \<not> p_control_passed p) periods;
          gapped = changes (\<lambda>p. p_gap_detected p) periods
      in (if truncated then [CensusTruncated] else [])
         @ (if periods = [] then [NoRun] else [])
         @ (if unfinished > 0 then [Unfinished unfinished] else [])
         @ (if notComplete > 0 then [NotExhausted notComplete] else [])
         @ (if controlFailed > 0 then [ControlsFailed controlFailed] else [])
         @ (if gapped > 0 then [Gapped gapped] else [])
         @ (if unpriced > 0 then [UnpricedRequests unpriced] else []))"

definition summariseWindow ::
  "period_row list \<Rightarrow> string \<Rightarrow> string \<Rightarrow> window_sums \<Rightarrow> bool \<Rightarrow> llm_spend_window" where
  "summariseWindow periods windowStart windowEnd sms truncated =
     (let reasons = window_reasons periods (ws_unpriced sms) truncated
      in \<lparr>window_start = windowStart, window_end = windowEnd, window_complete = (reasons = []),
          window_reason = (if reasons = [] then None else Some (join_with ''; '' (map reason_text reasons))),
          cost_micro_usd = ws_cost sms, requests = ws_requests sms,
          window_periods = length periods, unpriced_requests = ws_unpriced sms\<rparr>)"

definition MAX_PERIODS_PER_WINDOW :: nat where
  "MAX_PERIODS_PER_WINDOW = 20000"

text \<open>\<^verbatim>\<open>SUM\<close> of a column of numbers, exact on integers.\<close>

fun js_plus :: "jsnum \<Rightarrow> jsnum \<Rightarrow> jsnum" where
  "js_plus (Fin a) (Fin b) = Fin (a + b)"
| "js_plus NaN _ = NaN"
| "js_plus _ NaN = NaN"
| "js_plus PosInf NegInf = NaN"
| "js_plus NegInf PosInf = NaN"
| "js_plus PosInf _ = PosInf"
| "js_plus _ PosInf = PosInf"
| "js_plus NegInf _ = NegInf"
| "js_plus _ NegInf = NegInf"

definition js_sum :: "jsnum list \<Rightarrow> jsnum" where
  "js_sum xs = foldr js_plus xs (Fin 0)"

definition window_periods_upto :: "spend_db \<Rightarrow> string \<Rightarrow> string \<Rightarrow> nat \<Rightarrow> period_row list" where
  "window_periods_upto db windowStart windowEnd limit =
     take limit (sort_key (\<lambda>p. (p_window_end p, p_id p))
       (filter (\<lambda>p. periodBelongsToWindow p windowStart windowEnd) (sp_periods db)))"

definition tenant_events :: "spend_db \<Rightarrow> string \<Rightarrow> period_row list \<Rightarrow> event_row list" where
  "tenant_events db tenantId periods =
     filter (\<lambda>r. ev_tenantId (e_event r) = Some tenantId \<and> e_period_id r \<in> set (map p_id periods)) (sp_events db)"

definition event_sums :: "event_row list \<Rightarrow> window_sums" where
  "event_sums rs =
     \<lparr>ws_cost = js_sum (List.map_filter (\<lambda>r. ev_costMicroUsd (e_event r)) rs), ws_requests = length rs,
      ws_unpriced = changes (\<lambda>r. ev_costMicroUsd (e_event r) = None) rs\<rparr>"

definition readTenantLlmSpend ::
  "spend_db \<Rightarrow> nat \<Rightarrow> string \<Rightarrow> string \<Rightarrow> string \<Rightarrow> llm_spend_window" where
  "readTenantLlmSpend db maxPeriods tenantId windowStart windowEnd =
     (let found = window_periods_upto db windowStart windowEnd (maxPeriods + 1);
          truncated = length found > maxPeriods;
          periods = (if truncated then take maxPeriods found else found)
      in if periods = []
         then summariseWindow [] windowStart windowEnd \<lparr>ws_cost = Fin 0, ws_requests = 0, ws_unpriced = 0\<rparr> truncated
         else summariseWindow periods windowStart windowEnd
                (event_sums (tenant_events db tenantId (window_periods_upto db windowStart windowEnd maxPeriods)))
                truncated)"

section \<open>The price of a request\<close>

text \<open>
  C40: a price in whole millionths of a dollar is metered exactly.  The double nearest to such a price
  (up to \<open>2 ^ 50\<close> millionths, over a billion dollars) becomes the same number of micro-USD, despite the
  two roundings of binary arithmetic.
\<close>

theorem toMicroUsd_exact:
  assumes "0 < m" "m \<le> 2 ^ 50"
  shows "\<exists>c. fl64 (of_int m / 1000000) = Fin c \<and> toMicroUsd (Some (JNum (Fin c))) = Some (num_of_int m)"
proof -
  let ?m = "of_int m :: rat"
  have m: "1 \<le> ?m" "?m \<le> 2 ^ 50"
    using assms by (simp_all add: of_int_le_iff [of m "2 ^ 50", symmetric, where ?'a = rat])
  have tiny: "pow2 (- 1022) \<le> 1 / 4000000" by (simp add: pow2_def)
  have big: "(2::rat) ^ 50 \<le> 2 ^ 1000" by (rule power_increasing) simp_all
  obtain c where c: "fl64 (?m / 1000000) = Fin c"
  proof (rule fl64_finite)
    show "pow2 (- 1022) \<le> ?m / 1000000" using m(1) tiny by linarith
    show "?m / 1000000 \<le> 2 ^ 1000" using m big by linarith
  qed
  have "\<bar>c - ?m / 1000000\<bar> \<le> ?m / 1000000 / 2 ^ 53"
    using c by (rule fl64_error [rotated]) (use m(1) tiny in linarith)
  moreover have "?m / 1000000 / 2 ^ 53 \<le> ?m / 2000000" using m(1) by (simp add: field_simps)
  ultimately have c_bounds: "?m / 2000000 \<le> c" "c \<le> ?m / 500000"
    unfolding abs_le_iff by linarith+
  obtain p where p: "fl64 (c * 1000000) = Fin p"
  proof (rule fl64_finite)
    show "pow2 (- 1022) \<le> c * 1000000" using c_bounds m(1) tiny by linarith
    show "c * 1000000 \<le> 2 ^ 1000"
    proof -
      have "c * 1000000 \<le> 2 * ?m" using c_bounds by linarith
      also have "\<dots> \<le> 2 * 2 ^ 50" using m(2) by simp
      also have "\<dots> \<le> 2 ^ 1000" using power_increasing [of 51 1000 "2::rat"] by simp
      finally show ?thesis .
    qed
  qed
  have "\<lfloor>p + 1 / 2\<rfloor> = m"
    using millionths_error [OF assms c p] by (rule round_within_half)
  moreover have "\<not> c < 0" using c_bounds m(1) by linarith
  ultimately show ?thesis using c p by (simp add: toMicroUsd_def num_of_int_def)
qed

section \<open>Paging\<close>

lemma map_filter_length: "length (List.map_filter f xs) + changes (\<lambda>x. f x = None) xs = length xs"
  by (induction xs) (auto simp: map_filter_simps split: option.splits)

text \<open>The rows of the pages asked for, in order, up to the first one that is not full.\<close>

fun walk :: "nat \<Rightarrow> (nat \<Rightarrow> json list) \<Rightarrow> nat \<Rightarrow> nat \<Rightarrow> json list \<times> bool" where
  "walk 0 pages perPage page = ([], False)"
| "walk (Suc left) pages perPage page =
     (if length (pages page) < perPage then (pages page, True)
      else (case walk left pages perPage (Suc page) of (rows, done) \<Rightarrow> (pages page @ rows, done)))"

lemma add_rows_append: "add_rows (add_rows c xs) ys = add_rows c (xs @ ys)"
  by (simp add: add_rows_def map_filter_def changes_def)

lemma collect_pages_walk:
  assumes "\<And>page. gr_list reader after page perPage = Inr (pg page)"
  shows "collect_pages left reader after perPage page c =
    (case walk left (\<lambda>k. gp_rows (pg k)) perPage page of
       (rows, done) \<Rightarrow> Inr ((add_rows c rows)\<lparr>co_exhausted := co_exhausted c \<or> done\<rparr>))"
proof (induction left arbitrary: page c)
  case 0
  then show ?case by (simp add: add_rows_def map_filter_def changes_def)
next
  case (Suc left)
  show ?case
  proof (cases "length (gp_rows (pg page)) < perPage")
    case True
    then show ?thesis by (simp add: assms Let_def)
  next
    case False
    obtain rows fin where w: "walk left (\<lambda>k. gp_rows (pg k)) perPage (Suc page) = (rows, fin)" by fastforce
    have "co_exhausted (add_rows c xs) = co_exhausted c" for xs by (simp add: add_rows_def)
    with False show ?thesis by (simp add: assms Let_def Suc.IH w add_rows_append)
  qed
qed

text \<open>
  The page walk reads the log without loss.  When no page fails, the events are exactly the usable
  rows of the pages walked, in order; every row seen is either an event or counted as dropped; and the
  walk says it is exhausted exactly when it met a page that was not full.
\<close>

theorem collectSince_reads_all:
  assumes "\<And>page. gr_list reader after page perPage = Inr (pg page)"
  shows "\<exists>c. collectSince reader after pageCap perPage = Inr c
     \<and> co_events c = List.map_filter parseLogRow (fst (walk pageCap (\<lambda>k. gp_rows (pg k)) perPage 1))
     \<and> co_rowsSeen c = length (fst (walk pageCap (\<lambda>k. gp_rows (pg k)) perPage 1))
     \<and> length (co_events c) + co_rowsDropped c = co_rowsSeen c
     \<and> co_exhausted c = snd (walk pageCap (\<lambda>k. gp_rows (pg k)) perPage 1)"
proof -
  obtain rows fin where w: "walk pageCap (\<lambda>k. gp_rows (pg k)) perPage 1 = (rows, fin)" by fastforce
  show ?thesis
    using map_filter_length [of parseLogRow rows]
    by (simp add: collectSince_def collect_pages_walk [OF assms] w [simplified] add_rows_def)
qed

section \<open>Recording events\<close>

definition ignored :: "spend_db \<Rightarrow> spend_event \<Rightarrow> bool" where
  "ignored db e \<longleftrightarrow> list_ex (same_event e) (sp_events db)
     \<or> (case ev_costMicroUsd e of Some (Fin r) \<Rightarrow> r < 0 | Some NegInf \<Rightarrow> True | _ \<Rightarrow> False)"

lemma insert_event_cases:
  assumes "insert_event pid ia db e = Inr (n, db')"
  obtains (skip) "ignored db e" "n = 0" "db' = db"
  | (new) "\<not> ignored db e" "n = 1" "pid \<in> set (map p_id (sp_periods db))"
      "db' = db\<lparr>sp_events := sp_events db @ [\<lparr>e_event = e, e_inserted_at = ia, e_period_id = pid\<rparr>]\<rparr>"
  using assms unfolding insert_event_def ignored_def [symmetric] by (auto split: if_splits)

lemma insert_event_ignored: "ignored db e \<Longrightarrow> insert_event pid ia db e = Inr (0, db)"
  by (simp add: insert_event_def ignored_def)

lemma insert_event_then_ignored:
  assumes "insert_event pid ia db e = Inr (n, db')"
  shows "ignored db' e" "\<And>f. ignored db f \<Longrightarrow> ignored db' f"
  using assms by (cases rule: insert_event_cases; auto simp: ignored_def same_event_def)+

lemma insert_batch_ignored:
  "insert_batch pid ia db es = Inr (n, db') \<Longrightarrow>
   (\<forall>e \<in> set es. ignored db' e) \<and> (\<forall>f. ignored db f \<longrightarrow> ignored db' f)"
proof (induction es arbitrary: db n)
  case Nil
  then show ?case by simp
next
  case (Cons e es)
  obtain k db1 m where 1: "insert_event pid ia db e = Inr (k, db1)"
    and 2: "insert_batch pid ia db1 es = Inr (m, db')"
    using Cons.prems by (auto split: sum.splits prod.splits)
  show ?case using Cons.IH [OF 2] insert_event_then_ignored [OF 1] by auto
qed

lemma insert_batch_again: "\<forall>e \<in> set es. ignored db e \<Longrightarrow> insert_batch pid ia db es = Inr (0, db)"
  by (induction es) (simp_all add: insert_event_ignored)

lemma write_chunks_ignored:
  "write_chunks pid ia db es = (Inr n, db') \<Longrightarrow>
   (\<forall>e \<in> set es. ignored db' e) \<and> (\<forall>f. ignored db f \<longrightarrow> ignored db' f)"
proof (induction pid ia db es arbitrary: n rule: write_chunks.induct)
  case (1 pid ia db es)
  show ?case
  proof (cases "es = []")
    case True
    with "1.prems" show ?thesis by (simp add: write_chunks.simps)
  next
    case False
    obtain k db1 m where b: "insert_batch pid ia db (take 50 es) = Inr (k, db1)"
      and w: "write_chunks pid ia db1 (drop 50 es) = (Inr m, db')"
      using "1.prems" False
      by (subst (asm) write_chunks.simps) (auto split: sum.splits prod.splits)
    have "set es = set (take 50 es) \<union> set (drop 50 es)" by (metis append_take_drop_id set_append)
    then show ?thesis
      using insert_batch_ignored [OF b] "1.IH" [OF False b refl w] by blast
  qed
qed

lemma write_chunks_again:
  "\<forall>e \<in> set es. ignored db e \<Longrightarrow> write_chunks pid ia db es = (Inr 0, db)"
proof (induction pid ia db es rule: write_chunks.induct)
  case (1 pid ia db es)
  have b: "insert_batch pid ia db (take 50 es) = Inr (0, db)"
    using "1.prems" by (intro insert_batch_again) (auto dest: in_set_takeD)
  have "\<forall>e \<in> set (drop 50 es). ignored db e" using "1.prems" by (auto dest: in_set_dropD)
  then have "es \<noteq> [] \<Longrightarrow> write_chunks pid ia db (drop 50 es) = (Inr 0, db)"
    using "1.IH" [OF _ b refl] by blast
  then show ?case by (subst write_chunks.simps) (simp add: b)
qed

text \<open>
  A gateway row is recorded once.  Writing events that were written before, under any period and at
  any time, writes none of them and changes nothing.
\<close>

theorem events_recorded_once:
  assumes "writeLlmSpendEvents db pid es insertedAt = (Inr n, db')"
    and "set es' \<subseteq> set es"
  shows "writeLlmSpendEvents db' pid' es' insertedAt' = (Inr 0, db')"
proof -
  have "\<forall>e \<in> set es'. ignored db' e"
    using write_chunks_ignored [of pid insertedAt db es n db'] assms by (auto simp: writeLlmSpendEvents_def)
  then show ?thesis unfolding writeLlmSpendEvents_def by (rule write_chunks_again)
qed

section \<open>Runs of the meter\<close>

text \<open>A step is one ingestion with any gateway, clock and id, whether it succeeded or threw part way.\<close>

inductive spend_reachable :: "spend_db \<Rightarrow> bool" where
  start: "spend_reachable \<lparr>sp_periods = [], sp_events = [], sp_marks = []\<rparr>"
| ingest: "spend_reachable db \<Longrightarrow> ingestLlmSpend reader pageCap pid t1 t2 t3 db = (r, db') \<Longrightarrow> spend_reachable db'"

definition event_key :: "event_row \<Rightarrow> string \<times> string" where
  "event_key r = (ev_source (e_event r), ev_sourceId (e_event r))"

definition spend_inv :: "spend_db \<Rightarrow> bool" where
  "spend_inv db \<longleftrightarrow> distinct (map p_id (sp_periods db)) \<and> distinct (map event_key (sp_events db))
     \<and> distinct (map m_id (sp_marks db))
     \<and> (\<forall>r \<in> set (sp_events db). e_period_id r \<in> p_id ` set (sp_periods db))"

lemma open_inv:
  assumes "spend_inv db" "openLlmRollupPeriod db p = Inr db'"
  shows "spend_inv db' \<and> sp_marks db' = sp_marks db"
  using assms by (auto simp: openLlmRollupPeriod_def spend_inv_def split: if_splits)

lemma insert_event_inv:
  assumes "spend_inv db" "insert_event pid ia db e = Inr (n, db')"
  shows "spend_inv db' \<and> sp_marks db' = sp_marks db"
  using assms(2)
proof (cases rule: insert_event_cases)
  case skip
  with assms(1) show ?thesis by simp
next
  case new
  then have "\<forall>r \<in> set (sp_events db). event_key r \<noteq> (ev_source e, ev_sourceId e)"
    by (auto simp: ignored_def same_event_def event_key_def list_ex_iff)
  with assms(1) new(3) show ?thesis unfolding new(4)
    by (auto simp: spend_inv_def event_key_def)
qed

lemma insert_batch_inv:
  "spend_inv db \<Longrightarrow> insert_batch pid ia db es = Inr (n, db') \<Longrightarrow> spend_inv db' \<and> sp_marks db' = sp_marks db"
proof (induction es arbitrary: db n)
  case (Cons e es)
  obtain k db1 m where 1: "insert_event pid ia db e = Inr (k, db1)"
    and 2: "insert_batch pid ia db1 es = Inr (m, db')"
    using Cons.prems(2) by (auto split: sum.splits prod.splits)
  show ?case using Cons.IH [OF _ 2] insert_event_inv [OF Cons.prems(1) 1] by simp
qed simp

lemma write_chunks_inv:
  "spend_inv db \<Longrightarrow> write_chunks pid ia db es = (r, db') \<Longrightarrow> spend_inv db' \<and> sp_marks db' = sp_marks db"
proof (induction pid ia db es arbitrary: r rule: write_chunks.induct)
  case (1 pid ia db es)
  show ?case
  proof (cases "es = [] \<or> (\<exists>x. insert_batch pid ia db (take 50 es) = Inl x)")
    case True
    then have "db' = db"
      using "1.prems"(2) by (subst (asm) write_chunks.simps) (auto split: if_splits)
    with "1.prems"(1) show ?thesis by simp
  next
    case False
    then obtain k db1 where b: "insert_batch pid ia db (take 50 es) = Inr (k, db1)" and ne: "es \<noteq> []"
      by (cases "insert_batch pid ia db (take 50 es)") auto
    obtain q where w: "write_chunks pid ia db1 (drop 50 es) = (q, db')"
      using "1.prems"(2) b ne by (subst (asm) write_chunks.simps) (auto split: sum.splits prod.splits)
    note keep = insert_batch_inv [OF "1.prems"(1) b]
    with "1.IH" [OF ne b refl _ w] show ?thesis by simp
  qed
qed

lemma close_inv: "spend_inv db \<Longrightarrow> spend_inv (closeLlmRollupPeriod db pid n t)
    \<and> sp_marks (closeLlmRollupPeriod db pid n t) = sp_marks db"
proof -
  assume inv: "spend_inv db"
  let ?ps = "update_where (\<lambda>p. p_id p = pid) (\<lambda>p. p\<lparr>p_rows_ingested := n, p_finished_at := Some t\<rparr>) (sp_periods db)"
  have ids: "map p_id ?ps = map p_id (sp_periods db)" by (rule map_update_where) simp
  have "p_id ` set ?ps = set (map p_id ?ps)" by simp
  also have "\<dots> = p_id ` set (sp_periods db)" unfolding ids by simp
  finally show ?thesis using inv ids by (simp add: closeLlmRollupPeriod_def spend_inv_def)
qed

lemma advance_inv: "spend_inv db \<Longrightarrow> spend_inv (advanceLlmWatermark db src w t)"
  by (auto simp: advanceLlmWatermark_def spend_inv_def map_update_where list_ex_iff)

text \<open>The watermark only moves forward.\<close>

definition mark_le :: "string option \<Rightarrow> string option \<Rightarrow> bool" where
  "mark_le a b = (case (a, b) of (None, _) \<Rightarrow> True | (Some x, Some y) \<Rightarrow> x \<le> y | _ \<Rightarrow> False)"

lemma mark_le_refl [simp]: "mark_le a a"
  by (simp add: mark_le_def split: option.splits)

lemma find_update_where:
  assumes "\<And>r. p (f r) = p r"
  shows "List.find p (update_where p f t) = map_option f (List.find p t)"
  using assms by (induction t) auto

lemma advance_mark: "mark_le (readLlmWatermark db src) (readLlmWatermark (advanceLlmWatermark db src w t) src)"
proof (cases "List.find (\<lambda>m. m_id m = src) (sp_marks db)")
  case None
  then show ?thesis by (simp add: readLlmWatermark_def mark_le_def)
next
  case (Some m)
  then have "list_ex (\<lambda>m. m_id m = src) (sp_marks db)" using find_SomeD by (fastforce simp: list_ex_iff)
  with Some show ?thesis
    by (simp add: advanceLlmWatermark_def readLlmWatermark_def find_update_where mark_le_def)
qed

lemma ingest_inv:
  assumes "spend_inv db" "ingestLlmSpend reader pageCap pid t1 t2 t3 db = (r, db')"
  shows "spend_inv db' \<and> mark_le (readLlmWatermark db ''ai_gateway'') (readLlmWatermark db' ''ai_gateway'')"
proof -
  let ?result = "runRollup reader (readLlmWatermark db ''ai_gateway'') pageCap"
  define period where "period = \<lparr>p_id = pid,
     p_window_start = (case readLastPeriodEnd db of None \<Rightarrow> t1 | Some e \<Rightarrow> e), p_window_end = t1,
     p_status = ro_status ?result, p_control_passed = ro_controlPassed ?result, p_rows_ingested = 0,
     p_gap_detected = ro_gapDetected ?result, p_started_at = t1, p_finished_at = None\<rparr>"
  show ?thesis
  proof (cases "openLlmRollupPeriod db period")
    case (Inl e)
    with assms show ?thesis by (simp add: ingestLlmSpend_def Let_def period_def [symmetric])
  next
    case (Inr db1)
    note o1 = open_inv [OF assms(1) Inr]
    obtain w db2 where w: "(if ro_events ?result = [] then (Inr 0, db1)
        else writeLlmSpendEvents db1 pid (ro_events ?result) t1) = (w, db2)" by fastforce
    have o2: "spend_inv db2 \<and> sp_marks db2 = sp_marks db"
      using w o1 write_chunks_inv [of db1 pid t1 "ro_events ?result" w db2]
      by (auto simp: writeLlmSpendEvents_def split: if_splits)
    then have m2: "readLlmWatermark db2 = readLlmWatermark db" by (simp add: fun_eq_iff readLlmWatermark_def)
    show ?thesis
    proof (cases w)
      case (Inl e)
      with assms(2) Inr w o2 m2 show ?thesis by (simp add: ingestLlmSpend_def Let_def period_def [symmetric])
    next
      case (Inr n)
      note o3 = close_inv [of db2 pid n t2]
      have m3: "readLlmWatermark (closeLlmRollupPeriod db2 pid n t2) = readLlmWatermark db"
        using o2 o3 by (simp add: fun_eq_iff readLlmWatermark_def)
      from assms(2) \<open>openLlmRollupPeriod db period = Inr db1\<close> w Inr
      have "db' = closeLlmRollupPeriod db2 pid n t2
          \<or> (\<exists>m. db' = advanceLlmWatermark (closeLlmRollupPeriod db2 pid n t2) ''ai_gateway'' m t3)"
        by (auto simp: ingestLlmSpend_def Let_def period_def [symmetric] split: if_splits option.splits list.splits)
      then show ?thesis
        using o2 o3 m3 advance_inv advance_mark [of "closeLlmRollupPeriod db2 pid n t2" "''ai_gateway''"] by auto
    qed
  qed
qed

lemma spend_reachable_inv: "spend_reachable db \<Longrightarrow> spend_inv db"
proof (induction rule: spend_reachable.induct)
  case start
  show ?case by (simp add: spend_inv_def)
next
  case (ingest db reader pageCap pid t1 t2 t3 r db')
  then show ?case using ingest_inv by blast
qed

text \<open>
  The meter never forgets where it was.  Over any ingestion, of any gateway and even one that
  throws part way, each gateway row stays recorded at most once and the watermark does not move back.
\<close>

theorem watermark_monotone:
  assumes "spend_reachable db" "ingestLlmSpend reader pageCap pid t1 t2 t3 db = (r, db')"
  shows "distinct (map event_key (sp_events db'))
       \<and> mark_le (readLlmWatermark db ''ai_gateway'') (readLlmWatermark db' ''ai_gateway'')"
  using ingest_inv [OF spend_reachable_inv [OF assms(1)] assms(2)] by (simp add: spend_inv_def)

section \<open>Windows\<close>

lemma js_plus_0 [simp]: "js_plus (Fin 0) x = x" "js_plus x (Fin 0) = x"
  by (cases x; simp)+

lemma js_plus_commute: "js_plus x y = js_plus y x"
  by (cases x; cases y) simp_all

lemma js_plus_assoc: "js_plus (js_plus x y) z = js_plus x (js_plus y z)"
  by (cases x; cases y; cases z) simp_all

lemma js_sum_Cons [simp]: "js_sum (x # xs) = js_plus x (js_sum xs)"
  by (simp add: js_sum_def)

lemma js_sum_Nil [simp]: "js_sum [] = Fin 0"
  by (simp add: js_sum_def)

text \<open>A list split by two exclusive conditions: counts and sums add up.\<close>

definition price_or_0 :: "event_row \<Rightarrow> jsnum" where
  "price_or_0 r = (case ev_costMicroUsd (e_event r) of None \<Rightarrow> Fin 0 | Some x \<Rightarrow> x)"

lemma event_sums_Nil [simp]: "ws_requests (event_sums []) = 0" "ws_cost (event_sums []) = Fin 0"
  by (simp_all add: event_sums_def map_filter_simps)

lemma event_sums_Cons [simp]:
  "ws_requests (event_sums (r # rs)) = Suc (ws_requests (event_sums rs))"
  "ws_cost (event_sums (r # rs)) = js_plus (price_or_0 r) (ws_cost (event_sums rs))"
  by (auto simp: event_sums_def map_filter_simps price_or_0_def split: option.splits)

lemma requests_split:
  assumes "\<And>r. \<not> (p r \<and> q r)"
  shows "ws_requests (event_sums (filter (\<lambda>r. p r \<or> q r) rs)) =
           ws_requests (event_sums (filter p rs)) + ws_requests (event_sums (filter q rs))"
  using assms by (induction rs) auto

lemma cost_split:
  assumes "\<And>r. \<not> (p r \<and> q r)"
  shows "ws_cost (event_sums (filter (\<lambda>r. p r \<or> q r) rs)) =
           js_plus (ws_cost (event_sums (filter p rs))) (ws_cost (event_sums (filter q rs)))"
proof (induction rs)
  case (Cons r rs)
  have left_commute: "js_plus x (js_plus y z) = js_plus y (js_plus x z)" for x y z
    by (metis js_plus_assoc js_plus_commute)
  show ?case
  proof (cases "p r")
    case True
    with assms [of r] Cons show ?thesis by (simp add: js_plus_assoc)
  next
    case False
    then show ?thesis using Cons by (simp add: left_commute)
  qed
qed simp

lemma window_unlimited:
  assumes "length (filter (\<lambda>p. periodBelongsToWindow p a b) (sp_periods db)) \<le> n"
  shows "set (window_periods_upto db a b n) = set (filter (\<lambda>p. periodBelongsToWindow p a b) (sp_periods db))"
    and "length (window_periods_upto db a b (n + 1)) \<le> n"
    and "window_periods_upto db a b (n + 1) = window_periods_upto db a b n"
  using assms by (simp_all add: window_periods_upto_def)

definition in_window :: "spend_db \<Rightarrow> string \<Rightarrow> string \<Rightarrow> string \<Rightarrow> event_row \<Rightarrow> bool" where
  "in_window db tenantId a b r \<longleftrightarrow> ev_tenantId (e_event r) = Some tenantId
     \<and> (\<exists>p \<in> set (sp_periods db). p_id p = e_period_id r \<and> periodBelongsToWindow p a b)"

lemma read_untruncated:
  assumes "length (filter (\<lambda>p. periodBelongsToWindow p a b) (sp_periods db)) \<le> n"
  shows "requests (readTenantLlmSpend db n t a b) =
           ws_requests (event_sums (filter (in_window db t a b) (sp_events db)))"
    and "cost_micro_usd (readTenantLlmSpend db n t a b) =
           ws_cost (event_sums (filter (in_window db t a b) (sp_events db)))"
proof -
  note w = window_unlimited [OF assms]
  have ev: "tenant_events db t (window_periods_upto db a b n) = filter (in_window db t a b) (sp_events db)"
    unfolding tenant_events_def in_window_def set_map w(1)
    by (rule filter_cong) (auto simp: image_iff)
  have none: "filter (in_window db t a b) (sp_events db) = []" if "window_periods_upto db a b n = []"
    using w(1) that by (auto simp: filter_empty_conv in_window_def)
  show "requests (readTenantLlmSpend db n t a b) =
           ws_requests (event_sums (filter (in_window db t a b) (sp_events db)))"
    "cost_micro_usd (readTenantLlmSpend db n t a b) =
           ws_cost (event_sums (filter (in_window db t a b) (sp_events db)))"
    using w none by (auto simp: readTenantLlmSpend_def Let_def summariseWindow_def ev event_sums_def map_filter_simps)
qed

text \<open>
  Usage is billed to exactly one window.  Two adjacent windows together report the same requests and
  the same cost for a tenant as the window that spans both (as long as the spanning one is within the
  census limit), so no request is billed in two periods or lost between them.
\<close>

theorem adjacent_windows_add_up:
  assumes "spend_reachable db" "a \<le> b" "b \<le> c"
    and "length (filter (\<lambda>p. periodBelongsToWindow p a c) (sp_periods db)) \<le> n"
  shows "requests (readTenantLlmSpend db n t a c) =
           requests (readTenantLlmSpend db n t a b) + requests (readTenantLlmSpend db n t b c)
       \<and> cost_micro_usd (readTenantLlmSpend db n t a c) =
           js_plus (cost_micro_usd (readTenantLlmSpend db n t a b)) (cost_micro_usd (readTenantLlmSpend db n t b c))"
proof -
  from spend_reachable_inv [OF assms(1)] have ids: "distinct (map p_id (sp_periods db))"
    by (simp add: spend_inv_def)
  have part: "periodBelongsToWindow p a c \<longleftrightarrow> periodBelongsToWindow p a b \<or> periodBelongsToWindow p b c"
    and excl: "\<not> (periodBelongsToWindow p a b \<and> periodBelongsToWindow p b c)" for p
    using assms(2,3) by (auto simp: periodBelongsToWindow_def)
  have shorter: "length (filter P ps) \<le> length (filter Q ps)" if "\<And>p. P p \<Longrightarrow> Q p" for P Q and ps :: "period_row list"
    using that by (induction ps) auto
  have ab: "length (filter (\<lambda>p. periodBelongsToWindow p a b) (sp_periods db)) \<le> n"
    and bc: "length (filter (\<lambda>p. periodBelongsToWindow p b c) (sp_periods db)) \<le> n"
    by (rule order_trans [OF shorter assms(4)], use part in blast)+
  have un: "in_window db t a c = (\<lambda>r. in_window db t a b r \<or> in_window db t b c r)"
    using part by (auto simp: fun_eq_iff in_window_def)
  have ex: "\<not> (in_window db t a b r \<and> in_window db t b c r)" for r
  proof
    assume "in_window db t a b r \<and> in_window db t b c r"
    then obtain p q where "p \<in> set (sp_periods db)" "q \<in> set (sp_periods db)" "p_id p = p_id q"
      "periodBelongsToWindow p a b" "periodBelongsToWindow q b c" by (auto simp: in_window_def)
    with distinct_map_eq [OF ids] excl show False by blast
  qed
  show ?thesis
    unfolding read_untruncated [OF assms(4)] read_untruncated [OF ab] read_untruncated [OF bc] un
    by (rule conjI) (rule requests_split [OF ex], rule cost_split [OF ex])
qed

text \<open>
  A window is called complete only when it is.  If the reading of a window says complete, then some
  run covers it, every run in it finished, walked the log to the end, passed its control and saw no
  gap, every request of the tenant in it has a price, and the cost is the sum of all those prices.
\<close>

theorem complete_window_sound:
  assumes "window_complete (readTenantLlmSpend db n t a b)"
  shows "(\<exists>p \<in> set (sp_periods db). periodBelongsToWindow p a b)
       \<and> (\<forall>p \<in> set (sp_periods db). periodBelongsToWindow p a b \<longrightarrow>
            p_finished_at p \<noteq> None \<and> p_status p = RComplete \<and> p_control_passed p \<and> \<not> p_gap_detected p)
       \<and> (\<forall>r \<in> set (sp_events db). in_window db t a b r \<longrightarrow> ev_costMicroUsd (e_event r) \<noteq> None)
       \<and> cost_micro_usd (readTenantLlmSpend db n t a b) =
           js_sum (map (\<lambda>r. the (ev_costMicroUsd (e_event r))) (filter (in_window db t a b) (sp_events db)))"
proof -
  let ?ps = "filter (\<lambda>p. periodBelongsToWindow p a b) (sp_periods db)"
  let ?found = "window_periods_upto db a b (n + 1)"
  let ?evs = "tenant_events db t (window_periods_upto db a b n)"
  have short: "length ?found \<le> n" and ne: "?found \<noteq> []"
    using assms by (auto simp: readTenantLlmSpend_def Let_def summariseWindow_def window_reasons_def split: if_splits)
  then have len: "length ?ps \<le> n" by (simp add: window_periods_upto_def min_def split: if_splits)
  note w = window_unlimited [OF len]
  have reasons: "window_reasons ?found (ws_unpriced (event_sums ?evs)) False = []"
    using assms short ne by (simp add: readTenantLlmSpend_def Let_def summariseWindow_def)
  have set_found: "set ?found = set ?ps" using w by simp
  have periods: "p_finished_at p \<noteq> None \<and> p_status p = RComplete \<and> p_control_passed p \<and> \<not> p_gap_detected p"
    if "p \<in> set ?found" for p
    using reasons that by (auto simp: window_reasons_def Let_def changes_0_iff split: if_splits)
  have ev: "?evs = filter (in_window db t a b) (sp_events db)"
    unfolding tenant_events_def in_window_def set_map w(1) by (rule filter_cong) (auto simp: image_iff)
  have "ws_unpriced (event_sums ?evs) = 0"
    using reasons by (auto simp: window_reasons_def Let_def split: if_splits)
  then have priced: "\<forall>r \<in> set ?evs. ev_costMicroUsd (e_event r) \<noteq> None"
    by (simp add: event_sums_def changes_0_iff)
  have "List.map_filter (\<lambda>r. ev_costMicroUsd (e_event r)) rs = map (\<lambda>r. the (ev_costMicroUsd (e_event r))) rs"
    if "\<forall>r \<in> set rs. ev_costMicroUsd (e_event r) \<noteq> None" for rs
    using that by (induction rs) (auto simp: map_filter_simps)
  from this [OF priced]
  have cost: "cost_micro_usd (readTenantLlmSpend db n t a b) = js_sum (map (\<lambda>r. the (ev_costMicroUsd (e_event r))) ?evs)"
    unfolding read_untruncated [OF len] ev event_sums_def by simp
  have "\<exists>p \<in> set (sp_periods db). periodBelongsToWindow p a b"
    using ne set_found by (metis (mono_tags, lifting) filter_False set_empty)
  moreover have "\<forall>p \<in> set (sp_periods db). periodBelongsToWindow p a b \<longrightarrow>
      p_finished_at p \<noteq> None \<and> p_status p = RComplete \<and> p_control_passed p \<and> \<not> p_gap_detected p"
    using periods set_found by simp
  moreover have "\<forall>r \<in> set (sp_events db). in_window db t a b r \<longrightarrow> ev_costMicroUsd (e_event r) \<noteq> None"
    using priced unfolding ev by simp
  ultimately show ?thesis using cost unfolding ev by blast
qed

section \<open>The gateway's log over HTTP\<close>

definition PRISM_GATEWAY_ID :: string where
  "PRISM_GATEWAY_ID = ''skyphusion-llm''"

record gateway_config =
  gc_accountId :: string
  gc_gatewayId :: string
  gc_token :: string

text \<open>\<^verbatim>\<open>URLSearchParams\<close> serialises names and values as a form: only letters, digits and \<^verbatim>\<open>*-._\<close> stay.\<close>

definition form_encode :: "string \<Rightarrow> string" where
  "form_encode s =
     concat (map (\<lambda>c. if is_alnum c \<or> c \<in> set ''*-._'' then [c] else if c = CHR '' '' then ''+''
                      else concat (map (\<lambda>b. CHR ''%'' # upper_hex b) (utf8_char c))) s)"

definition query_string :: "(string \<times> string) list \<Rightarrow> string" where
  "query_string kvs = join_with ''&'' (map (\<lambda>(k, v). form_encode k @ ''='' @ form_encode v) kvs)"

definition created_after_filter :: "string \<Rightarrow> string" where
  "created_after_filter after =
     ''[{'' @ json_quote ''key'' @ '':'' @ json_quote ''created_at'' @ '','' @ json_quote ''operator'' @ '':''
     @ json_quote ''gt'' @ '','' @ json_quote ''value'' @ '':['' @ json_quote after @ '']}]''"

definition buildLogsUrl :: "string \<Rightarrow> string \<Rightarrow> nat \<Rightarrow> nat \<Rightarrow> string option \<Rightarrow> string" where
  "buildLogsUrl accountId gatewayId page perPage after =
     ''https://api.cloudflare.com/client/v4/accounts/'' @ encodeURIComponent accountId
     @ ''/ai-gateway/gateways/'' @ encodeURIComponent gatewayId @ ''/logs?''
     @ query_string ([(''page'', show_nat page), (''per_page'', show_nat perPage),
         (''order_by'', ''created_at''), (''order_by_direction'', ''asc'')]
         @ (case after of Some (c # cs) \<Rightarrow> [(''filters'', created_after_filter (c # cs))] | _ \<Rightarrow> []))"

datatype logs_error = HttpStatus nat | Refused nat | NoResultArray nat | NotJson nat | BadPage nat | BadPerPage nat

definition parseLogsResponse :: "nat \<Rightarrow> json \<Rightarrow> logs_error + gateway_page" where
  "parseLogsResponse status b =
     (if status < 200 \<or> 300 \<le> status then Inl (HttpStatus status)
      else if jget b ''success'' \<noteq> Some (JBool True) then Inl (Refused status)
      else case jget b ''result'' of
        Some (JArr rows) \<Rightarrow>
          Inr \<lparr>gp_rows = rows,
               gp_totalCount = (case jget b ''result_info'' of
                  Some i \<Rightarrow> (case jget i ''total_count'' of Some (JNum (Fin r)) \<Rightarrow> Some (Fin r) | _ \<Rightarrow> None)
                | None \<Rightarrow> None)\<rparr>
      | _ \<Rightarrow> Inl (NoResultArray status))"

definition logs_get :: "(http_request \<Rightarrow> http_response) \<Rightarrow> gateway_config \<Rightarrow> string \<Rightarrow> logs_error + gateway_page" where
  "logs_get fetch cfg url =
     (let res = fetch \<lparr>q_method = ''GET'', q_url = url,
            q_headers = [(''authorization'', ''Bearer '' @ gc_token cfg), (''accept'', ''application/json'')],
            q_body = NoBody\<rparr>
      in case s_json res of None \<Rightarrow> Inl (NotJson (s_status res)) | Some b \<Rightarrow> parseLogsResponse (s_status res) b)"

definition logs_list ::
  "(http_request \<Rightarrow> http_response) \<Rightarrow> gateway_config \<Rightarrow> string option \<Rightarrow> nat \<Rightarrow> nat \<Rightarrow> logs_error + gateway_page" where
  "logs_list fetch cfg after page perPage =
     (if page < 1 then Inl (BadPage page)
      else if perPage < 1 \<or> perPage > MAX_PER_PAGE then Inl (BadPerPage perPage)
      else logs_get fetch cfg (buildLogsUrl (gc_accountId cfg) (gc_gatewayId cfg) page perPage after))"

definition logs_probe ::
  "(http_request \<Rightarrow> http_response) \<Rightarrow> gateway_config \<Rightarrow> logs_error + (jsnum option \<times> string option)" where
  "logs_probe fetch cfg =
     (case logs_get fetch cfg (buildLogsUrl (gc_accountId cfg) (gc_gatewayId cfg) 1 1 None) of
        Inl e \<Rightarrow> Inl e
      | Inr page \<Rightarrow> Inr (gp_totalCount page,
          case gp_rows page of
            r # _ \<Rightarrow> (case jget r ''created_at'' of Some (JStr (c # cs)) \<Rightarrow> Some (c # cs) | _ \<Rightarrow> None)
          | [] \<Rightarrow> None))"

text \<open>The construction refuses a blank setting and the gateway of another product.\<close>

definition aiGatewayLogReader :: "gateway_config \<Rightarrow> gateway_config option" where
  "aiGatewayLogReader cfg =
     (let accountId = js_trim (gc_accountId cfg); gatewayId = js_trim (gc_gatewayId cfg)
      in if accountId = [] \<or> gatewayId = [] \<or> gc_token cfg = [] \<or> gatewayId = PRISM_GATEWAY_ID then None
         else Some (cfg\<lparr>gc_accountId := accountId, gc_gatewayId := gatewayId\<rparr>))"

section \<open>An ingestion evaluated\<close>

definition ex_log_row :: "string \<Rightarrow> string \<Rightarrow> json" where
  "ex_log_row i t = JObj [(''id'', JStr i), (''created_at'', JStr t), (''cost'', JNum (Fin 0)),
     (''metadata'', JObj [(''tenant_id'', JStr ''ten_a'')])]"

definition ex_reader :: gateway_reader where
  "ex_reader = \<lparr>gr_list = (\<lambda>after page perPage. Inr \<lparr>gp_rows = [ex_log_row ''l1'' ''2026-07-02'', ex_log_row ''l2'' ''2026-07-03''],
       gp_totalCount = None\<rparr>), gr_probe = Inr (Some (Fin 2), Some ''2026-07-01'')\<rparr>"

definition ex_spend0 :: spend_db where
  "ex_spend0 = \<lparr>sp_periods = [], sp_events = [], sp_marks = []\<rparr>"

abbreviation "ex_ingest \<equiv> ingestLlmSpend ex_reader 40 ''llmp_1'' ''2026-07-04'' ''2026-07-05'' ''2026-07-05'' ex_spend0"

lemma ex_spend0_reach: "spend_reachable ex_spend0"
  unfolding ex_spend0_def by (rule spend_reachable.start)

lemma ex_spend1_reach: "spend_reachable (snd ex_ingest)"
  by (rule spend_reachable.ingest [OF ex_spend0_reach surjective_pairing])

theorem toMicroUsd_exact_witness:
  "\<exists>c. fl64 (of_int 250000 / 1000000) = Fin c \<and> toMicroUsd (Some (JNum (Fin c))) = Some (num_of_int 250000)"
  by (rule toMicroUsd_exact) simp_all

theorem collectSince_reads_all_witness:
  "\<exists>c. collectSince ex_reader None 3 50 = Inr c \<and> co_rowsSeen c = 2 \<and> co_exhausted c"
proof -
  have "\<And>page. gr_list ex_reader None page 50 =
      Inr \<lparr>gp_rows = [ex_log_row ''l1'' ''2026-07-02'', ex_log_row ''l2'' ''2026-07-03''], gp_totalCount = None\<rparr>"
    by (simp add: ex_reader_def)
  from collectSince_reads_all [OF this, of 3] show ?thesis by (auto simp: eval_nat_numeral)
qed

theorem events_recorded_once_witness:
  "\<exists>db es. es \<noteq> [] \<and> writeLlmSpendEvents db ''llmp_9'' es ''t'' = (Inr 0, db)"
proof -
  define es where "es = List.map_filter parseLogRow [ex_log_row ''l1'' ''2026-07-02'']"
  define db where "db = ex_spend0\<lparr>sp_periods := [\<lparr>p_id = ''llmp_1'', p_window_start = [], p_window_end = [],
     p_status = RComplete, p_control_passed = True, p_rows_ingested = 0, p_gap_detected = False,
     p_started_at = [], p_finished_at = None\<rparr>]\<rparr>"
  define W where "W = writeLlmSpendEvents db ''llmp_1'' es ''t''"
  have "fst W = Inr 1" unfolding W_def db_def es_def by code_simp
  then have "writeLlmSpendEvents db ''llmp_1'' es ''t'' = (Inr 1, snd W)" unfolding W_def by (metis prod.collapse)
  from events_recorded_once [OF this order_refl]
  have "writeLlmSpendEvents (snd W) ''llmp_9'' es ''t'' = (Inr 0, snd W)" .
  moreover have "es \<noteq> []" unfolding es_def by code_simp
  ultimately show ?thesis by blast
qed

theorem watermark_monotone_witness:
  "mark_le (readLlmWatermark ex_spend0 ''ai_gateway'') (readLlmWatermark (snd ex_ingest) ''ai_gateway'')"
  using watermark_monotone [OF ex_spend0_reach surjective_pairing] by blast

theorem adjacent_windows_add_up_witness:
  "requests (readTenantLlmSpend (snd ex_ingest) 10 ''ten_a'' ''2026-07'' ''2026-08'') =
     requests (readTenantLlmSpend (snd ex_ingest) 10 ''ten_a'' ''2026-07'' ''2026-07-04'')
     + requests (readTenantLlmSpend (snd ex_ingest) 10 ''ten_a'' ''2026-07-04'' ''2026-08'')"
proof -
  have ab: "(''2026-07''::string) \<le> ''2026-07-04''" "(''2026-07-04''::string) \<le> ''2026-08''" by code_simp+
  have len: "length (filter (\<lambda>p. periodBelongsToWindow p ''2026-07'' ''2026-08'') (sp_periods (snd ex_ingest))) \<le> 10"
    by code_simp
  from adjacent_windows_add_up [OF ex_spend1_reach ab len] show ?thesis by blast
qed

theorem complete_window_sound_witness:
  "\<exists>p \<in> set (sp_periods (snd ex_ingest)). periodBelongsToWindow p ''2026-07'' ''2026-08''"
proof -
  have "window_complete (readTenantLlmSpend (snd ex_ingest) 10 ''ten_a'' ''2026-07'' ''2026-08'')" by code_simp
  from complete_window_sound [OF this] show ?thesis by blast
qed

end
