(* ===== verification/Json.thy ===== *)
theory Json
  imports Http Float64
begin

text \<open>
  \<^verbatim>\<open>JSON.parse\<close>, as the sources use it on stored columns and configuration.  \<^const>\<open>None\<close> is the
  SyntaxError the callers catch.  An escape \<^verbatim>\<open>\uXXXX\<close> above 255 has no character in this model and
  fails to parse.  The parsers take fuel; the length of the text is always enough, since every
  recursive call happens after at least one character was read.
\<close>

section \<open>Tokens\<close>

definition json_space :: "char \<Rightarrow> bool" where
  "json_space c \<longleftrightarrow> c \<in> set [CHR '' '', CHR 0x09, CHR 0x0A, CHR 0x0D]"

definition skip_space :: "string \<Rightarrow> string" where
  "skip_space s = dropWhile json_space s"

definition hex_val :: "char \<Rightarrow> nat option" where
  "hex_val c =
     (let n = (of_char c :: nat) in
      if 48 \<le> n \<and> n \<le> 57 then Some (n - 48)
      else if 97 \<le> n \<and> n \<le> 102 then Some (n - 87)
      else if 65 \<le> n \<and> n \<le> 70 then Some (n - 55) else None)"

definition escape_hex :: "char \<Rightarrow> char \<Rightarrow> char \<Rightarrow> char \<Rightarrow> char option" where
  "escape_hex a b c d =
     (case (hex_val a, hex_val b, hex_val c, hex_val d) of
        (Some 0, Some 0, Some x, Some y) \<Rightarrow> Some (char_of (16 * x + y))
      | _ \<Rightarrow> None)"

definition escape_char :: "char \<Rightarrow> char option" where
  "escape_char c =
     (if c = CHR 0x22 \<or> c = CHR 0x5C \<or> c = CHR ''/'' then Some c
      else if c = CHR ''b'' then Some (CHR 0x08) else if c = CHR ''f'' then Some (CHR 0x0C)
      else if c = CHR ''n'' then Some (CHR 0x0A) else if c = CHR ''r'' then Some (CHR 0x0D)
      else if c = CHR ''t'' then Some (CHR 0x09) else None)"

text \<open>The characters of a string literal after its opening quote, and the text after the closing one.\<close>

fun string_chars :: "string \<Rightarrow> (string \<times> string) option" where
  "string_chars [] = None"
| "string_chars (c # s) =
     (if c = CHR 0x22 then Some ([], s)
      else if (of_char c :: nat) < 32 then None
      else if c = CHR 0x5C then
        (case s of [] \<Rightarrow> None
         | e # t \<Rightarrow>
             if e = CHR ''u'' then
               (case t of w # x # y # z # u \<Rightarrow>
                  (case escape_hex w x y z of None \<Rightarrow> None
                   | Some d \<Rightarrow> map_option (apfst ((#) d)) (string_chars u))
                | _ \<Rightarrow> None)
             else (case escape_char e of None \<Rightarrow> None
                   | Some d \<Rightarrow> map_option (apfst ((#) d)) (string_chars t)))
      else map_option (apfst ((#) c)) (string_chars s))"

text \<open>The double nearest to the decimal numeral with these digits and exponent.\<close>

definition number_value :: "bool \<Rightarrow> string \<Rightarrow> string \<Rightarrow> int \<Rightarrow> jsnum" where
  "number_value neg ip fp e =
     (let k = e - int (length fp);
          r = (of_nat (read_nat (ip @ fp)) :: rat) * (if 0 \<le> k then 10 ^ nat k else 1 / 10 ^ nat (- k))
      in fl64 (if neg then - r else r))"

definition exponent_part :: "string \<Rightarrow> (int \<times> string) option" where
  "exponent_part s =
     (case s of
        c # t \<Rightarrow>
          if c = CHR ''e'' \<or> c = CHR ''E'' then
            (let neg = (t \<noteq> [] \<and> hd t = CHR ''-'');
                 u = (if t \<noteq> [] \<and> (hd t = CHR ''-'' \<or> hd t = CHR ''+'') then tl t else t);
                 ds = takeWhile is_digit u
             in if ds = [] then None
                else Some ((if neg then - 1 else 1) * int (read_nat ds), dropWhile is_digit u))
          else Some (0, s)
      | [] \<Rightarrow> Some (0, s))"

definition parse_number :: "string \<Rightarrow> (json \<times> string) option" where
  "parse_number s0 =
     (let neg = (s0 \<noteq> [] \<and> hd s0 = CHR ''-''); s = (if neg then tl s0 else s0);
          ip = takeWhile is_digit s; s1 = dropWhile is_digit s;
          dot = (s1 \<noteq> [] \<and> hd s1 = CHR ''.'');
          fp = (if dot then takeWhile is_digit (tl s1) else []);
          s2 = (if dot then dropWhile is_digit (tl s1) else s1)
      in if ip = [] \<or> (hd ip = CHR ''0'' \<and> ip \<noteq> ''0'') \<or> (dot \<and> fp = []) then None
         else (case exponent_part s2 of None \<Rightarrow> None
               | Some (e, s3) \<Rightarrow> Some (JNum (number_value neg ip fp e), s3)))"

definition parse_literal :: "string \<Rightarrow> (json \<times> string) option" where
  "parse_literal s =
     (if starts_with s ''true'' then Some (JBool True, drop 4 s)
      else if starts_with s ''false'' then Some (JBool False, drop 5 s)
      else if starts_with s ''null'' then Some (JNull, drop 4 s)
      else parse_number s)"

section \<open>Values\<close>

fun parse_value :: "nat \<Rightarrow> string \<Rightarrow> (json \<times> string) option"
  and parse_elements :: "nat \<Rightarrow> string \<Rightarrow> (json list \<times> string) option"
  and parse_members :: "nat \<Rightarrow> string \<Rightarrow> ((string \<times> json) list \<times> string) option" where
  "parse_value 0 s = None"
| "parse_value (Suc n) s0 =
     (case skip_space s0 of
        [] \<Rightarrow> None
      | c # s \<Rightarrow>
          if c = CHR 0x22 then map_option (apfst JStr) (string_chars s)
          else if c = CHR ''['' then
            (case skip_space s of
               d # t \<Rightarrow> if d = CHR '']'' then Some (JArr [], t)
                       else map_option (apfst JArr) (parse_elements n (d # t))
             | [] \<Rightarrow> None)
          else if c = CHR ''{'' then
            (case skip_space s of
               d # t \<Rightarrow> if d = CHR ''}'' then Some (JObj [], t)
                       else map_option (apfst JObj) (parse_members n (d # t))
             | [] \<Rightarrow> None)
          else parse_literal (c # s))"
| "parse_elements 0 s = None"
| "parse_elements (Suc n) s =
     (case parse_value n s of None \<Rightarrow> None
      | Some (v, s1) \<Rightarrow>
          (case skip_space s1 of
             c # t \<Rightarrow> if c = CHR '']'' then Some ([v], t)
                     else if c = CHR '','' then map_option (apfst ((#) v)) (parse_elements n t)
                     else None
           | [] \<Rightarrow> None))"
| "parse_members 0 s = None"
| "parse_members (Suc n) s =
     (case skip_space s of
        q # s1 \<Rightarrow>
          if q \<noteq> CHR 0x22 then None
          else (case string_chars s1 of None \<Rightarrow> None
                | Some (k, s2) \<Rightarrow>
                    (case skip_space s2 of
                       c # s3 \<Rightarrow>
                         if c \<noteq> CHR '':'' then None
                         else (case parse_value n s3 of None \<Rightarrow> None
                               | Some (v, s4) \<Rightarrow>
                                   (case skip_space s4 of
                                      d # t \<Rightarrow> if d = CHR ''}'' then Some ([(k, v)], t)
                                              else if d = CHR '','' then
                                                map_option (apfst ((#) (k, v))) (parse_members n t)
                                              else None
                                    | [] \<Rightarrow> None))
                     | [] \<Rightarrow> None))
      | [] \<Rightarrow> None)"

definition JSON_parse :: "string \<Rightarrow> json option" where
  "JSON_parse s =
     (case parse_value (2 * length s + 2) s of None \<Rightarrow> None
      | Some (v, t) \<Rightarrow> if skip_space t = [] then Some v else None)"

section \<open>What the sources print is read back\<close>

lemma hex_val_digit: "k < 16 \<Longrightarrow> hex_val (hex_digit k) = Some k"
  by (auto simp: hex_val_def hex_digit_def)

lemma special_char_codes:
  "(of_char c = (34::nat)) = (c = CHR 0x22)" "(of_char c = (92::nat)) = (c = CHR 0x5C)"
  "(of_char c = (8::nat)) = (c = CHR 0x08)" "(of_char c = (9::nat)) = (c = CHR 0x09)"
  "(of_char c = (10::nat)) = (c = CHR 0x0A)" "(of_char c = (12::nat)) = (c = CHR 0x0C)"
  "(of_char c = (13::nat)) = (c = CHR 0x0D)"
  using of_char_eq_iff [of c "CHR 0x22", where 'a = nat] of_char_eq_iff [of c "CHR 0x5C", where 'a = nat]
    of_char_eq_iff [of c "CHR 0x08", where 'a = nat] of_char_eq_iff [of c "CHR 0x09", where 'a = nat]
    of_char_eq_iff [of c "CHR 0x0A", where 'a = nat] of_char_eq_iff [of c "CHR 0x0C", where 'a = nat]
    of_char_eq_iff [of c "CHR 0x0D", where 'a = nat] by simp_all

lemma string_chars_control:
  assumes "(of_char c :: nat) < 32"
  shows "string_chars (CHR 0x5C # ''u00'' @ hex_byte (of_nat (of_char c)) @ s) = map_option (apfst ((#) c)) (string_chars s)"
proof -
  let ?n = "of_char c :: nat"
  have u: "unat (of_nat ?n :: 8 word) = ?n" using assms by (simp add: unsigned_of_nat take_bit_nat_def)
  have "escape_hex (CHR ''0'') (CHR ''0'') (hex_digit (?n div 16)) (hex_digit (?n mod 16)) = Some (char_of (16 * (?n div 16) + ?n mod 16))"
    using assms by (simp add: escape_hex_def hex_val_digit) (simp add: hex_val_def)
  also have "16 * (?n div 16) + ?n mod 16 = ?n" by simp
  finally show ?thesis by (simp add: hex_byte_def u)
qed

lemma string_chars_escape:
  "string_chars (json_escape c @ s) = map_option (apfst ((#) c)) (string_chars s)"
proof -
  let ?n = "of_char c :: nat"
  have c: "c = char_of ?n" by simp
  consider "?n = 34" | "?n = 92" | "?n = 8" | "?n = 9" | "?n = 10" | "?n = 12" | "?n = 13"
    | (ctl) "?n < 32" "?n \<notin> {8, 9, 10, 12, 13}" | (plain) "32 \<le> ?n" "?n \<noteq> 34" "?n \<noteq> 92"
    by force
  then show ?thesis
  proof cases
    case ctl
    then show ?thesis using string_chars_control [OF ctl(1)] by (simp add: json_escape_def)
  next
    case plain
    then have "c \<noteq> CHR 0x22" "c \<noteq> CHR 0x5C" by auto
    with plain show ?thesis by (simp add: json_escape_def)
  qed (simp_all only: special_char_codes, simp_all add: json_escape_def escape_char_def)
qed

lemma string_chars_quoted: "string_chars (concat (map json_escape w) @ CHR 0x22 # s) = Some (w, s)"
  by (induction w) (simp_all add: string_chars_escape)

lemma skip_space_token [simp]: "\<not> json_space c \<Longrightarrow> skip_space (c # s) = c # s"
  by (simp add: skip_space_def)

lemma json_space_punct [simp]:
  "\<not> json_space (CHR 0x22)" "\<not> json_space (CHR '','')" "\<not> json_space (CHR '':'')"
  "\<not> json_space (CHR ''{'')" "\<not> json_space (CHR ''}'')" "\<not> json_space (CHR ''['')" "\<not> json_space (CHR '']'')"
  by (simp_all add: json_space_def)

lemma parse_quoted: "parse_value (Suc n) (json_quote v @ s) = Some (JStr v, s)"
  by (simp add: json_quote_def string_chars_quoted)

lemma parse_members_strings:
  assumes "kvs \<noteq> []" "length kvs < n"
  shows "parse_members n (join_with '','' (map (\<lambda>(k, v). json_quote k @ '':'' @ json_quote v) kvs) @ CHR ''}'' # t)
    = Some (map (\<lambda>(k, v). (k, JStr v)) kvs, t)"
  using assms
proof (induction kvs arbitrary: n)
  case Nil
  then show ?case by simp
next
  case (Cons kv kvs)
  obtain k v where kv: "kv = (k, v)" by (cases kv)
  define m where "m = n - 2"
  have "length kvs + 1 < n" using Cons.prems(2) by simp
  then have n: "n = Suc (Suc m)" unfolding m_def by linarith
  note q = string_chars_quoted parse_quoted [of m v]
  show ?case
  proof (cases kvs)
    case Nil
    have "parse_members (Suc (Suc m)) (json_quote k @ '':'' @ json_quote v @ CHR ''}'' # t) = Some ([(k, JStr v)], t)"
      using q by (simp add: json_quote_def)
    then show ?thesis by (simp add: Nil kv n)
  next
    case (Cons kv2 kvs2)
    let ?r = "join_with '','' (map (\<lambda>(k, v). json_quote k @ '':'' @ json_quote v) kvs) @ CHR ''}'' # t"
    have ih: "parse_members (Suc m) ?r = Some (map (\<lambda>(k, v). (k, JStr v)) kvs, t)"
      using Cons.prems Cons n by (intro Cons.IH) simp_all
    have "parse_members (Suc (Suc m)) (json_quote k @ '':'' @ json_quote v @ CHR '','' # ?r)
        = Some ((k, JStr v) # map (\<lambda>(k, v). (k, JStr v)) kvs, t)"
      using q ih by (simp add: json_quote_def)
    then show ?thesis by (simp add: Cons kv n)
  qed
qed

text \<open>\<^verbatim>\<open>JSON.stringify\<close> of an array of such objects.\<close>

definition stringify_objects :: "(string \<times> string) list list \<Rightarrow> string" where
  "stringify_objects os = ''['' @ join_with '','' (map stringify_strings os) @ '']''"

definition string_object :: "(string \<times> string) list \<Rightarrow> json" where
  "string_object kvs = JObj (map (\<lambda>(k, v). (k, JStr v)) kvs)"

lemma parse_string_object:
  assumes "length kvs < n"
  shows "parse_value (Suc n) (stringify_strings kvs @ t) = Some (string_object kvs, t)"
proof (cases kvs)
  case Nil
  then show ?thesis by (simp add: stringify_strings_def string_object_def)
next
  case (Cons kv kvs')
  let ?r = "join_with '','' (map (\<lambda>(k, v). json_quote k @ '':'' @ json_quote v) kvs) @ CHR ''}'' # t"
  obtain s where r: "?r = CHR 0x22 # s"
    using Cons by (cases kv; cases kvs') (auto simp: json_quote_def)
  have "parse_members n ?r = Some (map (\<lambda>(k, v). (k, JStr v)) kvs, t)"
    using Cons assms by (intro parse_members_strings) simp_all
  then have "parse_members n (CHR 0x22 # s) = Some (map (\<lambda>(k, v). (k, JStr v)) kvs, t)"
    unfolding r .
  then have "parse_value (Suc n) (CHR ''{'' # ?r) = Some (string_object kvs, t)"
    unfolding r by (simp add: string_object_def)
  then show ?thesis by (simp add: stringify_strings_def)
qed

lemma stringify_strings_brace: "\<exists>s. stringify_strings kvs @ t = CHR ''{'' # s"
  by (simp add: stringify_strings_def)

lemma parse_elements_objects:
  assumes "os \<noteq> []" "length os + N < n" "\<And>kvs. kvs \<in> set os \<Longrightarrow> length kvs < N"
  shows "parse_elements n (join_with '','' (map stringify_strings os) @ CHR '']'' # t) = Some (map string_object os, t)"
  using assms
proof (induction os arbitrary: n)
  case Nil
  then show ?case by simp
next
  case (Cons kvs os)
  define m where "m = n - 2"
  have "length os + 1 + N < n" using Cons.prems(2) by simp
  then have n: "n = Suc (Suc m)" unfolding m_def by linarith
  have "length kvs < m" using Cons.prems(2) Cons.prems(3) [of kvs] n by simp
  note v = parse_string_object [OF this]
  show ?case
  proof (cases os)
    case Nil
    then show ?thesis using v [of "CHR '']'' # t"] by (simp add: n)
  next
    case (Cons o2 os2)
    let ?r = "join_with '','' (map stringify_strings os) @ CHR '']'' # t"
    have ih: "parse_elements (Suc m) ?r = Some (map string_object os, t)"
      using Cons.prems Cons n by (intro Cons.IH) simp_all
    have "parse_elements (Suc (Suc m)) (stringify_strings kvs @ CHR '','' # ?r)
        = Some (string_object kvs # map string_object os, t)"
      using v [of "CHR '','' # ?r"] ih by simp
    then show ?thesis by (simp add: Cons n)
  qed
qed

lemma length_join_member: "w \<in> set ws \<Longrightarrow> length w \<le> length (join_with sep ws)"
  by (induction sep ws rule: join_with.induct) auto

lemma length_join_count: "(\<And>w. w \<in> set ws \<Longrightarrow> w \<noteq> []) \<Longrightarrow> length ws \<le> length (join_with sep ws)"
proof (induction sep ws rule: join_with.induct)
  case (2 sep w)
  then show ?case by (cases w) auto
next
  case (3 sep w v ws)
  then have "1 \<le> length w" "length (v # ws) \<le> length (join_with sep (v # ws))" by (auto simp: Suc_le_eq)
  then show ?case by simp
qed simp

lemma length_stringify_strings: "length kvs < length (stringify_strings kvs)"
proof -
  have "length (map (\<lambda>(k, v). json_quote k @ '':'' @ json_quote v) kvs)
      \<le> length (join_with '','' (map (\<lambda>(k, v). json_quote k @ '':'' @ json_quote v) kvs))"
    by (rule length_join_count) auto
  then show ?thesis by (simp add: stringify_strings_def)
qed

theorem JSON_parse_objects: "JSON_parse (stringify_objects os) = Some (JArr (map string_object os))"
proof (cases "os = []")
  case True
  have "parse_value 6 ''[]'' = Some (JArr [], [])" by code_simp
  with True show ?thesis by (simp add: JSON_parse_def stringify_objects_def skip_space_def)
next
  case False
  let ?j = "join_with '','' (map stringify_strings os)"
  define L where "L = length ?j"
  have len: "length (stringify_objects os) = L + 2" by (simp add: stringify_objects_def L_def)
  have "stringify_strings kvs \<noteq> []" for kvs using stringify_strings_brace [of kvs "[]"] by auto
  then have "length (map stringify_strings os) \<le> L"
    unfolding L_def by (intro length_join_count) auto
  then have cnt: "length os \<le> L" by simp
  have mem: "length kvs < L + 1" if "kvs \<in> set os" for kvs
    using length_join_member [of "stringify_strings kvs" "map stringify_strings os" "'',''"]
      length_stringify_strings [of kvs] that unfolding L_def by force
  have "parse_elements (2 * (L + 2) + 1) (?j @ CHR '']'' # []) = Some (map string_object os, [])"
    using False cnt mem by (intro parse_elements_objects [where N = "L + 1"]) simp_all
  moreover obtain s where r: "?j @ CHR '']'' # [] = CHR ''{'' # s"
  proof -
    obtain o1 os1 where "os = o1 # os1" using False by (cases os) auto
    then show thesis using that by (cases os1) (auto simp: stringify_strings_def)
  qed
  ultimately have "parse_elements (2 * (L + 2) + 1) (CHR ''{'' # s) = Some (map string_object os, [])"
    unfolding r by simp
  then have "parse_value (Suc (2 * (L + 2) + 1)) (CHR ''['' # CHR ''{'' # s) = Some (JArr (map string_object os), [])"
    by simp
  moreover have "stringify_objects os = CHR ''['' # CHR ''{'' # s" using r by (simp add: stringify_objects_def)
  moreover have "2 * length (stringify_objects os) + 2 = Suc (2 * (L + 2) + 1)" unfolding len by simp
  ultimately have "parse_value (2 * length (stringify_objects os) + 2) (stringify_objects os) = Some (JArr (map string_object os), [])"
    by (simp only:)
  then show ?thesis by (simp add: JSON_parse_def skip_space_def)
qed

end
