(* ===== verification/SqliteTime.thy ===== *)
theory SqliteTime
  imports Dates
begin

text \<open>
  The two clocks of the store.  The columns a statement fills with \<^verbatim>\<open>datetime('now')\<close> hold whole
  seconds in SQLite's format; the Worker reads them back with \<^verbatim>\<open>Date.parse\<close>.  The theory ends with the
  facts that such strings are ordered as the seconds are, and that the Worker reads the second written.
\<close>

section \<open>SQLite timestamps\<close>

text \<open>
  \<^verbatim>\<open>datetime('now')\<close> of SQLite at a time in milliseconds: whole seconds, a blank between date and
  clock, no zone.  The columns it fills are compared as strings.
\<close>

definition iso_date :: "int \<Rightarrow> string" where
  "iso_date t =
     iso_year (getUTCFullYear t) @ ''-'' @ fixed_nat 2 (nat (getUTCMonth t + 1)) @ ''-''
     @ fixed_nat 2 (nat (getUTCDate t))"

definition second_clock :: "int \<Rightarrow> string" where
  "second_clock s =
     fixed_nat 2 (nat (s div 3600000)) @ '':'' @ fixed_nat 2 (nat (s div 60000 mod 60)) @ '':''
     @ fixed_nat 2 (nat (s div 1000 mod 60))"

definition sqlite_datetime :: "int \<Rightarrow> string" where
  "sqlite_datetime t = iso_date t @ '' '' @ second_clock (t mod ms_per_day)"

text \<open>
  \<^verbatim>\<open>Date.parse\<close> of a string \<^verbatim>\<open>YYYY-MM-DDTHH:MM:SSZ\<close>; \<^const>\<open>None\<close> is NaN, the answer for a field
  out of range.  Strings of another shape, which no writer of the columns read here makes, count as NaN.
\<close>

definition shape_of :: "string \<Rightarrow> string" where
  "shape_of s = map (\<lambda>c. if is_digit c then CHR ''0'' else c) s"

definition parse_utc_seconds :: "string \<Rightarrow> int option" where
  "parse_utc_seconds s =
     (let f = (\<lambda>i. int (read_nat (take 2 (drop i s)))) in
      if shape_of s = ''0000-00-00T00:00:00Z''
         \<and> 1 \<le> f 5 \<and> f 5 \<le> 12 \<and> 1 \<le> f 8 \<and> f 8 \<le> 31 \<and> f 11 \<le> 23 \<and> f 14 \<le> 59 \<and> f 17 \<le> 59
      then Some (Date_parse (take 19 s @ ''.000Z'')) else None)"

lemma whole_second_div: "0 \<le> n \<Longrightarrow> (t div 1000 * 1000) div (1000 * n) = t div (1000 * n)" for t n :: int
  by (simp add: zdiv_zmult2_eq)

lemma whole_second_day: "(t div 1000 * 1000) div ms_per_day = t div ms_per_day"
  using whole_second_div [of t 86400] by (simp add: ms_per_day_def)

lemma whole_second_mod: "(t div 1000 * 1000) mod ms_per_day = t mod ms_per_day div 1000 * 1000"
proof -
  have "t mod (1000 * 86400) = 1000 * (t div 1000 mod 86400) + t mod 1000"
    by (rule zmod_zmult2_eq) simp
  then have "t mod (1000 * 86400) div 1000 = t div 1000 mod 86400" by simp
  moreover have "(t div 1000 * 1000) mod (1000 * 86400) = 1000 * (t div 1000 mod 86400)"
    by (simp only: mult.commute [of _ 1000] mult_mod_right)
  ultimately show ?thesis by (simp add: ms_per_day_def)
qed

lemma toISOString_whole_second:
  "toISOString (t div 1000 * 1000) = iso_date t @ ''T'' @ second_clock (t mod ms_per_day) @ ''.000Z''"
proof -
  let ?s = "t mod ms_per_day"
  have d: "?s div 1000 * 1000 div 3600000 = ?s div 3600000"
    "?s div 1000 * 1000 div 60000 = ?s div 60000"
    using whole_second_div [of ?s 3600] whole_second_div [of ?s 60] by simp_all
  have z: "fixed_nat 3 0 = ''000''" by code_simp
  have "iso_clock (?s div 1000 * 1000) = second_clock ?s @ ''.000Z''"
    unfolding iso_clock_def second_clock_def d by (simp add: z)
  moreover have "getUTCFullYear (t div 1000 * 1000) = getUTCFullYear t"
    "getUTCMonth (t div 1000 * 1000) = getUTCMonth t" "getUTCDate (t div 1000 * 1000) = getUTCDate t"
    by (simp_all add: getUTCFullYear_def getUTCMonth_def getUTCDate_def whole_second_day)
  ultimately show ?thesis
    by (simp add: toISOString_def iso_date_def whole_second_mod)
qed

lemma four_digit_whole_second: "four_digit_year (t div 1000 * 1000) = four_digit_year t"
  by (simp add: four_digit_year_def getUTCFullYear_def whole_second_day)

lemma length_iso_date: "four_digit_year t \<Longrightarrow> length (iso_date t) = 10"
  by (simp add: iso_date_def four_digit_year_def iso_year_def)

lemma length_second_clock: "length (second_clock s) = 8"
  by (simp add: second_clock_def)

lemma sqlite_datetime_less_iff:
  assumes "four_digit_year t" "four_digit_year u"
  shows "sqlite_datetime t < sqlite_datetime u \<longleftrightarrow> t div 1000 < u div 1000"
proof -
  have "sqlite_datetime t < sqlite_datetime u \<longleftrightarrow>
      toISOString (t div 1000 * 1000) < toISOString (u div 1000 * 1000)"
    unfolding sqlite_datetime_def toISOString_whole_second
    by (simp add: less_append_same_length length_iso_date [OF assms(1)] length_iso_date [OF assms(2)]
        length_second_clock)
  also have "\<dots> \<longleftrightarrow> t div 1000 * 1000 < u div 1000 * 1000"
    using assms by (simp add: toISOString_less_iff four_digit_whole_second)
  finally show ?thesis by simp
qed

lemma shape_of_append: "shape_of (a @ b) = shape_of a @ shape_of b"
  by (simp add: shape_of_def)

lemma shape_of_fixed: "shape_of (fixed_nat w n) = replicate w (CHR ''0'')"
proof -
  have "shape_of (fixed_nat w n) = map (\<lambda>c. CHR ''0'') (fixed_nat w n)"
    unfolding shape_of_def by (rule map_cong) (auto dest: set_fixed_nat)
  then show ?thesis by (simp add: map_replicate_const)
qed

lemma int_read_two_digits: "0 \<le> n \<Longrightarrow> n < 100 \<Longrightarrow> int (read_nat (fixed_nat 2 (nat n))) = n"
  using read_nat_fixed [of "nat n" 2] by (simp add: nat_less_iff)

lemma parse_sqlite_datetime:
  assumes "four_digit_year t"
  shows "parse_utc_seconds (iso_date t @ ''T'' @ second_clock (t mod ms_per_day) @ ''Z'') = Some (t div 1000 * 1000)"
proof -
  let ?y = "getUTCFullYear t" and ?m = "getUTCMonth t" and ?c = "t mod ms_per_day"
  let ?s = "iso_date t @ ''T'' @ second_clock ?c @ ''Z''"
  have y: "0 \<le> ?y" "?y \<le> 9999" using assms by (simp_all add: four_digit_year_def)
  have c: "0 \<le> ?c" "?c < ms_per_day" by (simp_all add: ms_per_day_def)
  note f = fields [of t] and k = clock_fields [OF c]
  have m60: "0 \<le> ?c div 60000 mod 60" "?c div 60000 mod 60 \<le> 59" "0 \<le> ?c div 1000 mod 60"
    "?c div 1000 mod 60 \<le> 59"
    using pos_mod_bound [of 60 "?c div 60000"] pos_mod_bound [of 60 "?c div 1000"] by simp_all
  have reads: "int (read_nat (fixed_nat 2 (nat (?m + 1)))) = ?m + 1"
    "int (read_nat (fixed_nat 2 (nat (getUTCDate t)))) = getUTCDate t"
    "int (read_nat (fixed_nat 2 (nat (?c div 3600000)))) = ?c div 3600000"
    "int (read_nat (fixed_nat 2 (nat (?c div 60000 mod 60)))) = ?c div 60000 mod 60"
    "int (read_nat (fixed_nat 2 (nat (?c div 1000 mod 60)))) = ?c div 1000 mod 60"
    using f(1,2,5,6) k(2,3) m60 by (intro int_read_two_digits; linarith)+
  have z: "replicate 4 (CHR ''0'') = ''0000''" "replicate 2 (CHR ''0'') = ''00''" by code_simp+
  have shape: "shape_of ?s = ''0000-00-00T00:00:00Z''"
    unfolding iso_date_def second_clock_def iso_year_digits [OF y] shape_of_append shape_of_fixed z
    by (simp add: shape_of_def is_digit_def)
  have parts: "take 2 (drop 5 ?s) = fixed_nat 2 (nat (?m + 1))" "take 2 (drop 8 ?s) = fixed_nat 2 (nat (getUTCDate t))"
    "take 2 (drop 11 ?s) = fixed_nat 2 (nat (?c div 3600000))"
    "take 2 (drop 14 ?s) = fixed_nat 2 (nat (?c div 60000 mod 60))"
    "take 2 (drop 17 ?s) = fixed_nat 2 (nat (?c div 1000 mod 60))"
    unfolding iso_date_def second_clock_def iso_year_digits [OF y] by simp_all
  have "take 19 ?s @ ''.000Z'' = toISOString (t div 1000 * 1000)"
    using length_iso_date [OF assms] length_second_clock [of ?c] by (simp add: toISOString_whole_second)
  then have v: "Date_parse (take 19 ?s @ ''.000Z'') = t div 1000 * 1000"
    using assms by (simp only: Date_parse_toISOString four_digit_whole_second)
  have ok: "1 \<le> ?m + 1" "?m + 1 \<le> 12" "1 \<le> getUTCDate t" "getUTCDate t \<le> 31" "?c div 3600000 \<le> 23"
    using f(1,2,5,6) k(3) by linarith+
  show ?thesis
    unfolding parse_utc_seconds_def Let_def shape parts reads v
    by (simp only: ok m60 simp_thms if_True)
qed

section \<open>Reading ISO timestamps back\<close>

text \<open>\<^verbatim>\<open>Date.parse\<close> of what \<^verbatim>\<open>toISOString\<close> writes for a four-digit year; \<^const>\<open>None\<close> is NaN.\<close>

definition parse_iso :: "string \<Rightarrow> int option" where
  "parse_iso s =
     (let f = (\<lambda>i. int (read_nat (take 2 (drop i s)))) in
      if shape_of s = ''0000-00-00T00:00:00.000Z''
         \<and> 1 \<le> f 5 \<and> f 5 \<le> 12 \<and> 1 \<le> f 8 \<and> f 8 \<le> 31 \<and> f 11 \<le> 23 \<and> f 14 \<le> 59 \<and> f 17 \<le> 59
      then Some (Date_parse s) else None)"

lemma parse_iso_toISOString:
  assumes "four_digit_year t"
  shows "parse_iso (toISOString t) = Some t"
proof -
  let ?y = "getUTCFullYear t" and ?m = "getUTCMonth t" and ?c = "t mod ms_per_day"
  let ?s = "toISOString t"
  have y: "0 \<le> ?y" "?y \<le> 9999" using assms by (simp_all add: four_digit_year_def)
  have c: "0 \<le> ?c" "?c < ms_per_day" by (simp_all add: ms_per_day_def)
  note f = fields [of t] and k = clock_fields [OF c]
  have m60: "0 \<le> ?c div 60000 mod 60" "?c div 60000 mod 60 \<le> 59" "0 \<le> ?c div 1000 mod 60"
    "?c div 1000 mod 60 \<le> 59"
    using pos_mod_bound [of 60 "?c div 60000"] pos_mod_bound [of 60 "?c div 1000"] by simp_all
  have reads: "int (read_nat (fixed_nat 2 (nat (?m + 1)))) = ?m + 1"
    "int (read_nat (fixed_nat 2 (nat (getUTCDate t)))) = getUTCDate t"
    "int (read_nat (fixed_nat 2 (nat (?c div 3600000)))) = ?c div 3600000"
    "int (read_nat (fixed_nat 2 (nat (?c div 60000 mod 60)))) = ?c div 60000 mod 60"
    "int (read_nat (fixed_nat 2 (nat (?c div 1000 mod 60)))) = ?c div 1000 mod 60"
    using f(1,2,5,6) k(2,3) m60 by (intro int_read_two_digits; linarith)+
  have z: "replicate 4 (CHR ''0'') = ''0000''" "replicate 2 (CHR ''0'') = ''00''" "replicate 3 (CHR ''0'') = ''000''"
    by code_simp+
  have shape: "shape_of ?s = ''0000-00-00T00:00:00.000Z''"
    unfolding toISOString_def iso_clock_def iso_year_digits [OF y] shape_of_append shape_of_fixed z
    by (simp add: shape_of_def is_digit_def)
  have parts: "take 2 (drop 5 ?s) = fixed_nat 2 (nat (?m + 1))" "take 2 (drop 8 ?s) = fixed_nat 2 (nat (getUTCDate t))"
    "take 2 (drop 11 ?s) = fixed_nat 2 (nat (?c div 3600000))"
    "take 2 (drop 14 ?s) = fixed_nat 2 (nat (?c div 60000 mod 60))"
    "take 2 (drop 17 ?s) = fixed_nat 2 (nat (?c div 1000 mod 60))"
    unfolding toISOString_def iso_clock_def iso_year_digits [OF y] by simp_all
  have ok: "1 \<le> ?m + 1" "?m + 1 \<le> 12" "1 \<le> getUTCDate t" "getUTCDate t \<le> 31" "?c div 3600000 \<le> 23"
    using f(1,2,5,6) k(3) by linarith+
  show ?thesis
    unfolding parse_iso_def Let_def shape parts reads Date_parse_toISOString [OF assms]
    by (simp only: ok m60 simp_thms if_True)
qed

end
