(* ===== verification/Tenants.thy ===== *)
theory Tenants
  imports Json SqliteTime
begin

text \<open>
  Tenants as the store keeps them and the rules that need no database: the rows and lease predicates of
  \<^verbatim>\<open>src/src/store.ts\<close>, the slug rules and projections of \<^verbatim>\<open>src/src/tenants.ts\<close>, and the routing
  projection of \<^verbatim>\<open>src/src/tenant-resolver.ts\<close>.

  \<^verbatim>\<open>tenants.status\<close> is a TEXT column without a CHECK, so a row may hold a value no lifecycle state
  has; that value is the argument of \<open>Unmodelled\<close>.
\<close>

section \<open>Rows\<close>

datatype lifecycle =
    Pending | Provisioning | AwaitingGoLive | AwaitingInvokeKey | Live | Failed | Deleting | Deleted
  | Unmodelled json

record tenant =
  t_id :: string
  t_slug :: string
  t_account_id :: string
  t_status :: lifecycle
  t_script_name :: "string option"
  t_d1_database_id :: "string option"
  t_r2_bucket_name :: "string option"
  t_endpoints_json :: "string option"
  t_r2_token_id :: "string option"
  t_studio_release :: "string option"
  t_modules_release :: "string option"
  t_studio_token_enc :: "string option"
  t_created_at :: string
  t_live_at :: "string option"
  t_suspended_at :: "string option"
  t_suspended_reason :: "string option"
  t_deleted_at :: "string option"
  t_api_token_rotated_at :: "string option"
  t_teardown_at :: "string option"
  t_teardown_failures :: "string option"
  t_reclaim_lease_until :: "string option"
  t_reclaim_lease_token :: "string option"
  t_video_finish_unreachable :: int
  t_video_finish_unreachable_reason :: "string option"
  t_video_finish_unreachable_at :: "string option"
  t_r2_storage_quota_override :: "string option"
  t_r2_storage_quota_bytes :: "string option"
  t_runpod_mode :: string

datatype job_kind = JProvision | JDeprovision | JModuleUpgrade | JStudioUpgrade

datatype job_status = Queued | Running | Succeeded | JobFailed

record provision_job =
  j_id :: string
  j_tenant_id :: string
  j_kind :: job_kind
  j_status :: job_status
  j_step :: "string option"
  j_steps_done :: string
  j_error_step :: "string option"
  j_error_message :: "string option"
  j_attempts :: nat
  j_lease_until :: "string option"
  j_from_release :: "string option"
  j_to_release :: "string option"
  j_runpod_mode :: "string option"
  j_created_at :: string
  j_updated_at :: string
  j_finished_at :: "string option"

record reclaim_handle =
  rh_tenant_id :: string
  rh_d1_database_id :: "string option"
  rh_r2_bucket_name :: "string option"
  rh_r2_token_id :: "string option"
  rh_script_name :: "string option"

datatype slug_claim = Available "reclaim_handle option" | Unavailable string

section \<open>Lifecycle and leases\<close>

definition normalizeLifecycle :: "lifecycle \<Rightarrow> lifecycle" where
  "normalizeLifecycle st = (if st = AwaitingInvokeKey then AwaitingGoLive else st)"

definition isAwaitingGoLive :: "lifecycle \<Rightarrow> bool" where
  "isAwaitingGoLive st \<longleftrightarrow> st = AwaitingGoLive \<or> st = AwaitingInvokeKey"

definition TIER_A_STATUSES :: "lifecycle list" where
  "TIER_A_STATUSES = [Pending, Provisioning, AwaitingGoLive, AwaitingInvokeKey, Failed]"

definition JOB_LEASE_SECONDS :: int where
  "JOB_LEASE_SECONDS = 60"

definition RECLAIM_LEASE_SECONDS :: int where
  "RECLAIM_LEASE_SECONDS = 300"

text \<open>\<^verbatim>\<open>s.replace(" ", "T")\<close> changes the first blank only.\<close>

fun replace_first :: "char \<Rightarrow> char \<Rightarrow> string \<Rightarrow> string" where
  "replace_first a b [] = []"
| "replace_first a b (c # s) = (if c = a then b # s else c # replace_first a b s)"

definition leaseIsLive :: "string option \<Rightarrow> int \<Rightarrow> bool" where
  "leaseIsLive leaseUntil nowMs =
     (case leaseUntil of None \<Rightarrow> False
      | Some l \<Rightarrow> (case parse_utc_seconds (replace_first (CHR '' '') (CHR ''T'') l @ ''Z'') of
                   None \<Rightarrow> False | Some t \<Rightarrow> t > nowMs))"

definition jobHasLiveDriver :: "provision_job \<Rightarrow> int \<Rightarrow> bool" where
  "jobHasLiveDriver job nowMs =
     (if j_status job \<noteq> Queued \<and> j_status job \<noteq> Running then False
      else leaseIsLive (j_lease_until job) nowMs)"

definition jobAwaitsFirstDriver :: "provision_job \<Rightarrow> bool" where
  "jobAwaitsFirstDriver job \<longleftrightarrow> j_status job = Queued"

definition SLUG_TAKEN_REASON :: string where
  "SLUG_TAKEN_REASON = ''that name is taken''"

definition classifySlugClaim :: "tenant option \<Rightarrow> string \<Rightarrow> int \<Rightarrow> slug_claim" where
  "classifySlugClaim row accountId nowMs =
     (case row of None \<Rightarrow> Available None
      | Some r \<Rightarrow>
          if t_account_id r \<noteq> accountId then Unavailable SLUG_TAKEN_REASON
          else if t_live_at r = None \<and> t_status r \<in> set TIER_A_STATUSES then
            (if leaseIsLive (t_reclaim_lease_until r) nowMs then
               Unavailable ''that name is being reset right now; try again in a few minutes''
             else Available (Some \<lparr>rh_tenant_id = t_id r, rh_d1_database_id = t_d1_database_id r,
                    rh_r2_bucket_name = t_r2_bucket_name r, rh_r2_token_id = t_r2_token_id r,
                    rh_script_name = t_script_name r\<rparr>))
          else if t_live_at r \<noteq> None \<and> t_status r = Deleted then
            Unavailable ''that name belonged to a studio that has been deleted, and cannot be reused''
          else Unavailable ''you already have a studio at that name'')"

section \<open>Slugs\<close>

datatype slug_rejection = TooShort | TooLong | BadShape | Reserved | Punycode

definition slug_edge :: "char \<Rightarrow> bool" where
  "slug_edge c \<longleftrightarrow> is_lower_alpha c \<or> is_digit c"

definition slug_inner :: "char \<Rightarrow> bool" where
  "slug_inner c \<longleftrightarrow> slug_edge c \<or> c = CHR ''-''"

text \<open>\<^verbatim>\<open>/^[a-z0-9](?:[a-z0-9-]{1,30}[a-z0-9])$/\<close>.\<close>

definition SLUG_RE :: "string \<Rightarrow> bool" where
  "SLUG_RE s \<longleftrightarrow> 3 \<le> length s \<and> length s \<le> 32
     \<and> slug_edge (hd s) \<and> list_all slug_inner (butlast (tl s)) \<and> slug_edge (last s)"

definition RESERVED :: "string list" where
  "RESERVED =
     [''www'', ''api'', ''admin'', ''administrator'', ''root'', ''demo'', ''studio'', ''mcp'', ''studio-mcp'',
      ''app'', ''status'', ''mail'', ''smtp'', ''imap'', ''ns'', ''ns1'', ''ns2'', ''dns'', ''cdn'', ''static'',
      ''assets'', ''support'', ''help'', ''docs'', ''blog'', ''billing'', ''account'', ''accounts'', ''auth'',
      ''login'', ''signup'', ''security'', ''abuse'', ''postmaster'', ''webmaster'', ''test'', ''staging'',
      ''dev'', ''internal'', ''vivijure'']"

text \<open>\<^const>\<open>None\<close> is \<^verbatim>\<open>{ ok: true }\<close>.\<close>

definition validateSlug :: "string \<Rightarrow> slug_rejection option" where
  "validateSlug slug =
     (if length slug < 3 then Some TooShort
      else if length slug > 32 then Some TooLong
      else if \<not> SLUG_RE slug then Some BadShape
      else if starts_with slug ''xn--'' then Some Punycode
      else if slug \<in> set RESERVED then Some Reserved
      else None)"

fun slugRejectionMessage :: "slug_rejection \<Rightarrow> string" where
  "slugRejectionMessage TooShort = ''must be at least 3 characters''"
| "slugRejectionMessage TooLong = ''must be at most 32 characters''"
| "slugRejectionMessage BadShape =
     ''use lowercase letters, numbers, and hyphens; must start and end with a letter or number''"
| "slugRejectionMessage Reserved = ''that name is reserved''"
| "slugRejectionMessage Punycode = ''use plain letters, numbers, and hyphens''"

section \<open>Projections of a tenant\<close>

datatype runpod_mode = Dedicated | Shared

definition readRunPodMode :: "string option \<Rightarrow> runpod_mode" where
  "readRunPodMode raw = (if raw = Some ''shared'' then Shared else Dedicated)"

datatype tenant_status = Lifecycle lifecycle | Suspended

record tenant_view =
  v_id :: string
  v_slug :: string
  v_status :: tenant_status
  v_lifecycle :: lifecycle
  v_url :: "string option"
  v_studio_release :: "string option"
  v_modules_release :: "string option"
  v_created_at :: string
  v_live_at :: "string option"
  v_suspended_reason :: "string option"
  v_runpod_mode :: "runpod_mode option"

definition tenantView :: "tenant \<Rightarrow> string \<Rightarrow> tenant_view" where
  "tenantView t domainSuffix =
     (let suspended = (t_suspended_at t \<noteq> None); lc = normalizeLifecycle (t_status t)
      in \<lparr>v_id = t_id t, v_slug = t_slug t,
          v_status = (if suspended then Suspended else Lifecycle lc), v_lifecycle = lc,
          v_url = (if t_status t = Live \<and> \<not> suspended then Some (''https://'' @ t_slug t @ domainSuffix) else None),
          v_studio_release = t_studio_release t, v_modules_release = t_modules_release t,
          v_created_at = t_created_at t, v_live_at = t_live_at t, v_suspended_reason = t_suspended_reason t,
          v_runpod_mode = (if t_endpoints_json t = None \<or> t_endpoints_json t = Some [] then None
                           else Some (readRunPodMode (Some (t_runpod_mode t))))\<rparr>)"

definition tenantScriptName :: "string \<Rightarrow> string" where
  "tenantScriptName slug = ''tenant-'' @ slug @ ''-studio''"

text \<open>
  The stored endpoint list: both readers share the parse and the test for an array, and neither throws.
  Property access on an array element that is itself an array finds no \<^verbatim>\<open>id\<close>.
\<close>

definition stored_endpoints :: "tenant \<Rightarrow> json list" where
  "stored_endpoints t =
     (case t_endpoints_json t of None \<Rightarrow> []
      | Some raw \<Rightarrow> if raw = [] then []
                   else (case JSON_parse raw of Some (JArr vs) \<Rightarrow> vs | _ \<Rightarrow> []))"

definition endpoint_row :: "json \<Rightarrow> (string \<times> string option \<times> string option) option" where
  "endpoint_row v =
     (case v of
        JStr s \<Rightarrow> Some (s, None, None)
      | _ \<Rightarrow> (case jstring (jget v ''id'') of None \<Rightarrow> None
             | Some i \<Rightarrow> Some (i, jstring (jget v ''name''), jstring (jget v ''label''))))"

definition tenantEndpointRecipe :: "tenant \<Rightarrow> (string \<times> string option \<times> string option) list" where
  "tenantEndpointRecipe t = List.map_filter endpoint_row (stored_endpoints t)"

definition endpoint_id :: "json \<Rightarrow> string option" where
  "endpoint_id v = (case v of JStr s \<Rightarrow> Some s | _ \<Rightarrow> jstring (jget v ''id''))"

definition tenantEndpointIds :: "tenant \<Rightarrow> string list" where
  "tenantEndpointIds t = List.map_filter endpoint_id (stored_endpoints t)"

text \<open>The provisioner writes the list, and its continuation reads it back.\<close>

record tenant_endpoint =
  te_key :: string
  te_label :: string
  te_id :: string
  te_name :: string
  te_endpointVar :: string

text \<open>The object the provisioner stores for one endpoint.\<close>

definition endpoint_object :: "tenant_endpoint \<Rightarrow> (string \<times> string) list" where
  "endpoint_object e =
     [(''key'', te_key e), (''label'', te_label e), (''id'', te_id e), (''name'', te_name e),
      (''endpointVar'', te_endpointVar e)]"

definition readTenantEndpoints :: "tenant \<Rightarrow> json list" where
  "readTenantEndpoints t =
     filter (\<lambda>e. jstring (jget e ''id'') \<noteq> None \<and> jstring (jget e ''key'') \<noteq> None
       \<and> jstring (jget e ''endpointVar'') \<noteq> None) (stored_endpoints t)"

section \<open>The routing projection\<close>

datatype routing_status = RLive | RSuspended | RProvisioning | RUnknown

definition routingStatusFor :: "tenant \<Rightarrow> routing_status" where
  "routingStatusFor t =
     (if t_suspended_at t \<noteq> None then RSuspended
      else (case t_status t of Live \<Rightarrow> RLive | Provisioning \<Rightarrow> RProvisioning | _ \<Rightarrow> RUnknown))"

record routing_record =
  rr_slug :: string
  rr_status :: routing_status
  rr_script_name :: string

text \<open>\<^verbatim>\<open>D1TenantResolver.resolve\<close>, over the lookup by slug of the store it is built on.\<close>

definition resolve :: "(string \<Rightarrow> tenant option) \<Rightarrow> string \<Rightarrow> routing_record option" where
  "resolve getTenantBySlug slug =
     map_option (\<lambda>t. \<lparr>rr_slug = t_slug t, rr_status = routingStatusFor t,
        rr_script_name = (case t_script_name t of None \<Rightarrow> [] | Some n \<Rightarrow> n)\<rparr>) (getTenantBySlug slug)"

section \<open>Lemmas\<close>

lemma replace_first_append: "a \<notin> set s \<Longrightarrow> replace_first a b (s @ a # t) = s @ b # t"
  by (induction s) auto

lemma iso_date_no_blank: "CHR '' '' \<notin> set (iso_date t)"
proof -
  have d: "CHR '' '' \<notin> set (fixed_nat w n)" for w n
    using set_fixed_nat [of "CHR '' ''" w n] by (auto simp: is_digit_def)
  show ?thesis by (auto simp: iso_date_def iso_year_def d)
qed

lemma leaseIsLive_written:
  assumes "four_digit_year t"
  shows "leaseIsLive (Some (sqlite_datetime t)) nowMs \<longleftrightarrow> nowMs < t div 1000 * 1000"
proof -
  have "replace_first (CHR '' '') (CHR ''T'') (sqlite_datetime t) = iso_date t @ ''T'' @ second_clock (t mod ms_per_day)"
    using replace_first_append [OF iso_date_no_blank] by (simp add: sqlite_datetime_def)
  then show ?thesis by (simp add: leaseIsLive_def parse_sqlite_datetime [OF assms, simplified])
qed

lemma whole_second_less: "(a::int) < b div 1000 * 1000 \<longleftrightarrow> a div 1000 < b div 1000"
  using div_mult_mod_eq [of a 1000] pos_mod_bound [of 1000 a] pos_mod_sign [of 1000 a] by linarith

text \<open>
  The Worker's lease test and the one in the store's SQL agree.  For a lease that a statement wrote
  with \<^verbatim>\<open>datetime('now', ...)\<close>, parsing it and comparing milliseconds gives the same answer as
  comparing it with \<^verbatim>\<open>datetime('now')\<close> as text.
\<close>

theorem lease_tests_agree:
  assumes "four_digit_year t" "four_digit_year nowMs"
  shows "leaseIsLive (Some (sqlite_datetime t)) nowMs \<longleftrightarrow> sqlite_datetime nowMs < sqlite_datetime t"
  using assms by (simp add: leaseIsLive_written sqlite_datetime_less_iff whole_second_less)

lemma ex_times_four_digit: "four_digit_year 1785000000000" "four_digit_year 1785000060000"
  by code_simp+

theorem lease_tests_agree_witness:
  "leaseIsLive (Some (sqlite_datetime 1785000060000)) 1785000000000
     \<longleftrightarrow> sqlite_datetime 1785000000000 < sqlite_datetime 1785000060000"
  by (rule lease_tests_agree [OF ex_times_four_digit(2,1)])

text \<open>
  A slug is offered for reclaim only to the account that owns its row, only while the row never went
  live and is still in a provisioning state, only when no reclaim holds it, and the offer names exactly
  the row's resources.  Everybody else gets one and the same refusal, whatever the row holds.
\<close>

theorem reclaim_offer_safe:
  assumes "classifySlugClaim (Some r) accountId nowMs = Available h"
  shows "t_account_id r = accountId \<and> t_live_at r = None \<and> t_status r \<in> set TIER_A_STATUSES
    \<and> \<not> leaseIsLive (t_reclaim_lease_until r) nowMs
    \<and> h = Some \<lparr>rh_tenant_id = t_id r, rh_d1_database_id = t_d1_database_id r,
          rh_r2_bucket_name = t_r2_bucket_name r, rh_r2_token_id = t_r2_token_id r,
          rh_script_name = t_script_name r\<rparr>
    \<and> (\<forall>other. other \<noteq> accountId \<longrightarrow> classifySlugClaim (Some r) other nowMs = Unavailable SLUG_TAKEN_REASON)"
  using assms by (auto simp: classifySlugClaim_def split: if_splits)

lemma map_filter_all: "(\<And>x. x \<in> set xs \<Longrightarrow> f (g x) = Some (h x)) \<Longrightarrow> List.map_filter f (map g xs) = map h xs"
  by (induction xs) (simp_all add: List.map_filter_def)

lemma stored_endpoints_read_back:
  assumes "t_endpoints_json t = Some (stringify_objects (map endpoint_object es))"
  shows "stored_endpoints t = map (string_object \<circ> endpoint_object) es"
  using assms JSON_parse_objects [of "map endpoint_object es"]
  by (simp add: stored_endpoints_def stringify_objects_def)

text \<open>
  The endpoint list the provisioner stores is the one its readers see: the ids and the recipe come
  back in order, and the continuation reads every stored endpoint.
\<close>

theorem endpoints_round_trip:
  assumes "t_endpoints_json t = Some (stringify_objects (map endpoint_object es))"
  shows "tenantEndpointIds t = map te_id es
    \<and> tenantEndpointRecipe t = map (\<lambda>e. (te_id e, Some (te_name e), Some (te_label e))) es
    \<and> readTenantEndpoints t = map (string_object \<circ> endpoint_object) es"
  unfolding tenantEndpointIds_def tenantEndpointRecipe_def readTenantEndpoints_def stored_endpoints_read_back [OF assms]
  by (auto intro!: map_filter_all filter_True
      simp: endpoint_object_def string_object_def endpoint_id_def endpoint_row_def jget_def jstring_def)


definition ex_tenant :: tenant where
  "ex_tenant =
     \<lparr>t_id = ''ten_1'', t_slug = ''acme'', t_account_id = ''acct_1'', t_status = Pending, t_script_name = None,
      t_d1_database_id = Some ''d1'', t_r2_bucket_name = None,
      t_endpoints_json = Some (stringify_objects (map endpoint_object
        [\<lparr>te_key = ''k'', te_label = ''l'', te_id = ''e1'', te_name = ''n'', te_endpointVar = ''V''\<rparr>])),
      t_r2_token_id = None, t_studio_release = None, t_modules_release = None, t_studio_token_enc = None,
      t_created_at = ''2026-07-01 00:00:00'', t_live_at = None, t_suspended_at = None, t_suspended_reason = None,
      t_deleted_at = None, t_api_token_rotated_at = None, t_teardown_at = None, t_teardown_failures = None,
      t_reclaim_lease_until = None, t_reclaim_lease_token = None, t_video_finish_unreachable = 0,
      t_video_finish_unreachable_reason = None, t_video_finish_unreachable_at = None,
      t_r2_storage_quota_override = None, t_r2_storage_quota_bytes = None, t_runpod_mode = ''dedicated''\<rparr>"

theorem reclaim_offer_safe_witness:
  "t_live_at ex_tenant = None \<and> t_status ex_tenant = Pending
    \<and> classifySlugClaim (Some ex_tenant) ''acct_2'' 0 = Unavailable SLUG_TAKEN_REASON"
proof -
  have "classifySlugClaim (Some ex_tenant) ''acct_1'' 0 =
      Available (Some \<lparr>rh_tenant_id = ''ten_1'', rh_d1_database_id = Some ''d1'', rh_r2_bucket_name = None,
        rh_r2_token_id = None, rh_script_name = None\<rparr>)"
    by (simp add: classifySlugClaim_def ex_tenant_def TIER_A_STATUSES_def leaseIsLive_def)
  from reclaim_offer_safe [OF this] show ?thesis by (simp add: ex_tenant_def)
qed

theorem endpoints_round_trip_witness:
  "tenantEndpointIds ex_tenant = [''e1''] \<and> length (readTenantEndpoints ex_tenant) = 1"
  using endpoints_round_trip [of ex_tenant
      "[\<lparr>te_key = ''k'', te_label = ''l'', te_id = ''e1'', te_name = ''n'', te_endpointVar = ''V''\<rparr>]"]
  by (simp add: ex_tenant_def)

end
