(* ===== verification/TenantStore.thy ===== *)
theory TenantStore
  imports Tenants
begin

text \<open>
  The tenant half of \<^verbatim>\<open>src/src/store-d1.ts\<close>: tenants, provision jobs, resource ownership and
  preservation holds, one definition per method, with the primary keys, unique and foreign keys of
  \<^verbatim>\<open>src/migrations\<close>.  \<open>now\<close> is the time in milliseconds at which SQLite evaluates
  \<^verbatim>\<open>datetime('now')\<close>; a token made with \<^verbatim>\<open>crypto.randomUUID()\<close> is an argument.
\<close>

section \<open>State\<close>

datatype resource_kind = RD1 | RBucket | RToken | RWorker

record owner_row =
  o_kind :: resource_kind
  o_key :: string
  o_owner :: string
  o_provisioned_at :: string

datatype phold_kind = Ncmec2258ah | Le2703f | InternalHold

record phold =
  p_id :: string
  p_tenant_id :: string
  p_kind :: phold_kind
  p_reason :: string
  p_opened_at :: string
  p_opened_by :: string
  p_expires_at :: "string option"
  p_released_at :: "string option"
  p_released_by :: "string option"
  p_release_reason :: "string option"

record cp_db =
  d_accounts :: "string list"
  d_tenants :: "tenant list"
  d_jobs :: "provision_job list"
  d_owners :: "owner_row list"
  d_pholds :: "phold list"

definition map_tenants :: "(tenant \<Rightarrow> bool) \<Rightarrow> (tenant \<Rightarrow> tenant) \<Rightarrow> cp_db \<Rightarrow> cp_db" where
  "map_tenants p f db = db\<lparr>d_tenants := update_where p f (d_tenants db)\<rparr>"

definition map_jobs :: "(provision_job \<Rightarrow> bool) \<Rightarrow> (provision_job \<Rightarrow> provision_job) \<Rightarrow> cp_db \<Rightarrow> cp_db" where
  "map_jobs p f db = db\<lparr>d_jobs := update_where p f (d_jobs db)\<rparr>"

text \<open>\<^verbatim>\<open>UPDATE ... WHERE p RETURNING *\<close> with \<^verbatim>\<open>.first()\<close>: the first row written, as written.\<close>

definition update_tenants_returning ::
  "(tenant \<Rightarrow> bool) \<Rightarrow> (tenant \<Rightarrow> tenant) \<Rightarrow> cp_db \<Rightarrow> tenant option \<times> cp_db" where
  "update_tenants_returning p f db = (map_option f (first_where p (d_tenants db)), map_tenants p f db)"

text \<open>The row count of an update that reports whether it changed exactly one row.\<close>

definition update_jobs_changed ::
  "(provision_job \<Rightarrow> bool) \<Rightarrow> (provision_job \<Rightarrow> provision_job) \<Rightarrow> cp_db \<Rightarrow> bool \<times> cp_db" where
  "update_jobs_changed p f db = (changes p (d_jobs db) = 1, map_jobs p f db)"

text \<open>\<^verbatim>\<open>ORDER BY key DESC LIMIT 1\<close>, the earlier row of two with one key first.\<close>

definition first_desc :: "('r \<Rightarrow> string) \<Rightarrow> 'r list \<Rightarrow> 'r option" where
  "first_desc key rs =
     (case rs of [] \<Rightarrow> None | r # rs' \<Rightarrow> Some (foldl (\<lambda>b s. if key b < key s then s else b) r rs'))"

text \<open>The lease conditions the statements repeat.\<close>

definition lease_live :: "int \<Rightarrow> string option \<Rightarrow> bool" where
  "lease_live now l = (case l of None \<Rightarrow> False | Some x \<Rightarrow> sqlite_datetime now < x)"

definition lease_free :: "int \<Rightarrow> string option \<Rightarrow> bool" where
  "lease_free now l = (case l of None \<Rightarrow> True | Some x \<Rightarrow> x < sqlite_datetime now)"

definition lease_for :: "int \<Rightarrow> int \<Rightarrow> string option" where
  "lease_for now secs = Some (sqlite_datetime (now + 1000 * secs))"

definition active_job :: "provision_job \<Rightarrow> bool" where
  "active_job j \<longleftrightarrow> j_status j = Queued \<or> j_status j = Running"

definition hasLiveProvisionLease :: "cp_db \<Rightarrow> string \<Rightarrow> int \<Rightarrow> bool" where
  "hasLiveProvisionLease db tid now \<longleftrightarrow>
     list_ex (\<lambda>j. j_tenant_id j = tid \<and> active_job j \<and> lease_live now (j_lease_until j)) (d_jobs db)"

section \<open>Tenants\<close>

definition getTenantById :: "cp_db \<Rightarrow> string \<Rightarrow> tenant option" where
  "getTenantById db i = first_where (\<lambda>t. t_id t = i) (d_tenants db)"

definition getTenantBySlug :: "cp_db \<Rightarrow> string \<Rightarrow> tenant option" where
  "getTenantBySlug db slug = first_where (\<lambda>t. t_slug t = slug) (d_tenants db)"

definition getTenantForAccount :: "cp_db \<Rightarrow> string \<Rightarrow> tenant option" where
  "getTenantForAccount db acct =
     first_desc t_created_at (filter (\<lambda>t. t_account_id t = acct \<and> t_status t \<noteq> Deleted) (d_tenants db))"

definition checkSlugAvailability :: "cp_db \<Rightarrow> string \<Rightarrow> string \<Rightarrow> int \<Rightarrow> slug_claim" where
  "checkSlugAvailability db slug acct now =
     (case classifySlugClaim (getTenantBySlug db slug) acct now of
        Available (Some h) \<Rightarrow>
          if hasLiveProvisionLease db (rh_tenant_id h) now
          then Unavailable ''that name is still being set up; try again in a minute''
          else Available (Some h)
      | claim \<Rightarrow> claim)"

definition reclaimable :: "cp_db \<Rightarrow> string \<Rightarrow> string \<Rightarrow> int \<Rightarrow> tenant \<Rightarrow> bool" where
  "reclaimable db tid acct now t \<longleftrightarrow>
     t_id t = tid \<and> t_account_id t = acct \<and> t_live_at t = None \<and> t_status t \<in> set TIER_A_STATUSES
     \<and> \<not> hasLiveProvisionLease db (t_id t) now"

definition claimReclaim ::
  "cp_db \<Rightarrow> string \<Rightarrow> string \<Rightarrow> int \<Rightarrow> string \<Rightarrow> int \<Rightarrow> (tenant \<times> string) option \<times> cp_db" where
  "claimReclaim db tid acct leaseSeconds token now =
     (case update_tenants_returning
         (\<lambda>t. reclaimable db tid acct now t \<and> lease_free now (t_reclaim_lease_until t))
         (\<lambda>t. t\<lparr>t_reclaim_lease_until := lease_for now leaseSeconds, t_reclaim_lease_token := Some token\<rparr>) db
      of (r, db') \<Rightarrow> (map_option (\<lambda>t. (t, token)) r, db'))"

definition reclaimSlug :: "cp_db \<Rightarrow> string \<Rightarrow> string \<Rightarrow> string \<Rightarrow> int \<Rightarrow> tenant option \<times> cp_db" where
  "reclaimSlug db tid acct leaseToken now =
     update_tenants_returning
       (\<lambda>t. reclaimable db tid acct now t
          \<and> t_reclaim_lease_token t = Some leaseToken \<and> lease_live now (t_reclaim_lease_until t))
       (\<lambda>t. t\<lparr>t_status := Pending, t_d1_database_id := None, t_r2_bucket_name := None, t_r2_token_id := None,
             t_script_name := None, t_endpoints_json := None, t_studio_release := None,
             t_studio_token_enc := None, t_reclaim_lease_until := None, t_reclaim_lease_token := None\<rparr>) db"

definition beginTeardown :: "cp_db \<Rightarrow> string \<Rightarrow> int \<Rightarrow> string \<Rightarrow> int \<Rightarrow> (tenant \<times> string) option \<times> cp_db" where
  "beginTeardown db tid leaseSeconds token now =
     (case update_tenants_returning
         (\<lambda>t. t_id t = tid \<and> lease_free now (t_reclaim_lease_until t) \<and> \<not> hasLiveProvisionLease db (t_id t) now)
         (\<lambda>t. t\<lparr>t_status := (if t_status t = Deleted then Deleted else Deleting),
               t_reclaim_lease_until := lease_for now leaseSeconds, t_reclaim_lease_token := Some token\<rparr>) db
      of (r, db') \<Rightarrow> (map_option (\<lambda>t. (t, token)) r, db'))"

definition finishTeardown :: "cp_db \<Rightarrow> string \<Rightarrow> string \<Rightarrow> bool \<Rightarrow> int \<Rightarrow> tenant option \<times> cp_db" where
  "finishTeardown db tid leaseToken reaped now =
     update_tenants_returning (\<lambda>t. t_id t = tid \<and> t_reclaim_lease_token t = Some leaseToken)
       (\<lambda>t. t\<lparr>t_status := (if reaped then Deleted else t_status t),
             t_deleted_at := (if reaped then (case t_deleted_at t of None \<Rightarrow> Some (sqlite_datetime now) | d \<Rightarrow> d)
                              else t_deleted_at t),
             t_reclaim_lease_until := None, t_reclaim_lease_token := None\<rparr>) db"

text \<open>The columns an INSERT leaves out take their defaults.\<close>

definition new_tenant :: "string \<Rightarrow> string \<Rightarrow> string \<Rightarrow> lifecycle \<Rightarrow> int \<Rightarrow> tenant" where
  "new_tenant i slug acct st now =
     \<lparr>t_id = i, t_slug = slug, t_account_id = acct, t_status = st, t_script_name = None,
      t_d1_database_id = None, t_r2_bucket_name = None, t_endpoints_json = None, t_r2_token_id = None,
      t_studio_release = None, t_modules_release = None, t_studio_token_enc = None,
      t_created_at = sqlite_datetime now, t_live_at = None, t_suspended_at = None, t_suspended_reason = None,
      t_deleted_at = None, t_api_token_rotated_at = None, t_teardown_at = None, t_teardown_failures = None,
      t_reclaim_lease_until = None, t_reclaim_lease_token = None, t_video_finish_unreachable = 0,
      t_video_finish_unreachable_reason = None, t_video_finish_unreachable_at = None,
      t_r2_storage_quota_override = None, t_r2_storage_quota_bytes = None, t_runpod_mode = ''dedicated''\<rparr>"

definition createTenant ::
  "cp_db \<Rightarrow> string \<Rightarrow> string \<Rightarrow> string \<Rightarrow> lifecycle \<Rightarrow> int \<Rightarrow> db_error + (tenant \<times> cp_db)" where
  "createTenant db i slug acct st now =
     (if i \<in> set (map t_id (d_tenants db)) \<or> slug \<in> set (map t_slug (d_tenants db)) then Inl UniqueFailed
      else if acct \<notin> set (d_accounts db) then Inl ForeignKeyFailed
      else (let t = new_tenant i slug acct st now in Inr (t, db\<lparr>d_tenants := d_tenants db @ [t]\<rparr>)))"

definition setTenantStatus :: "cp_db \<Rightarrow> string \<Rightarrow> lifecycle \<Rightarrow> int \<Rightarrow> cp_db" where
  "setTenantStatus db i st now =
     map_tenants (\<lambda>t. t_id t = i)
       (\<lambda>t. t\<lparr>t_status := st, t_live_at := (if st = Live \<and> t_live_at t = None then Some (sqlite_datetime now) else t_live_at t)\<rparr>) db"

definition suspendTenant :: "cp_db \<Rightarrow> string \<Rightarrow> string \<Rightarrow> int \<Rightarrow> cp_db" where
  "suspendTenant db i reason now =
     map_tenants (\<lambda>t. t_id t = i) (\<lambda>t. t\<lparr>t_suspended_at := Some (sqlite_datetime now), t_suspended_reason := Some reason\<rparr>) db"

definition resumeTenant :: "cp_db \<Rightarrow> string \<Rightarrow> cp_db" where
  "resumeTenant db i =
     map_tenants (\<lambda>t. t_id t = i) (\<lambda>t. t\<lparr>t_suspended_at := None, t_suspended_reason := None\<rparr>) db"

section \<open>Resource ownership\<close>

definition getResourceOwner :: "cp_db \<Rightarrow> resource_kind \<Rightarrow> string \<Rightarrow> string option" where
  "getResourceOwner db kind key =
     (if key = [] then None
      else map_option o_owner (first_where (\<lambda>r. o_kind r = kind \<and> o_key r = key) (d_owners db)))"

definition upsert_owner :: "cp_db \<Rightarrow> resource_kind \<Rightarrow> string \<Rightarrow> string \<Rightarrow> int \<Rightarrow> cp_db" where
  "upsert_owner db kind key owner now =
     (if list_ex (\<lambda>r. o_kind r = kind \<and> o_key r = key) (d_owners db)
      then db\<lparr>d_owners := update_where (\<lambda>r. o_kind r = kind \<and> o_key r = key)
               (\<lambda>r. r\<lparr>o_owner := owner, o_provisioned_at := sqlite_datetime now\<rparr>) (d_owners db)\<rparr>
      else db\<lparr>d_owners := d_owners db @ [\<lparr>o_kind = kind, o_key = key, o_owner = owner,
               o_provisioned_at = sqlite_datetime now\<rparr>]\<rparr>)"

definition owner_holds :: "cp_db \<Rightarrow> string \<Rightarrow> bool" where
  "owner_holds db prior =
     (case getTenantById db prior of None \<Rightarrow> False
      | Some r \<Rightarrow> t_status r \<noteq> Deleted \<and> t_status r \<noteq> Failed)"

definition claimResourceOwnership :: "cp_db \<Rightarrow> resource_kind \<Rightarrow> string \<Rightarrow> string \<Rightarrow> int \<Rightarrow> cp_db" where
  "claimResourceOwnership db kind key owner now =
     (if key = [] then db
      else (case getResourceOwner db kind key of
              Some prior \<Rightarrow>
                if prior \<noteq> [] \<and> prior \<noteq> owner \<and> owner_holds db prior then db
                else upsert_owner db kind key owner now
            | None \<Rightarrow> upsert_owner db kind key owner now))"

definition setTenantD1 :: "cp_db \<Rightarrow> string \<Rightarrow> string \<Rightarrow> int \<Rightarrow> cp_db" where
  "setTenantD1 db i databaseId now =
     claimResourceOwnership (map_tenants (\<lambda>t. t_id t = i) (t_d1_database_id_update (\<lambda>_. Some databaseId)) db) RD1 databaseId i now"

definition setTenantBucket :: "cp_db \<Rightarrow> string \<Rightarrow> string \<Rightarrow> int \<Rightarrow> cp_db" where
  "setTenantBucket db i bucket now =
     claimResourceOwnership (map_tenants (\<lambda>t. t_id t = i) (t_r2_bucket_name_update (\<lambda>_. Some bucket)) db) RBucket bucket i now"

definition setTenantR2Token :: "cp_db \<Rightarrow> string \<Rightarrow> string \<Rightarrow> int \<Rightarrow> cp_db" where
  "setTenantR2Token db i tokenId now =
     claimResourceOwnership (map_tenants (\<lambda>t. t_id t = i) (t_r2_token_id_update (\<lambda>_. Some tokenId)) db) RToken tokenId i now"

definition setTenantScript :: "cp_db \<Rightarrow> string \<Rightarrow> string \<Rightarrow> string \<Rightarrow> int \<Rightarrow> cp_db" where
  "setTenantScript db i scriptName release now =
     claimResourceOwnership
       (map_tenants (\<lambda>t. t_id t = i) (\<lambda>t. t\<lparr>t_script_name := Some scriptName, t_studio_release := Some release\<rparr>) db)
       RWorker scriptName i now"

fun resource_column :: "resource_kind \<Rightarrow> tenant \<Rightarrow> string option" where
  "resource_column RD1 t = t_d1_database_id t"
| "resource_column RBucket t = t_r2_bucket_name t"
| "resource_column RToken t = t_r2_token_id t"
| "resource_column RWorker t = t_script_name t"

fun clear_column :: "resource_kind \<Rightarrow> tenant \<Rightarrow> tenant" where
  "clear_column RD1 t = t\<lparr>t_d1_database_id := None\<rparr>"
| "clear_column RBucket t = t\<lparr>t_r2_bucket_name := None\<rparr>"
| "clear_column RToken t = t\<lparr>t_r2_token_id := None\<rparr>"
| "clear_column RWorker t = t\<lparr>t_script_name := None\<rparr>"

definition clearTenantResource :: "cp_db \<Rightarrow> string \<Rightarrow> resource_kind \<Rightarrow> cp_db" where
  "clearTenantResource db i kind =
     (let key = Option.bind (getTenantById db i) (resource_column kind);
          db1 = map_tenants (\<lambda>t. t_id t = i) (clear_column kind) db
      in case key of None \<Rightarrow> db1
         | Some k \<Rightarrow> if k = [] then db1
                    else db1\<lparr>d_owners := filter (\<lambda>r. \<not> (o_kind r = kind \<and> o_key r = k \<and> o_owner r = i)) (d_owners db1)\<rparr>)"

record referrer =
  f_tenant_id :: string
  f_slug :: string
  f_status :: lifecycle
  f_resource :: resource_kind

definition RESOURCE_KINDS :: "resource_kind list" where
  "RESOURCE_KINDS = [RD1, RBucket, RToken, RWorker]"

text \<open>The values looked for, per kind; a row is reported once per resource it shares.\<close>

definition findResourceReferrers :: "cp_db \<Rightarrow> string \<Rightarrow> (resource_kind \<Rightarrow> string option) \<Rightarrow> referrer list" where
  "findResourceReferrers db exceptTenantId refs =
     (let shares = (\<lambda>t k. refs k \<noteq> None \<and> resource_column k t = refs k)
      in if list_all (\<lambda>k. refs k = None) RESOURCE_KINDS then []
         else concat (map (\<lambda>t. map (\<lambda>k. \<lparr>f_tenant_id = t_id t, f_slug = t_slug t, f_status = t_status t, f_resource = k\<rparr>)
                               (filter (shares t) RESOURCE_KINDS))
                (filter (\<lambda>t. t_id t \<noteq> exceptTenantId \<and> list_ex (shares t) RESOURCE_KINDS) (d_tenants db))))"

section \<open>Other tenant columns\<close>

definition set_tenant :: "cp_db \<Rightarrow> string \<Rightarrow> (tenant \<Rightarrow> tenant) \<Rightarrow> cp_db" where
  "set_tenant db i f = map_tenants (\<lambda>t. t_id t = i) f db"

definition setTenantEndpoints :: "cp_db \<Rightarrow> string \<Rightarrow> string \<Rightarrow> cp_db" where
  "setTenantEndpoints db i endpointsJson = set_tenant db i (\<lambda>t. t\<lparr>t_endpoints_json := Some endpointsJson\<rparr>)"

fun mode_text :: "runpod_mode \<Rightarrow> string" where
  "mode_text Dedicated = ''dedicated''"
| "mode_text Shared = ''shared''"

definition setTenantRunPodMode :: "cp_db \<Rightarrow> string \<Rightarrow> runpod_mode \<Rightarrow> cp_db" where
  "setTenantRunPodMode db i m = set_tenant db i (\<lambda>t. t\<lparr>t_runpod_mode := mode_text m\<rparr>)"

definition setTenantStudioRelease :: "cp_db \<Rightarrow> string \<Rightarrow> string option \<Rightarrow> cp_db" where
  "setTenantStudioRelease db i release = set_tenant db i (\<lambda>t. t\<lparr>t_studio_release := release\<rparr>)"

definition setTenantVideoFinishUnreachable :: "cp_db \<Rightarrow> string \<Rightarrow> (string \<times> string) option \<Rightarrow> cp_db" where
  "setTenantVideoFinishUnreachable db i mark =
     set_tenant db i (\<lambda>t. t\<lparr>t_video_finish_unreachable := (if mark = None then 0 else 1),
       t_video_finish_unreachable_reason := map_option fst mark,
       t_video_finish_unreachable_at := map_option snd mark\<rparr>)"

datatype quota_override = QuotaSet string | QuotaNone

definition setTenantStorageQuota :: "cp_db \<Rightarrow> string \<Rightarrow> quota_override option \<Rightarrow> cp_db" where
  "setTenantStorageQuota db i ov =
     set_tenant db i (\<lambda>t. t\<lparr>t_r2_storage_quota_override :=
         (case ov of None \<Rightarrow> None | Some (QuotaSet b) \<Rightarrow> Some ''set'' | Some QuotaNone \<Rightarrow> Some ''none''),
       t_r2_storage_quota_bytes := (case ov of Some (QuotaSet b) \<Rightarrow> Some b | _ \<Rightarrow> None)\<rparr>)"

definition setTenantModulesRelease :: "cp_db \<Rightarrow> string \<Rightarrow> string option \<Rightarrow> cp_db" where
  "setTenantModulesRelease db i release = set_tenant db i (\<lambda>t. t\<lparr>t_modules_release := release\<rparr>)"

definition setTenantStudioToken :: "cp_db \<Rightarrow> string \<Rightarrow> string \<Rightarrow> cp_db" where
  "setTenantStudioToken db i encValue = set_tenant db i (\<lambda>t. t\<lparr>t_studio_token_enc := Some encValue\<rparr>)"

definition setApiTokenRotatedAt :: "cp_db \<Rightarrow> string \<Rightarrow> int \<Rightarrow> cp_db" where
  "setApiTokenRotatedAt db i now = set_tenant db i (\<lambda>t. t\<lparr>t_api_token_rotated_at := Some (sqlite_datetime now)\<rparr>)"

definition recordTeardown :: "cp_db \<Rightarrow> string \<Rightarrow> (string \<times> string) list \<Rightarrow> int \<Rightarrow> cp_db" where
  "recordTeardown db i failures now =
     set_tenant db i (\<lambda>t. t\<lparr>t_teardown_at := Some (sqlite_datetime now),
       t_teardown_failures := Some (stringify_objects (map (\<lambda>(r, e). [(''resource'', r), (''error'', e)]) failures))\<rparr>)"

definition sql_upper :: "char \<Rightarrow> char" where
  "sql_upper c = (if is_lower_alpha c then char_of ((of_char c :: nat) - 32) else c)"

text \<open>\<^verbatim>\<open>LIKE\<close>: a percent sign matches any text, an underscore any character, letters without ASCII case.\<close>

fun sql_like :: "string \<Rightarrow> string \<Rightarrow> bool" where
  "sql_like [] s = (s = [])"
| "sql_like (p # ps) s =
     (if p = CHR ''%'' then sql_like ps s \<or> (case s of [] \<Rightarrow> False | _ # t \<Rightarrow> sql_like (p # ps) t)
      else (case s of [] \<Rightarrow> False
            | c # t \<Rightarrow> (p = CHR ''_'' \<or> sql_upper p = sql_upper c) \<and> sql_like ps t))"

definition lifecycle_text :: "lifecycle \<Rightarrow> json" where
  "lifecycle_text st =
     (case st of Pending \<Rightarrow> JStr ''pending'' | Provisioning \<Rightarrow> JStr ''provisioning''
      | AwaitingGoLive \<Rightarrow> JStr ''awaiting_go_live'' | AwaitingInvokeKey \<Rightarrow> JStr ''awaiting_invoke_key''
      | Live \<Rightarrow> JStr ''live'' | Failed \<Rightarrow> JStr ''failed'' | Deleting \<Rightarrow> JStr ''deleting''
      | Deleted \<Rightarrow> JStr ''deleted'' | Unmodelled v \<Rightarrow> v)"

definition listTenants :: "cp_db \<Rightarrow> string option \<Rightarrow> string option \<Rightarrow> tenant list" where
  "listTenants db status q =
     (let p1 = (\<lambda>t. case status of None \<Rightarrow> True
            | Some st \<Rightarrow> if st = ''suspended'' then t_suspended_at t \<noteq> None
                        else st = [] \<or> lifecycle_text (t_status t) = JStr st);
          p2 = (\<lambda>t. case q of None \<Rightarrow> True | Some x \<Rightarrow> x = [] \<or> sql_like (''%'' @ x @ ''%'') (t_slug t))
      in take 200 (rev (sort_key t_created_at (rev (filter (\<lambda>t. p1 t \<and> p2 t) (d_tenants db))))))"

section \<open>Provision jobs\<close>

definition new_job :: "string \<Rightarrow> string \<Rightarrow> job_kind \<Rightarrow> string option \<Rightarrow> string option \<Rightarrow> string option \<Rightarrow> int \<Rightarrow> provision_job" where
  "new_job i tid kind frm to mode now =
     \<lparr>j_id = i, j_tenant_id = tid, j_kind = kind, j_status = Queued, j_step = None, j_steps_done = ''[]'',
      j_error_step = None, j_error_message = None, j_attempts = 0, j_lease_until = None,
      j_from_release = frm, j_to_release = to, j_runpod_mode = mode,
      j_created_at = sqlite_datetime now, j_updated_at = sqlite_datetime now, j_finished_at = None\<rparr>"

definition insert_job :: "cp_db \<Rightarrow> provision_job \<Rightarrow> db_error + (provision_job \<times> cp_db)" where
  "insert_job db j =
     (if j_id j \<in> set (map j_id (d_jobs db)) then Inl UniqueFailed
      else if j_tenant_id j \<notin> set (map t_id (d_tenants db)) then Inl ForeignKeyFailed
      else Inr (j, db\<lparr>d_jobs := d_jobs db @ [j]\<rparr>))"

definition createProvisionJob ::
  "cp_db \<Rightarrow> string \<Rightarrow> string \<Rightarrow> job_kind \<Rightarrow> runpod_mode \<Rightarrow> string \<Rightarrow> int \<Rightarrow> db_error + (provision_job \<times> cp_db)" where
  "createProvisionJob db i tid kind mode toRelease now =
     insert_job db (new_job i tid kind None (Some toRelease) (Some (mode_text mode)) now)"

definition insertUpgradeJob ::
  "cp_db \<Rightarrow> job_kind \<Rightarrow> string \<Rightarrow> string \<Rightarrow> string option \<Rightarrow> string \<Rightarrow> int \<Rightarrow> db_error + (provision_job \<times> cp_db)" where
  "insertUpgradeJob db kind i tid fromRelease toRelease now =
     insert_job db (new_job i tid kind fromRelease (Some toRelease) None now)"

definition createModuleUpgradeJob ::
  "cp_db \<Rightarrow> string \<Rightarrow> string \<Rightarrow> string option \<Rightarrow> string \<Rightarrow> int \<Rightarrow> db_error + (provision_job \<times> cp_db)" where
  "createModuleUpgradeJob db = insertUpgradeJob db JModuleUpgrade"

definition createStudioUpgradeJob ::
  "cp_db \<Rightarrow> string \<Rightarrow> string \<Rightarrow> string option \<Rightarrow> string \<Rightarrow> int \<Rightarrow> db_error + (provision_job \<times> cp_db)" where
  "createStudioUpgradeJob db = insertUpgradeJob db JStudioUpgrade"

definition getLatestJobForTenant :: "cp_db \<Rightarrow> string \<Rightarrow> provision_job option" where
  "getLatestJobForTenant db tid = first_desc j_created_at (filter (\<lambda>j. j_tenant_id j = tid) (d_jobs db))"

definition getJob :: "cp_db \<Rightarrow> string \<Rightarrow> provision_job option" where
  "getJob db i = first_where (\<lambda>j. j_id j = i) (d_jobs db)"

definition setJobRunning :: "cp_db \<Rightarrow> string \<Rightarrow> int \<Rightarrow> cp_db" where
  "setJobRunning db i now =
     map_jobs (\<lambda>j. j_id j = i \<and> lease_free now (j_lease_until j))
       (\<lambda>j. j\<lparr>j_status := Running, j_attempts := j_attempts j + 1,
             j_lease_until := lease_for now JOB_LEASE_SECONDS, j_updated_at := sqlite_datetime now\<rparr>) db"

definition claimJob :: "cp_db \<Rightarrow> string \<Rightarrow> int \<Rightarrow> int \<Rightarrow> bool \<times> cp_db" where
  "claimJob db i leaseSeconds now =
     update_jobs_changed (\<lambda>j. j_id j = i \<and> active_job j \<and> lease_free now (j_lease_until j))
       (\<lambda>j. j\<lparr>j_lease_until := lease_for now leaseSeconds, j_updated_at := sqlite_datetime now\<rparr>) db"

definition renewJobLease :: "cp_db \<Rightarrow> string \<Rightarrow> int \<Rightarrow> int \<Rightarrow> bool \<times> cp_db" where
  "renewJobLease db i leaseSeconds now =
     update_jobs_changed (\<lambda>j. j_id j = i \<and> active_job j) (\<lambda>j. j\<lparr>j_lease_until := lease_for now leaseSeconds\<rparr>) db"

definition releaseJobLease :: "cp_db \<Rightarrow> string \<Rightarrow> bool \<times> cp_db" where
  "releaseJobLease db i =
     update_jobs_changed (\<lambda>j. j_id j = i \<and> active_job j) (\<lambda>j. j\<lparr>j_lease_until := None\<rparr>) db"

definition updateJobProgress :: "cp_db \<Rightarrow> string \<Rightarrow> string \<Rightarrow> string \<Rightarrow> int \<Rightarrow> cp_db" where
  "updateJobProgress db i step stepsDoneJson now =
     map_jobs (\<lambda>j. j_id j = i \<and> active_job j)
       (\<lambda>j. j\<lparr>j_step := Some step, j_steps_done := stepsDoneJson, j_updated_at := sqlite_datetime now,
             j_lease_until := lease_for now JOB_LEASE_SECONDS\<rparr>) db"

text \<open>\<open>ok\<close> tells \<^verbatim>\<open>"succeeded"\<close> from \<^verbatim>\<open>"failed"\<close>.\<close>

definition finishJob :: "cp_db \<Rightarrow> string \<Rightarrow> bool \<Rightarrow> string option \<Rightarrow> string option \<Rightarrow> int \<Rightarrow> bool \<times> cp_db" where
  "finishJob db i ok errorStep errorMessage now =
     update_jobs_changed (\<lambda>j. j_id j = i \<and> active_job j)
       (\<lambda>j. j\<lparr>j_status := (if ok then Succeeded else JobFailed), j_error_step := errorStep,
             j_error_message := errorMessage, j_finished_at := Some (sqlite_datetime now),
             j_updated_at := sqlite_datetime now, j_lease_until := None\<rparr>) db"

section \<open>Preservation holds\<close>

definition openPreservationHold ::
  "cp_db \<Rightarrow> string \<Rightarrow> string \<Rightarrow> phold_kind \<Rightarrow> string \<Rightarrow> string \<Rightarrow> string option \<Rightarrow> int \<Rightarrow> db_error + (phold \<times> cp_db)" where
  "openPreservationHold db i tid kind reason by' expires now =
     (if i \<in> set (map p_id (d_pholds db)) then Inl UniqueFailed
      else if tid \<notin> set (map t_id (d_tenants db)) then Inl ForeignKeyFailed
      else (let h = \<lparr>p_id = i, p_tenant_id = tid, p_kind = kind, p_reason = reason,
                     p_opened_at = sqlite_datetime now, p_opened_by = by', p_expires_at = expires,
                     p_released_at = None, p_released_by = None, p_release_reason = None\<rparr>
            in Inr (h, db\<lparr>d_pholds := d_pholds db @ [h]\<rparr>)))"

definition listPreservationHolds :: "cp_db \<Rightarrow> string \<Rightarrow> bool \<Rightarrow> phold list" where
  "listPreservationHolds db tid openOnly =
     rev (sort_key p_opened_at (rev (filter (\<lambda>h. p_tenant_id h = tid \<and> (openOnly \<longrightarrow> p_released_at h = None)) (d_pholds db))))"

definition releasePreservationHold :: "cp_db \<Rightarrow> string \<Rightarrow> string \<Rightarrow> string \<Rightarrow> int \<Rightarrow> phold option \<times> cp_db" where
  "releasePreservationHold db holdId releasedBy reason now =
     (let p = (\<lambda>h. p_id h = holdId \<and> p_released_at h = None);
          f = (\<lambda>h. h\<lparr>p_released_at := Some (sqlite_datetime now), p_released_by := Some releasedBy,
                     p_release_reason := Some reason\<rparr>)
      in (map_option f (first_where p (d_pholds db)), db\<lparr>d_pholds := update_where p f (d_pholds db)\<rparr>))"

section \<open>Sequences of operations\<close>

text \<open>Every write to these tables, as the routes and drivers of the control plane interleave them.\<close>

datatype store_op =
    OClaimReclaim string string int string
  | OReclaimSlug string string string
  | OBeginTeardown string int string
  | OFinishTeardown string string bool
  | OCreateTenant string string string lifecycle
  | OSetStatus string lifecycle
  | OSuspend string string
  | OResume string
  | OSetD1 string string
  | OSetBucket string string
  | OSetR2Token string string
  | OSetScript string string string
  | OClearResource string resource_kind
  | OSetEndpoints string string
  | OSetRunPodMode string runpod_mode
  | OSetStudioRelease string "string option"
  | OSetVideoFinish string "(string \<times> string) option"
  | OSetStorageQuota string "quota_override option"
  | OSetModulesRelease string "string option"
  | OSetStudioToken string string
  | OSetApiTokenRotated string
  | ORecordTeardown string "(string \<times> string) list"
  | OCreateProvisionJob string string job_kind runpod_mode string
  | OCreateUpgradeJob job_kind string string "string option" string
  | OSetJobRunning string
  | OClaimJob string int
  | ORenewLease string int
  | OReleaseLease string
  | OProgress string string string
  | OFinishJob string bool "string option" "string option"
  | OOpenHold string string phold_kind string string "string option"
  | OReleaseHold string string string

definition or_same :: "cp_db \<Rightarrow> db_error + ('r \<times> cp_db) \<Rightarrow> cp_db" where
  "or_same db r = (case r of Inl e \<Rightarrow> db | Inr (x, db') \<Rightarrow> db')"

fun exec :: "int \<Rightarrow> store_op \<Rightarrow> cp_db \<Rightarrow> cp_db" where
  "exec now (OClaimReclaim i acct secs tok) db = snd (claimReclaim db i acct secs tok now)"
| "exec now (OReclaimSlug i acct tok) db = snd (reclaimSlug db i acct tok now)"
| "exec now (OBeginTeardown i secs tok) db = snd (beginTeardown db i secs tok now)"
| "exec now (OFinishTeardown i tok reaped) db = snd (finishTeardown db i tok reaped now)"
| "exec now (OCreateTenant i slug acct st) db = or_same db (createTenant db i slug acct st now)"
| "exec now (OSetStatus i st) db = setTenantStatus db i st now"
| "exec now (OSuspend i reason) db = suspendTenant db i reason now"
| "exec now (OResume i) db = resumeTenant db i"
| "exec now (OSetD1 i k) db = setTenantD1 db i k now"
| "exec now (OSetBucket i k) db = setTenantBucket db i k now"
| "exec now (OSetR2Token i k) db = setTenantR2Token db i k now"
| "exec now (OSetScript i k rel) db = setTenantScript db i k rel now"
| "exec now (OClearResource i kind) db = clearTenantResource db i kind"
| "exec now (OSetEndpoints i e) db = setTenantEndpoints db i e"
| "exec now (OSetRunPodMode i m) db = setTenantRunPodMode db i m"
| "exec now (OSetStudioRelease i r) db = setTenantStudioRelease db i r"
| "exec now (OSetVideoFinish i m) db = setTenantVideoFinishUnreachable db i m"
| "exec now (OSetStorageQuota i q) db = setTenantStorageQuota db i q"
| "exec now (OSetModulesRelease i r) db = setTenantModulesRelease db i r"
| "exec now (OSetStudioToken i e) db = setTenantStudioToken db i e"
| "exec now (OSetApiTokenRotated i) db = setApiTokenRotatedAt db i now"
| "exec now (ORecordTeardown i fs) db = recordTeardown db i fs now"
| "exec now (OCreateProvisionJob i tid kind m rel) db = or_same db (createProvisionJob db i tid kind m rel now)"
| "exec now (OCreateUpgradeJob kind i tid frm rel) db = or_same db (insertUpgradeJob db kind i tid frm rel now)"
| "exec now (OSetJobRunning i) db = setJobRunning db i now"
| "exec now (OClaimJob i secs) db = snd (claimJob db i secs now)"
| "exec now (ORenewLease i secs) db = snd (renewJobLease db i secs now)"
| "exec now (OReleaseLease i) db = snd (releaseJobLease db i)"
| "exec now (OProgress i step done_json) db = updateJobProgress db i step done_json now"
| "exec now (OFinishJob i ok est emsg) db = snd (finishJob db i ok est emsg now)"
| "exec now (OOpenHold i tid kind reason opened_by ex) db = or_same db (openPreservationHold db i tid kind reason opened_by ex now)"
| "exec now (OReleaseHold i released_by reason) db = snd (releasePreservationHold db i released_by reason now)"

definition run_ops :: "(int \<times> store_op) list \<Rightarrow> cp_db \<Rightarrow> cp_db" where
  "run_ops ops db = foldl (\<lambda>d (now, op). exec now op d) db ops"

section \<open>What an operation does to a row\<close>

text \<open>Identity is fixed, and the first time a tenant goes live is kept.\<close>

definition keeps_tenant :: "tenant \<Rightarrow> tenant \<Rightarrow> bool" where
  "keeps_tenant t u \<longleftrightarrow> t_id u = t_id t \<and> t_slug u = t_slug t \<and> t_account_id u = t_account_id t
     \<and> t_created_at u = t_created_at t \<and> (t_live_at t \<noteq> None \<longrightarrow> t_live_at u = t_live_at t)"

lemma tenants_of_updates [simp]:
  "d_tenants (map_tenants p f db) = update_where p f (d_tenants db)"
  "d_tenants (map_jobs q g db) = d_tenants db"
  "d_jobs (map_tenants p f db) = d_jobs db"
  "d_jobs (map_jobs q g db) = update_where q g (d_jobs db)"
  "d_pholds (map_tenants p f db) = d_pholds db" "d_pholds (map_jobs q g db) = d_pholds db"
  by (simp_all add: map_tenants_def map_jobs_def)

lemma tenants_of_ownership [simp]:
  "d_tenants (claimResourceOwnership db k key i now) = d_tenants db"
  "d_jobs (claimResourceOwnership db k key i now) = d_jobs db"
  "d_pholds (claimResourceOwnership db k key i now) = d_pholds db"
  by (simp_all add: claimResourceOwnership_def upsert_owner_def split: option.splits)

lemmas store_defs =
  claimReclaim_def reclaimSlug_def beginTeardown_def finishTeardown_def createTenant_def setTenantStatus_def
  suspendTenant_def resumeTenant_def setTenantD1_def setTenantBucket_def setTenantR2Token_def setTenantScript_def
  clearTenantResource_def set_tenant_def setTenantEndpoints_def setTenantRunPodMode_def setTenantStudioRelease_def
  setTenantVideoFinishUnreachable_def setTenantStorageQuota_def setTenantModulesRelease_def setTenantStudioToken_def
  setApiTokenRotatedAt_def recordTeardown_def createProvisionJob_def insertUpgradeJob_def insert_job_def
  setJobRunning_def claimJob_def renewJobLease_def releaseJobLease_def updateJobProgress_def finishJob_def
  openPreservationHold_def releasePreservationHold_def update_tenants_returning_def update_jobs_changed_def or_same_def

text \<open>Every old row has its successor in the new table, which may have grown.\<close>

definition extends :: "('r \<Rightarrow> 'r \<Rightarrow> bool) \<Rightarrow> 'r list \<Rightarrow> 'r list \<Rightarrow> bool" where
  "extends R old new \<longleftrightarrow> list_all2 R old (take (length old) new)"

lemma extends_update:
  "(\<And>r. p r \<Longrightarrow> R r (f r)) \<Longrightarrow> (\<And>r. R r r) \<Longrightarrow> extends R t (update_where p f t)"
  unfolding extends_def by (induction t) auto

lemma extends_refl: "(\<And>r. R r r) \<Longrightarrow> extends R t t"
  by (simp add: extends_def list_all2_refl)

lemma extends_append: "(\<And>r. R r r) \<Longrightarrow> extends R t (t @ xs)"
  by (simp add: extends_def list_all2_refl)

lemma extendsE:
  assumes "extends R old new" "r \<in> set old"
  obtains r' where "r' \<in> set new" "R r r'"
  using assms unfolding extends_def
  by (metis in_set_conv_nth in_set_takeD length_take list_all2_conv_all_nth nth_mem)

lemma keeps_tenant_refl: "keeps_tenant t t"
  by (simp add: keeps_tenant_def)

lemma clear_column_keeps: "keeps_tenant t (clear_column k t)"
  by (cases k) (simp_all add: keeps_tenant_def)

lemmas extends_rules = extends_refl extends_append extends_update

lemma exec_keeps_tenants: "extends keeps_tenant (d_tenants db) (d_tenants (exec now op db))"
  by (cases op; (simp add: store_defs Let_def split: prod.splits option.splits)?; (intro conjI impI allI)?;
      (rule extends_rules)?; (simp add: keeps_tenant_def clear_column_keeps [unfolded keeps_tenant_def])?)

definition keeps_closed :: "string \<Rightarrow> provision_job \<Rightarrow> provision_job \<Rightarrow> bool" where
  "keeps_closed i j j' \<longleftrightarrow> j_id j' = j_id j \<and> (j_id j = i \<and> \<not> active_job j \<longrightarrow> j' = j)"

lemma exec_keeps_closed:
  assumes "op \<noteq> OSetJobRunning i"
  shows "extends (keeps_closed i) (d_jobs db) (d_jobs (exec now op db))"
  by (insert assms, cases op; (simp add: store_defs Let_def split: prod.splits option.splits)?; (intro conjI impI allI)?;
      (rule extends_rules)?; (simp add: keeps_closed_def)?)

text \<open>The writes only the driver of a job makes.\<close>

fun driver_op :: "string \<Rightarrow> store_op \<Rightarrow> bool" where
  "driver_op i (ORenewLease k secs) = (k = i)"
| "driver_op i (OReleaseLease k) = (k = i)"
| "driver_op i (OProgress k step done_json) = (k = i)"
| "driver_op i (OFinishJob k ok est emsg) = (k = i)"
| "driver_op i op = False"

definition keeps_lease :: "string \<Rightarrow> string option \<Rightarrow> provision_job \<Rightarrow> provision_job \<Rightarrow> bool" where
  "keeps_lease i l j j' \<longleftrightarrow> j_id j' = j_id j \<and> j_tenant_id j' = j_tenant_id j
     \<and> (j_id j = i \<and> active_job j \<and> j_lease_until j = l \<longrightarrow> active_job j' \<and> j_lease_until j' = l)"

lemma exec_keeps_lease:
  assumes "\<not> driver_op i op" "\<not> lease_free now l"
  shows "extends (keeps_lease i l) (d_jobs db) (d_jobs (exec now op db))"
  by (insert assms, cases op; (simp add: store_defs Let_def split: prod.splits option.splits)?; (intro conjI impI allI)?;
      (rule extends_rules)?; (auto simp: keeps_lease_def active_job_def)?)

end
