(* ===== verification/TenantLeases.thy ===== *)
theory TenantLeases
  imports TenantStore
begin

text \<open>
  What the tenant store guarantees over any sequence of its operations: a studio that was ever live is
  never reclaimed, a finished job is closed, a job has one driver, reclaims and teardowns exclude each
  other, ownership is not stolen and preservation holds stay.  The locale \<open>lease_lock\<close> is the contract
  of a lease, interpreted on the job lease and on the reclaim lease.
\<close>

section \<open>Tenants keep their identity\<close>

definition tenant_keys_ok :: "cp_db \<Rightarrow> bool" where
  "tenant_keys_ok db \<longleftrightarrow> distinct (map t_id (d_tenants db)) \<and> distinct (map t_slug (d_tenants db))"

lemma clear_column_keys [simp]: "t_id (clear_column k t) = t_id t" "t_slug (clear_column k t) = t_slug t"
  by (cases k; simp)+

lemma exec_tenant_keys:
  assumes "tenant_keys_ok db"
  shows "tenant_keys_ok (exec now op db)"
  using assms
  by (cases op; (simp add: store_defs Let_def tenant_keys_ok_def split: prod.splits option.splits)?; (intro conjI impI allI)?;
      (subst map_update_where; simp)?; (auto simp: new_tenant_def)?)

lemma run_ops_Nil [simp]: "run_ops [] db = db"
  by (simp add: run_ops_def)

lemma run_ops_Cons [simp]: "run_ops ((now, op) # ops) db = run_ops ops (exec now op db)"
  by (simp add: run_ops_def)

lemma run_ops_keys: "tenant_keys_ok db \<Longrightarrow> tenant_keys_ok (run_ops ops db)"
  by (induction ops arbitrary: db) (auto simp: exec_tenant_keys)

lemma keeps_tenant_trans: "keeps_tenant t u \<Longrightarrow> keeps_tenant u v \<Longrightarrow> keeps_tenant t v"
  by (auto simp: keeps_tenant_def)

lemma run_ops_keeps_tenant:
  assumes "t \<in> set (d_tenants db)"
  shows "\<exists>u \<in> set (d_tenants (run_ops ops db)). keeps_tenant t u"
  using assms
proof (induction ops arbitrary: db t)
  case Nil
  then show ?case by (auto intro: keeps_tenant_refl)
next
  case (Cons a ops)
  obtain now op where a: "a = (now, op)" by (cases a)
  obtain u where "u \<in> set (d_tenants (exec now op db))" "keeps_tenant t u"
    using exec_keeps_tenants Cons.prems by (rule extendsE)
  with Cons.IH show ?case unfolding a run_ops_Cons by (meson keeps_tenant_trans)
qed

lemma claimReclaim_ever_live:
  assumes "tenant_keys_ok db" "u \<in> set (d_tenants db)" "t_live_at u \<noteq> None"
  shows "fst (claimReclaim db (t_id u) acct secs tok now) = None"
    and "fst (reclaimSlug db (t_id u) acct tok now) = None"
proof -
  have "\<not> reclaimable db (t_id u) acct now t" if "t \<in> set (d_tenants db)" for t
    using that assms distinct_map_eq [of t_id "d_tenants db" t u]
    by (auto simp: reclaimable_def tenant_keys_ok_def)
  then show "fst (claimReclaim db (t_id u) acct secs tok now) = None"
    "fst (reclaimSlug db (t_id u) acct tok now) = None"
    by (auto simp: claimReclaim_def reclaimSlug_def update_tenants_returning_def find_None_iff)
qed

lemma getTenantBySlug_member:
  assumes "tenant_keys_ok db" "u \<in> set (d_tenants db)"
  shows "getTenantBySlug db (t_slug u) = Some u"
  using assms unfolding getTenantBySlug_def
  by (intro find_unique) (auto simp: tenant_keys_ok_def dest: distinct_map_eq)

lemma checkSlug_ever_live:
  assumes "tenant_keys_ok db" "u \<in> set (d_tenants db)" "t_live_at u \<noteq> None"
  shows "\<exists>reason. checkSlugAvailability db (t_slug u) acct now = Unavailable reason"
  using assms(3) unfolding checkSlugAvailability_def getTenantBySlug_member [OF assms(1,2)]
  by (auto simp: classifySlugClaim_def)

text \<open>
  C5: a studio that was ever live keeps its name for good.  Whatever operations run after it, on any
  schedule, nobody is offered its slug, no reclaim of its row is granted or carried out, no row with
  that slug can be inserted, and the date it went live is still on record.
\<close>

theorem ever_live_never_reclaimed:
  assumes "tenant_keys_ok db" "t \<in> set (d_tenants db)" "t_live_at t = Some x"
  shows "\<exists>u. getTenantBySlug (run_ops ops db) (t_slug t) = Some u \<and> t_id u = t_id t \<and> t_live_at u = Some x
    \<and> (\<forall>acct now. \<exists>reason. checkSlugAvailability (run_ops ops db) (t_slug t) acct now = Unavailable reason)
    \<and> (\<forall>acct secs tok now. fst (claimReclaim (run_ops ops db) (t_id t) acct secs tok now) = None
        \<and> fst (reclaimSlug (run_ops ops db) (t_id t) acct tok now) = None)
    \<and> (\<forall>i acct st now. createTenant (run_ops ops db) i (t_slug t) acct st now = Inl UniqueFailed)"
proof -
  let ?db = "run_ops ops db"
  obtain u where u: "u \<in> set (d_tenants ?db)" "keeps_tenant t u"
    using run_ops_keeps_tenant [OF assms(2)] by blast
  then have k: "t_id u = t_id t" "t_slug u = t_slug t" "t_live_at u = Some x"
    using assms(3) by (auto simp: keeps_tenant_def)
  have ok: "tenant_keys_ok ?db" by (rule run_ops_keys [OF assms(1)])
  have "createTenant ?db i (t_slug u) acct st now = Inl UniqueFailed" for i acct st now
    using u(1) by (auto simp: createTenant_def)
  then show ?thesis
    using getTenantBySlug_member [OF ok u(1)] claimReclaim_ever_live [OF ok u(1)]
      checkSlug_ever_live [OF ok u(1)] k
    by (intro exI [of _ u]) simp
qed

lemma exec_job_keys:
  "distinct (map j_id (d_jobs db)) \<Longrightarrow> distinct (map j_id (d_jobs (exec now op db)))"
  by (cases op; (simp add: store_defs Let_def split: prod.splits option.splits)?; (intro conjI impI allI)?;
      (subst map_update_where; simp)?; (auto simp: new_job_def)?)

lemma run_ops_job_keys:
  "distinct (map j_id (d_jobs db)) \<Longrightarrow> distinct (map j_id (d_jobs (run_ops ops db)))"
  by (induction ops arbitrary: db) (auto simp: exec_job_keys)

lemma finishJob_won:
  assumes "fst (finishJob db i ok est emsg now)"
  obtains j where "j \<in> set (d_jobs db)" "j_id j = i" "active_job j"
  using assms unfolding finishJob_def update_jobs_changed_def fst_conv by (rule changes_1E) (auto intro: that)

definition finished :: "bool \<Rightarrow> string option \<Rightarrow> string option \<Rightarrow> int \<Rightarrow> provision_job \<Rightarrow> provision_job" where
  "finished ok est emsg now j =
     j\<lparr>j_status := (if ok then Succeeded else JobFailed), j_error_step := est, j_error_message := emsg,
       j_finished_at := Some (sqlite_datetime now), j_updated_at := sqlite_datetime now, j_lease_until := None\<rparr>"

text \<open>
  A finished job is a closed record.  No operation but \<^verbatim>\<open>setJobRunning\<close> on that very job changes
  a job that succeeded or failed: claims, heartbeats, releases, progress marks and a second finish all
  leave the row as it is, in any order and number, and report that they did nothing.
\<close>

theorem finished_job_closed:
  assumes "j \<in> set (d_jobs db)" "\<not> active_job j" "list_all (\<lambda>(now, op). op \<noteq> OSetJobRunning (j_id j)) ops"
  shows "j \<in> set (d_jobs (run_ops ops db))"
  using assms
proof (induction ops arbitrary: db)
  case (Cons a ops)
  obtain now op where a: "a = (now, op)" by (cases a)
  with Cons.prems(3) have op: "op \<noteq> OSetJobRunning (j_id j)" by simp
  obtain j' where "j' \<in> set (d_jobs (exec now op db))" "keeps_closed (j_id j) j j'"
    using exec_keeps_closed [OF op] Cons.prems(1) by (rule extendsE)
  then have "j \<in> set (d_jobs (exec now op db))" using Cons.prems(2) by (simp add: keeps_closed_def)
  with Cons show ?case by (simp add: a)
qed simp

text \<open>
  The exception is real.  \<^verbatim>\<open>setJobRunning\<close> tests the lease and not the status, and a finished job has
  no lease, so starting a driver on a finished job turns its row back to running, with a live lease that
  blocks every reclaim and teardown of the tenant.
\<close>

theorem setJobRunning_reopens_finished:
  assumes "distinct (map j_id (d_jobs db))" "fst (finishJob db i ok est emsg t0)"
    and "four_digit_year now" "four_digit_year (now + 60000)"
  shows "\<exists>j. getJob (setJobRunning (snd (finishJob db i ok est emsg t0)) i now) i = Some j
     \<and> j_status j = Running \<and> j_finished_at j = Some (sqlite_datetime t0)
     \<and> hasLiveProvisionLease (setJobRunning (snd (finishJob db i ok est emsg t0)) i now) (j_tenant_id j) now"
proof -
  let ?db = "snd (finishJob db i ok est emsg t0)" and ?reopened = "setJobRunning (snd (finishJob db i ok est emsg t0)) i now"
  from assms(2) obtain j where j: "j \<in> set (d_jobs db)" "j_id j = i" "active_job j"
    by (rule finishJob_won)
  define j1 where "j1 = finished ok est emsg t0 j"
  define j2 where "j2 = j1\<lparr>j_status := Running, j_attempts := j_attempts j1 + 1,
      j_lease_until := lease_for now JOB_LEASE_SECONDS, j_updated_at := sqlite_datetime now\<rparr>"
  have "j1 \<in> set (d_jobs ?db)"
    unfolding finishJob_def update_jobs_changed_def snd_conv tenants_of_updates j1_def finished_def
    using j by (intro in_update_whereI2) simp_all
  then have m: "j2 \<in> set (d_jobs ?reopened)"
    unfolding setJobRunning_def tenants_of_updates j2_def
    by (intro in_update_whereI2) (simp_all add: lease_free_def j1_def finished_def j(2))
  have "distinct (map j_id (d_jobs ?reopened))"
    using exec_job_keys [of ?db now "OSetJobRunning i"] exec_job_keys [OF assms(1), of t0 "OFinishJob i ok est emsg"] by simp
  then have "getJob ?reopened i = Some j2"
    using m j(2) unfolding getJob_def
    by (intro find_unique) (auto simp: j2_def j1_def finished_def dest: distinct_map_eq)
  moreover have "lease_live now (lease_for now JOB_LEASE_SECONDS)"
    using assms(3,4) by (simp add: lease_live_def lease_for_def JOB_LEASE_SECONDS_def sqlite_datetime_less_iff)
  then have "hasLiveProvisionLease ?reopened (j_tenant_id j2) now"
    unfolding hasLiveProvisionLease_def list_ex_iff
    by (intro bexI [OF _ m]) (simp add: active_job_def j2_def)
  ultimately show ?thesis by (simp add: j2_def j1_def finished_def)
qed

lemma run_ops_keeps_lease:
  assumes "j \<in> set (d_jobs db)" "active_job j" "j_lease_until j = l"
    and "list_all (\<lambda>(now, op). \<not> driver_op (j_id j) op \<and> \<not> lease_free now l) ops"
  shows "\<exists>j' \<in> set (d_jobs (run_ops ops db)). j_id j' = j_id j \<and> j_tenant_id j' = j_tenant_id j
     \<and> active_job j' \<and> j_lease_until j' = l"
  using assms
proof (induction ops arbitrary: db j)
  case (Cons a ops)
  obtain now op where a: "a = (now, op)" by (cases a)
  with Cons.prems(4) have op: "\<not> driver_op (j_id j) op" "\<not> lease_free now l" by simp_all
  obtain j' where j': "j' \<in> set (d_jobs (exec now op db))" "keeps_lease (j_id j) l j j'"
    using exec_keeps_lease [OF op] Cons.prems(1) by (rule extendsE)
  then have k: "j_id j' = j_id j" "j_tenant_id j' = j_tenant_id j" "active_job j'" "j_lease_until j' = l"
    using Cons.prems(2,3) by (simp_all add: keeps_lease_def)
  from Cons.IH [OF j'(1) k(3,4)] Cons.prems(4) show ?case by (simp add: a k(1,2))
qed auto

lemma lease_window:
  assumes "four_digit_year now" "four_digit_year (t0 + 1000 * secs)"
  shows "lease_free now (lease_for t0 secs) \<longleftrightarrow> t0 div 1000 + secs < now div 1000"
    and "lease_live now (lease_for t0 secs) \<longleftrightarrow> now div 1000 < t0 div 1000 + secs"
  using assms by (simp_all add: lease_free_def lease_live_def lease_for_def sqlite_datetime_less_iff add.commute)

lemma live_lease_blocks:
  assumes "j \<in> set (d_jobs db)" "active_job j" "lease_live now (j_lease_until j)"
  shows "fst (claimReclaim db (j_tenant_id j) acct secs tok now) = None"
    and "fst (reclaimSlug db (j_tenant_id j) acct tok now) = None"
    and "fst (beginTeardown db (j_tenant_id j) secs tok now) = None"
proof -
  have h: "hasLiveProvisionLease db (j_tenant_id j) now"
    using assms by (auto simp: hasLiveProvisionLease_def list_ex_iff)
  then show "fst (claimReclaim db (j_tenant_id j) acct secs tok now) = None"
    "fst (reclaimSlug db (j_tenant_id j) acct tok now) = None"
    "fst (beginTeardown db (j_tenant_id j) secs tok now) = None"
    by (auto simp: claimReclaim_def reclaimSlug_def beginTeardown_def update_tenants_returning_def
        find_None_iff reclaimable_def)
qed

lemma held_job_not_claimed:
  assumes "distinct (map j_id (d_jobs db))" "j \<in> set (d_jobs db)" "\<not> lease_free now (j_lease_until j)"
  shows "\<not> fst (claimJob db (j_id j) secs now)" and "setJobRunning db (j_id j) now = db"
proof -
  have u: "k = j" if "k \<in> set (d_jobs db)" "j_id k = j_id j" for k
    using that assms(1,2) distinct_map_eq by metis
  then have "changes (\<lambda>k. j_id k = j_id j \<and> active_job k \<and> lease_free now (j_lease_until k)) (d_jobs db) = 0"
    using assms(3) by (auto simp: changes_0_iff)
  then show "\<not> fst (claimJob db (j_id j) secs now)"
    by (simp add: claimJob_def update_jobs_changed_def)
  show "setJobRunning db (j_id j) now = db"
    unfolding setJobRunning_def map_jobs_def
    by (subst update_where_none) (use u assms(3) in auto)
qed


section \<open>Leases as locks\<close>

text \<open>
  Who wins, when several callers try for one lease: \<open>try a t s\<close> is the attempt \<open>a\<close> at time \<open>t\<close>.
\<close>

fun lease_winners :: "('a \<Rightarrow> int \<Rightarrow> 's \<Rightarrow> bool \<times> 's) \<Rightarrow> ('a \<times> int) list \<Rightarrow> 's \<Rightarrow> int list" where
  "lease_winners attempt [] s = []"
| "lease_winners attempt ((a, t) # ats) s =
     (case attempt a t s of (won, s') \<Rightarrow> if won then t # lease_winners attempt ats s' else lease_winners attempt ats s')"

text \<open>
  The contract of a lease: it is held until some second, only a caller that finds it expired wins, the
  winner holds it for \<open>dur\<close> seconds, and a loser changes nothing about it.
\<close>

locale lease_lock =
  fixes attempt :: "'a \<Rightarrow> int \<Rightarrow> 's \<Rightarrow> bool \<times> 's"
    and held_until :: "'s \<Rightarrow> int option"
    and dur :: int
    and ok :: "'s \<Rightarrow> bool"
    and time_ok :: "int \<Rightarrow> bool"
  assumes dur_nonneg: "0 \<le> dur"
    and win_expired: "ok s \<Longrightarrow> time_ok t \<Longrightarrow> fst (attempt a t s) \<Longrightarrow> held_until s = Some u \<Longrightarrow> u < t div 1000"
    and win_holds: "ok s \<Longrightarrow> time_ok t \<Longrightarrow> fst (attempt a t s) \<Longrightarrow> held_until (snd (attempt a t s)) = Some (t div 1000 + dur)"
    and lose_keeps: "ok s \<Longrightarrow> \<not> fst (attempt a t s) \<Longrightarrow> held_until (snd (attempt a t s)) = held_until s"
    and attempt_ok: "ok s \<Longrightarrow> time_ok t \<Longrightarrow> ok (snd (attempt a t s))"
begin

lemma winners_after:
  assumes "ok s" "list_all (\<lambda>(a, t). time_ok t) ats" "held_until s = Some u"
  shows "list_all (\<lambda>t. u < t div 1000) (lease_winners attempt ats s)"
  using assms
proof (induction ats arbitrary: s u)
  case (Cons x ats)
  obtain a t where x: "x = (a, t)" by (cases x)
  have ok: "ok (snd (attempt a t s))" using Cons.prems by (simp add: x attempt_ok)
  show ?case
  proof (cases "fst (attempt a t s)")
    case True
    have u: "u < t div 1000" using win_expired [OF _ _ True] Cons.prems by (simp add: x)
    have "list_all (\<lambda>v. t div 1000 + dur < v div 1000) (lease_winners attempt ats (snd (attempt a t s)))"
      using win_holds [OF _ _ True] Cons.prems by (intro Cons.IH ok) (simp_all add: x)
    then have "list_all (\<lambda>v. u < v div 1000) (lease_winners attempt ats (snd (attempt a t s)))"
      by (rule list.pred_mono_strong) (use u dur_nonneg in linarith)
    with u True show ?thesis by (simp add: x case_prod_beta)
  next
    case False
    have "list_all (\<lambda>v. u < v div 1000) (lease_winners attempt ats (snd (attempt a t s)))"
      using lose_keeps [OF _ False] Cons.prems by (intro Cons.IH ok) (simp_all add: x)
    with False show ?thesis by (simp add: x case_prod_beta)
  qed
qed simp

lemma winners_apart:
  assumes "ok s" "list_all (\<lambda>(a, t). time_ok t) ats"
  shows "sorted_wrt (\<lambda>t u. t div 1000 + dur < u div 1000) (lease_winners attempt ats s)"
  using assms
proof (induction ats arbitrary: s)
  case (Cons x ats)
  obtain a t where x: "x = (a, t)" by (cases x)
  have ok: "ok (snd (attempt a t s))" using Cons.prems by (simp add: x attempt_ok)
  have ih: "sorted_wrt (\<lambda>t u. t div 1000 + dur < u div 1000) (lease_winners attempt ats (snd (attempt a t s)))"
    using Cons.prems by (intro Cons.IH ok) simp
  show ?case
  proof (cases "fst (attempt a t s)")
    case True
    have "list_all (\<lambda>v. t div 1000 + dur < v div 1000) (lease_winners attempt ats (snd (attempt a t s)))"
      using win_holds [OF _ _ True] Cons.prems by (intro winners_after ok) (simp_all add: x)
    with ih True show ?thesis by (simp add: x case_prod_beta list_all_iff)
  next
    case False
    with ih show ?thesis by (simp add: x case_prod_beta)
  qed
qed simp

end

text \<open>The second a stored lease runs out, and the columns the store itself writes.\<close>

definition lease_second :: "string option \<Rightarrow> int option" where
  "lease_second l =
     (case l of None \<Rightarrow> None
      | Some x \<Rightarrow> map_option (\<lambda>t. t div 1000) (parse_utc_seconds (replace_first (CHR '' '') (CHR ''T'') x @ ''Z'')))"

definition written_lease :: "string option \<Rightarrow> bool" where
  "written_lease l \<longleftrightarrow> (\<forall>x. l = Some x \<longrightarrow> (\<exists>t. four_digit_year t \<and> x = sqlite_datetime t))"

lemma lease_second_written: "four_digit_year t \<Longrightarrow> lease_second (Some (sqlite_datetime t)) = Some (t div 1000)"
proof -
  assume t: "four_digit_year t"
  have "replace_first (CHR '' '') (CHR ''T'') (sqlite_datetime t) = iso_date t @ ''T'' @ second_clock (t mod ms_per_day)"
    using replace_first_append [OF iso_date_no_blank] by (simp add: sqlite_datetime_def)
  with parse_sqlite_datetime [OF t] show ?thesis by (simp add: lease_second_def)
qed

lemma lease_second_for:
  "four_digit_year (t + 1000 * secs) \<Longrightarrow> lease_second (lease_for t secs) = Some (t div 1000 + secs)"
  by (simp add: lease_for_def lease_second_written add.commute)

lemma lease_free_second:
  assumes "written_lease l" "four_digit_year now" "lease_free now l" "lease_second l = Some u"
  shows "u < now div 1000"
proof -
  obtain t where t: "four_digit_year t" "l = Some (sqlite_datetime t)"
    using assms(1,4) by (cases l) (auto simp: written_lease_def lease_second_def)
  with assms show ?thesis by (simp add: lease_free_def lease_second_written sqlite_datetime_less_iff)
qed

definition reclaim_lease :: "string \<Rightarrow> cp_db \<Rightarrow> int option" where
  "reclaim_lease i db = Option.bind (getTenantById db i) (\<lambda>t. lease_second (t_reclaim_lease_until t))"

definition leases_ok :: "cp_db \<Rightarrow> bool" where
  "leases_ok db \<longleftrightarrow> distinct (map t_id (d_tenants db)) \<and> distinct (map j_id (d_jobs db))
     \<and> list_all (\<lambda>t. written_lease (t_reclaim_lease_until t)) (d_tenants db)
     \<and> list_all (\<lambda>j. written_lease (j_lease_until j)) (d_jobs db)"

datatype tenant_attempt = TryReclaim string string | TryTeardown string

fun try_tenant_lease :: "string \<Rightarrow> tenant_attempt \<Rightarrow> int \<Rightarrow> cp_db \<Rightarrow> bool \<times> cp_db" where
  "try_tenant_lease i (TryReclaim acct tok) t db =
     (case claimReclaim db i acct RECLAIM_LEASE_SECONDS tok t of (r, db') \<Rightarrow> (r \<noteq> None, db'))"
| "try_tenant_lease i (TryTeardown tok) t db =
     (case beginTeardown db i RECLAIM_LEASE_SECONDS tok t of (r, db') \<Rightarrow> (r \<noteq> None, db'))"

definition try_job_lease :: "string \<Rightarrow> unit \<Rightarrow> int \<Rightarrow> cp_db \<Rightarrow> bool \<times> cp_db" where
  "try_job_lease i u t db = claimJob db i JOB_LEASE_SECONDS t"

definition job_lease :: "string \<Rightarrow> cp_db \<Rightarrow> int option" where
  "job_lease i db = Option.bind (getJob db i) (\<lambda>j. lease_second (j_lease_until j))"

lemma written_lease_for: "four_digit_year (t + 1000 * secs) \<Longrightarrow> written_lease (lease_for t secs)"
  by (auto simp: written_lease_def lease_for_def)

lemma tenant_lease_update:
  assumes ok: "leases_ok db" and t: "four_digit_year now" "four_digit_year (now + 1000 * secs)"
    and p: "\<And>t. p t \<Longrightarrow> t_id t = i" "\<And>t. p t \<Longrightarrow> lease_free now (t_reclaim_lease_until t)"
    and f: "\<And>t. t_id (f t) = t_id t" "\<And>t. t_reclaim_lease_until (f t) = lease_for now secs"
    and r: "first_where p (d_tenants db) = Some r"
  shows "reclaim_lease i db = Some u \<Longrightarrow> u < now div 1000"
    and "reclaim_lease i (map_tenants p f db) = Some (now div 1000 + secs)"
    and "leases_ok (map_tenants p f db)"
proof -
  have d: "distinct (map t_id (d_tenants db))" using ok by (simp add: leases_ok_def)
  note w = keyed_update_wins [OF d r p(1) f(1)]
  have rp: "r \<in> set (d_tenants db)" "p r" using find_SomeD [OF r] by simp_all
  then have wl: "written_lease (t_reclaim_lease_until r)" using ok by (simp add: leases_ok_def list_all_iff)
  show "u < now div 1000" if "reclaim_lease i db = Some u"
    using that lease_free_second [OF wl t(1) p(2) [OF rp(2)]] w(1) by (simp add: reclaim_lease_def getTenantById_def)
  show "reclaim_lease i (map_tenants p f db) = Some (now div 1000 + secs)"
    using w(2) by (simp add: reclaim_lease_def getTenantById_def f(2) lease_second_for [OF t(2)])
  show "leases_ok (map_tenants p f db)"
    using ok unfolding leases_ok_def
    by (auto simp: list_all_iff set_update_where f written_lease_for [OF t(2)] map_update_where [of p t_id f])
qed

lemma tenant_attempt_cases:
  obtains p f where "try_tenant_lease i a t db = (first_where p (d_tenants db) \<noteq> None, map_tenants p f db)"
    "\<And>r. p r \<Longrightarrow> t_id r = i" "\<And>r. p r \<Longrightarrow> lease_free t (t_reclaim_lease_until r)"
    "\<And>r. t_id (f r) = t_id r" "\<And>r. t_reclaim_lease_until (f r) = lease_for t RECLAIM_LEASE_SECONDS"
proof (cases a)
  case (TryReclaim acct tok)
  show thesis
    by (rule that [of "\<lambda>r. reclaimable db i acct t r \<and> lease_free t (t_reclaim_lease_until r)"
          "\<lambda>r. r\<lparr>t_reclaim_lease_until := lease_for t RECLAIM_LEASE_SECONDS, t_reclaim_lease_token := Some tok\<rparr>"])
      (auto simp: TryReclaim claimReclaim_def update_tenants_returning_def reclaimable_def)
next
  case (TryTeardown tok)
  show thesis
    by (rule that [of "\<lambda>r. t_id r = i \<and> lease_free t (t_reclaim_lease_until r) \<and> \<not> hasLiveProvisionLease db (t_id r) t"
          "\<lambda>r. r\<lparr>t_status := (if t_status r = Deleted then Deleted else Deleting),
             t_reclaim_lease_until := lease_for t RECLAIM_LEASE_SECONDS, t_reclaim_lease_token := Some tok\<rparr>"])
      (auto simp: TryTeardown beginTeardown_def update_tenants_returning_def)
qed

text \<open>The reclaim lease of a tenant, shared by reclaims and teardowns, is a lock.\<close>

interpretation reclaim_lock: lease_lock "try_tenant_lease i" "reclaim_lease i" RECLAIM_LEASE_SECONDS leases_ok
  "\<lambda>t. four_digit_year t \<and> four_digit_year (t + 1000 * RECLAIM_LEASE_SECONDS)" for i
proof
  show "0 \<le> RECLAIM_LEASE_SECONDS" by (simp add: RECLAIM_LEASE_SECONDS_def)
next
  fix s t a u
  assume ok: "leases_ok s" and t: "four_digit_year t \<and> four_digit_year (t + 1000 * RECLAIM_LEASE_SECONDS)"
    and w: "fst (try_tenant_lease i a t s)"
  obtain p f where pf: "try_tenant_lease i a t s = (first_where p (d_tenants s) \<noteq> None, map_tenants p f s)"
    "\<And>r. p r \<Longrightarrow> t_id r = i" "\<And>r. p r \<Longrightarrow> lease_free t (t_reclaim_lease_until r)"
    "\<And>r. t_id (f r) = t_id r" "\<And>r. t_reclaim_lease_until (f r) = lease_for t RECLAIM_LEASE_SECONDS"
    by (rule tenant_attempt_cases [of i a t s]) (rule that; assumption)
  obtain r where r: "first_where p (d_tenants s) = Some r" using w pf(1) by auto
  note upd = tenant_lease_update [OF ok conjunct1 [OF t] conjunct2 [OF t] pf(2-5) r]
  show "u < t div 1000" if "reclaim_lease i s = Some u" by (rule upd(1)) (use that in simp_all)
  show "reclaim_lease i (snd (try_tenant_lease i a t s)) = Some (t div 1000 + RECLAIM_LEASE_SECONDS)"
    using upd(2) by (simp add: pf(1))
next
  fix s t a
  obtain p f where pf: "try_tenant_lease i a t s = (first_where p (d_tenants s) \<noteq> None, map_tenants p f s)"
    "\<And>r. p r \<Longrightarrow> t_id r = i" "\<And>r. p r \<Longrightarrow> lease_free t (t_reclaim_lease_until r)"
    "\<And>r. t_id (f r) = t_id r" "\<And>r. t_reclaim_lease_until (f r) = lease_for t RECLAIM_LEASE_SECONDS"
    by (rule tenant_attempt_cases [of i a t s]) (rule that; assumption)
  have lose: "map_tenants p f s = s" if "first_where p (d_tenants s) = None"
    using update_loses [OF that] by (simp add: map_tenants_def)
  show "reclaim_lease i (snd (try_tenant_lease i a t s)) = reclaim_lease i s" if "\<not> fst (try_tenant_lease i a t s)"
    using that lose by (simp add: pf(1))
  show "leases_ok (snd (try_tenant_lease i a t s))"
    if "leases_ok s" "four_digit_year t \<and> four_digit_year (t + 1000 * RECLAIM_LEASE_SECONDS)"
    using that lose tenant_lease_update(3) [OF that(1) conjunct1 [OF that(2)] conjunct2 [OF that(2)] pf(2-5)]
    by (cases "first_where p (d_tenants s)") (simp_all add: pf(1))
qed

interpretation job_lock: lease_lock "try_job_lease i" "job_lease i" JOB_LEASE_SECONDS leases_ok
  "\<lambda>t. four_digit_year t \<and> four_digit_year (t + 1000 * JOB_LEASE_SECONDS)" for i
proof -
  let ?p = "\<lambda>t j. j_id j = i \<and> active_job j \<and> lease_free t (j_lease_until j)"
  let ?f = "\<lambda>t j. j\<lparr>j_lease_until := lease_for t JOB_LEASE_SECONDS, j_updated_at := sqlite_datetime t\<rparr>"
  have e: "try_job_lease i a t s = (changes (?p t) (d_jobs s) = 1, map_jobs (?p t) (?f t) s)" for a t s
    by (simp add: try_job_lease_def claimJob_def update_jobs_changed_def)
  have d: "distinct (map j_id (d_jobs s))" if "leases_ok s" for s using that by (simp add: leases_ok_def)
  show "lease_lock (try_job_lease i) (job_lease i) JOB_LEASE_SECONDS leases_ok
      (\<lambda>t. four_digit_year t \<and> four_digit_year (t + 1000 * JOB_LEASE_SECONDS))"
  proof
    show "0 \<le> JOB_LEASE_SECONDS" by (simp add: JOB_LEASE_SECONDS_def)
  next
    fix s t a u
    assume ok: "leases_ok s" and t: "four_digit_year t \<and> four_digit_year (t + 1000 * JOB_LEASE_SECONDS)"
      and w: "fst (try_job_lease i a t s)"
    obtain r where r: "first_where (?p t) (d_jobs s) = Some r"
      using w changes_keyed [OF d [OF ok], of "?p t" i] by (auto simp: e)
    have fnd: "getJob s i = Some r" "getJob (map_jobs (?p t) (?f t) s) i = Some (?f t r)"
      using keyed_update_wins [OF d [OF ok] r, of i "?f t"] by (simp_all add: getJob_def)
    have rp: "r \<in> set (d_jobs s)" "?p t r" using find_SomeD [OF r] by simp_all
    then have wl: "written_lease (j_lease_until r)" using ok by (simp add: leases_ok_def list_all_iff)
    show "u < t div 1000" if "job_lease i s = Some u"
      using that lease_free_second [OF wl conjunct1 [OF t]] rp(2) fnd(1) by (simp add: job_lease_def)
    show "job_lease i (snd (try_job_lease i a t s)) = Some (t div 1000 + JOB_LEASE_SECONDS)"
      using fnd(2) t by (simp add: e job_lease_def lease_second_for)
  next
    fix s t a
    assume ok: "leases_ok s" and l: "\<not> fst (try_job_lease i a t s)"
    have "first_where (?p t) (d_jobs s) = None"
      using l changes_keyed [OF d [OF ok], of "?p t" i] by (auto simp: e)
    then have "map_jobs (?p t) (?f t) s = s" unfolding map_jobs_def by (subst update_loses) auto
    then show "job_lease i (snd (try_job_lease i a t s)) = job_lease i s" by (simp add: e)
  next
    fix s t a
    assume "leases_ok s" "four_digit_year t \<and> four_digit_year (t + 1000 * JOB_LEASE_SECONDS)"
    then show "leases_ok (snd (try_job_lease i a t s))"
      unfolding leases_ok_def e
      by (auto simp: list_all_iff set_update_where written_lease_for map_update_where [of _ j_id])
  qed
qed

text \<open>
  Reclaims and teardowns of a tenant exclude each other.  Whoever tries, in whatever order and at
  whatever times, any two attempts that win the tenant's reclaim lease start more than
  \<^const>\<open>RECLAIM_LEASE_SECONDS\<close> apart, as long as no winner hands the lease back in between.
\<close>

theorem reclaim_teardown_exclusive:
  assumes "leases_ok db"
    and "list_all (\<lambda>(a, t). four_digit_year t \<and> four_digit_year (t + 1000 * RECLAIM_LEASE_SECONDS)) ats"
  shows "sorted_wrt (\<lambda>t u. t div 1000 + RECLAIM_LEASE_SECONDS < u div 1000) (lease_winners (try_tenant_lease i) ats db)"
  using assms by (rule reclaim_lock.winners_apart)

text \<open>The abstract lock: free when nobody holds it or the holder's second has passed.\<close>

definition acquire :: "int \<Rightarrow> int \<Rightarrow> int option \<Rightarrow> bool \<times> int option" where
  "acquire dur t u =
     (if u = None \<or> the u < t div 1000 then (True, Some (t div 1000 + dur)) else (False, u))"

lemma lease_free_iff_second:
  assumes "written_lease l" "four_digit_year now"
  shows "lease_free now l \<longleftrightarrow> lease_second l = None \<or> the (lease_second l) < now div 1000"
proof (cases l)
  case None
  then show ?thesis by (simp add: lease_free_def lease_second_def)
next
  case (Some x)
  then obtain t where "four_digit_year t" "x = sqlite_datetime t" using assms(1) by (auto simp: written_lease_def)
  with Some assms(2) show ?thesis by (simp add: lease_free_def lease_second_written sqlite_datetime_less_iff)
qed

text \<open>
  C34: claiming a job is taking an abstract lock.  On a queued or running job, \<^verbatim>\<open>claimJob\<close> answers and
  leaves the lease exactly as the lock that knows only the second it is held until; the SQL predicate
  over text, the row count and the rewritten row are an implementation of it.
\<close>

theorem claimJob_refines_lock:
  assumes "leases_ok db" "getJob db i = Some j" "active_job j"
    and "four_digit_year t" "four_digit_year (t + 1000 * secs)"
  shows "(fst (claimJob db i secs t), job_lease i (snd (claimJob db i secs t))) = acquire secs t (job_lease i db)"
proof -
  let ?p = "\<lambda>j. j_id j = i \<and> active_job j \<and> lease_free t (j_lease_until j)"
  let ?f = "\<lambda>j. j\<lparr>j_lease_until := lease_for t secs, j_updated_at := sqlite_datetime t\<rparr>"
  have d: "distinct (map j_id (d_jobs db))" using assms(1) by (simp add: leases_ok_def)
  have j: "j \<in> set (d_jobs db)" "j_id j = i" using find_SomeD [OF assms(2) [unfolded getJob_def]] by simp_all
  have wl: "written_lease (j_lease_until j)" using assms(1) j by (simp add: leases_ok_def list_all_iff)
  have e: "fst (claimJob db i secs t) = (first_where ?p (d_jobs db) \<noteq> None)"
    "snd (claimJob db i secs t) = map_jobs ?p ?f db"
    using changes_keyed [OF d, of ?p i] by (simp_all add: claimJob_def update_jobs_changed_def)
  have fnd: "getJob (map_jobs ?p ?f db) i = Some (if ?p j then ?f j else j)"
    using find_update_key [OF assms(2) [unfolded getJob_def], of ?p ?f] by (simp add: getJob_def)
  have "first_where ?p (d_jobs db) \<noteq> None \<longleftrightarrow> lease_free t (j_lease_until j)"
  proof -
    have "k = j" if "k \<in> set (d_jobs db)" "j_id k = i" for k
      using distinct_map_eq [OF d that(1) j(1)] that(2) j(2) by simp
    then show ?thesis using j assms(3) by (force simp: find_None_iff)
  qed
  then show ?thesis
    unfolding e acquire_def job_lease_def fnd assms(2)
    using j assms(3) lease_free_iff_second [OF wl assms(4)] lease_second_for [OF assms(5)]
    by (cases "lease_free t (j_lease_until j)") simp_all
qed

lemma owner_holds_cong:
  assumes "map t_id (d_tenants db') = map t_id (d_tenants db)" "map t_status (d_tenants db') = map t_status (d_tenants db)"
  shows "owner_holds db' i = owner_holds db i"
proof -
  have "map_option t_status (List.find (\<lambda>t. t_id t = i) xs) = map_option t_status (List.find (\<lambda>t. t_id t = i) ys)"
    if "map t_id xs = map t_id ys" "map t_status xs = map t_status ys" for xs ys :: "tenant list"
    using that by (induction xs ys rule: list_induct2' ) auto
  from this [OF assms] show ?thesis
    by (auto simp: owner_holds_def getTenantById_def split: option.splits)
qed

lemma upsert_owner_lookup:
  assumes "key2 \<noteq> []"
  shows "getResourceOwner (upsert_owner db k2 key2 i now) k key =
    (if k2 = k \<and> key2 = key then Some i else getResourceOwner db k key)"
proof -
  let ?p = "\<lambda>r. o_kind r = k2 \<and> o_key r = key2" and ?q = "\<lambda>r. o_kind r = k \<and> o_key r = key"
  let ?f = "\<lambda>r. r\<lparr>o_owner := i, o_provisioned_at := sqlite_datetime now\<rparr>"
  show ?thesis
  proof (cases "list_ex ?p (d_owners db)")
    case True
    then have "List.find ?p (d_owners db) \<noteq> None" by (auto simp: list_ex_iff find_None_iff)
    then obtain r where r: "List.find ?p (d_owners db) = Some r" by blast
    show ?thesis
    proof (cases "k2 = k \<and> key2 = key")
      case same: True
      then show ?thesis using True r assms find_update_same [of ?p ?f "d_owners db"]
        by (simp add: upsert_owner_def getResourceOwner_def)
    next
      case False
      then have "List.find ?q (update_where ?p ?f (d_owners db)) = List.find ?q (d_owners db)"
        by (intro find_update_other) auto
      with True False show ?thesis by (auto simp: upsert_owner_def getResourceOwner_def)
    qed
  next
    case False
    then have "List.find ?p (d_owners db) = None" by (auto simp: list_ex_iff find_None_iff)
    with False assms show ?thesis
      by (auto simp: upsert_owner_def getResourceOwner_def find_append split: option.splits)
  qed
qed

lemma claim_keeps_owner:
  assumes "getResourceOwner db k key = Some w" "w \<noteq> []" "owner_holds db w"
  shows "getResourceOwner (claimResourceOwnership db k2 key2 i now) k key = Some w"
  using assms by (auto simp: claimResourceOwnership_def upsert_owner_lookup split: option.splits)

text \<open>
  Ownership of a resource is not stolen.  While the tenant on record as owner is neither deleted nor
  failed, no operation of anybody else moves its ownership of a database, bucket, token or worker; only
  clearing that resource of that tenant gives it up.
\<close>

theorem live_owner_keeps_resource:
  assumes "getResourceOwner db k key = Some w" "w \<noteq> []" "owner_holds db w" "op \<noteq> OClearResource w k"
  shows "getResourceOwner (exec now op db) k key = Some w"
proof -
  have same: "getResourceOwner db' k key = Some w" if "d_owners db' = d_owners db" for db'
    using assms(1) that by (simp add: getResourceOwner_def split: if_splits)
  have claim: "getResourceOwner (claimResourceOwnership (map_tenants p f db) k2 key2 i now) k key = Some w"
    if "\<And>t. t_id (f t) = t_id t" "\<And>t. t_status (f t) = t_status t" for p f k2 key2 i
  proof (rule claim_keeps_owner [OF _ assms(2)])
    show "getResourceOwner (map_tenants p f db) k key = Some w" by (rule same) (simp add: map_tenants_def)
    have "owner_holds (map_tenants p f db) w = owner_holds db w"
      using that by (intro owner_holds_cong) (simp_all add: map_update_where)
    then show "owner_holds (map_tenants p f db) w" using assms(3) by simp
  qed
  show ?thesis
  proof (cases op)
    case (OClearResource i kind)
    obtain r where r: "first_where (\<lambda>r. o_kind r = k \<and> o_key r = key) (d_owners db) = Some r" "o_owner r = w" "key \<noteq> []"
      using assms(1) by (auto simp: getResourceOwner_def split: if_splits)
    have "o_kind r = k" using find_SomeD [OF r(1)] by simp
    then have "first_where (\<lambda>r. o_kind r = k \<and> o_key r = key)
        (filter (\<lambda>r. \<not> (o_kind r = kind \<and> o_key r = key2 \<and> o_owner r = i)) (d_owners db)) = Some r" for key2
      using r assms(4) OClearResource by (intro find_filter) auto
    then show ?thesis
      using r by (auto simp: OClearResource clearTenantResource_def Let_def getResourceOwner_def map_tenants_def split: option.splits)
  qed (simp_all add: store_defs Let_def claim, (rule same, auto simp: map_tenants_def map_jobs_def split: prod.splits)+)
qed

definition keeps_hold :: "string \<Rightarrow> phold \<Rightarrow> phold \<Rightarrow> bool" where
  "keeps_hold i h h' \<longleftrightarrow> (p_id h = i \<longrightarrow> h' = h)"

lemma exec_keeps_hold:
  assumes "\<And>who why. op \<noteq> OReleaseHold i who why"
  shows "extends (keeps_hold i) (d_pholds db) (d_pholds (exec now op db))"
  by (cases op; (simp add: store_defs Let_def split: prod.splits option.splits)?; (intro conjI impI allI)?;
      (rule extends_rules)?; (use assms in \<open>auto simp: keeps_hold_def\<close>)?)

text \<open>
  Only a release ends a preservation hold.  Whatever else runs and however much time passes, past the
  hold's \<^verbatim>\<open>expires_at\<close> too, an open hold stays on the list of open holds of its tenant, unchanged.
\<close>

theorem hold_blocks_until_released:
  assumes "h \<in> set (d_pholds db)" "p_released_at h = None"
    and "list_all (\<lambda>(now, op). case op of OReleaseHold i who why \<Rightarrow> i \<noteq> p_id h | _ \<Rightarrow> True) ops"
  shows "h \<in> set (listPreservationHolds (run_ops ops db) (p_tenant_id h) True)"
proof -
  have "h \<in> set (d_pholds (run_ops ops db))"
    using assms(1,3)
  proof (induction ops arbitrary: db)
    case (Cons a ops)
    obtain now op where a: "a = (now, op)" by (cases a)
    with Cons.prems(2) have op: "op \<noteq> OReleaseHold (p_id h) who why" for who why by auto
    obtain h' where "h' \<in> set (d_pholds (exec now op db))" "keeps_hold (p_id h) h h'"
      using exec_keeps_hold [OF op] Cons.prems(1) by (rule extendsE)
    then show ?case using Cons by (simp add: a keeps_hold_def)
  qed simp
  with assms(2) show ?thesis by (simp add: listPreservationHolds_def)
qed

section \<open>Examples\<close>

definition ex_job :: provision_job where
  "ex_job = new_job ''job_1'' ''ten_1'' JProvision None (Some ''v1'') (Some ''dedicated'') 0"

definition ex_hold :: phold where
  "ex_hold = \<lparr>p_id = ''ph_1'', p_tenant_id = ''ten_1'', p_kind = InternalHold, p_reason = ''r'',
     p_opened_at = ''1970-01-01 00:00:00'', p_opened_by = ''op'', p_expires_at = Some ''1970-01-02'',
     p_released_at = None, p_released_by = None, p_release_reason = None\<rparr>"

definition ex_store :: cp_db where
  "ex_store = \<lparr>d_accounts = [''acct_1''], d_tenants = [ex_tenant], d_jobs = [ex_job],
     d_owners = [\<lparr>o_kind = RD1, o_key = ''d1'', o_owner = ''ten_1'', o_provisioned_at = ''x''\<rparr>], d_pholds = [ex_hold]\<rparr>"

definition ex_live_store :: cp_db where
  "ex_live_store = setTenantStatus ex_store ''ten_1'' Live 0"

lemma ex_store_simps [simp]:
  "d_tenants ex_store = [ex_tenant]" "d_jobs ex_store = [ex_job]" "d_pholds ex_store = [ex_hold]"
  "d_accounts ex_store = [''acct_1'']" "t_id ex_tenant = ''ten_1''" "t_slug ex_tenant = ''acme''"
  "t_account_id ex_tenant = ''acct_1''" "t_live_at ex_tenant = None" "t_status ex_tenant = Pending"
  "t_reclaim_lease_until ex_tenant = None" "j_id ex_job = ''job_1''" "j_tenant_id ex_job = ''ten_1''"
  "j_lease_until ex_job = None" "j_status ex_job = Queued" "p_id ex_hold = ''ph_1''"
  "p_released_at ex_hold = None" "p_tenant_id ex_hold = ''ten_1''"
  by (simp_all add: ex_store_def ex_tenant_def ex_job_def new_job_def ex_hold_def)

lemma ex_store_ok: "leases_ok ex_store" "tenant_keys_ok ex_store" "getJob ex_store ''job_1'' = Some ex_job"
  by (simp_all add: leases_ok_def tenant_keys_ok_def written_lease_def getJob_def)

lemma ex_epoch_four_digit: "four_digit_year 0" "four_digit_year 1000" "four_digit_year 60000" "four_digit_year 61000"
  "four_digit_year 300000" "four_digit_year 301000"
  by code_simp+

lemma ex_claim_won: "fst (claimJob ex_store ''job_1'' 60 0)"
  by (simp add: claimJob_def update_jobs_changed_def active_job_def lease_free_def)

theorem ever_live_never_reclaimed_witness:
  "\<exists>u. getTenantBySlug (run_ops [(5000, OSetStatus ''ten_1'' Failed), (6000, OResume ''ten_1'')] ex_live_store) ''acme'' = Some u
     \<and> t_live_at u = Some (sqlite_datetime 0)"
  using ever_live_never_reclaimed [of ex_live_store "ex_tenant\<lparr>t_status := Live, t_live_at := Some (sqlite_datetime 0)\<rparr>"
      "sqlite_datetime 0" "[(5000, OSetStatus ''ten_1'' Failed), (6000, OResume ''ten_1'')]"]
  by (auto simp: ex_live_store_def setTenantStatus_def tenant_keys_ok_def)

theorem finished_job_closed_witness:
  "\<exists>j \<in> set (d_jobs (run_ops [(1000, OClaimJob ''job_1'' 60), (2000, ORenewLease ''job_1'' 60)]
       (snd (finishJob ex_store ''job_1'' True None None 0)))). j_status j = Succeeded"
proof -
  let ?j = "finished True None None 0 ex_job"
  have "?j \<in> set (d_jobs (run_ops [(1000, OClaimJob ''job_1'' 60), (2000, ORenewLease ''job_1'' 60)]
       (snd (finishJob ex_store ''job_1'' True None None 0))))"
    by (rule finished_job_closed)
      (simp_all add: finishJob_def update_jobs_changed_def finished_def active_job_def)
  then show ?thesis by (rule bexI [rotated]) (simp add: finished_def)
qed

theorem setJobRunning_reopens_finished_witness:
  "\<exists>j. getJob (setJobRunning (snd (finishJob ex_store ''job_1'' True None None 0)) ''job_1'' 1000) ''job_1'' = Some j
     \<and> j_status j = Running \<and> j_finished_at j = Some (sqlite_datetime 0)"
  using setJobRunning_reopens_finished [of ex_store "''job_1''" True None None 0 1000] ex_epoch_four_digit
  by (auto simp: finishJob_def update_jobs_changed_def active_job_def)


theorem reclaim_teardown_exclusive_witness:
  "sorted_wrt (\<lambda>t u. t div 1000 + RECLAIM_LEASE_SECONDS < u div 1000)
     (lease_winners (try_tenant_lease ''ten_1'') [(TryReclaim ''acct_1'' ''a'', 0), (TryTeardown ''b'', 1000)] ex_store)
   \<and> fst (try_tenant_lease ''ten_1'' (TryReclaim ''acct_1'' ''a'') 0 ex_store)"
  using reclaim_teardown_exclusive [OF ex_store_ok(1), of "[(TryReclaim ''acct_1'' ''a'', 0), (TryTeardown ''b'', 1000)]" "''ten_1''"]
    ex_epoch_four_digit
  by (simp add: RECLAIM_LEASE_SECONDS_def claimReclaim_def update_tenants_returning_def reclaimable_def lease_free_def
      hasLiveProvisionLease_def lease_live_def TIER_A_STATUSES_def)

theorem claimJob_refines_lock_witness:
  "(fst (claimJob ex_store ''job_1'' 60 0), job_lease ''job_1'' (snd (claimJob ex_store ''job_1'' 60 0))) = (True, Some 60)"
  using claimJob_refines_lock [OF ex_store_ok(1,3), of 0 60] ex_epoch_four_digit
  by (simp add: active_job_def acquire_def job_lease_def ex_store_ok lease_second_def)

theorem live_owner_keeps_resource_witness:
  "getResourceOwner (exec 0 (OSetD1 ''ten_2'' ''d1'') ex_store) RD1 ''d1'' = Some ''ten_1''"
  by (rule live_owner_keeps_resource)
    (simp_all add: getResourceOwner_def ex_store_def owner_holds_def getTenantById_def ex_tenant_def)

theorem hold_blocks_until_released_witness:
  "ex_hold \<in> set (listPreservationHolds (run_ops [(900000000, OSuspend ''ten_1'' ''r'')] ex_store) ''ten_1'' True)"
  using hold_blocks_until_released [of ex_hold ex_store "[(900000000, OSuspend ''ten_1'' ''r'')]"] by simp

end
