(* ===== verification/Operators.thy ===== *)
theory Operators
  imports SqliteTime Json
begin

text \<open>
  The operator surface: credentials and scopes (\<^verbatim>\<open>src/src/operator-auth.ts\<close>), their table and the
  audit trail (\<^verbatim>\<open>src/src/store-d1.ts\<close>), and the gate every admin request passes, with the credential
  routes behind it (\<^verbatim>\<open>src/src/index.ts\<close>).  SHA-256 and the random source are arguments.
\<close>

section \<open>Scopes\<close>

definition ALL_SCOPES :: "string list" where
  "ALL_SCOPES =
     [''tenants:read'', ''tenants:write'', ''tenants:destroy'', ''tenants:provision'', ''studio:operate'',
      ''credits:write'', ''platform:settings'', ''meter:operate'', ''keys:rotate'']"

definition isKnownScope :: "string \<Rightarrow> bool" where
  "isKnownScope v \<longleftrightarrow> v \<in> set ALL_SCOPES"

definition operatorActor :: "string \<Rightarrow> string" where
  "operatorActor name = ''operator:'' @ name"

text \<open>\<^verbatim>\<open>s.split(/\s+/)\<close>.\<close>

function split_ws :: "string \<Rightarrow> string list" where
  "split_ws s =
     (let w = takeWhile (\<lambda>c. \<not> is_ws c) s; r = dropWhile (\<lambda>c. \<not> is_ws c) s
      in if r = [] then [w] else w # split_ws (dropWhile is_ws r))"
  by auto
termination
proof (relation "measure length")
  fix s :: string and w r
  assume r: "r = dropWhile (\<lambda>c. \<not> is_ws c) s" "r \<noteq> []"
  then obtain c t where ct: "r = c # t" "is_ws c"
    by (metis hd_dropWhile list.exhaust_sel)
  have "length (dropWhile is_ws r) \<le> length t" using ct by (simp add: length_dropWhile_le)
  also have "\<dots> < length r" using ct by simp
  also have "\<dots> \<le> length s" unfolding r(1) by (rule length_dropWhile_le)
  finally show "(dropWhile is_ws r, s) \<in> measure length" by simp
qed simp

declare split_ws.simps [simp del]

definition parseScopes :: "string option \<Rightarrow> string list" where
  "parseScopes stored = filter isKnownScope (split_ws (case stored of None \<Rightarrow> [] | Some s \<Rightarrow> s))"

definition formatScopes :: "string list \<Rightarrow> string" where
  "formatScopes scopes = join_with '' '' (filter (\<lambda>s. s \<in> set scopes) ALL_SCOPES)"

text \<open>The refusal carries what its message lists: nothing, or the entries that are not scopes.\<close>

datatype scopes_refusal = ScopesNotAList | UnknownScopes "json list"

definition canonicaliseScopes :: "json option \<Rightarrow> scopes_refusal + string list" where
  "canonicaliseScopes input =
     (case input of
        Some (JArr vs) \<Rightarrow>
          if vs = [] then Inl ScopesNotAList
          else (let unknown = filter (\<lambda>v. case v of JStr s \<Rightarrow> \<not> isKnownScope s | _ \<Rightarrow> True) vs
                in if unknown \<noteq> [] then Inl (UnknownScopes unknown)
                   else Inr (filter (\<lambda>s. JStr s \<in> set vs) ALL_SCOPES))
      | _ \<Rightarrow> Inl ScopesNotAList)"

text \<open>\<^verbatim>\<open>/^[a-z0-9][a-z0-9_-]{0,31}$/\<close>.\<close>

definition isValidOperatorName :: "json option \<Rightarrow> bool" where
  "isValidOperatorName name =
     (case name of
        Some (JStr s) \<Rightarrow>
          s \<noteq> [] \<and> (is_lower_alpha (hd s) \<or> is_digit (hd s)) \<and> length s \<le> 32
          \<and> list_all (\<lambda>c. is_lower_alpha c \<or> is_digit c \<or> c = CHR ''_'' \<or> c = CHR ''-'') (tl s)
      | _ \<Rightarrow> False)"

section \<open>Credentials\<close>

record operator_credential =
  oc_id :: string
  oc_name :: string
  oc_token_sha256 :: string
  oc_scopes :: string
  oc_created_at :: string
  oc_created_by :: string
  oc_last_used_at :: "string option"
  oc_expires_at :: "string option"
  oc_revoked_at :: "string option"
  oc_revoked_by :: "string option"

record audit_row =
  aud_id :: nat
  aud_actor :: string
  aud_action :: string
  aud_target :: "string option"
  aud_detail :: "json option"
  aud_created_at :: string

record op_db =
  op_credentials :: "operator_credential list"
  op_audit :: "audit_row list"

definition isExpired :: "operator_credential \<Rightarrow> string \<Rightarrow> bool" where
  "isExpired c nowIso =
     (if \<not> truthy (oc_expires_at c) then False
      else (case (Option.bind (oc_expires_at c) parse_iso, parse_iso nowIso) of
              (Some t, Some now) \<Rightarrow> t \<le> now
            | _ \<Rightarrow> True))"

datatype principal_kind = RootKind | CredentialKind

record principal =
  pr_kind :: principal_kind
  pr_actor :: string
  pr_operator :: "string option"
  pr_credential_id :: "string option"
  pr_scopes :: "string list"

definition getOperatorCredentialByHash :: "op_db \<Rightarrow> string \<Rightarrow> operator_credential option" where
  "getOperatorCredentialByHash db h = first_where (\<lambda>c. oc_token_sha256 c = h) (op_credentials db)"

definition resolveOperator ::
  "(8 word list \<Rightarrow> 8 word list) \<Rightarrow> string option \<Rightarrow> string option \<Rightarrow> op_db \<Rightarrow> string \<Rightarrow> principal option" where
  "resolveOperator sha256 presented rootSecret db nowIso =
     (if \<not> truthy presented then None
      else (let tok = the presented;
                root = (if truthy rootSecret \<and> constantTimeEqual sha256 tok (the rootSecret)
                        then Some \<lparr>pr_kind = RootKind, pr_actor = ''admin-token'', pr_operator = None,
                                    pr_credential_id = None, pr_scopes = ALL_SCOPES\<rparr>
                        else None)
            in case getOperatorCredentialByHash db (sha256Hex sha256 tok) of
                 Some c \<Rightarrow>
                   if \<not> truthy (oc_revoked_at c) \<and> \<not> isExpired c nowIso
                   then Some \<lparr>pr_kind = CredentialKind, pr_actor = operatorActor (oc_name c),
                               pr_operator = Some (oc_name c), pr_credential_id = Some (oc_id c),
                               pr_scopes = parseScopes (Some (oc_scopes c))\<rparr>
                   else root
               | None \<Rightarrow> root))"

definition hasScope :: "principal \<Rightarrow> string \<Rightarrow> bool" where
  "hasScope p scope \<longleftrightarrow> scope \<in> set (pr_scopes p)"

definition createOperatorCredential ::
  "op_db \<Rightarrow> string \<Rightarrow> string \<Rightarrow> string \<Rightarrow> string \<Rightarrow> string \<Rightarrow> string option \<Rightarrow> int \<Rightarrow> db_error + op_db" where
  "createOperatorCredential db i name hash scopes created_by expires now =
     (if i \<in> set (map oc_id (op_credentials db)) \<or> hash \<in> set (map oc_token_sha256 (op_credentials db))
         \<or> list_ex (\<lambda>c. oc_name c = name \<and> oc_revoked_at c = None) (op_credentials db)
      then Inl UniqueFailed
      else Inr (db\<lparr>op_credentials := op_credentials db @
             [\<lparr>oc_id = i, oc_name = name, oc_token_sha256 = hash, oc_scopes = scopes,
               oc_created_at = sqlite_datetime now, oc_created_by = created_by, oc_last_used_at = None,
               oc_expires_at = expires, oc_revoked_at = None, oc_revoked_by = None\<rparr>]\<rparr>))"

text \<open>\<^verbatim>\<open>ORDER BY created_at DESC, id DESC\<close>.\<close>

definition listOperatorCredentials :: "op_db \<Rightarrow> operator_credential list" where
  "listOperatorCredentials db = rev (sort_key oc_created_at (sort_key oc_id (op_credentials db)))"

definition revokeOperatorCredential :: "op_db \<Rightarrow> string \<Rightarrow> string \<Rightarrow> string \<Rightarrow> bool \<times> op_db" where
  "revokeOperatorCredential db i revokedBy now =
     (let p = (\<lambda>c. oc_id c = i \<and> oc_revoked_at c = None)
      in (changes p (op_credentials db) > 0,
          db\<lparr>op_credentials := update_where p (\<lambda>c. c\<lparr>oc_revoked_at := Some now, oc_revoked_by := Some revokedBy\<rparr>)
                (op_credentials db)\<rparr>))"

definition touchOperatorCredential :: "op_db \<Rightarrow> string \<Rightarrow> string \<Rightarrow> op_db" where
  "touchOperatorCredential db i now =
     db\<lparr>op_credentials := update_where (\<lambda>c. oc_id c = i) (\<lambda>c. c\<lparr>oc_last_used_at := Some now\<rparr>) (op_credentials db)\<rparr>"

text \<open>
  The autoincrement key never repeats; the trail only grows.  The detail column holds JSON text, here
  the value it encodes.
\<close>

definition recordAdminAction :: "op_db \<Rightarrow> string \<Rightarrow> string \<Rightarrow> string option \<Rightarrow> json option \<Rightarrow> int \<Rightarrow> op_db" where
  "recordAdminAction db actor action target detail now =
     db\<lparr>op_audit := op_audit db @ [\<lparr>aud_id = Suc (length (op_audit db)), aud_actor = actor, aud_action = action,
         aud_target = target, aud_detail = detail, aud_created_at = sqlite_datetime now\<rparr>]\<rparr>"

text \<open>\<^verbatim>\<open>Math.max(1, Math.min(500, Math.trunc(limit) || 1))\<close>; a limit that is not a number counts as 1.\<close>

definition clamp_limit :: "jsnum \<Rightarrow> nat" where
  "clamp_limit l =
     (case l of
        Fin r \<Rightarrow> (let n = (if 0 \<le> r then \<lfloor>r\<rfloor> else \<lceil>r\<rceil>) in
                  if n = 0 then 1 else nat (max 1 (min 500 n)))
      | NaN \<Rightarrow> 1 | PosInf \<Rightarrow> 500 | NegInf \<Rightarrow> 1)"

definition listAdminAudit :: "op_db \<Rightarrow> string option \<Rightarrow> jsnum \<Rightarrow> audit_row list" where
  "listAdminAudit db target limit =
     take (clamp_limit limit)
       (rev (sort_key aud_id (if truthy target then filter (\<lambda>r. aud_target r = target) (op_audit db) else op_audit db)))"

section \<open>The route table\<close>

datatype admin_requirement = Authenticated | RootOnly | Scope string

text \<open>
  The anchored patterns match segment by segment: a literal, an id with a prefix and lower-case
  hexadecimal digits, or one of several words.
\<close>

datatype segment = Lit string | IdSeg string | OneOf "string list"

definition lower_hex :: "char \<Rightarrow> bool" where
  "lower_hex c \<longleftrightarrow> is_digit c \<or> c \<in> set ''abcdef''"

fun seg_matches :: "segment \<Rightarrow> string \<Rightarrow> bool" where
  "seg_matches (Lit w) s = (s = w)"
| "seg_matches (IdSeg p) s = (starts_with s p \<and> drop (length p) s \<noteq> [] \<and> list_all lower_hex (drop (length p) s))"
| "seg_matches (OneOf ws) s = (s \<in> set ws)"

definition path_matches :: "segment list \<Rightarrow> string \<Rightarrow> bool" where
  "path_matches pat path = list_all2 seg_matches pat (split_on (CHR ''/'') path)"

definition admin_path :: "segment list \<Rightarrow> segment list" where
  "admin_path segs = [Lit [], Lit ''api'', Lit ''admin''] @ segs"

definition tenant_path :: "segment list \<Rightarrow> segment list" where
  "tenant_path segs = admin_path ([Lit ''tenants'', IdSeg ''ten_''] @ segs)"

definition ADMIN_REQUIREMENTS :: "(string \<times> segment list \<times> admin_requirement) list" where
  "ADMIN_REQUIREMENTS =
     [(''GET'', admin_path [Lit ''whoami''], Authenticated),
      (''GET'', admin_path [Lit ''operators''], RootOnly),
      (''POST'', admin_path [Lit ''operators''], RootOnly),
      (''POST'', admin_path [Lit ''operators'', IdSeg ''opc_'', Lit ''revoke''], RootOnly),
      (''GET'', admin_path [Lit ''audit''], Scope ''tenants:read''),
      (''GET'', admin_path [Lit ''tenants''], Scope ''tenants:read''),
      (''GET'', tenant_path [Lit ''usage''], Scope ''tenants:read''),
      (''POST'', admin_path [Lit ''tenants'', Lit ''provision''], Scope ''tenants:provision''),
      (''GET'', admin_path [Lit ''settings''], Scope ''tenants:read''),
      (''POST'', admin_path [Lit ''settings''], Scope ''platform:settings''),
      (''GET'', admin_path [Lit ''r2-usage''], Scope ''tenants:read''),
      (''GET'', admin_path [Lit ''cron''], Scope ''tenants:read''),
      (''POST'', admin_path [Lit ''reconcile'', Lit ''runpod''], Scope ''tenants:read''),
      (''POST'', admin_path [Lit ''llm-meter'', Lit ''run''], Scope ''meter:operate''),
      (''POST'', admin_path [Lit ''meter-settle''], Scope ''meter:operate''),
      (''GET'', admin_path [Lit ''llm-spend''], Scope ''tenants:read''),
      (''GET'', admin_path [Lit ''kek'', Lit ''status''], Scope ''keys:rotate''),
      (''POST'', admin_path [Lit ''kek'', Lit ''reencrypt''], Scope ''keys:rotate''),
      (''GET'', tenant_path [Lit ''credits''], Scope ''tenants:read''),
      (''POST'', tenant_path [Lit ''credits'', Lit ''manual''], Scope ''credits:write''),
      (''GET'', tenant_path [Lit ''module-readiness''], Scope ''tenants:read''),
      (''GET'', tenant_path [Lit ''preservation-holds''], Scope ''tenants:read''),
      (''POST'', tenant_path [Lit ''preservation-holds''], Scope ''tenants:write''),
      (''POST'', tenant_path [Lit ''preservation-holds'', IdSeg ''hold_'', Lit ''release''], Scope ''tenants:write''),
      (''POST'', tenant_path [OneOf [''suspend'', ''resume'']], Scope ''tenants:write''),
      (''POST'', tenant_path [Lit ''video-finish-binding''], Scope ''tenants:write''),
      (''POST'', tenant_path [Lit ''video-finish-tier-state''], Scope ''tenants:write''),
      (''POST'', tenant_path [Lit ''abuse-report-url''], Scope ''tenants:write''),
      (''POST'', tenant_path [Lit ''storage-quota''], Scope ''tenants:write''),
      (''POST'', tenant_path [Lit ''teardown''], Scope ''tenants:destroy''),
      (''POST'', tenant_path [Lit ''upgrade-modules''], Scope ''studio:operate''),
      (''POST'', tenant_path [Lit ''upgrade-studio''], Scope ''studio:operate''),
      (''POST'', tenant_path [Lit ''refresh-studio-bindings''], Scope ''studio:operate''),
      (''POST'', tenant_path [Lit ''smoke-render''], Scope ''studio:operate''),
      (''GET'', tenant_path [Lit ''smoke-render'', IdSeg ''smk_''], Scope ''tenants:read''),
      (''GET'', tenant_path [Lit ''smoke-render'', IdSeg ''smk_'', Lit ''artifact''], Scope ''tenants:read'')]"

definition adminRequirement :: "string \<Rightarrow> string \<Rightarrow> admin_requirement option" where
  "adminRequirement meth path =
     map_option (\<lambda>(m, pat, r). r) (first_where (\<lambda>(m, pat, r). m = meth \<and> path_matches pat path) ADMIN_REQUIREMENTS)"

section \<open>The gate\<close>

text \<open>
  The head of \<^verbatim>\<open>adminRoutes\<close>: the refusal, or the principal with whose rights the routes below run.
\<close>

definition admin_gate ::
  "(8 word list \<Rightarrow> 8 word list) \<Rightarrow> string option \<Rightarrow> op_db \<Rightarrow> string \<Rightarrow> headers \<Rightarrow> string \<Rightarrow> string \<Rightarrow> reply + principal" where
  "admin_gate sha256 rootSecret db nowIso hs meth path =
     (case resolveOperator sha256 (bearerFrom hs) rootSecret db nowIso of
        None \<Rightarrow> Inl (err ''unauthorized'' 401 [])
      | Some p \<Rightarrow>
          (case adminRequirement meth path of
             None \<Rightarrow> Inl (err ''not_found'' 404 [])
           | Some r \<Rightarrow>
               if r = RootOnly \<and> pr_kind p \<noteq> RootKind then
                 Inl (err ''root_credential_required'' 403 [(''message'', JStr
                   (''operator credential lifecycle is reachable only with the shared root credential; a scoped credential ''
                    @ ''that could mint another one would hold every scope in two requests''))])
               else (case r of
                       Scope s \<Rightarrow>
                         if \<not> hasScope p s then
                           Inl (err ''insufficient_scope'' 403
                             [(''required'', JStr s), (''held'', JArr (map JStr (pr_scopes p)))])
                         else Inr p
                     | _ \<Rightarrow> Inr p)))"

section \<open>The credential routes\<close>

definition jopt :: "string option \<Rightarrow> json" where
  "jopt v = (case v of None \<Rightarrow> JNull | Some s \<Rightarrow> JStr s)"

definition no_store :: "string \<times> string" where
  "no_store = (''cache-control'', ''no-store'')"

definition operatorView :: "operator_credential \<Rightarrow> json" where
  "operatorView c =
     JObj [(''id'', JStr (oc_id c)), (''name'', JStr (oc_name c)),
       (''scopes'', JArr (map JStr (parseScopes (Some (oc_scopes c))))), (''created_at'', JStr (oc_created_at c)),
       (''created_by'', JStr (oc_created_by c)), (''last_used_at'', jopt (oc_last_used_at c)),
       (''expires_at'', jopt (oc_expires_at c)), (''revoked_at'', jopt (oc_revoked_at c)),
       (''revoked_by'', jopt (oc_revoked_by c))]"

text \<open>The requested lifetime: absent or null for none, else a whole number of days.\<close>

definition expiry_days :: "json option \<Rightarrow> int option option" where
  "expiry_days v =
     (case v of None \<Rightarrow> Some None | Some JNull \<Rightarrow> Some None
      | Some (JNum n) \<Rightarrow> (case as_safe_int n of
            Some d \<Rightarrow> if d \<le> 0 \<or> d > 3650 then None else Some (Some d) | None \<Rightarrow> None)
      | _ \<Rightarrow> None)"

definition constraint_message :: "db_error \<Rightarrow> bool" where
  "constraint_message e =
     (case e of Thrown m \<Rightarrow> str_includes (to_lower m) ''unique'' \<or> str_includes (to_lower m) ''constraint'' | _ \<Rightarrow> True)"

text \<open>The message of the scope refusal, a rendering of \<^typ>\<open>scopes_refusal\<close>, is left out.\<close>

definition mint_operator ::
  "(8 word list \<Rightarrow> 8 word list) \<Rightarrow> 8 word list \<Rightarrow> 8 word list \<Rightarrow> op_db \<Rightarrow> int \<Rightarrow> string \<Rightarrow> json option \<Rightarrow> reply \<times> op_db" where
  "mint_operator sha256 tokbuf idbuf db now actor body =
     (let field = (\<lambda>k. Option.bind body (\<lambda>b. jget b k)) in
      if \<not> isValidOperatorName (field ''name'') then
        (err ''invalid_name'' 400 [(''message'', JStr
           (''name must be 1-32 characters of lowercase letters, digits, underscore or hyphen, starting with a letter ''
            @ ''or digit; it is an identity that lands in the audit trail, so it should name a person''))], db)
      else (case canonicaliseScopes (field ''scopes'') of
         Inl _ \<Rightarrow> (err ''invalid_scopes'' 400 [], db)
       | Inr scopes \<Rightarrow>
         (case expiry_days (field ''expires_in_days'') of
            None \<Rightarrow> (err ''invalid_expiry'' 400
              [(''message'', JStr ''expires_in_days must be a whole number of days between 1 and 3650'')], db)
          | Some days \<Rightarrow>
            (let expires = map_option (\<lambda>d. toISOString (now + d * 24 * 60 * 60 * 1000)) days;
                 name = plain_string (field ''name''); token = randomToken tokbuf; i = newId ''opc'' idbuf
             in case createOperatorCredential db i name (sha256Hex sha256 token) (formatScopes scopes) actor expires now of
                  Inl e \<Rightarrow> ((if constraint_message e then err ''name_in_use'' 409
                      [(''message'', JStr (''a live credential named '' @ name @ '' already exists; revoke it before minting another''))]
                     else err ''mint_failed'' 503 []), db)
                | Inr db1 \<Rightarrow>
                    (json_reply (JObj [(''id'', JStr i), (''name'', JStr name), (''scopes'', JArr (map JStr scopes)),
                        (''expires_at'', jopt expires), (''token'', JStr token)]) 201 [no_store],
                     recordAdminAction db1 actor ''operator.mint'' (Some i)
                       (Some (JObj [(''name'', JStr name), (''scopes'', JArr (map JStr scopes)), (''expires_at'', jopt expires)]))
                       now)))))"

definition revoke_operator :: "op_db \<Rightarrow> int \<Rightarrow> string \<Rightarrow> string \<Rightarrow> reply \<times> op_db" where
  "revoke_operator db now actor i =
     (case revokeOperatorCredential db i actor (toISOString now) of (revoked, db1) \<Rightarrow>
        (let db2 = recordAdminAction db1 actor ''operator.revoke'' (Some i) (Some (JObj [(''revoked'', JBool revoked)])) now
         in if \<not> revoked then
              (err ''not_found'' 404 [(''message'', JStr ''no live credential with that id; it may already be revoked'')], db2)
            else (\<lparr>r_status = 204, r_headers = [], r_body = JNull\<rparr>, db2)))"

text \<open>
  An admin request: the gate, the stamp of the credential used, and the credential routes;
  \<^const>\<open>None\<close> when the request goes on to another route.
\<close>

definition operator_routes ::
  "(8 word list \<Rightarrow> 8 word list) \<Rightarrow> string option \<Rightarrow> 8 word list \<Rightarrow> 8 word list \<Rightarrow> int \<Rightarrow> headers \<Rightarrow> string \<Rightarrow> string
     \<Rightarrow> json option \<Rightarrow> op_db \<Rightarrow> reply option \<times> op_db" where
  "operator_routes sha256 rootSecret tokbuf idbuf now hs meth path body db =
     (let nowIso = toISOString now in
      case resolveOperator sha256 (bearerFrom hs) rootSecret db nowIso of
        None \<Rightarrow> (Some (err ''unauthorized'' 401 []), db)
      | Some p \<Rightarrow>
          (let db1 = (case pr_credential_id p of Some c \<Rightarrow> touchOperatorCredential db c nowIso | None \<Rightarrow> db)
           in case admin_gate sha256 rootSecret db nowIso hs meth path of
                Inl r \<Rightarrow> (Some r, db1)
              | Inr q \<Rightarrow>
                  if path = ''/api/admin/operators'' \<and> meth = ''GET'' then
                    (Some (json_reply (JObj [(''credentials'', JArr (map operatorView (listOperatorCredentials db1)))]) 200 [no_store]), db1)
                  else if path = ''/api/admin/operators'' \<and> meth = ''POST'' then
                    map_prod Some id (mint_operator sha256 tokbuf idbuf db1 now (pr_actor q) body)
                  else if meth = ''POST'' \<and> path_matches (admin_path [Lit ''operators'', IdSeg ''opc_'', Lit ''revoke'']) path then
                    map_prod Some id (revoke_operator db1 now (pr_actor q) (split_on (CHR ''/'') path ! 4))
                  else (None, db1)))"

section \<open>Lemmas\<close>

lemma is_ws_blank: "is_ws (CHR '' '')"
  by (simp add: is_ws_def)

lemma split_ws_word: "list_all (\<lambda>c. \<not> is_ws c) w \<Longrightarrow> split_ws w = [w]"
  by (subst split_ws.simps) (simp add: list_all_iff takeWhile_eq_all_conv dropWhile_eq_Nil_conv Let_def)

lemma split_ws_cons:
  assumes "list_all (\<lambda>c. \<not> is_ws c) w" "v \<noteq> []" "\<not> is_ws (hd v)"
  shows "split_ws (w @ '' '' @ v) = w # split_ws v"
proof -
  have t: "takeWhile (\<lambda>c. \<not> is_ws c) (w @ '' '' @ v) = w" "dropWhile (\<lambda>c. \<not> is_ws c) (w @ '' '' @ v) = '' '' @ v"
    using assms(1) by (simp_all add: list_all_iff is_ws_blank takeWhile_append2 dropWhile_append2)
  have d: "dropWhile is_ws ('' '' @ v) = v" using assms(2,3) by (cases v) (simp_all add: is_ws_blank)
  show ?thesis by (subst split_ws.simps) (simp only: t d Let_def, simp)
qed

lemma split_ws_join:
  assumes "ws \<noteq> []" "\<And>w. w \<in> set ws \<Longrightarrow> w \<noteq> [] \<and> list_all (\<lambda>c. \<not> is_ws c) w"
  shows "split_ws (join_with '' '' ws) = ws"
  using assms
proof (induction ws rule: induct_list012)
  case (2 w)
  then show ?case by (simp add: split_ws_word)
next
  case (3 w v ws)
  let ?j = "join_with '' '' (v # ws)"
  have v: "v \<noteq> []" "list_all (\<lambda>c. \<not> is_ws c) v" using 3(4) by simp_all
  have "?j \<noteq> []" "hd ?j = hd v" using v(1) by (cases ws; simp)+
  with v have "split_ws (w @ '' '' @ ?j) = w # split_ws ?j"
    using 3(4) by (intro split_ws_cons) (auto simp: list_all_iff)
  with 3 show ?case by simp
qed simp

lemma ALL_SCOPES_words: "w \<in> set ALL_SCOPES \<Longrightarrow> w \<noteq> [] \<and> list_all (\<lambda>c. \<not> is_ws c) w"
proof -
  have "list_all (\<lambda>w. w \<noteq> [] \<and> list_all (\<lambda>c. \<not> is_ws c) w) ALL_SCOPES" by code_simp
  then show "w \<in> set ALL_SCOPES \<Longrightarrow> w \<noteq> [] \<and> list_all (\<lambda>c. \<not> is_ws c) w" by (simp add: list_all_iff)
qed

lemma parse_format_scopes: "parseScopes (Some (formatScopes scopes)) = filter (\<lambda>s. s \<in> set scopes) ALL_SCOPES"
proof (cases "filter (\<lambda>s. s \<in> set scopes) ALL_SCOPES = []")
  case True
  have "split_ws [] = [[]]" by (subst split_ws.simps) simp
  moreover have "\<not> isKnownScope []" unfolding isKnownScope_def using ALL_SCOPES_words [of "[]"] by blast
  ultimately show ?thesis unfolding parseScopes_def formatScopes_def True by simp
next
  case False
  let ?ws = "filter (\<lambda>s. s \<in> set scopes) ALL_SCOPES"
  have "split_ws (join_with '' '' ?ws) = ?ws"
    using False ALL_SCOPES_words by (intro split_ws_join) auto
  moreover have "filter isKnownScope ?ws = ?ws" by (rule filter_True) (simp add: isKnownScope_def)
  ultimately show ?thesis unfolding parseScopes_def formatScopes_def by simp
qed

lemma parseScopes_known: "set (parseScopes v) \<subseteq> set ALL_SCOPES"
  by (auto simp: parseScopes_def isKnownScope_def)

text \<open>Two patterns no path matches both.\<close>

fun seg_apart :: "segment \<Rightarrow> segment \<Rightarrow> bool" where
  "seg_apart (Lit a) (Lit b) = (a \<noteq> b)"
| "seg_apart (Lit a) (IdSeg p) = (\<not> seg_matches (IdSeg p) a)"
| "seg_apart (IdSeg p) (Lit a) = (\<not> seg_matches (IdSeg p) a)"
| "seg_apart (Lit a) (OneOf ws) = (a \<notin> set ws)"
| "seg_apart (OneOf ws) (Lit a) = (a \<notin> set ws)"
| "seg_apart a b = False"

definition paths_apart :: "segment list \<Rightarrow> segment list \<Rightarrow> bool" where
  "paths_apart a b \<longleftrightarrow> length a \<noteq> length b \<or> list_ex (\<lambda>(x, y). seg_apart x y) (zip a b)"

lemma seg_apart_sound: "seg_apart a b \<Longrightarrow> seg_matches a s \<Longrightarrow> \<not> seg_matches b s"
  by (induction a b rule: seg_apart.induct) auto

lemma paths_apart_sound:
  assumes "paths_apart a b" "path_matches a path" shows "\<not> path_matches b path"
proof
  assume b: "path_matches b path"
  let ?s = "split_on (CHR ''/'') path"
  have len: "length a = length b"
    using assms(2) b by (simp add: path_matches_def list_all2_lengthD)
  then obtain i where i: "i < length a" "seg_apart (a ! i) (b ! i)"
    using assms(1) by (auto simp: paths_apart_def list_ex_iff set_zip)
  then have "seg_matches (a ! i) (?s ! i)" "seg_matches (b ! i) (?s ! i)"
    using assms(2) b len by (auto simp: path_matches_def list_all2_conv_all_nth)
  with i(2) seg_apart_sound show False by blast
qed

definition rows_apart :: "string \<times> segment list \<times> admin_requirement \<Rightarrow> string \<times> segment list \<times> admin_requirement \<Rightarrow> bool" where
  "rows_apart r q \<longleftrightarrow> fst r \<noteq> fst q \<or> paths_apart (fst (snd r)) (fst (snd q))"

lemma table_apart: "sorted_wrt rows_apart ADMIN_REQUIREMENTS"
  by code_simp

lemma filter_apart_le_1:
  assumes "sorted_wrt R xs" "\<And>x y. R x y \<Longrightarrow> P x \<Longrightarrow> \<not> P y"
  shows "length (filter P xs) \<le> 1"
  using assms(1)
proof (induction xs)
  case (Cons x xs)
  show ?case
  proof (cases "P x")
    case True
    with Cons.prems assms(2) have "filter P xs = []" by (auto simp: filter_empty_conv)
    then show ?thesis by simp
  qed (use Cons in simp)
qed simp

lemma rows_apart_sound:
  "rows_apart r q \<Longrightarrow> (case r of (m, pat, x) \<Rightarrow> m = meth \<and> path_matches pat path)
     \<Longrightarrow> \<not> (case q of (m, pat, x) \<Rightarrow> m = meth \<and> path_matches pat path)"
  by (cases r; cases q) (auto simp: rows_apart_def dest: paths_apart_sound)

text \<open>
  C39: the admin route table is well formed.  Every requirement names a scope of the catalogue, and no
  request matches two rows, so the order of the table never decides what a route requires.
\<close>

theorem admin_table_wellformed:
  "list_all (\<lambda>(m, pat, r). case r of Scope s \<Rightarrow> isKnownScope s | _ \<Rightarrow> True) ADMIN_REQUIREMENTS
   \<and> length (filter (\<lambda>(m, pat, r). m = meth \<and> path_matches pat path) ADMIN_REQUIREMENTS) \<le> 1"
proof
  show "list_all (\<lambda>(m, pat, r). case r of Scope s \<Rightarrow> isKnownScope s | _ \<Rightarrow> True) ADMIN_REQUIREMENTS" by code_simp
  show "length (filter (\<lambda>(m, pat, r). m = meth \<and> path_matches pat path) ADMIN_REQUIREMENTS) \<le> 1"
    by (rule filter_apart_le_1 [OF table_apart]) (rule rows_apart_sound)
qed

lemma filter_le_1_find:
  assumes "length (filter P xs) \<le> 1" "x \<in> set xs" "P x"
  shows "List.find P xs = Some x"
proof -
  have "x \<in> set (filter P xs)" using assms(2,3) by simp
  with assms(1) have f: "filter P xs = [x]" by (cases "filter P xs") auto
  have "List.find P xs = (case filter P xs of [] \<Rightarrow> None | y # _ \<Rightarrow> Some y)" by (induction xs) auto
  with f show ?thesis by simp
qed

lemma adminRequirement_row:
  assumes "(meth, pat, r) \<in> set ADMIN_REQUIREMENTS" "path_matches pat path"
  shows "adminRequirement meth path = Some r"
proof -
  have "length (filter (\<lambda>(m, pat, r). m = meth \<and> path_matches pat path) ADMIN_REQUIREMENTS) \<le> 1"
    by (rule filter_apart_le_1 [OF table_apart]) (rule rows_apart_sound)
  from filter_le_1_find [OF this assms(1)] assms(2) show ?thesis by (simp add: adminRequirement_def)
qed

lemma operators_root_only:
  "meth = ''GET'' \<or> meth = ''POST'' \<Longrightarrow> adminRequirement meth ''/api/admin/operators'' = Some RootOnly"
  "path_matches (admin_path [Lit ''operators'', IdSeg ''opc_'', Lit ''revoke'']) path \<Longrightarrow> adminRequirement ''POST'' path = Some RootOnly"
proof -
  have m: "path_matches (admin_path [Lit ''operators'']) ''/api/admin/operators''" by code_simp
  have r: "(''GET'', admin_path [Lit ''operators''], RootOnly) \<in> set ADMIN_REQUIREMENTS"
    "(''POST'', admin_path [Lit ''operators''], RootOnly) \<in> set ADMIN_REQUIREMENTS"
    "(''POST'', admin_path [Lit ''operators'', IdSeg ''opc_'', Lit ''revoke''], RootOnly) \<in> set ADMIN_REQUIREMENTS"
    by (simp_all add: ADMIN_REQUIREMENTS_def)
  show "adminRequirement meth ''/api/admin/operators'' = Some RootOnly" if "meth = ''GET'' \<or> meth = ''POST''"
    using that adminRequirement_row [OF r(1) m] adminRequirement_row [OF r(2) m] by auto
  show "adminRequirement ''POST'' path = Some RootOnly"
    if "path_matches (admin_path [Lit ''operators'', IdSeg ''opc_'', Lit ''revoke'']) path"
    by (rule adminRequirement_row [OF r(3) that])
qed

text \<open>
  An admin request that is let through was authorised.  Its bearer is the root secret, or a credential
  that is on the table, not revoked and not expired; the route is in the table; a root-only route has a
  root bearer; and a route with a scope has a bearer holding that scope, for a credential one of the
  scopes stored with it.
\<close>

theorem admin_gate_sound:
  assumes "admin_gate sha256 rootSecret db nowIso hs meth path = Inr p"
  shows "\<exists>tok r. bearerFrom hs = Some tok \<and> adminRequirement meth path = Some r
    \<and> (case r of Authenticated \<Rightarrow> True | RootOnly \<Rightarrow> pr_kind p = RootKind | Scope s \<Rightarrow> s \<in> set (pr_scopes p))
    \<and> (case pr_kind p of
         RootKind \<Rightarrow> \<exists>secret. rootSecret = Some secret \<and> constantTimeEqual sha256 tok secret
       | CredentialKind \<Rightarrow> \<exists>c \<in> set (op_credentials db). oc_token_sha256 c = sha256Hex sha256 tok
           \<and> \<not> truthy (oc_revoked_at c) \<and> \<not> isExpired c nowIso \<and> pr_actor p = operatorActor (oc_name c)
           \<and> set (pr_scopes p) \<subseteq> set ALL_SCOPES \<and> pr_scopes p = parseScopes (Some (oc_scopes c)))"
proof -
  from assms obtain r where p: "resolveOperator sha256 (bearerFrom hs) rootSecret db nowIso = Some p"
    and r: "adminRequirement meth path = Some r"
    and c: "case r of Authenticated \<Rightarrow> True | RootOnly \<Rightarrow> pr_kind p = RootKind | Scope s \<Rightarrow> s \<in> set (pr_scopes p)"
    by (auto simp: admin_gate_def hasScope_def split: option.splits if_splits admin_requirement.splits)
  obtain tok where tok: "bearerFrom hs = Some tok"
    using p by (auto simp: resolveOperator_def truthy_def split: if_splits)
  have "case pr_kind p of
         RootKind \<Rightarrow> \<exists>secret. rootSecret = Some secret \<and> constantTimeEqual sha256 tok secret
       | CredentialKind \<Rightarrow> \<exists>c \<in> set (op_credentials db). oc_token_sha256 c = sha256Hex sha256 tok
           \<and> \<not> truthy (oc_revoked_at c) \<and> \<not> isExpired c nowIso \<and> pr_actor p = operatorActor (oc_name c)
           \<and> set (pr_scopes p) \<subseteq> set ALL_SCOPES \<and> pr_scopes p = parseScopes (Some (oc_scopes c))"
    using p tok parseScopes_known
    by (auto simp: resolveOperator_def truthy_def Let_def getOperatorCredentialByHash_def
        split: if_splits option.splits dest!: find_SomeD)
  with tok r c show ?thesis by blast
qed

definition without_stamp :: "operator_credential \<Rightarrow> operator_credential" where
  "without_stamp c = c\<lparr>oc_last_used_at := None\<rparr>"

lemma touch_stamps_only:
  "map without_stamp (op_credentials (touchOperatorCredential db i now)) = map without_stamp (op_credentials db)"
  "op_audit (touchOperatorCredential db i now) = op_audit db"
  by (simp_all add: touchOperatorCredential_def map_update_where without_stamp_def)

text \<open>
  C8: a scoped credential can never make, change or revoke a credential.  Whatever admin request it
  authenticates, the credentials afterwards are the ones before it, up to the time of last use; so no
  chain of requests gives its holder more than the scopes it was minted with.
\<close>

theorem scoped_credential_cannot_escalate:
  assumes "resolveOperator sha256 (bearerFrom hs) rootSecret db (toISOString now) = Some p" "pr_kind p = CredentialKind"
  shows "map without_stamp (op_credentials (snd (operator_routes sha256 rootSecret tokbuf idbuf now hs meth path body db)))
    = map without_stamp (op_credentials db)"
proof -
  let ?db = "case pr_credential_id p of Some c \<Rightarrow> touchOperatorCredential db c (toISOString now) | None \<Rightarrow> db"
  have db: "map without_stamp (op_credentials ?db) = map without_stamp (op_credentials db)"
    by (simp add: touch_stamps_only split: option.splits)
  have refused: "\<exists>r. admin_gate sha256 rootSecret db (toISOString now) hs meth path = Inl r"
    if "adminRequirement meth path = Some RootOnly"
    using that assms by (simp add: admin_gate_def)
  show ?thesis
  proof (cases "admin_gate sha256 rootSecret db (toISOString now) hs meth path")
    case (Inl r)
    then show ?thesis using assms(1) db by (simp add: operator_routes_def Let_def)
  next
    case (Inr q)
    then have nr: "adminRequirement meth path \<noteq> Some RootOnly" using refused by fastforce
    have "\<not> (path = ''/api/admin/operators'' \<and> meth = ''GET'')" "\<not> (path = ''/api/admin/operators'' \<and> meth = ''POST'')"
      "\<not> (meth = ''POST'' \<and> path_matches (admin_path [Lit ''operators'', IdSeg ''opc_'', Lit ''revoke'']) path)"
      using nr operators_root_only by blast+
    then show ?thesis using assms(1) Inr db
      by (simp only: operator_routes_def Let_def option.case sum.case if_False snd_conv)
  qed
qed

record admin_request =
  rq_tokbuf :: "8 word list"
  rq_idbuf :: "8 word list"
  rq_now :: int
  rq_headers :: headers
  rq_method :: string
  rq_path :: string
  rq_body :: "json option"

definition serve_admin :: "(8 word list \<Rightarrow> 8 word list) \<Rightarrow> string option \<Rightarrow> op_db \<Rightarrow> admin_request \<Rightarrow> op_db" where
  "serve_admin sha256 rootSecret db rq =
     snd (operator_routes sha256 rootSecret (rq_tokbuf rq) (rq_idbuf rq) (rq_now rq) (rq_headers rq)
       (rq_method rq) (rq_path rq) (rq_body rq) db)"

text \<open>What every admin request keeps: the hashes stay unique and a revoked credential stays revoked.\<close>

definition hashes_ok :: "op_db \<Rightarrow> bool" where
  "hashes_ok db \<longleftrightarrow> distinct (map oc_token_sha256 (op_credentials db))"

definition revoked_row :: "op_db \<Rightarrow> string \<Rightarrow> bool" where
  "revoked_row db h \<longleftrightarrow> (\<exists>c \<in> set (op_credentials db). oc_token_sha256 c = h \<and> truthy (oc_revoked_at c))"

lemma touch_keeps:
  "hashes_ok db \<Longrightarrow> hashes_ok (touchOperatorCredential db i now)"
  "revoked_row db h \<Longrightarrow> revoked_row (touchOperatorCredential db i now) h"
  by (simp_all add: hashes_ok_def revoked_row_def touchOperatorCredential_def map_update_where bex_update_where)

lemma audit_keeps [simp]:
  "hashes_ok (recordAdminAction db a b c d now) = hashes_ok db"
  "revoked_row (recordAdminAction db a b c d now) h = revoked_row db h"
  by (simp_all add: hashes_ok_def revoked_row_def recordAdminAction_def)

lemma create_keeps:
  assumes "createOperatorCredential db i name hash scopes who expires now = Inr db'"
  shows "hashes_ok db \<Longrightarrow> hashes_ok db'" "revoked_row db h \<Longrightarrow> revoked_row db' h"
  using assms by (auto simp: createOperatorCredential_def hashes_ok_def revoked_row_def split: if_splits)

lemma revoke_keeps:
  "hashes_ok db \<Longrightarrow> hashes_ok (snd (revokeOperatorCredential db i who now))"
  "revoked_row db h \<Longrightarrow> revoked_row (snd (revokeOperatorCredential db i who now)) h"
proof -
  show "hashes_ok (snd (revokeOperatorCredential db i who now))" if "hashes_ok db"
    using that by (simp add: hashes_ok_def revokeOperatorCredential_def map_update_where Let_def)
  show "revoked_row (snd (revokeOperatorCredential db i who now)) h" if "revoked_row db h"
    using that unfolding revoked_row_def revokeOperatorCredential_def Let_def
    by (simp, intro bex_update_where) (auto simp: truthy_def)
qed

lemma mint_keeps:
  "hashes_ok db \<Longrightarrow> hashes_ok (snd (mint_operator sha256 tokbuf idbuf db now actor body))"
  "revoked_row db h \<Longrightarrow> revoked_row (snd (mint_operator sha256 tokbuf idbuf db now actor body)) h"
  by (auto simp: mint_operator_def Let_def create_keeps split: sum.splits option.splits)

lemma revoke_route_keeps:
  "hashes_ok db \<Longrightarrow> hashes_ok (snd (revoke_operator db now actor i))"
  "revoked_row db h \<Longrightarrow> revoked_row (snd (revoke_operator db now actor i)) h"
  using revoke_keeps(1) [of db i actor "toISOString now"] revoke_keeps(2) [of db h i actor "toISOString now"]
  by (auto simp: revoke_operator_def Let_def split: prod.splits)

lemma serve_admin_keeps:
  assumes "P db" "\<And>d c t. P d \<Longrightarrow> P (touchOperatorCredential d c t)"
    and "\<And>d tb ib t a b. P d \<Longrightarrow> P (snd (mint_operator sha256 tb ib d t a b))"
    and "\<And>d t a i. P d \<Longrightarrow> P (snd (revoke_operator d t a i))"
  shows "P (serve_admin sha256 rootSecret db rq)"
  using assms by (auto simp: serve_admin_def operator_routes_def Let_def split: option.splits sum.splits)

lemma serve_all_keeps:
  "hashes_ok db \<Longrightarrow> hashes_ok (foldl (serve_admin sha256 rootSecret) db rqs)"
  "revoked_row db h \<Longrightarrow> revoked_row (foldl (serve_admin sha256 rootSecret) db rqs) h"
proof -
  have "hashes_ok (serve_admin sha256 rootSecret db rq)" if "hashes_ok db" for db rq
    using that touch_keeps(1) mint_keeps(1) revoke_route_keeps(1) by (rule serve_admin_keeps)
  then show "hashes_ok db \<Longrightarrow> hashes_ok (foldl (serve_admin sha256 rootSecret) db rqs)"
    by (induction rqs arbitrary: db) simp_all
  have "revoked_row (serve_admin sha256 rootSecret db rq) h" if "revoked_row db h" for db rq
    using that touch_keeps(2) mint_keeps(2) revoke_route_keeps(2)
    by (rule serve_admin_keeps [where P = "\<lambda>d. revoked_row d h"])
  then show "revoked_row db h \<Longrightarrow> revoked_row (foldl (serve_admin sha256 rootSecret) db rqs) h"
    by (induction rqs arbitrary: db) simp_all
qed

lemma revoked_not_resolved:
  assumes "hashes_ok db" "revoked_row db (sha256Hex sha256 tok)"
    and "resolveOperator sha256 (Some tok) rootSecret db nowIso = Some p"
  shows "pr_kind p = RootKind"
proof -
  obtain c where c: "c \<in> set (op_credentials db)" "oc_token_sha256 c = sha256Hex sha256 tok" "truthy (oc_revoked_at c)"
    using assms(2) by (auto simp: revoked_row_def)
  then have "getOperatorCredentialByHash db (sha256Hex sha256 tok) = Some c"
    using assms(1) unfolding getOperatorCredentialByHash_def
    by (intro find_unique) (auto simp: hashes_ok_def dest: distinct_map_eq)
  with c(3) assms(3) show ?thesis by (auto simp: resolveOperator_def Let_def split: if_splits)
qed

text \<open>
  Revocation is final.  Once a credential is revoked, no sequence of admin requests, by anybody, with
  any credentials minted in between, makes its token authenticate as a credential again.
\<close>

theorem revocation_final:
  assumes "hashes_ok db" "fst (revokeOperatorCredential db i who nowIso)" "nowIso \<noteq> []"
  shows "\<exists>c \<in> set (op_credentials db). oc_id c = i \<and> (\<forall>tok rqs t p. oc_token_sha256 c = sha256Hex sha256 tok \<longrightarrow>
     resolveOperator sha256 (Some tok) rootSecret
       (foldl (serve_admin sha256 rootSecret) (snd (revokeOperatorCredential db i who nowIso)) rqs) t = Some p
     \<longrightarrow> pr_kind p = RootKind)"
proof -
  let ?db = "snd (revokeOperatorCredential db i who nowIso)"
  obtain c where c: "c \<in> set (op_credentials db)" "oc_id c = i \<and> oc_revoked_at c = None"
    using assms(2) changes_0_iff [of "\<lambda>c. oc_id c = i \<and> oc_revoked_at c = None" "op_credentials db"]
    by (auto simp: revokeOperatorCredential_def Let_def)
  let ?c = "c\<lparr>oc_revoked_at := Some nowIso, oc_revoked_by := Some who\<rparr>"
  have "?c \<in> set (op_credentials ?db)"
    unfolding revokeOperatorCredential_def Let_def
    using in_update_whereI2 [of c "op_credentials db" "\<lambda>c. oc_id c = i \<and> oc_revoked_at c = None"
        "\<lambda>c. c\<lparr>oc_revoked_at := Some nowIso, oc_revoked_by := Some who\<rparr>"] c by simp
  then have "revoked_row ?db (oc_token_sha256 c)"
    using assms(3) unfolding revoked_row_def by (intro bexI [of _ ?c]) (simp_all add: truthy_def)
  moreover have "hashes_ok ?db" using assms(1) by (rule revoke_keeps)
  ultimately show ?thesis
    using c by (intro bexI [OF _ c(1)]) (auto intro: revoked_not_resolved [OF serve_all_keeps])
qed

text \<open>
  A minted credential is what was asked for.  When the root bearer's mint answers 201, the token in
  the answer authenticates, until it expires or is revoked, as the named operator with exactly the
  requested scopes, each a catalogue scope, in catalogue order.
\<close>

theorem minted_credential_resolves:
  assumes "mint_operator sha256 tokbuf idbuf db now actor body = (reply, db')" "r_status reply = 201"
    and "tokbuf \<noteq> []" "\<not> isExpired (last (op_credentials db')) nowIso"
  shows "\<exists>name vs p. jget (the body) ''name'' = Some (JStr name) \<and> jget (the body) ''scopes'' = Some (JArr vs)
     \<and> resolveOperator sha256 (Some (randomToken tokbuf)) rootSecret db' nowIso = Some p
     \<and> pr_kind p = CredentialKind \<and> pr_operator p = Some name
     \<and> map JStr (pr_scopes p) = filter (\<lambda>v. v \<in> set vs) (map JStr ALL_SCOPES) \<and> set vs \<subseteq> JStr ` set (pr_scopes p)"
proof -
  let ?field = "\<lambda>k. Option.bind body (\<lambda>b. jget b k)"
  have n: "isValidOperatorName (?field ''name'')"
    using assms(1,2) by (auto simp: mint_operator_def err_def json_reply_def split: if_splits)
  then obtain name where name: "?field ''name'' = Some (JStr name)"
    by (auto simp: isValidOperatorName_def split: option.splits json.splits)
  obtain scopes where sc: "canonicaliseScopes (?field ''scopes'') = Inr scopes"
    using assms(1,2) n by (auto simp: mint_operator_def err_def json_reply_def split: sum.splits)
  then obtain vs where vs: "?field ''scopes'' = Some (JArr vs)" "scopes = filter (\<lambda>s. JStr s \<in> set vs) ALL_SCOPES"
    and known: "\<And>v. v \<in> set vs \<Longrightarrow> \<exists>s. v = JStr s \<and> isKnownScope s"
    by (auto simp: canonicaliseScopes_def Let_def filter_empty_conv split: option.splits json.splits if_splits)
  obtain days where days: "expiry_days (?field ''expires_in_days'') = Some days"
    using assms(1,2) n sc by (auto simp: mint_operator_def err_def json_reply_def split: option.splits)
  define expires where "expires = map_option (\<lambda>d. toISOString (now + d * 24 * 60 * 60 * 1000)) days"
  obtain d1 where d1: "createOperatorCredential db (newId ''opc'' idbuf) name (sha256Hex sha256 (randomToken tokbuf))
      (formatScopes scopes) actor expires now = Inr d1" and db': "op_credentials db' = op_credentials d1"
    using assms(1,2) n sc days name
    by (auto simp: mint_operator_def Let_def err_def json_reply_def plain_string_def expires_def recordAdminAction_def
        split: sum.splits if_splits)
  define c where "c = last (op_credentials db')"
  have new: "op_credentials db' = op_credentials db @ [c]" "oc_token_sha256 c = sha256Hex sha256 (randomToken tokbuf)"
    "oc_name c = name" "oc_revoked_at c = None" "oc_scopes c = formatScopes scopes"
    "sha256Hex sha256 (randomToken tokbuf) \<notin> set (map oc_token_sha256 (op_credentials db))"
    using d1 unfolding c_def db' by (auto simp: createOperatorCredential_def split: if_splits)
  have "getOperatorCredentialByHash db' (sha256Hex sha256 (randomToken tokbuf)) = Some c"
    unfolding getOperatorCredentialByHash_def new(1)
  proof (rule find_unique)
    show "d = c" if "d \<in> set (op_credentials db @ [c])" "oc_token_sha256 d = sha256Hex sha256 (randomToken tokbuf)" for d
      using that new(6) by (auto simp: image_iff)
  qed (simp_all add: new(2))
  moreover have "randomToken tokbuf \<noteq> []"
    using assms(3) by (cases tokbuf) (simp_all add: randomToken_def hex_bytes_def hex_byte_def)
  moreover have "parseScopes (Some (oc_scopes c)) = scopes"
    unfolding new(5) parse_format_scopes vs(2) by (simp add: filter_id_conv cong: filter_cong)
  ultimately have r: "resolveOperator sha256 (Some (randomToken tokbuf)) rootSecret db' nowIso =
      Some \<lparr>pr_kind = CredentialKind, pr_actor = operatorActor name, pr_operator = Some name,
        pr_credential_id = Some (oc_id c), pr_scopes = scopes\<rparr>"
    using new(3,4) assms(4) by (simp add: resolveOperator_def truthy_def c_def [symmetric])
  have "map JStr scopes = filter (\<lambda>v. v \<in> set vs) (map JStr ALL_SCOPES)"
    unfolding vs(2) by (simp add: filter_map comp_def)
  moreover have "set vs \<subseteq> JStr ` set scopes" using known by (fastforce simp: vs(2) isKnownScope_def)
  ultimately show ?thesis
    using r name vs(1) by (cases body) auto
qed

section \<open>Examples\<close>

definition ex_credential :: operator_credential where
  "ex_credential = \<lparr>oc_id = ''opc_1'', oc_name = ''ada'', oc_token_sha256 = sha256Hex id ''tok'', oc_scopes = ''tenants:read'',
     oc_created_at = ''2026-07-01 00:00:00'', oc_created_by = ''admin-token'', oc_last_used_at = None,
     oc_expires_at = None, oc_revoked_at = None, oc_revoked_by = None\<rparr>"

definition ex_opdb :: op_db where
  "ex_opdb = \<lparr>op_credentials = [ex_credential], op_audit = []\<rparr>"

definition ex_bearer :: "string \<Rightarrow> headers" where
  "ex_bearer tok = [(''authorization'', ''Bearer '' @ tok)]"

definition ex_mint_body :: json where
  "ex_mint_body = JObj [(''name'', JStr ''bob''), (''scopes'', JArr [JStr ''keys:rotate'', JStr ''tenants:read''])]"

theorem admin_gate_sound_witness:
  "\<exists>c \<in> set (op_credentials ex_opdb). oc_token_sha256 c = sha256Hex id ''tok'' \<and> \<not> truthy (oc_revoked_at c)"
proof -
  have "map_sum id pr_kind (admin_gate id (Some ''root'') ex_opdb [] (ex_bearer ''tok'') ''GET'' ''/api/admin/tenants'') = Inr CredentialKind"
    "bearerFrom (ex_bearer ''tok'') = Some ''tok''"
    by code_simp+
  then obtain p where p: "admin_gate id (Some ''root'') ex_opdb [] (ex_bearer ''tok'') ''GET'' ''/api/admin/tenants'' = Inr p"
    "pr_kind p = CredentialKind" "bearerFrom (ex_bearer ''tok'') = Some ''tok''"
    by (cases "admin_gate id (Some ''root'') ex_opdb [] (ex_bearer ''tok'') ''GET'' ''/api/admin/tenants''") auto
  from admin_gate_sound [OF p(1)] p(2,3) show ?thesis by auto
qed

theorem scoped_credential_cannot_escalate_witness:
  "map without_stamp (op_credentials (snd (operator_routes id (Some ''root'') [1] [2] 0 (ex_bearer ''tok'') ''POST''
      ''/api/admin/operators'' (Some ex_mint_body) ex_opdb))) = map without_stamp (op_credentials ex_opdb)"
proof -
  have "map_option pr_kind (resolveOperator id (bearerFrom (ex_bearer ''tok'')) (Some ''root'') ex_opdb (toISOString 0)) = Some CredentialKind"
    by code_simp
  then obtain p where "resolveOperator id (bearerFrom (ex_bearer ''tok'')) (Some ''root'') ex_opdb (toISOString 0) = Some p"
    "pr_kind p = CredentialKind" by auto
  then show ?thesis by (rule scoped_credential_cannot_escalate)
qed

theorem revocation_final_witness:
  "map_option pr_kind (resolveOperator id (Some ''tok'') None
     (foldl (serve_admin id None) (snd (revokeOperatorCredential ex_opdb ''opc_1'' ''admin-token'' ''t'')) []) ''t'')
   \<noteq> Some CredentialKind"
proof -
  have pre: "hashes_ok ex_opdb" "fst (revokeOperatorCredential ex_opdb ''opc_1'' ''admin-token'' ''t'')"
    by (simp_all add: hashes_ok_def ex_opdb_def ex_credential_def revokeOperatorCredential_def)
  have c: "oc_token_sha256 c = sha256Hex id ''tok''" if "c \<in> set (op_credentials ex_opdb)" for c
    using that by (simp add: ex_opdb_def ex_credential_def)
  have "pr_kind p = RootKind" if "resolveOperator id (Some ''tok'') None
     (foldl (serve_admin id None) (snd (revokeOperatorCredential ex_opdb ''opc_1'' ''admin-token'' ''t'')) []) ''t'' = Some p" for p
    using revocation_final [OF pre, of id None] c that by (simp only: list.simps not_False_eq_True) blast
  then show ?thesis by auto
qed

theorem minted_credential_resolves_witness:
  "\<exists>p. resolveOperator id (Some (randomToken [1])) None (snd (mint_operator id [1] [2] ex_opdb 0 ''admin-token'' (Some ex_mint_body))) [] = Some p
     \<and> map JStr (pr_scopes p) = [JStr ''tenants:read'', JStr ''keys:rotate'']"
proof -
  let ?m = "mint_operator id [1] [2] ex_opdb 0 ''admin-token'' (Some ex_mint_body)"
  have v: "isValidOperatorName (Some (JStr ''bob''))" by code_simp
  have c: "canonicaliseScopes (Some (JArr [JStr ''keys:rotate'', JStr ''tenants:read''])) = Inr [''tenants:read'', ''keys:rotate'']"
    by code_simp
  have h: "sha256Hex id (randomToken [1]) \<noteq> sha256Hex id ''tok''" "newId ''opc'' [2] \<noteq> ''opc_1''" by code_simp+
  have s: "r_status (fst ?m) = 201" and e: "oc_expires_at (last (op_credentials (snd ?m))) = None"
    using h by (simp_all add: mint_operator_def ex_mint_body_def jget_def v c expiry_days_def createOperatorCredential_def
        ex_opdb_def ex_credential_def plain_string_def json_reply_def recordAdminAction_def Let_def)
  have f: "filter (\<lambda>v. v \<in> set [JStr ''keys:rotate'', JStr ''tenants:read'']) (map JStr ALL_SCOPES)
      = [JStr ''tenants:read'', JStr ''keys:rotate'']" by code_simp
  have "\<not> isExpired (last (op_credentials (snd ?m))) []" using e by (simp add: isExpired_def truthy_def)
  from minted_credential_resolves [OF surjective_pairing s _ this, of None] f show ?thesis
    by (auto simp: ex_mint_body_def jget_def)
qed

end
