(* ===== verification/Base64.thy ===== *)
theory Base64
  imports Http
begin

text \<open>
  \<^verbatim>\<open>atob\<close>, the forgiving base64 decoder of the runtime, \<^verbatim>\<open>TextDecoder\<close> on the characters of this
  model, and the form encoding of \<^verbatim>\<open>URLSearchParams\<close>.  The encoders are in theory Http.
\<close>

section \<open>Decoding base64\<close>

definition b64_value :: "char \<Rightarrow> nat option" where
  "b64_value c =
     (let n = (of_char c :: nat) in
      if is_upper_alpha c then Some (n - 65) else if is_lower_alpha c then Some (n - 71)
      else if is_digit c then Some (n + 4) else if c = CHR ''+'' then Some 62
      else if c = CHR ''/'' then Some 63 else None)"

fun unsextets :: "nat list \<Rightarrow> 8 word list" where
  "unsextets (a # b # c # d # r) =
     of_nat (a * 4 + b div 16) # of_nat (b mod 16 * 16 + c div 4) # of_nat (c mod 4 * 64 + d) # unsextets r"
| "unsextets [a, b, c] = [of_nat (a * 4 + b div 16), of_nat (b mod 16 * 16 + c div 4)]"
| "unsextets [a, b] = [of_nat (a * 4 + b div 16)]"
| "unsextets r = []"

definition strip_padding :: "string \<Rightarrow> string" where
  "strip_padding s =
     (if length s mod 4 = 0 then
        (if ends_with s ''=='' then take (length s - 2) s
         else if ends_with s ''='' then take (length s - 1) s else s)
      else s)"

text \<open>ASCII white space is ignored; \<^const>\<open>None\<close> is the exception thrown on anything malformed.\<close>

definition atob_bytes :: "string \<Rightarrow> 8 word list option" where
  "atob_bytes s0 =
     (let s = strip_padding (filter (\<lambda>c. c \<notin> {CHR 0x09, CHR 0x0A, CHR 0x0C, CHR 0x0D, CHR '' ''}) s0)
      in if length s mod 4 = 1 \<or> list_ex (\<lambda>c. b64_value c = None) s then None
         else Some (unsextets (map (\<lambda>c. the (b64_value c)) s)))"

definition atob :: "string \<Rightarrow> string option" where
  "atob s = map_option (map (\<lambda>b. char_of (unat b))) (atob_bytes s)"

section \<open>UTF-8 and forms\<close>

text \<open>A byte sequence that encodes no character of this model decodes to the substitute character.\<close>

fun utf8_decode :: "8 word list \<Rightarrow> string" where
  "utf8_decode [] = []"
| "utf8_decode [a] = [if unat a < 128 then char_of (unat a) else CHR 0x1A]"
| "utf8_decode (a # b # bs) =
     (if unat a < 128 then char_of (unat a) # utf8_decode (b # bs)
      else if (unat a = 194 \<or> unat a = 195) \<and> 128 \<le> unat b \<and> unat b < 192
      then char_of ((unat a - 192) * 64 + (unat b - 128)) # utf8_decode bs
      else CHR 0x1A # utf8_decode (b # bs))"

definition form_char :: "char \<Rightarrow> string" where
  "form_char c =
     (if is_alnum c \<or> c \<in> set ''*-._'' then [c] else if c = CHR '' '' then ''+''
      else concat (map (\<lambda>b. CHR ''%'' # upper_hex b) (utf8_char c)))"

definition form_encode :: "(string \<times> string) list \<Rightarrow> string" where
  "form_encode kvs =
     join_with ''&'' (map (\<lambda>(k, v). concat (map form_char k) @ ''='' @ concat (map form_char v)) kvs)"

section \<open>Round trips\<close>

fun sextets :: "8 word list \<Rightarrow> nat list" where
  "sextets [] = []"
| "sextets [a] = [unat a div 4, unat a mod 4 * 16]"
| "sextets [a, b] = [unat a div 4, unat a mod 4 * 16 + unat b div 16, unat b mod 16 * 4]"
| "sextets (a # b # c # bs) =
     [unat a div 4, unat a mod 4 * 16 + unat b div 16, unat b mod 16 * 4 + unat c div 64, unat c mod 64] @ sextets bs"

fun padding :: "8 word list \<Rightarrow> string" where
  "padding [] = []"
| "padding [a] = ''==''"
| "padding [a, b] = ''=''"
| "padding (a # b # c # bs) = padding bs"

lemma b64_bytes_sextets: "b64_bytes bs = map b64_digit (sextets bs) @ padding bs"
  by (induction bs rule: b64_bytes.induct) simp_all

lemma unat_byte: "unat (b :: 8 word) < 256"
  using unsigned_less [of b, where ?'a = nat] by simp

lemma sextets_bound: "n \<in> set (sextets bs) \<Longrightarrow> n < 64"
proof (induction bs rule: sextets.induct)
  case (2 a)
  then show ?case using unat_byte [of a] by auto
next
  case (3 a b)
  then show ?case using unat_byte [of a] unat_byte [of b] by auto
next
  case (4 a b c bs)
  then show ?case using unat_byte [of a] unat_byte [of b] unat_byte [of c] by auto
qed simp

lemma b64_value_digit: "n < 64 \<Longrightarrow> b64_value (b64_digit n) = Some n"
  by (auto simp: b64_value_def b64_digit_def is_upper_alpha_def is_lower_alpha_def is_digit_def Let_def)

lemma of_nat_unat_byte: "n = unat (b :: 8 word) \<Longrightarrow> of_nat n = b"
  by simp

lemma unsextets_sextets: "unsextets (sextets bs) = bs"
proof (induction bs rule: sextets.induct)
  case (2 a)
  have "unat a div 4 * 4 + unat a mod 4 * 16 div 16 = unat a" by simp
  then have "of_nat (unat a div 4 * 4 + unat a mod 4 * 16 div 16) = a" by (simp only: of_nat_unat_byte)
  then show ?case by (simp only: sextets.simps unsextets.simps)
next
  case (3 a b)
  have "unat b div 16 < 16" using unat_byte [of b] by linarith
  then have "unat a div 4 * 4 + (unat a mod 4 * 16 + unat b div 16) div 16 = unat a"
    "(unat a mod 4 * 16 + unat b div 16) mod 16 * 16 + unat b mod 16 * 4 div 4 = unat b"
    by simp_all
  then show ?case by (simp add: of_nat_unat_byte)
next
  case (4 a b c bs)
  have lt: "unat b div 16 < 16" "unat c div 64 < 4" using unat_byte [of b] unat_byte [of c] by linarith+
  have "unat a div 4 * 4 + (unat a mod 4 * 16 + unat b div 16) div 16 = unat a"
    "(unat a mod 4 * 16 + unat b div 16) mod 16 * 16 + (unat b mod 16 * 4 + unat c div 64) div 4 = unat b"
    "(unat b mod 16 * 4 + unat c div 64) mod 4 * 64 + unat c mod 64 = unat c"
    using lt by simp_all
  then show ?case using "4.IH" by (simp add: of_nat_unat_byte)
qed simp

lemma length_sextets:
  "padding bs = [] \<Longrightarrow> length (sextets bs) mod 4 = 0"
  "padding bs = ''='' \<Longrightarrow> length (sextets bs) mod 4 = 3"
  "padding bs = ''=='' \<Longrightarrow> length (sextets bs) mod 4 = 2"
  by (induction bs rule: sextets.induct) auto

lemma padding_cases: "padding bs = [] \<or> padding bs = ''='' \<or> padding bs = ''==''"
  by (induction bs rule: padding.induct) auto

lemma b64_digit_plain:
  assumes "n < 64"
  shows "b64_digit n \<noteq> CHR ''=''" "b64_digit n \<notin> {CHR 0x09, CHR 0x0A, CHR 0x0C, CHR 0x0D, CHR '' ''}"
proof -
  have "b64_value (b64_digit n) \<noteq> None" using b64_value_digit [OF assms] by simp
  moreover have "b64_value (CHR ''='') = None" "b64_value (CHR 0x09) = None" "b64_value (CHR 0x0A) = None"
    "b64_value (CHR 0x0C) = None" "b64_value (CHR 0x0D) = None" "b64_value (CHR '' '') = None"
    by code_simp+
  ultimately show "b64_digit n \<noteq> CHR ''=''" "b64_digit n \<notin> {CHR 0x09, CHR 0x0A, CHR 0x0C, CHR 0x0D, CHR '' ''}"
    by auto
qed

lemma ends_with_snoc: "ends_with (s @ [c]) [d] \<longleftrightarrow> c = d"
  by (auto simp: ends_with_iff)

lemma strip_padding_b64:
  fixes bs :: "8 word list"
  defines "ds \<equiv> map b64_digit (sextets bs)"
  shows "strip_padding (ds @ padding bs) = ds"
proof -
  have last: "\<not> ends_with ds ''=''" "\<not> ends_with (ds @ ''='') ''==''"
  proof -
    have no: "CHR ''='' \<notin> set ds" using b64_digit_plain(1) sextets_bound by (fastforce simp: ds_def)
    then show "\<not> ends_with ds ''=''" by (auto simp: ends_with_iff)
    show "\<not> ends_with (ds @ ''='') ''==''"
    proof
      assume "ends_with (ds @ ''='') ''==''"
      then obtain t where "ds @ [CHR ''=''] = (t @ [CHR ''='']) @ [CHR ''='']" by (auto simp: ends_with_iff)
      then have "ds = t @ [CHR ''='']" by (simp only: append1_eq_conv)
      with no show False by simp
    qed
  qed
  have last2: "\<not> ends_with ds ''==''"
    using last(1) by (auto simp: ends_with_iff)
  consider "padding bs = []" | "padding bs = ''=''" | "padding bs = ''==''" using padding_cases by blast
  then show ?thesis
  proof cases
    case 1
    with last(1) last2 show ?thesis by (simp add: strip_padding_def)
  next
    case 2
    then have "length (sextets bs) mod 4 = 3" by (rule length_sextets)
    then have "length (ds @ ''='') mod 4 = 0" by (simp add: ds_def mod_Suc)
    with 2 last(2) show ?thesis by (simp add: strip_padding_def ends_with_snoc)
  next
    case 3
    then have "length (sextets bs) mod 4 = 2" by (rule length_sextets)
    then have "length (ds @ ''=='') mod 4 = 0" by (simp add: ds_def mod_Suc)
    moreover have "ends_with (ds @ ''=='') ''==''" by (auto simp: ends_with_iff)
    ultimately show ?thesis using 3 by (simp add: strip_padding_def)
  qed
qed

theorem atob_b64_bytes: "atob_bytes (b64_bytes bs) = Some bs"
proof -
  let ?ws = "{CHR 0x09, CHR 0x0A, CHR 0x0C, CHR 0x0D, CHR '' ''}"
  let ?ds = "map b64_digit (sextets bs)"
  have val: "b64_value (b64_digit n) = Some n" if "n \<in> set (sextets bs)" for n
    using that sextets_bound b64_value_digit by blast
  have "filter (\<lambda>c. c \<notin> ?ws) (b64_bytes bs) = b64_bytes bs"
    unfolding b64_bytes_sextets filter_append
    using sextets_bound b64_digit_plain(2) padding_cases [of bs]
    by (intro arg_cong2 [where f = "(@)"] filter_True) auto
  then have s: "strip_padding (filter (\<lambda>c. c \<notin> ?ws) (b64_bytes bs)) = ?ds"
    unfolding b64_bytes_sextets by (simp only: strip_padding_b64)
  have "length ?ds mod 4 \<noteq> 1" using padding_cases [of bs] length_sextets [of bs] by auto
  moreover have "\<not> list_ex (\<lambda>c. b64_value c = None) ?ds" using val by (auto simp: list_ex_iff)
  moreover have "map (\<lambda>c. the (b64_value c)) ?ds = sextets bs" using val by (simp add: map_idI)
  ultimately show ?thesis unfolding atob_bytes_def Let_def s by (simp add: unsextets_sextets)
qed

lemma unat_small: "n < 256 \<Longrightarrow> unat (of_nat n :: 8 word) = n"
  by (simp add: unsigned_of_nat take_bit_nat_def)

lemma utf8_decode_char: "utf8_decode (utf8_char c @ bs) = c # utf8_decode bs"
proof -
  let ?n = "of_char c :: nat"
  have n: "?n < 256" using mod_less_divisor [of 256 ?n] by (simp only: of_char_mod_256)
  show ?thesis
  proof (cases "?n < 128")
    case True
    then have "unat (of_nat ?n :: 8 word) = ?n" by (intro unat_small) simp
    then have "utf8_decode (of_nat ?n # bs) = c # utf8_decode bs" using True by (cases bs) simp_all
    with True show ?thesis by (simp add: utf8_char_def)
  next
    case False
    define h where "h = ?n div 64"
    define l where "l = ?n mod 64"
    have hl: "l < 64" "h * 64 + l = ?n" by (simp_all add: h_def l_def)
    then have h: "h = 2 \<or> h = 3" using False n by linarith
    have "unat (of_nat (192 + h) :: 8 word) = 192 + h" "unat (of_nat (128 + l) :: 8 word) = 128 + l"
      using h hl(1) by (intro unat_small; linarith)+
    moreover have "char_of (h * 64 + l) = c" using hl(2) by simp
    ultimately have "utf8_decode (of_nat (192 + h) # of_nat (128 + l) # bs) = c # utf8_decode bs"
      using h hl by auto
    moreover have "utf8_char c = [of_nat (192 + h), of_nat (128 + l)]"
      using False by (simp add: utf8_char_def h_def l_def Let_def)
    ultimately show ?thesis by (simp only: append.simps)
  qed
qed

lemma utf8_decode_utf8: "utf8_decode (utf8 s) = s"
  unfolding utf8_def by (induction s) (simp_all add: utf8_decode_char)

end
