(* ===== verification/KekRotation.thy ===== *)
theory KekRotation
  imports Base64 TenantStore
begin

text \<open>
  The encryption of studio tokens at rest (\<^verbatim>\<open>src/src/token-crypto.ts\<close>) and the rotation of the key
  that protects them (\<^verbatim>\<open>src/src/kek-rotation.ts\<close>), with the two store methods the rotation uses.
  AES-GCM is a pair of functions \<open>enc\<close> and \<open>dec\<close> of key, nonce and text, \<^const>\<open>None\<close> being a failed
  authentication tag; nonces come from an argument.
\<close>

section \<open>The key ring\<close>

datatype kek_slot = PrimarySlot | NextSlot

record kek_ring =
  k_primary :: string
  k_next :: "string option"
  k_slot :: kek_slot

definition kekRing :: "string \<Rightarrow> string option \<Rightarrow> string option \<Rightarrow> kek_ring" where
  "kekRing primary next slot =
     \<lparr>k_primary = js_trim primary,
      k_next = (let n = trim_or_empty next in if n = [] then None else Some n),
      k_slot = (if trim_or_empty slot = ''next'' then NextSlot else PrimarySlot)\<rparr>"

definition rotationWindowOpen :: "kek_ring \<Rightarrow> bool" where
  "rotationWindowOpen ring \<longleftrightarrow> k_next ring \<noteq> None"

text \<open>The raw key; \<^const>\<open>None\<close> is the exception for text that is not base64 of 32 bytes.\<close>

definition importKek :: "string \<Rightarrow> 8 word list option" where
  "importKek kek = (case atob_bytes kek of Some raw \<Rightarrow> if length raw = 32 then Some raw else None | None \<Rightarrow> None)"

datatype kek_error = EncryptSlotUnavailable | BadKek

definition encryptionKey :: "kek_ring \<Rightarrow> kek_error + string" where
  "encryptionKey ring =
     (case k_slot ring of PrimarySlot \<Rightarrow> Inr (k_primary ring)
      | NextSlot \<Rightarrow> (case k_next ring of
           Some n \<Rightarrow> if n = [] then Inl EncryptSlotUnavailable else Inr n
         | None \<Rightarrow> Inl EncryptSlotUnavailable))"

type_synonym aead = "8 word list \<Rightarrow> 8 word list \<Rightarrow> 8 word list \<Rightarrow> 8 word list"
type_synonym unaead = "8 word list \<Rightarrow> 8 word list \<Rightarrow> 8 word list \<Rightarrow> 8 word list option"

definition IV_BYTES :: nat where
  "IV_BYTES = 12"

definition encryptUnder :: "aead \<Rightarrow> 8 word list \<Rightarrow> string \<Rightarrow> string \<Rightarrow> string option" where
  "encryptUnder enc iv kek plaintext =
     map_option (\<lambda>key. b64_bytes (iv @ enc key iv (utf8 plaintext))) (importKek kek)"

definition decryptUnder :: "unaead \<Rightarrow> string \<Rightarrow> string \<Rightarrow> string option" where
  "decryptUnder dec kek blob =
     (case importKek kek of None \<Rightarrow> None
      | Some key \<Rightarrow> (case atob_bytes blob of None \<Rightarrow> None
          | Some raw \<Rightarrow> map_option utf8_decode (dec key (take IV_BYTES raw) (drop IV_BYTES raw))))"

definition encryptStudioToken :: "aead \<Rightarrow> 8 word list \<Rightarrow> kek_ring \<Rightarrow> string \<Rightarrow> kek_error + string" where
  "encryptStudioToken enc iv ring plaintext =
     (case encryptionKey ring of Inl e \<Rightarrow> Inl e
      | Inr kek \<Rightarrow> (case encryptUnder enc iv kek plaintext of None \<Rightarrow> Inl BadKek | Some b \<Rightarrow> Inr b))"

definition slot_key :: "kek_ring \<Rightarrow> kek_slot \<Rightarrow> string option" where
  "slot_key ring slot =
     (let k = (case slot of PrimarySlot \<Rightarrow> Some (k_primary ring) | NextSlot \<Rightarrow> k_next ring)
      in if k = Some [] then None else k)"

text \<open>The loop over the two slots, write slot first; a slot without a key is passed over.\<close>

fun try_slots :: "unaead \<Rightarrow> kek_ring \<Rightarrow> string \<Rightarrow> kek_slot list \<Rightarrow> (kek_slot \<times> string) option" where
  "try_slots dec ring blob [] = None"
| "try_slots dec ring blob (slot # slots) =
     (case slot_key ring slot of None \<Rightarrow> try_slots dec ring blob slots
      | Some key \<Rightarrow> (case decryptUnder dec key blob of
           Some pt \<Rightarrow> Some (slot, pt) | None \<Rightarrow> try_slots dec ring blob slots))"

definition decryptStudioTokenWithSlot :: "unaead \<Rightarrow> kek_ring \<Rightarrow> string \<Rightarrow> (kek_slot \<times> string) option" where
  "decryptStudioTokenWithSlot dec ring blob =
     try_slots dec ring blob (if k_slot ring = NextSlot then [NextSlot, PrimarySlot] else [PrimarySlot, NextSlot])"

definition decryptStudioToken :: "unaead \<Rightarrow> kek_ring \<Rightarrow> string \<Rightarrow> string option" where
  "decryptStudioToken dec ring blob = map_option snd (decryptStudioTokenWithSlot dec ring blob)"

section \<open>The store\<close>

type_synonym token_row = "string \<times> string \<times> string"

definition listEncryptedStudioTokens :: "cp_db \<Rightarrow> token_row list" where
  "listEncryptedStudioTokens db =
     map (\<lambda>t. (t_id t, t_slug t, the (t_studio_token_enc t)))
       (sort_key t_id (filter (\<lambda>t. t_studio_token_enc t \<noteq> None \<and> t_studio_token_enc t \<noteq> Some []) (d_tenants db)))"

definition setTenantStudioTokenIfUnchanged :: "cp_db \<Rightarrow> string \<Rightarrow> string \<Rightarrow> string \<Rightarrow> bool \<times> cp_db" where
  "setTenantStudioTokenIfUnchanged db i expected new =
     (let p = (\<lambda>t. t_id t = i \<and> t_studio_token_enc t = Some expected)
      in (changes p (d_tenants db) > 0, map_tenants p (\<lambda>t. t\<lparr>t_studio_token_enc := Some new\<rparr>) db))"

section \<open>Census and sweep\<close>

record kek_census =
  c_window_open :: bool
  c_encrypt_slot :: kek_slot
  c_total :: nat
  c_on_target :: nat
  c_needs_rotation :: nat
  c_unreadable :: "string list"
  c_safe_to_promote :: bool

definition kekCensus :: "unaead \<Rightarrow> kek_ring \<Rightarrow> cp_db \<Rightarrow> kek_census" where
  "kekCensus dec ring db =
     (let rows = listEncryptedStudioTokens db;
          slot = (\<lambda>(i, sl, e). map_option fst (decryptStudioTokenWithSlot dec ring e));
          onTarget = length (filter (\<lambda>r. slot r = Some (k_slot ring)) rows);
          needs = length (filter (\<lambda>r. slot r \<noteq> None \<and> slot r \<noteq> Some (k_slot ring)) rows);
          unreadable = map (\<lambda>(i, sl, e). sl) (filter (\<lambda>r. slot r = None) rows)
      in \<lparr>c_window_open = rotationWindowOpen ring, c_encrypt_slot = k_slot ring, c_total = length rows,
          c_on_target = onTarget, c_needs_rotation = needs, c_unreadable = sort unreadable,
          c_safe_to_promote = (needs = 0 \<and> length unreadable = 0)\<rparr>)"

record sweep_result =
  w_examined :: nat
  w_skipped :: nat
  w_rotated :: nat
  w_raced :: nat
  w_unreadable :: "string list"
  w_complete :: bool

text \<open>
  One row of the batch.  \<open>others n\<close> is what other requests did to the store while the \<open>n\<close>-th row was
  being decrypted and encrypted; the row itself was read before.  An encryption that fails aborts the
  sweep with what was written so far.
\<close>

fun sweep_rows ::
  "aead \<Rightarrow> unaead \<Rightarrow> kek_ring \<Rightarrow> (nat \<Rightarrow> 8 word list) \<Rightarrow> (nat \<Rightarrow> cp_db \<Rightarrow> cp_db) \<Rightarrow> nat \<Rightarrow> token_row list
     \<Rightarrow> sweep_result \<times> cp_db \<Rightarrow> (kek_error + sweep_result) \<times> cp_db" where
  "sweep_rows enc dec ring ivs others n [] (w, db) = (Inr w, db)"
| "sweep_rows enc dec ring ivs others n ((i, slug, e) # rows) (w, db0) =
     (let db = others n db0 in
      case decryptStudioTokenWithSlot dec ring e of
        None \<Rightarrow> sweep_rows enc dec ring ivs others (Suc n) rows (w\<lparr>w_unreadable := w_unreadable w @ [slug]\<rparr>, db)
      | Some (slot, pt) \<Rightarrow>
          if slot = k_slot ring then
            sweep_rows enc dec ring ivs others (Suc n) rows (w\<lparr>w_skipped := w_skipped w + 1\<rparr>, db)
          else (case encryptStudioToken enc (ivs n) ring pt of
                  Inl ke \<Rightarrow> (Inl ke, db)
                | Inr new \<Rightarrow>
                    (case setTenantStudioTokenIfUnchanged db i e new of (wrote, db') \<Rightarrow>
                       sweep_rows enc dec ring ivs others (Suc n) rows
                         (if wrote then w\<lparr>w_rotated := w_rotated w + 1\<rparr> else w\<lparr>w_raced := w_raced w + 1\<rparr>, db'))))"

datatype sweep_error = WindowClosed | SweepKek kek_error

definition sweepReencrypt ::
  "aead \<Rightarrow> unaead \<Rightarrow> kek_ring \<Rightarrow> (nat \<Rightarrow> 8 word list) \<Rightarrow> (nat \<Rightarrow> cp_db \<Rightarrow> cp_db) \<Rightarrow> nat option \<Rightarrow> cp_db
     \<Rightarrow> (sweep_error + sweep_result) \<times> cp_db" where
  "sweepReencrypt enc dec ring ivs others limit db =
     (if \<not> rotationWindowOpen ring then (Inl WindowClosed, db)
      else (let rows = listEncryptedStudioTokens db;
                batch = take (case limit of None \<Rightarrow> 500 | Some l \<Rightarrow> l) rows;
                w0 = \<lparr>w_examined = length batch, w_skipped = 0, w_rotated = 0, w_raced = 0, w_unreadable = [],
                      w_complete = (length batch = length rows)\<rparr>
            in case sweep_rows enc dec ring ivs others 0 batch (w0, db) of
                 (Inl e, db') \<Rightarrow> (Inl (SweepKek e), db')
               | (Inr w, db') \<Rightarrow> (Inr (w\<lparr>w_unreadable := sort (w_unreadable w)\<rparr>), db')))"

section \<open>Encryption round trip\<close>

text \<open>What AES-GCM promises: a text encrypted under a key and nonce decrypts to itself under them.\<close>

definition aead_ok :: "aead \<Rightarrow> unaead \<Rightarrow> bool" where
  "aead_ok enc dec \<longleftrightarrow>
     (\<forall>k iv p. length k = 32 \<longrightarrow> length iv = IV_BYTES \<longrightarrow> dec k iv (enc k iv p) = Some p)"

lemma importKek_32: "importKek kek = Some key \<Longrightarrow> length key = 32"
  by (auto simp: importKek_def split: option.splits if_splits)

lemma decrypt_encryptUnder:
  assumes "aead_ok enc dec" "length iv = IV_BYTES" "encryptUnder enc iv kek p = Some b"
  shows "decryptUnder dec kek b = Some p"
proof -
  obtain key where key: "importKek kek = Some key" "b = b64_bytes (iv @ enc key iv (utf8 p))"
    using assms(3) by (auto simp: encryptUnder_def)
  have "dec key iv (enc key iv (utf8 p)) = Some (utf8 p)"
    using assms(1,2) importKek_32 [OF key(1)] by (simp add: aead_ok_def)
  with key assms(2) show ?thesis by (simp add: decryptUnder_def atob_b64_bytes utf8_decode_utf8)
qed

lemma importKek_Nil: "importKek [] = None"
  by code_simp

lemma encrypt_then_slot:
  assumes "aead_ok enc dec" "length iv = IV_BYTES" "encryptStudioToken enc iv ring p = Inr b"
  shows "decryptStudioTokenWithSlot dec ring b = Some (k_slot ring, p)"
proof -
  obtain kek where kek: "encryptionKey ring = Inr kek" "encryptUnder enc iv kek p = Some b"
    using assms(3) by (auto simp: encryptStudioToken_def split: sum.splits option.splits)
  then have "kek \<noteq> []" by (auto simp: encryptUnder_def importKek_Nil)
  then have "slot_key ring (k_slot ring) = Some kek"
    using kek(1) by (auto simp: encryptionKey_def slot_key_def split: kek_slot.splits option.splits if_splits)
  with decrypt_encryptUnder [OF assms(1,2) kek(2)] show ?thesis
    by (cases "k_slot ring") (simp_all add: decryptStudioTokenWithSlot_def)
qed

text \<open>
  C37: a token that was encrypted decrypts to itself.  With the same key ring, whichever slot it writes
  to and whether or not a rotation window is open, decryption returns the plaintext, through base64 and
  UTF-8, and finds it in the write slot.
\<close>

theorem studio_token_round_trip:
  assumes "aead_ok enc dec" "length iv = IV_BYTES" "encryptStudioToken enc iv ring p = Inr b"
  shows "decryptStudioToken dec ring b = Some p \<and> map_option fst (decryptStudioTokenWithSlot dec ring b) = Some (k_slot ring)"
  using encrypt_then_slot [OF assms] by (simp add: decryptStudioToken_def)

section \<open>What a sweep does\<close>

definition token_of :: "cp_db \<Rightarrow> string \<Rightarrow> string option" where
  "token_of db i = Option.bind (getTenantById db i) t_studio_token_enc"

lemma token_of_cas:
  "token_of (snd (setTenantStudioTokenIfUnchanged db i old new)) k =
     (if k = i \<and> token_of db i = Some old then Some new else token_of db k)"
proof -
  let ?p = "\<lambda>t. t_id t = i \<and> t_studio_token_enc t = Some old"
  let ?f = "\<lambda>t. t\<lparr>t_studio_token_enc := Some new\<rparr>"
  show ?thesis
  proof (cases "List.find (\<lambda>t. t_id t = k) (d_tenants db)")
    case None
    with find_update_key_None [OF None, of ?p ?f] show ?thesis
      by (auto simp: token_of_def getTenantById_def setTenantStudioTokenIfUnchanged_def Let_def)
  next
    case (Some t)
    with find_update_key [OF Some, of ?p ?f] find_SomeD [OF Some] show ?thesis
      by (auto simp: token_of_def getTenantById_def setTenantStudioTokenIfUnchanged_def Let_def)
  qed
qed

definition plain_token :: "unaead \<Rightarrow> kek_ring \<Rightarrow> cp_db \<Rightarrow> string \<Rightarrow> string option" where
  "plain_token dec ring db i = Option.bind (token_of db i) (decryptStudioToken dec ring)"

lemma plain_token_cas:
  assumes "aead_ok enc dec" "length iv = IV_BYTES" "decryptStudioTokenWithSlot dec ring e = Some (slot, pt)"
    and "encryptStudioToken enc iv ring pt = Inr new"
  shows "plain_token dec ring (snd (setTenantStudioTokenIfUnchanged db i e new)) k = plain_token dec ring db k"
  using assms(3) encrypt_then_slot [OF assms(1,2,4)]
  by (auto simp: plain_token_def token_of_cas decryptStudioToken_def)

lemma sweep_rows_plain:
  assumes "aead_ok enc dec" "\<And>n. length (ivs n) = IV_BYTES" "\<And>n d. token_of (others n d) k = token_of d k"
  shows "plain_token dec ring (snd (sweep_rows enc dec ring ivs others n rows (w, db))) k = plain_token dec ring db k"
proof (induction rows arbitrary: n w db)
  case Nil
  then show ?case by simp
next
  case (Cons r rows)
  obtain i slug e where r: "r = (i, slug, e)" by (cases r)
  have o: "plain_token dec ring (others n db) k = plain_token dec ring db k"
    using assms(3) by (simp add: plain_token_def)
  show ?case
  proof (cases "decryptStudioTokenWithSlot dec ring e")
    case None
    then show ?thesis using Cons.IH o by (simp add: r)
  next
    case (Some sp)
    obtain slot pt where sp: "sp = (slot, pt)" by (cases sp)
    show ?thesis
    proof (cases "encryptStudioToken enc (ivs n) ring pt")
      case (Inl ke)
      then show ?thesis using Some sp Cons.IH o by (simp add: r Let_def)
    next
      case (Inr new)
      have "plain_token dec ring (snd (setTenantStudioTokenIfUnchanged (others n db) i e new)) k = plain_token dec ring db k"
        using plain_token_cas [OF assms(1) assms(2) Some [unfolded sp] Inr] o by simp
      then show ?thesis using Some sp Inr Cons.IH o by (simp add: r Let_def case_prod_beta)
    qed
  qed
qed

definition sweep_batch :: "nat option \<Rightarrow> cp_db \<Rightarrow> token_row list" where
  "sweep_batch limit db = take (case limit of None \<Rightarrow> 500 | Some l \<Rightarrow> l) (listEncryptedStudioTokens db)"

lemma sweep_open:
  assumes "rotationWindowOpen ring"
  obtains w where "w_complete w = (length (sweep_batch limit db) = length (listEncryptedStudioTokens db))"
    "sweepReencrypt enc dec ring ivs others limit db =
      (case sweep_rows enc dec ring ivs others 0 (sweep_batch limit db) (w, db) of
         (Inl e, db') \<Rightarrow> (Inl (SweepKek e), db') | (Inr w, db') \<Rightarrow> (Inr (w\<lparr>w_unreadable := sort (w_unreadable w)\<rparr>), db'))"
  by (rule that [of "\<lparr>w_examined = length (sweep_batch limit db), w_skipped = 0, w_rotated = 0, w_raced = 0, w_unreadable = [],
      w_complete = (length (sweep_batch limit db) = length (listEncryptedStudioTokens db))\<rparr>"])
    (simp_all add: sweepReencrypt_def assms sweep_batch_def Let_def)


section \<open>What the census means\<close>

text \<open>The ring after promotion: the write key alone.\<close>

definition promoted :: "string \<Rightarrow> kek_ring" where
  "promoted kek = \<lparr>k_primary = kek, k_next = None, k_slot = PrimarySlot\<rparr>"

text \<open>
  When the census says it is safe to promote, dropping the other key loses no token: every stored
  token decrypts under the write key alone, to the same plaintext.
\<close>

theorem safe_promotion_loses_nothing:
  assumes "c_safe_to_promote (kekCensus dec ring db)" "slot_key ring (k_slot ring) = Some kek"
    and "(i, slug, e) \<in> set (listEncryptedStudioTokens db)"
  shows "\<exists>pt. decryptStudioToken dec (promoted kek) e = Some pt \<and> decryptStudioToken dec ring e = Some pt"
proof -
  have kek: "kek \<noteq> []" using assms(2) by (auto simp: slot_key_def Let_def split: if_splits)
  have "map_option fst (decryptStudioTokenWithSlot dec ring e) = Some (k_slot ring)"
    using assms(1,3) by (fastforce simp: kekCensus_def Let_def filter_empty_conv)
  then obtain pt where pt: "decryptStudioTokenWithSlot dec ring e = Some (k_slot ring, pt)" by auto
  then have "decryptUnder dec kek e = Some pt"
    using assms(2) by (cases "k_slot ring")
      (auto simp: decryptStudioTokenWithSlot_def split: option.splits)
  then show ?thesis using pt kek
    by (simp add: decryptStudioToken_def decryptStudioTokenWithSlot_def promoted_def slot_key_def)
qed

section \<open>A sweep that sees every row finishes the rotation\<close>

text \<open>No other request writes while the sweep runs.\<close>

abbreviation alone :: "nat \<Rightarrow> cp_db \<Rightarrow> cp_db" where
  "alone \<equiv> \<lambda>n db. db"

definition on_target :: "unaead \<Rightarrow> kek_ring \<Rightarrow> string \<Rightarrow> bool" where
  "on_target dec ring e \<longleftrightarrow> map_option fst (decryptStudioTokenWithSlot dec ring e) = Some (k_slot ring)"

lemma encrypt_succeeds:
  "encryptionKey ring = Inr kek \<Longrightarrow> importKek kek = Some key \<Longrightarrow> \<exists>b. encryptStudioToken enc iv ring pt = Inr b"
  by (simp add: encryptStudioToken_def encryptUnder_def)

lemma sweep_rows_rotates:
  assumes aead: "aead_ok enc dec" "\<And>n. length (ivs n) = IV_BYTES"
    and key: "encryptionKey ring = Inr kek" "importKek kek = Some key"
    and rows: "distinct (map fst rows)" "\<forall>r \<in> set rows. token_of db (fst r) = Some (snd (snd r))"
      "\<forall>r \<in> set rows. decryptStudioTokenWithSlot dec ring (snd (snd r)) \<noteq> None"
  shows "\<exists>w' db'. sweep_rows enc dec ring ivs alone n rows (w, db) = (Inr w', db') \<and> w_complete w' = w_complete w
    \<and> (\<forall>i \<in> set (map fst rows). \<exists>e'. token_of db' i = Some e' \<and> on_target dec ring e')
    \<and> (\<forall>k. k \<notin> set (map fst rows) \<longrightarrow> token_of db' k = token_of db k)"
  using rows
proof (induction rows arbitrary: n w db)
  case Nil
  then show ?case by simp
next
  case (Cons r rows)
  obtain i slug e where r: "r = (i, slug, e)" by (cases r)
  have e: "token_of db i = Some e" using Cons.prems(2) by (simp add: r)
  have i: "i \<notin> set (map fst rows)" using Cons.prems(1) by (simp add: r)
  have d: "distinct (map fst rows)" using Cons.prems(1) by simp
  have read: "\<forall>r \<in> set rows. decryptStudioTokenWithSlot dec ring (snd (snd r)) \<noteq> None"
    using Cons.prems(3) by simp
  obtain slot pt where sp: "decryptStudioTokenWithSlot dec ring e = Some (slot, pt)"
    using Cons.prems(3) by (auto simp: r)
  have step: "\<exists>w' db'. sweep_rows enc dec ring ivs alone (Suc n) rows (wa, da) = (Inr w', db') \<and> w_complete w' = w_complete wa
      \<and> (\<forall>j \<in> set (map fst (r # rows)). \<exists>e'. token_of db' j = Some e' \<and> on_target dec ring e')
      \<and> (\<forall>k. k \<notin> set (map fst (r # rows)) \<longrightarrow> token_of db' k = token_of db k)"
    if t: "token_of da i = Some ea" "on_target dec ring ea" "\<And>k. k \<noteq> i \<Longrightarrow> token_of da k = token_of db k" for wa da ea
  proof -
    have "\<forall>r \<in> set rows. token_of da (fst r) = Some (snd (snd r))"
    proof
      fix q assume q: "q \<in> set rows"
      then have "fst q \<noteq> i" using i by (auto simp: image_iff)
      then show "token_of da (fst q) = Some (snd (snd q))" using t(3) Cons.prems(2) q by simp
    qed
    from Cons.IH [OF d this read, where w = wa and n = "Suc n"] obtain w' db' where
      "sweep_rows enc dec ring ivs alone (Suc n) rows (wa, da) = (Inr w', db')" "w_complete w' = w_complete wa"
      "\<forall>j \<in> set (map fst rows). \<exists>e'. token_of db' j = Some e' \<and> on_target dec ring e'"
      "\<forall>k. k \<notin> set (map fst rows) \<longrightarrow> token_of db' k = token_of da k" by blast
    with t i show ?thesis by (intro exI [of _ w'] exI [of _ db']) (simp add: r)
  qed
  show ?case
  proof (cases "slot = k_slot ring")
    case True
    have "on_target dec ring e" using sp True by (simp add: on_target_def)
    from step [where wa = "w\<lparr>w_skipped := w_skipped w + 1\<rparr>", OF e this] show ?thesis using sp True by (simp add: r  Let_def)
  next
    case False
    obtain new where new: "encryptStudioToken enc (ivs n) ring pt = Inr new" using encrypt_succeeds [OF key] by blast
    let ?cas = "setTenantStudioTokenIfUnchanged db i e new"
    let ?w = "if fst ?cas then w\<lparr>w_rotated := w_rotated w + 1\<rparr> else w\<lparr>w_raced := w_raced w + 1\<rparr>"
    have "on_target dec ring new" using encrypt_then_slot [OF aead new] by (simp add: on_target_def)
    from step [of "snd ?cas" new ?w] this show ?thesis
      using sp False new e by (auto simp: r  Let_def case_prod_beta token_of_cas)
  qed
qed

lemma cas_ids [simp]:
  "map t_id (d_tenants (snd (setTenantStudioTokenIfUnchanged db i old new))) = map t_id (d_tenants db)"
  by (simp add: setTenantStudioTokenIfUnchanged_def Let_def map_update_where)

lemma sweep_rows_ids:
  "map t_id (d_tenants (snd (sweep_rows enc dec ring ivs alone n rows (w, db)))) = map t_id (d_tenants db)"
proof (induction rows arbitrary: n w db)
  case (Cons r rows)
  show ?case
    by (cases r) (auto simp: Let_def Cons.IH  case_prod_beta split: option.splits sum.splits)
qed simp

lemma listed_token:
  assumes "distinct (map t_id (d_tenants db))"
  shows "(i, sl, e) \<in> set (listEncryptedStudioTokens db) \<Longrightarrow> token_of db i = Some e \<and> e \<noteq> []"
proof -
  assume "(i, sl, e) \<in> set (listEncryptedStudioTokens db)"
  then obtain t where t: "t \<in> set (d_tenants db)" "t_id t = i" "t_studio_token_enc t = Some e" "e \<noteq> []"
    by (auto simp: listEncryptedStudioTokens_def)
  then have "getTenantById db i = Some t"
    using assms unfolding getTenantById_def by (intro find_unique) (auto dest: distinct_map_eq)
  with t show ?thesis by (simp add: token_of_def)
qed

lemma token_listed:
  assumes "token_of db i = Some e" "e \<noteq> []"
  shows "i \<in> set (map fst (listEncryptedStudioTokens db))"
  using assms find_SomeD [of "\<lambda>t. t_id t = i" "d_tenants db"]
  by (force simp: token_of_def getTenantById_def listEncryptedStudioTokens_def image_iff split: Option.bind_splits)

lemma distinct_listed: "distinct (map t_id (d_tenants db)) \<Longrightarrow> distinct (map fst (listEncryptedStudioTokens db))"
  by (simp add: listEncryptedStudioTokens_def comp_def distinct_map distinct_sort inj_on_def
      del: map_map) (auto simp: distinct_map inj_on_def)

lemma filters_empty:
  "(filter (\<lambda>r. f r \<noteq> None \<and> f r \<noteq> Some k) xs = [] \<and> filter (\<lambda>r. f r = None) xs = []) \<longleftrightarrow> (\<forall>r \<in> set xs. f r = Some k)"
  by (induction xs) auto

lemma safe_iff_on_target:
  "c_safe_to_promote (kekCensus dec ring db) \<longleftrightarrow> (\<forall>(i, sl, e) \<in> set (listEncryptedStudioTokens db). on_target dec ring e)"
proof -
  let ?slot = "\<lambda>(i :: string, sl :: string, e). map_option fst (decryptStudioTokenWithSlot dec ring e)"
  have "c_safe_to_promote (kekCensus dec ring db) \<longleftrightarrow>
      (\<forall>r \<in> set (listEncryptedStudioTokens db). ?slot r = Some (k_slot ring))"
    unfolding kekCensus_def Let_def kek_census.simps length_0_conv map_is_Nil_conv by (rule filters_empty)
  then show ?thesis by (simp add: on_target_def case_prod_beta)
qed

text \<open>
  C36: one sweep that sees every row finishes a rotation.  When every stored token opens under some
  installed key and the write key is usable, a sweep with a limit no smaller than the number of rows,
  undisturbed, reports itself complete, and the census taken after it says it is safe to promote.
\<close>

theorem complete_sweep_promotes:
  assumes "aead_ok enc dec" "\<And>n. length (ivs n) = IV_BYTES"
    and "rotationWindowOpen ring" "encryptionKey ring = Inr kek" "importKek kek = Some key"
    and "distinct (map t_id (d_tenants db))" "length (listEncryptedStudioTokens db) \<le> l"
    and "list_all (\<lambda>(i, sl, e). decryptStudioTokenWithSlot dec ring e \<noteq> None) (listEncryptedStudioTokens db)"
  shows "\<exists>w db'. sweepReencrypt enc dec ring ivs alone (Some l) db = (Inr w, db') \<and> w_complete w
     \<and> c_safe_to_promote (kekCensus dec ring db')"
proof -
  let ?rows = "listEncryptedStudioTokens db"
  have b: "sweep_batch (Some l) db = ?rows" using assms(7) by (simp add: sweep_batch_def)
  obtain w where w: "w_complete w" "sweepReencrypt enc dec ring ivs alone (Some l) db =
      (case sweep_rows enc dec ring ivs alone 0 ?rows (w, db) of
         (Inl e, db') \<Rightarrow> (Inl (SweepKek e), db') | (Inr w, db') \<Rightarrow> (Inr (w\<lparr>w_unreadable := sort (w_unreadable w)\<rparr>), db'))"
    by (rule sweep_open [OF assms(3), where limit = "Some l" and db = db, unfolded b]) auto
  have tok: "\<forall>r \<in> set ?rows. token_of db (fst r) = Some (snd (snd r))"
    using listed_token [OF assms(6)] by force
  have read: "\<forall>r \<in> set ?rows. decryptStudioTokenWithSlot dec ring (snd (snd r)) \<noteq> None"
    using assms(8) by (force simp: list_all_iff)
  obtain w' db' where r: "sweep_rows enc dec ring ivs alone 0 ?rows (w, db) = (Inr w', db')" "w_complete w' = w_complete w"
    "\<forall>i \<in> set (map fst ?rows). \<exists>e'. token_of db' i = Some e' \<and> on_target dec ring e'"
    "\<forall>k. k \<notin> set (map fst ?rows) \<longrightarrow> token_of db' k = token_of db k"
    using sweep_rows_rotates [where ivs = ivs and n = 0 and w = w, OF assms(1) _ assms(4,5) distinct_listed [OF assms(6)] tok read] assms(2) by blast
  have ids: "distinct (map t_id (d_tenants db'))"
    using sweep_rows_ids [of enc dec ring ivs 0 ?rows w db] assms(6) by (simp add: r(1))
  have "on_target dec ring e" if "(i, sl, e) \<in> set (listEncryptedStudioTokens db')" for i sl e
  proof -
    have e: "token_of db' i = Some e" "e \<noteq> []" using listed_token [OF ids that] by simp_all
    have "i \<in> set (map fst ?rows)" using e r(4) token_listed [of db i e] by metis
    with r(3) e show ?thesis by force
  qed
  with r w show ?thesis unfolding safe_iff_on_target w(2) by auto
qed

section \<open>A limited sweep never reaches the rows past its limit\<close>

definition has_token :: "tenant \<Rightarrow> bool" where
  "has_token t \<longleftrightarrow> t_studio_token_enc t \<noteq> None \<and> t_studio_token_enc t \<noteq> Some []"

lemma map_sort_key: "map f (sort_key f xs) = sort (map f xs)"
proof (induction xs)
  case (Cons x xs)
  have "map f (insort_key f x ys) = insort (f x) (map f ys)" for ys by (induction ys) auto
  with Cons show ?case by simp
qed simp

lemma listed_ids: "map fst (listEncryptedStudioTokens db) = sort (map t_id (filter has_token (d_tenants db)))"
  unfolding listEncryptedStudioTokens_def has_token_def map_map map_sort_key [symmetric] by (simp add: comp_def)

lemma encrypted_nonempty:
  "encryptStudioToken enc iv ring pt = Inr new \<Longrightarrow> length iv = IV_BYTES \<Longrightarrow> new \<noteq> []"
  by (cases iv rule: b64_bytes.cases)
    (auto simp: encryptStudioToken_def encryptUnder_def IV_BYTES_def split: sum.splits option.splits)

lemma cas_listed:
  assumes "old \<noteq> []" "new \<noteq> []"
  shows "map t_id (filter has_token (d_tenants (snd (setTenantStudioTokenIfUnchanged db i old new))))
    = map t_id (filter has_token (d_tenants db))"
proof -
  have "map t_id (filter has_token (update_where (\<lambda>t. t_id t = i \<and> t_studio_token_enc t = Some old)
      (\<lambda>t. t\<lparr>t_studio_token_enc := Some new\<rparr>) ts)) = map t_id (filter has_token ts)" for ts
    using assms by (induction ts) (auto simp: has_token_def)
  then show ?thesis by (simp add: setTenantStudioTokenIfUnchanged_def Let_def)
qed

lemma sweep_rows_frame:
  assumes "\<And>n. length (ivs n) = IV_BYTES" "\<forall>r \<in> set rows. snd (snd r) \<noteq> []"
  shows "map t_id (filter has_token (d_tenants (snd (sweep_rows enc dec ring ivs alone n rows (w, db)))))
      = map t_id (filter has_token (d_tenants db))
    \<and> (\<forall>k. k \<notin> set (map fst rows) \<longrightarrow> token_of (snd (sweep_rows enc dec ring ivs alone n rows (w, db))) k = token_of db k)"
  using assms(2)
proof (induction rows arbitrary: n w db)
  case (Cons r rows)
  obtain i slug e where r: "r = (i, slug, e)" by (cases r)
  have e: "e \<noteq> []" and rest: "\<forall>r \<in> set rows. snd (snd r) \<noteq> []" using Cons.prems by (simp_all add: r)
  note ih = Cons.IH [OF rest]
  show ?case
  proof (cases "decryptStudioTokenWithSlot dec ring e")
    case None
    then show ?thesis using ih by (simp add: r Let_def)
  next
    case (Some sp)
    obtain slot pt where sp: "sp = (slot, pt)" by (cases sp)
    show ?thesis
    proof (cases "encryptStudioToken enc (ivs n) ring pt")
      case (Inl ke)
      then show ?thesis using Some sp ih by (simp add: r Let_def)
    next
      case (Inr new)
      note c = cas_listed [OF e encrypted_nonempty [OF Inr assms(1)], of db i]
      show ?thesis using Some sp Inr ih c by (simp add: r Let_def case_prod_beta token_of_cas)
    qed
  qed
qed simp

lemma sweep_frame:
  assumes "\<And>n. length (ivs n) = IV_BYTES" "distinct (map t_id (d_tenants db))"
    and "i \<in> set (drop l (map fst (listEncryptedStudioTokens db)))"
    and db'_def: "db' = snd (sweepReencrypt enc dec ring ivs alone (Some l) db)"
  shows "map fst (listEncryptedStudioTokens db') = map fst (listEncryptedStudioTokens db)"
    and "token_of db' i = token_of db i" and "map t_id (d_tenants db') = map t_id (d_tenants db)"
proof -
  have nn: "\<forall>r \<in> set (sweep_batch (Some l) db). snd (snd r) \<noteq> []"
    using listed_token [OF assms(2)] by (force simp: sweep_batch_def dest: in_set_takeD)
  have i: "i \<notin> set (map fst (sweep_batch (Some l) db))"
  proof -
    have "distinct (take l (map fst (listEncryptedStudioTokens db)) @ drop l (map fst (listEncryptedStudioTokens db)))"
      using distinct_listed [OF assms(2)] by (simp only: append_take_drop_id)
    then show ?thesis using assms(3) by (auto simp: sweep_batch_def take_map)
  qed
  have "\<exists>w. db' = snd (sweep_rows enc dec ring ivs alone 0 (sweep_batch (Some l) db) (w, db)) \<or> db' = db"
  proof (cases "rotationWindowOpen ring")
    case True
    then obtain w where "sweepReencrypt enc dec ring ivs alone (Some l) db =
      (case sweep_rows enc dec ring ivs alone 0 (sweep_batch (Some l) db) (w, db) of
         (Inl e, db') \<Rightarrow> (Inl (SweepKek e), db') | (Inr w, db') \<Rightarrow> (Inr (w\<lparr>w_unreadable := sort (w_unreadable w)\<rparr>), db'))"
      by (rule sweep_open)
    then have "db' = snd (sweep_rows enc dec ring ivs alone 0 (sweep_batch (Some l) db) (w, db))"
      by (simp add: db'_def split: prod.splits sum.splits)
    then show ?thesis by blast
  qed (simp add: db'_def sweepReencrypt_def)
  then obtain w where w: "db' = snd (sweep_rows enc dec ring ivs alone 0 (sweep_batch (Some l) db) (w, db)) \<or> db' = db" by blast
  then show "map fst (listEncryptedStudioTokens db') = map fst (listEncryptedStudioTokens db)"
    "token_of db' i = token_of db i" "map t_id (d_tenants db') = map t_id (d_tenants db)"
    using sweep_rows_frame [where enc = enc and dec = dec and ring = ring and ivs = ivs and n = 0 and w = w and db = db, OF assms(1) nn] i sweep_rows_ids [of enc dec ring ivs 0 _ w db]
    by (auto simp: listed_ids)
qed

text \<open>
  Running a limited sweep again does not continue it.  The batch is the first \<open>l\<close> rows of all stored
  tokens, rotated or not, so a token past the limit has the ciphertext it had however many sweeps run,
  although each of them reports itself incomplete, which asks for another run to continue.
\<close>

theorem limited_sweep_never_continues:
  assumes "\<forall>ivs \<in> set runs. \<forall>n. length (ivs n) = IV_BYTES" "distinct (map t_id (d_tenants db))"
    and "i \<in> set (drop l (map fst (listEncryptedStudioTokens db)))"
  shows "token_of (foldl (\<lambda>d ivs. snd (sweepReencrypt enc dec ring ivs alone (Some l) d)) db runs) i = token_of db i"
  using assms
proof (induction runs arbitrary: db)
  case (Cons ivs runs)
  let ?db = "snd (sweepReencrypt enc dec ring ivs alone (Some l) db)"
  have iv: "\<And>n. length (ivs n) = IV_BYTES" using Cons.prems(1) by simp
  note f = sweep_frame [OF iv Cons.prems(2,3) refl, of enc dec ring]
  have "distinct (map t_id (d_tenants ?db))" "i \<in> set (drop l (map fst (listEncryptedStudioTokens ?db)))"
    using Cons.prems(2,3) f(1,3) by simp_all
  with Cons f(2) show ?case by simp
qed simp

section \<open>Examples\<close>

text \<open>A cipher that marks the text with the first byte of the key, and a store with one token per slot.\<close>

definition ex_enc :: aead where
  "ex_enc k iv p = hd k # p"

definition ex_dec :: unaead where
  "ex_dec k iv c = (if c \<noteq> [] \<and> hd c = hd k then Some (tl c) else None)"

definition ex_kek :: "8 word \<Rightarrow> string" where
  "ex_kek b = b64_bytes (replicate 32 b)"

definition ex_ring :: kek_ring where
  "ex_ring = \<lparr>k_primary = ex_kek 1, k_next = Some (ex_kek 2), k_slot = NextSlot\<rparr>"

definition ex_ivs :: "nat \<Rightarrow> 8 word list" where
  "ex_ivs n = replicate 12 0"

definition ex_blob :: "8 word \<Rightarrow> string" where
  "ex_blob b = b64_bytes (replicate 12 0 @ b # utf8 ''tok'')"

definition ex_kek_store :: "8 word \<Rightarrow> cp_db" where
  "ex_kek_store b = \<lparr>d_accounts = [], d_tenants =
     [ex_tenant\<lparr>t_studio_token_enc := Some (ex_blob b)\<rparr>], d_jobs = [], d_owners = [], d_pholds = []\<rparr>"

lemma ex_aead_ok: "aead_ok ex_enc ex_dec"
  by (simp add: aead_ok_def ex_enc_def ex_dec_def)

lemma ex_ivs_length: "length (ex_ivs n) = IV_BYTES"
  by (simp add: ex_ivs_def IV_BYTES_def)

lemma ex_importKek: "importKek (ex_kek b) = Some (replicate 32 b)"
  by (simp add: importKek_def ex_kek_def atob_b64_bytes)

lemma ex_kek_nonempty: "ex_kek b \<noteq> []"
  using ex_importKek [of b] importKek_Nil by auto

lemma ex_blob_nonempty: "ex_blob b \<noteq> []"
proof
  assume "ex_blob b = []"
  then have "atob_bytes [] = Some (replicate 12 0 @ b # utf8 ''tok'')" by (metis atob_b64_bytes ex_blob_def)
  moreover have "atob_bytes [] = Some []" by code_simp
  ultimately show False by simp
qed

lemma ex_decrypt: "decryptUnder ex_dec (ex_kek k) (ex_blob b) = (if k = b then Some ''tok'' else None)"
proof -
  have h: "hd (replicate 32 k) = k" by simp
  have s: "take IV_BYTES (replicate 12 0 @ b # utf8 ''tok'') = replicate 12 0"
    "drop IV_BYTES (replicate 12 0 @ b # utf8 ''tok'') = b # utf8 ''tok''"
    by (simp_all add: IV_BYTES_def)
  show ?thesis
    unfolding decryptUnder_def ex_importKek option.case ex_blob_def atob_b64_bytes s ex_dec_def h
    by (simp add: utf8_decode_utf8)
qed

lemma ex_slots: "slot_key ex_ring PrimarySlot = Some (ex_kek 1)" "slot_key ex_ring NextSlot = Some (ex_kek 2)"
  by (simp_all add: slot_key_def ex_ring_def ex_kek_nonempty)

lemma ex_ring_simps [simp]: "k_slot ex_ring = NextSlot" "k_next ex_ring = Some (ex_kek 2)" "k_primary ex_ring = ex_kek 1"
  by (simp_all add: ex_ring_def)

lemma ex_open: "decryptStudioTokenWithSlot ex_dec ex_ring (ex_blob b) =
   (if b = 2 then Some (NextSlot, ''tok'') else if b = 1 then Some (PrimarySlot, ''tok'') else None)"
  by (simp add: decryptStudioTokenWithSlot_def ex_slots ex_decrypt)

lemma ex_listed: "listEncryptedStudioTokens (ex_kek_store b) = [(''ten_1'', ''acme'', ex_blob b)]"
  by (simp add: listEncryptedStudioTokens_def ex_kek_store_def ex_blob_nonempty) (simp add: ex_tenant_def)

lemma ex_key: "encryptionKey ex_ring = Inr (ex_kek 2)" "rotationWindowOpen ex_ring"
  by (simp_all add: encryptionKey_def rotationWindowOpen_def ex_kek_nonempty)

lemma ex_ids: "distinct (map t_id (d_tenants (ex_kek_store b)))"
  by (simp add: ex_kek_store_def)

theorem studio_token_round_trip_witness:
  "\<exists>b. encryptStudioToken ex_enc (ex_ivs 0) ex_ring ''tok'' = Inr b \<and> decryptStudioToken ex_dec ex_ring b = Some ''tok''"
proof -
  obtain b where b: "encryptStudioToken ex_enc (ex_ivs 0) ex_ring ''tok'' = Inr b"
    using encrypt_succeeds [OF ex_key(1) ex_importKek] by blast
  with studio_token_round_trip [OF ex_aead_ok ex_ivs_length b] show ?thesis by blast
qed


theorem safe_promotion_loses_nothing_witness:
  "\<exists>pt. decryptStudioToken ex_dec (promoted (ex_kek 2)) (ex_blob 2) = Some pt"
proof -
  have "c_safe_to_promote (kekCensus ex_dec ex_ring (ex_kek_store 2))"
    unfolding safe_iff_on_target ex_listed by (simp add: on_target_def ex_open)
  from safe_promotion_loses_nothing [OF this _, of "ex_kek 2" "''ten_1''" "''acme''" "ex_blob 2"]
  show ?thesis by (auto simp: ex_slots ex_listed)
qed

theorem complete_sweep_promotes_witness:
  "\<exists>w db'. sweepReencrypt ex_enc ex_dec ex_ring ex_ivs alone (Some 1) (ex_kek_store 1) = (Inr w, db') \<and> w_complete w
     \<and> c_safe_to_promote (kekCensus ex_dec ex_ring db')"
  by (rule complete_sweep_promotes [OF ex_aead_ok ex_ivs_length ex_key(2,1) ex_importKek ex_ids])
    (simp_all add: ex_listed ex_open)

definition ex_two_store :: cp_db where
  "ex_two_store = \<lparr>d_accounts = [], d_tenants =
     [ex_tenant\<lparr>t_studio_token_enc := Some (ex_blob 1)\<rparr>,
      ex_tenant\<lparr>t_id := ''ten_2'', t_slug := ''beta'', t_studio_token_enc := Some (ex_blob 1)\<rparr>],
     d_jobs = [], d_owners = [], d_pholds = []\<rparr>"

lemma ex_two_listed: "map fst (listEncryptedStudioTokens ex_two_store) = [''ten_1'', ''ten_2'']"
proof -
  have "map t_id (filter has_token (d_tenants ex_two_store)) = [''ten_1'', ''ten_2'']"
    by (simp add: ex_two_store_def has_token_def ex_blob_nonempty) (simp add: ex_tenant_def)
  moreover have "sort [''ten_1'', ''ten_2''] = [''ten_1'', ''ten_2'']" by code_simp
  ultimately show ?thesis by (simp only: listed_ids)
qed

theorem limited_sweep_never_continues_witness:
  "token_of (foldl (\<lambda>d ivs. snd (sweepReencrypt ex_enc ex_dec ex_ring ivs alone (Some 1) d)) ex_two_store [ex_ivs, ex_ivs]) ''ten_2''
    = token_of ex_two_store ''ten_2''"
  by (rule limited_sweep_never_continues [where l = 1])
    (simp_all add: ex_ivs_length ex_two_listed, simp add: ex_two_store_def, simp add: ex_tenant_def)

end
