(* ===== verification/Auth.thy ===== *)
theory Auth
  imports Base64 Json SqliteTime "HOL-Library.AList"
begin

text \<open>
  Accounts and sign-in: the account, identity, login-token, session, OAuth-state, handoff and AUP tables
  of \<^verbatim>\<open>src/src/store-d1.ts\<close>, sessions and magic links (\<^verbatim>\<open>src/src/auth.ts\<close>), acceptance of the
  policy (\<^verbatim>\<open>src/src/aup.ts\<close>), the providers (\<^verbatim>\<open>src/src/oauth.ts\<close>) and the sign-in routes of
  \<^verbatim>\<open>src/src/index.ts\<close>.  Other services are functions from the request sent to the response received;
  SHA-256 and the random source are arguments.
\<close>

section \<open>Tables\<close>

datatype auth_provider = PEmail | PGoogle | PGithub | PApple

record account =
  a_id :: string
  a_email :: string
  a_created_at :: string
  a_suspended_at :: "string option"
  a_suspended_reason :: "string option"
  a_deleted_at :: "string option"

record identity_row =
  id_provider :: auth_provider
  id_subject :: string
  id_account :: string
  id_last_login_at :: "string option"

record login_token =
  lt_hash :: string
  lt_email :: string
  lt_expires_at :: string
  lt_consumed_at :: "string option"

record session =
  ss_hash :: string
  ss_account :: string
  ss_expires_at :: string
  ss_revoked_at :: "string option"

record oauth_state =
  os_state :: string
  os_provider :: auth_provider
  os_verifier :: "string option"
  os_redirect_to :: "string option"
  os_expires_at :: string
  os_consumed_at :: "string option"

record key_handoff =
  kh_hash :: string
  kh_id :: string
  kh_tenant_id :: string
  kh_endpoints_json :: string
  kh_issued_by :: string
  kh_created_at :: string
  kh_expires_at :: string
  kh_consumed_at :: "string option"

record aup_row =
  ap_account :: string
  ap_version :: string
  ap_sha256 :: string
  ap_accepted_at :: string
  ap_ip_hash :: "string option"
  ap_user_agent :: "string option"

record auth_db =
  accounts :: "account list"
  identities :: "identity_row list"
  login_tokens :: "login_token list"
  sessions :: "session list"
  oauth_states :: "oauth_state list"
  handoffs :: "key_handoff list"
  aup_rows :: "aup_row list"
  settings :: "(string \<times> string) list"

section \<open>Accounts and identities\<close>

definition getAccountById :: "auth_db \<Rightarrow> string \<Rightarrow> account option" where
  "getAccountById db i = first_where (\<lambda>a. a_id a = i \<and> a_deleted_at a = None) (accounts db)"

definition getAccountByEmail :: "auth_db \<Rightarrow> string \<Rightarrow> account option" where
  "getAccountByEmail db email = first_where (\<lambda>a. a_email a = email \<and> a_deleted_at a = None) (accounts db)"

definition createAccount :: "auth_db \<Rightarrow> string \<Rightarrow> string \<Rightarrow> int \<Rightarrow> db_error + (account \<times> auth_db)" where
  "createAccount db i email now =
     (if i \<in> set (map a_id (accounts db)) \<or> email \<in> set (map a_email (accounts db)) then Inl UniqueFailed
      else (let a = \<lparr>a_id = i, a_email = email, a_created_at = sqlite_datetime now, a_suspended_at = None,
                     a_suspended_reason = None, a_deleted_at = None\<rparr>
            in Inr (a, db\<lparr>accounts := accounts db @ [a]\<rparr>)))"

definition getAccountIdByIdentity :: "auth_db \<Rightarrow> auth_provider \<Rightarrow> string \<Rightarrow> string option" where
  "getAccountIdByIdentity db p subject =
     map_option id_account (first_where (\<lambda>r. id_provider r = p \<and> id_subject r = subject) (identities db))"

definition linkIdentity :: "auth_db \<Rightarrow> auth_provider \<Rightarrow> string \<Rightarrow> string \<Rightarrow> db_error + auth_db" where
  "linkIdentity db p subject acct =
     (if list_ex (\<lambda>r. id_provider r = p \<and> id_subject r = subject) (identities db) then Inr db
      else if acct \<notin> set (map a_id (accounts db)) then Inl ForeignKeyFailed
      else Inr (db\<lparr>identities := identities db @
             [\<lparr>id_provider = p, id_subject = subject, id_account = acct, id_last_login_at = None\<rparr>]\<rparr>))"

definition touchIdentityLogin :: "auth_db \<Rightarrow> auth_provider \<Rightarrow> string \<Rightarrow> int \<Rightarrow> auth_db" where
  "touchIdentityLogin db p subject now =
     db\<lparr>identities := update_where (\<lambda>r. id_provider r = p \<and> id_subject r = subject)
          (\<lambda>r. r\<lparr>id_last_login_at := Some (sqlite_datetime now)\<rparr>) (identities db)\<rparr>"

section \<open>Single-use rows\<close>

text \<open>A primary key that is already there makes an INSERT throw; the callers do not catch it.\<close>

definition createLoginToken :: "auth_db \<Rightarrow> string \<Rightarrow> string \<Rightarrow> string \<Rightarrow> db_error + auth_db" where
  "createLoginToken db h email expires =
     (if h \<in> set (map lt_hash (login_tokens db)) then Inl UniqueFailed
      else Inr (db\<lparr>login_tokens := login_tokens db @ [\<lparr>lt_hash = h, lt_email = email, lt_expires_at = expires, lt_consumed_at = None\<rparr>]\<rparr>))"

definition consumeLoginToken :: "auth_db \<Rightarrow> string \<Rightarrow> string \<Rightarrow> login_token option \<times> auth_db" where
  "consumeLoginToken db h now =
     (let p = (\<lambda>r. lt_hash r = h \<and> lt_consumed_at r = None \<and> now < lt_expires_at r);
          f = (\<lambda>r. r\<lparr>lt_consumed_at := Some now\<rparr>)
      in (map_option f (first_where p (login_tokens db)), db\<lparr>login_tokens := update_where p f (login_tokens db)\<rparr>))"

definition createInvokeKeyHandoff ::
  "auth_db \<Rightarrow> string \<Rightarrow> string \<Rightarrow> string \<Rightarrow> string \<Rightarrow> string \<Rightarrow> string \<Rightarrow> int \<Rightarrow> db_error + auth_db" where
  "createInvokeKeyHandoff db h i tid endpoints who expires now =
     (if h \<in> set (map kh_hash (handoffs db)) then Inl UniqueFailed
      else Inr (db\<lparr>handoffs := handoffs db @ [\<lparr>kh_hash = h, kh_id = i, kh_tenant_id = tid, kh_endpoints_json = endpoints,
              kh_issued_by = who, kh_created_at = sqlite_datetime now, kh_expires_at = expires, kh_consumed_at = None\<rparr>]\<rparr>))"

definition getInvokeKeyHandoff :: "auth_db \<Rightarrow> string \<Rightarrow> key_handoff option" where
  "getInvokeKeyHandoff db h = first_where (\<lambda>r. kh_hash r = h) (handoffs db)"

definition consumeInvokeKeyHandoff :: "auth_db \<Rightarrow> string \<Rightarrow> string \<Rightarrow> key_handoff option \<times> auth_db" where
  "consumeInvokeKeyHandoff db h now =
     (let p = (\<lambda>r. kh_hash r = h \<and> kh_consumed_at r = None \<and> now < kh_expires_at r);
          f = (\<lambda>r. r\<lparr>kh_consumed_at := Some now\<rparr>)
      in (map_option f (first_where p (handoffs db)), db\<lparr>handoffs := update_where p f (handoffs db)\<rparr>))"

definition createOAuthState ::
  "auth_db \<Rightarrow> string \<Rightarrow> auth_provider \<Rightarrow> string option \<Rightarrow> string option \<Rightarrow> string \<Rightarrow> db_error + auth_db" where
  "createOAuthState db st p verifier redirect expires =
     (if st \<in> set (map os_state (oauth_states db)) then Inl UniqueFailed
      else Inr (db\<lparr>oauth_states := oauth_states db @ [\<lparr>os_state = st, os_provider = p, os_verifier = verifier,
              os_redirect_to = redirect, os_expires_at = expires, os_consumed_at = None\<rparr>]\<rparr>))"

definition consumeOAuthState :: "auth_db \<Rightarrow> string \<Rightarrow> string \<Rightarrow> oauth_state option \<times> auth_db" where
  "consumeOAuthState db st now =
     (let p = (\<lambda>r. os_state r = st \<and> os_consumed_at r = None \<and> now < os_expires_at r);
          f = (\<lambda>r. r\<lparr>os_consumed_at := Some now\<rparr>)
      in (map_option f (first_where p (oauth_states db)), db\<lparr>oauth_states := update_where p f (oauth_states db)\<rparr>))"

section \<open>Sessions\<close>

definition createSession :: "auth_db \<Rightarrow> string \<Rightarrow> string \<Rightarrow> string \<Rightarrow> db_error + auth_db" where
  "createSession db h acct expires =
     (if h \<in> set (map ss_hash (sessions db)) then Inl UniqueFailed
      else if acct \<notin> set (map a_id (accounts db)) then Inl ForeignKeyFailed
      else Inr (db\<lparr>sessions := sessions db @ [\<lparr>ss_hash = h, ss_account = acct, ss_expires_at = expires, ss_revoked_at = None\<rparr>]\<rparr>))"

definition getSession :: "auth_db \<Rightarrow> string \<Rightarrow> string \<Rightarrow> session option" where
  "getSession db h now =
     first_where (\<lambda>r. ss_hash r = h \<and> ss_revoked_at r = None \<and> now < ss_expires_at r) (sessions db)"

definition revokeSession :: "auth_db \<Rightarrow> string \<Rightarrow> string \<Rightarrow> auth_db" where
  "revokeSession db h now =
     db\<lparr>sessions := update_where (\<lambda>r. ss_hash r = h \<and> ss_revoked_at r = None) (\<lambda>r. r\<lparr>ss_revoked_at := Some now\<rparr>) (sessions db)\<rparr>"

definition SESSION_COOKIE :: string where
  "SESSION_COOKIE = ''__Secure-vp_session''"

definition LOGIN_TTL_MINUTES :: int where
  "LOGIN_TTL_MINUTES = 15"

definition SESSION_TTL_DAYS :: int where
  "SESSION_TTL_DAYS = 30"

definition normalizeEmail :: "string \<Rightarrow> string" where
  "normalizeEmail email = to_lower (js_trim email)"

text \<open>
  \<^verbatim>\<open>/^[^\s@.]+(?:\.[^\s@.]+)*@[^\s@.]+(?:\.[^\s@.]+)+$/\<close>: two parts around the only at sign, each
  of non-empty labels between dots, at least two of them in the second.
\<close>

definition EMAIL_RE :: "string \<Rightarrow> bool" where
  "EMAIL_RE s =
     (let labels = (\<lambda>p. split_on (CHR ''.'') p); ok = list_all (\<lambda>l. l \<noteq> [] \<and> \<not> list_ex is_ws l) in
      case split_on (CHR ''@'') s of
        [local, domain] \<Rightarrow> ok (labels local) \<and> ok (labels domain) \<and> 2 \<le> length (labels domain)
      | _ \<Rightarrow> False)"

definition looksLikeEmail :: "string \<Rightarrow> bool" where
  "looksLikeEmail email \<longleftrightarrow> length email \<le> 254 \<and> EMAIL_RE email"

definition sessionCookie :: "string \<Rightarrow> int \<Rightarrow> string option \<Rightarrow> string" where
  "sessionCookie token maxAge domain =
     join_with ''; '' ([SESSION_COOKIE @ ''='' @ token, ''HttpOnly'', ''Secure'', ''SameSite=Lax'', ''Path=/'']
       @ (case domain of None \<Rightarrow> [] | Some d \<Rightarrow> if d = [] then [] else [''Domain='' @ d])
       @ [''Max-Age='' @ show_int maxAge])"

definition clearedSessionCookie :: "string option \<Rightarrow> string" where
  "clearedSessionCookie domain = sessionCookie [] 0 domain"

definition is_ipv4 :: "string \<Rightarrow> bool" where
  "is_ipv4 h = (let ps = split_on (CHR ''.'') h in
     length ps = 4 \<and> list_all (\<lambda>p. 1 \<le> length p \<and> length p \<le> 3 \<and> list_all is_digit p) ps)"

definition sessionCookieDomain :: "string \<Rightarrow> string option" where
  "sessionCookieDomain host =
     (let h = to_lower (js_trim (hd (split_on (CHR '':'') host)))
      in if h = [] \<or> h = ''localhost'' \<or> is_ipv4 h \<or> CHR ''.'' \<notin> set h then None else Some h)"

text \<open>The first part whose name is the cookie's decides, also when it carries no value.\<close>

fun cookie_value :: "string list \<Rightarrow> string option" where
  "cookie_value [] = None"
| "cookie_value (p # ps) =
     (case split_on (CHR ''='') (js_trim p) of
        k # v \<Rightarrow> if k = SESSION_COOKIE
                then (let t = join_with ''='' v in if t = [] then None else Some t)
                else cookie_value ps
      | [] \<Rightarrow> cookie_value ps)"

definition readSessionCookie :: "headers \<Rightarrow> string option" where
  "readSessionCookie hs =
     (case header_get hs ''cookie'' of None \<Rightarrow> None
      | Some raw \<Rightarrow> if raw = [] then None else cookie_value (split_on (CHR '';'') raw))"

definition startSession ::
  "(8 word list \<Rightarrow> 8 word list) \<Rightarrow> 8 word list \<Rightarrow> auth_db \<Rightarrow> string \<Rightarrow> int \<Rightarrow> db_error + ((string \<times> int) \<times> auth_db)" where
  "startSession sha256 buf db acct now =
     (let token = randomToken buf; maxAge = SESSION_TTL_DAYS * 24 * 60 * 60
      in case createSession db (sha256Hex sha256 token) acct (toISOString (now + maxAge * 1000)) of
           Inl e \<Rightarrow> Inl e | Inr db' \<Rightarrow> Inr ((token, maxAge), db'))"

definition resolveSession :: "(8 word list \<Rightarrow> 8 word list) \<Rightarrow> auth_db \<Rightarrow> headers \<Rightarrow> int \<Rightarrow> account option" where
  "resolveSession sha256 db hs now =
     (case readSessionCookie hs of None \<Rightarrow> None
      | Some token \<Rightarrow>
          (case getSession db (sha256Hex sha256 token) (toISOString now) of None \<Rightarrow> None
           | Some s \<Rightarrow>
               (case getAccountById db (ss_account s) of None \<Rightarrow> None
                | Some a \<Rightarrow> if truthy (a_suspended_at a) \<or> truthy (a_deleted_at a) then None else Some a)))"

definition endSession :: "(8 word list \<Rightarrow> 8 word list) \<Rightarrow> auth_db \<Rightarrow> headers \<Rightarrow> int \<Rightarrow> auth_db" where
  "endSession sha256 db hs now =
     (case readSessionCookie hs of None \<Rightarrow> db
      | Some token \<Rightarrow> revokeSession db (sha256Hex sha256 token) (toISOString now))"

section \<open>Policy acceptance and platform settings\<close>

definition hasAcceptedAup :: "auth_db \<Rightarrow> string \<Rightarrow> string \<Rightarrow> bool" where
  "hasAcceptedAup db acct version = list_ex (\<lambda>r. ap_account r = acct \<and> ap_version r = version) (aup_rows db)"

text \<open>
  \<^verbatim>\<open>/[Zz]$|[+-]\d{2}:?\d{2}$/\<close> on a value, and the two parts of a second-granularity timestamp; a
  fraction is kept as it is.
\<close>

definition has_zone :: "string \<Rightarrow> bool" where
  "has_zone v \<longleftrightarrow>
     (let r = map (\<lambda>c. if is_digit c then CHR ''0'' else c) (rev v) in
      (v \<noteq> [] \<and> last v \<in> {CHR ''Z'', CHR ''z''})
      \<or> (\<exists>s \<in> set [''+'', ''-'']. take 5 r = ''0000'' @ s \<or> take 6 r = ''00:00'' @ s))"

definition isoFromSqliteUtc :: "string \<Rightarrow> string" where
  "isoFromSqliteUtc value =
     (if has_zone value then value
      else (let frac = drop 19 value; shape = shape_of (take 19 value) in
            if (shape = ''0000-00-00 00:00:00'' \<or> shape = ''0000-00-00T00:00:00'')
               \<and> (frac = [] \<or> (2 \<le> length frac \<and> hd frac = CHR ''.'' \<and> list_all is_digit (tl frac)))
            then take 10 value @ ''T'' @ take 8 (drop 11 value) @ frac @ ''Z''
            else value))"

text \<open>Rows are appended in the order of their autoincrement ids.\<close>

definition getLastAupAcceptance :: "auth_db \<Rightarrow> string \<Rightarrow> (string \<times> string) option" where
  "getLastAupAcceptance db acct =
     map_option (\<lambda>r. (ap_version r, isoFromSqliteUtc (ap_accepted_at r)))
       (first_where (\<lambda>r. ap_account r = acct) (rev (aup_rows db)))"

text \<open>\<^verbatim>\<open>OR IGNORE\<close> does not extend to the foreign key.\<close>

definition recordAupAcceptance ::
  "auth_db \<Rightarrow> string \<Rightarrow> string \<Rightarrow> string \<Rightarrow> string option \<Rightarrow> string option \<Rightarrow> int \<Rightarrow> db_error + auth_db" where
  "recordAupAcceptance db acct version sha ip ua now =
     (if acct \<notin> set (map a_id (accounts db)) then Inl ForeignKeyFailed
      else if hasAcceptedAup db acct version then Inr db
      else Inr (db\<lparr>aup_rows := aup_rows db @ [\<lparr>ap_account = acct, ap_version = version, ap_sha256 = sha,
                    ap_accepted_at = sqlite_datetime now, ap_ip_hash = ip, ap_user_agent = ua\<rparr>]\<rparr>))"

definition getSetting :: "auth_db \<Rightarrow> string \<Rightarrow> string option" where
  "getSetting db k = map_of (settings db) k"

definition setSetting :: "auth_db \<Rightarrow> string \<Rightarrow> string \<Rightarrow> auth_db" where
  "setSetting db k v = db\<lparr>settings := AList.update k v (settings db)\<rparr>"

definition settingEnabled :: "string option \<Rightarrow> bool" where
  "settingEnabled raw =
     (case raw of None \<Rightarrow> False
      | Some s \<Rightarrow> (let v = to_lower (js_trim s) in v = ''true'' \<or> v = ''1''))"

section \<open>Resolving a verified email to an account\<close>

datatype upsert_refusal = Unavailable | SignupsClosed

type_synonym upsert_result = "upsert_refusal + (account \<times> bool)"

definition inactive :: "account \<Rightarrow> bool" where
  "inactive a \<longleftrightarrow> truthy (a_suspended_at a) \<or> truthy (a_deleted_at a)"

text \<open>The identity is linked and stamped; both statements run on the store the account is in.\<close>

definition link_and_touch ::
  "auth_db \<Rightarrow> auth_provider \<Rightarrow> string \<Rightarrow> account \<Rightarrow> bool \<Rightarrow> int \<Rightarrow> (db_error + upsert_result) \<times> auth_db" where
  "link_and_touch db provider subject a created now =
     (case linkIdentity db provider subject (a_id a) of
        Inl e \<Rightarrow> (Inl e, db)
      | Inr db' \<Rightarrow> (Inr (Inr (a, created)), touchIdentityLogin db' provider subject now))"

text \<open>\<open>Inl\<close> is a statement that throws; the store is what the statements before it left.\<close>

definition upsertAccountForVerifiedEmail ::
  "8 word list \<Rightarrow> auth_db \<Rightarrow> auth_provider \<Rightarrow> string \<Rightarrow> string \<Rightarrow> bool \<Rightarrow> int \<Rightarrow> (db_error + upsert_result) \<times> auth_db" where
  "upsertAccountForVerifiedEmail idbuf db provider subject verifiedEmail allowCreate now =
     (let email = normalizeEmail verifiedEmail; linkedId = getAccountIdByIdentity db provider subject in
      if truthy linkedId then
        (case getAccountById db (the linkedId) of
           None \<Rightarrow> (Inr (Inl Unavailable), db)
         | Some a \<Rightarrow>
             if inactive a then (Inr (Inl Unavailable), db)
             else (Inr (Inr (a, False)), touchIdentityLogin db provider subject now))
      else
        (case getAccountByEmail db email of
           Some a \<Rightarrow>
             if inactive a then (Inr (Inl Unavailable), db)
             else link_and_touch db provider subject a False now
         | None \<Rightarrow>
             if \<not> allowCreate then (Inr (Inl SignupsClosed), db)
             else (case createAccount db (newId ''acct'' idbuf) email now of
                     Inl e \<Rightarrow> (Inl e, db)
                   | Inr (a, db') \<Rightarrow> link_and_touch db' provider subject a True now)))"

definition redeemMagicLink ::
  "(8 word list \<Rightarrow> 8 word list) \<Rightarrow> 8 word list \<Rightarrow> auth_db \<Rightarrow> string \<Rightarrow> bool \<Rightarrow> int \<Rightarrow> (db_error + upsert_result) \<times> auth_db" where
  "redeemMagicLink sha256 idbuf db token allowCreate now =
     (case consumeLoginToken db (sha256Hex sha256 token) (toISOString now) of
        (None, db') \<Rightarrow> (Inr (Inl Unavailable), db')
      | (Some row, db') \<Rightarrow>
          upsertAccountForVerifiedEmail idbuf db' PEmail (lt_email row) (lt_email row) allowCreate now)"

text \<open>The mail of \<^verbatim>\<open>src/src/email.ts\<close>, and the mail door as a function from the mail to whether it was sent.\<close>

definition magicLinkMail :: "string \<Rightarrow> int \<Rightarrow> string \<times> string" where
  "magicLinkMail link ttlMinutes =
     (''Your vivijure sign-in link'',
      join_with [CHR 0x0A]
        [''Here is your sign-in link for vivijure studio:'', [], link, [],
         ''It works once and expires in '' @ show_int ttlMinutes @ '' minutes.'',
         ''If you did not ask for this link, you can ignore this mail; nothing was created.''])"

record mail =
  m_to :: string
  m_subject :: string
  m_text :: string

text \<open>The row is there before the mail is; the mail is what the sender is asked to send.\<close>

definition sendMagicLink ::
  "(8 word list \<Rightarrow> 8 word list) \<Rightarrow> 8 word list \<Rightarrow> auth_db \<Rightarrow> string \<Rightarrow> string \<Rightarrow> int \<Rightarrow> db_error + (mail \<times> auth_db)" where
  "sendMagicLink sha256 buf db origin email now =
     (let token = randomToken buf;
          link = origin @ ''/auth/email/callback?token='' @ token;
          (subject, txt) = magicLinkMail link LOGIN_TTL_MINUTES
      in case createLoginToken db (sha256Hex sha256 token) email (toISOString (now + LOGIN_TTL_MINUTES * 60 * 1000)) of
           Inl e \<Rightarrow> Inl e
         | Inr db' \<Rightarrow> Inr (\<lparr>m_to = email, m_subject = subject, m_text = txt\<rparr>, db'))"

section \<open>Sequences of operations\<close>

text \<open>Every statement that writes one of the tables; one that throws changes nothing.\<close>

datatype auth_op =
    ACreateAccount "8 word list" string int
  | ALinkIdentity auth_provider string string
  | ATouchIdentity auth_provider string int
  | ACreateLoginToken string string string
  | AConsumeLoginToken string string
  | ACreateHandoff string string string string string string int
  | AConsumeHandoff string string
  | ACreateOAuthState string auth_provider "string option" "string option" string
  | AConsumeOAuthState string string
  | ACreateSession string string string
  | ARevokeSession string string
  | ARecordAup string string string "string option" "string option" int
  | ASetSetting string string

abbreviation kept :: "'d \<Rightarrow> 'e + 'd \<Rightarrow> 'd" where
  "kept db r \<equiv> case_sum (\<lambda>_. db) (\<lambda>d. d) r"

primrec exec_auth :: "auth_op \<Rightarrow> auth_db \<Rightarrow> auth_db" where
  "exec_auth (ACreateAccount buf email now) db = kept db (map_sum id snd (createAccount db (newId ''acct'' buf) email now))"
| "exec_auth (ALinkIdentity p s a) db = kept db (linkIdentity db p s a)"
| "exec_auth (ATouchIdentity p s now) db = touchIdentityLogin db p s now"
| "exec_auth (ACreateLoginToken h email e) db = kept db (createLoginToken db h email e)"
| "exec_auth (AConsumeLoginToken h now) db = snd (consumeLoginToken db h now)"
| "exec_auth (ACreateHandoff h i tid eps who e now) db = kept db (createInvokeKeyHandoff db h i tid eps who e now)"
| "exec_auth (AConsumeHandoff h now) db = snd (consumeInvokeKeyHandoff db h now)"
| "exec_auth (ACreateOAuthState st p v r e) db = kept db (createOAuthState db st p v r e)"
| "exec_auth (AConsumeOAuthState st now) db = snd (consumeOAuthState db st now)"
| "exec_auth (ACreateSession h a e) db = kept db (createSession db h a e)"
| "exec_auth (ARevokeSession h now) db = revokeSession db h now"
| "exec_auth (ARecordAup a v s ip ua now) db = kept db (recordAupAcceptance db a v s ip ua now)"
| "exec_auth (ASetSetting k v) db = setSetting db k v"

definition run_auth :: "auth_op list \<Rightarrow> auth_db \<Rightarrow> auth_db" where
  "run_auth ops db = foldl (\<lambda>d p. exec_auth p d) db ops"

definition empty_auth :: auth_db where
  "empty_auth = \<lparr>accounts = [], identities = [], login_tokens = [], sessions = [], oauth_states = [],
     handoffs = [], aup_rows = [], settings = []\<rparr>"

lemma run_auth_Nil [simp]: "run_auth [] db = db"
  by (simp add: run_auth_def)

lemma run_auth_Cons [simp]: "run_auth (p # ops) db = run_auth ops (exec_auth p db)"
  by (simp add: run_auth_def)

lemma run_auth_append [simp]: "run_auth (ops @ rest) db = run_auth rest (run_auth ops db)"
  by (simp add: run_auth_def)

lemma run_auth_invariant:
  assumes "\<And>p d. P d \<Longrightarrow> P (exec_auth p d)" and "P db"
  shows "P (run_auth ops db)"
  using assms(2) by (induction ops arbitrary: db) (auto intro: assms(1))

lemmas account_ops = createAccount_def linkIdentity_def touchIdentityLogin_def
lemmas single_use_ops = createLoginToken_def consumeLoginToken_def createInvokeKeyHandoff_def
  consumeInvokeKeyHandoff_def createOAuthState_def consumeOAuthState_def
lemmas other_ops = createSession_def revokeSession_def recordAupAcceptance_def setSetting_def
lemmas auth_ops = account_ops single_use_ops other_ops

section \<open>Single use\<close>

text \<open>
  A table of rows that are spent once.  The client is anybody who hands out a row's key and later takes
  it back: whatever runs in between, only the first taking succeeds.
\<close>

locale single_use =
  fixes rows :: "'db \<Rightarrow> 'r list"
    and key :: "'r \<Rightarrow> string"
    and used :: "'r \<Rightarrow> string option"
    and consume :: "'db \<Rightarrow> string \<Rightarrow> string \<Rightarrow> 'r option \<times> 'db"
    and exec :: "'op \<Rightarrow> 'db \<Rightarrow> 'db"
  assumes consume_open: "consume db k now = (Some r, db') \<Longrightarrow> \<exists>u \<in> set (rows db). key u = k \<and> used u = None"
    and consume_spends: "consume db k now = (Some r, db') \<Longrightarrow> r \<in> set (rows db') \<and> key r = k \<and> used r \<noteq> None"
    and consume_keys: "map key (rows (snd (consume db k now))) = map key (rows db)"
    and exec_keys: "distinct (map key (rows db)) \<Longrightarrow> distinct (map key (rows (exec p db)))"
    and exec_spent: "r \<in> set (rows db) \<Longrightarrow> used r \<noteq> None \<Longrightarrow> r \<in> set (rows (exec p db))"
begin

lemma run_keys: "distinct (map key (rows db)) \<Longrightarrow> distinct (map key (rows (foldl (\<lambda>d p. exec p d) db ops)))"
  by (induction ops arbitrary: db) (auto intro: exec_keys)

lemma run_spent: "r \<in> set (rows db) \<Longrightarrow> used r \<noteq> None \<Longrightarrow> r \<in> set (rows (foldl (\<lambda>d p. exec p d) db ops))"
  by (induction ops arbitrary: db) (auto intro: exec_spent)

lemma spent_is_final:
  assumes "distinct (map key (rows db))" and "u \<in> set (rows db)" and "used u \<noteq> None"
  shows "fst (consume db (key u) now) = None"
proof (rule ccontr)
  assume "fst (consume db (key u) now) \<noteq> None"
  then obtain r db' where "consume db (key u) now = (Some r, db')" by (metis not_None_eq prod.collapse)
  from consume_open [OF this] obtain v where "v \<in> set (rows db)" "key v = key u" "used v = None" by blast
  with assms show False by (metis distinct_map_eq)
qed

lemma spent_once:
  assumes "distinct (map key (rows db))" and "consume db k now = (Some r, db')"
  shows "fst (consume (foldl (\<lambda>d p. exec p d) db' ops) k later) = None"
proof -
  have "distinct (map key (rows db'))" using assms consume_keys [of db k now] by simp
  moreover have "r \<in> set (rows db')" "key r = k" "used r \<noteq> None" using consume_spends [OF assms(2)] by auto
  ultimately show ?thesis using spent_is_final run_keys run_spent by metis
qed

end

lemmas spending = single_use_ops Let_def map_update_where

interpretation login: single_use login_tokens lt_hash lt_consumed_at consumeLoginToken exec_auth
proof (unfold_locales, goal_cases)
  case (4 db p)
  then show ?case by (cases p) (auto simp: spending account_ops other_ops split: sum.splits)
next
  case (5 r db p)
  then show ?case by (cases p) (auto simp: spending account_ops other_ops intro: in_update_whereI)
qed (auto simp: spending dest!: find_SomeD intro: in_update_whereI2)

interpretation handoff: single_use handoffs kh_hash kh_consumed_at consumeInvokeKeyHandoff exec_auth
proof (unfold_locales, goal_cases)
  case (4 db p)
  then show ?case by (cases p) (auto simp: spending account_ops other_ops split: sum.splits)
next
  case (5 r db p)
  then show ?case by (cases p) (auto simp: spending account_ops other_ops intro: in_update_whereI)
qed (auto simp: spending dest!: find_SomeD intro: in_update_whereI2)

interpretation state: single_use oauth_states os_state os_consumed_at consumeOAuthState exec_auth
proof (unfold_locales, goal_cases)
  case (4 db p)
  then show ?case by (cases p) (auto simp: spending account_ops other_ops split: sum.splits)
next
  case (5 r db p)
  then show ?case by (cases p) (auto simp: spending account_ops other_ops intro: in_update_whereI)
qed (auto simp: spending dest!: find_SomeD intro: in_update_whereI2)

section \<open>The integrity of the tables\<close>

definition auth_ok :: "auth_db \<Rightarrow> bool" where
  "auth_ok db \<longleftrightarrow>
     distinct (map a_id (accounts db)) \<and> distinct (map a_email (accounts db)) \<and> [] \<notin> set (map a_id (accounts db))
     \<and> distinct (map (\<lambda>r. (id_provider r, id_subject r)) (identities db))
     \<and> set (map id_account (identities db)) \<subseteq> set (map a_id (accounts db))
     \<and> distinct (map ss_hash (sessions db)) \<and> distinct (map lt_hash (login_tokens db))
     \<and> distinct (map kh_hash (handoffs db)) \<and> distinct (map os_state (oauth_states db))"

lemma newId_nonempty [simp]: "newId p buf \<noteq> []" "[] \<noteq> newId p buf"
  by (simp_all add: newId_def)

lemma exec_auth_ok:
  assumes "auth_ok db" shows "auth_ok (exec_auth p db)"
  using assms
  by (cases p) (auto simp: auth_ok_def auth_ops Let_def map_update_where list_ex_iff split: sum.splits)

lemma run_auth_ok: "auth_ok db \<Longrightarrow> auth_ok (run_auth ops db)"
  by (rule run_auth_invariant [where P = auth_ok]) (auto intro: exec_auth_ok)

lemma empty_auth_ok: "auth_ok empty_auth"
  by (simp add: auth_ok_def empty_auth_def)

text \<open>
  C19: a sign-in link, a single sign-on state and a key handoff link each work once.  In every store the
  statements can build, a link that is taken was not expired, and after that, whatever runs and
  whatever the clock says, taking it again finds nothing.
\<close>

theorem links_work_once:
  assumes "db = run_auth before empty_auth"
  shows "(consumeLoginToken db k now = (Some t, db1) \<longrightarrow>
            now < lt_expires_at t \<and> fst (consumeLoginToken (run_auth ops db1) k later) = None)
       \<and> (consumeOAuthState db k now = (Some s, db2) \<longrightarrow>
            now < os_expires_at s \<and> fst (consumeOAuthState (run_auth ops db2) k later) = None)
       \<and> (consumeInvokeKeyHandoff db k now = (Some h, db3) \<longrightarrow>
            now < kh_expires_at h \<and> fst (consumeInvokeKeyHandoff (run_auth ops db3) k later) = None)"
proof -
  have "auth_ok db" using assms empty_auth_ok run_auth_ok by simp
  then have keys: "distinct (map lt_hash (login_tokens db))" "distinct (map os_state (oauth_states db))"
    "distinct (map kh_hash (handoffs db))" by (auto simp: auth_ok_def)
  have "consumeLoginToken db k now = (Some t, db1) \<longrightarrow> now < lt_expires_at t"
    "consumeOAuthState db k now = (Some s, db2) \<longrightarrow> now < os_expires_at s"
    "consumeInvokeKeyHandoff db k now = (Some h, db3) \<longrightarrow> now < kh_expires_at h"
    by (auto simp: spending dest!: find_SomeD)
  then show ?thesis
    using login.spent_once [OF keys(1)] state.spent_once [OF keys(2)] handoff.spent_once [OF keys(3)]
    unfolding run_auth_def by blast
qed

section \<open>Account linking\<close>

lemma getAccountById_iff:
  assumes "auth_ok db"
  shows "getAccountById db i = Some a \<longleftrightarrow> a \<in> set (accounts db) \<and> a_id a = i \<and> a_deleted_at a = None"
proof
  assume "a \<in> set (accounts db) \<and> a_id a = i \<and> a_deleted_at a = None"
  then show "getAccountById db i = Some a"
    unfolding getAccountById_def using assms
    by (intro find_unique) (auto simp: auth_ok_def dest: distinct_map_eq)
qed (auto simp: getAccountById_def dest!: find_SomeD)

lemma map_find_update:
  assumes "\<And>r. g (f r) = g r" and "\<And>r. q (f r) = q r"
  shows "map_option g (List.find q (update_where p f t)) = map_option g (List.find q t)"
  by (induction t) (auto simp: assms)

lemma touch_keeps_identity [simp]:
  "getAccountIdByIdentity (touchIdentityLogin db p s now) q u = getAccountIdByIdentity db q u"
  "accounts (touchIdentityLogin db p s now) = accounts db"
  "getAccountById (touchIdentityLogin db p s now) i = getAccountById db i"
  unfolding getAccountIdByIdentity_def getAccountById_def touchIdentityLogin_def by (simp_all add: map_find_update)

text \<open>Linking never moves an identity.\<close>

lemma linkIdentity_effect:
  assumes "linkIdentity db p s acct = Inr db'"
  shows "accounts db' = accounts db"
    and "getAccountIdByIdentity db' q u =
      (if (q, u) = (p, s) \<and> getAccountIdByIdentity db p s = None then Some acct else getAccountIdByIdentity db q u)"
  using assms
  by (auto simp: linkIdentity_def getAccountIdByIdentity_def list_ex_iff find_append find_None_iff
      split: if_splits option.splits dest!: find_SomeD)

lemma linked_account:
  assumes "auth_ok db" "getAccountIdByIdentity db p s = Some i"
  shows "i \<noteq> [] \<and> i \<in> set (map a_id (accounts db))"
proof -
  obtain z where "z \<in> set (identities db)" "id_account z = i"
    using assms(2) by (auto simp: getAccountIdByIdentity_def dest!: find_SomeD)
  then have "i \<in> set (map a_id (accounts db))" using assms(1) by (auto simp: auth_ok_def)
  then show ?thesis using assms(1) by (metis auth_ok_def)
qed

lemma link_and_touch_effect:
  assumes "distinct (map a_id (accounts db))" "a \<in> set (accounts db)" "a_deleted_at a = None"
    and "getAccountIdByIdentity db p s = None" and "link_and_touch db p s a c now = (res, db')"
  shows "res = Inr (Inr (a, c)) \<and> accounts db' = accounts db \<and> getAccountById db' (a_id a) = Some a
       \<and> (\<forall>q u. getAccountIdByIdentity db' q u =
                 (if (q, u) = (p, s) then Some (a_id a) else getAccountIdByIdentity db q u))"
proof -
  have "linkIdentity db p s (a_id a) \<noteq> Inl e" for e using assms(2) by (simp add: linkIdentity_def)
  then obtain d where d: "linkIdentity db p s (a_id a) = Inr d" by (cases "linkIdentity db p s (a_id a)") auto
  have "getAccountById db (a_id a) = Some a"
    unfolding getAccountById_def using assms(1-3) by (intro find_unique) (auto dest: distinct_map_eq)
  then have "getAccountById d (a_id a) = Some a"
    using linkIdentity_effect(1) [OF d] by (simp add: getAccountById_def)
  then show ?thesis
    using assms(4,5) d linkIdentity_effect [OF d] by (auto simp: link_and_touch_def)
qed

lemma upsert_outcome:
  assumes "auth_ok db" and "upsertAccountForVerifiedEmail idbuf db p s email allow now = (res, db')"
  shows "(case res of
            Inr (Inr (a, created)) \<Rightarrow>
              \<not> inactive a \<and> getAccountById db' (a_id a) = Some a
              \<and> (getAccountIdByIdentity db p s = Some (a_id a) \<and> \<not> created
                  \<or> getAccountIdByIdentity db p s = None \<and> a_email a = normalizeEmail email)
              \<and> accounts db' = (if created then accounts db @ [a] else accounts db)
              \<and> (created \<longrightarrow> allow \<and> getAccountByEmail db (normalizeEmail email) = None)
              \<and> (\<forall>q u. getAccountIdByIdentity db' q u =
                        (if (q, u) = (p, s) then Some (a_id a) else getAccountIdByIdentity db q u))
          | _ \<Rightarrow> db' = db)"
proof (cases "getAccountIdByIdentity db p s")
  case (Some i)
  then have "truthy (getAccountIdByIdentity db p s)"
    using linked_account [OF assms(1) Some] by (simp add: truthy_def)
  with assms Some show ?thesis
    by (auto simp: upsertAccountForVerifiedEmail_def Let_def getAccountById_iff split: option.splits if_splits)
next
  case None
  then have up: "upsertAccountForVerifiedEmail idbuf db p s email allow now =
      (case getAccountByEmail db (normalizeEmail email) of
         Some a \<Rightarrow> if inactive a then (Inr (Inl Unavailable), db) else link_and_touch db p s a False now
       | None \<Rightarrow> if \<not> allow then (Inr (Inl SignupsClosed), db)
                 else (case createAccount db (newId ''acct'' idbuf) (normalizeEmail email) now of
                         Inl e \<Rightarrow> (Inl e, db) | Inr (a, d) \<Rightarrow> link_and_touch d p s a True now))"
    by (simp add: upsertAccountForVerifiedEmail_def truthy_def Let_def)
  have ids: "distinct (map a_id (accounts db))" using assms(1) by (simp add: auth_ok_def)
  show ?thesis
  proof (cases "getAccountByEmail db (normalizeEmail email)")
    case (Some a)
    then have a: "a \<in> set (accounts db)" "a_email a = normalizeEmail email" "a_deleted_at a = None"
      by (auto simp: getAccountByEmail_def dest!: find_SomeD)
    show ?thesis
      using assms(2) up Some None a by (auto split: if_splits dest!: link_and_touch_effect [OF ids a(1,3) None])
  next
    case no_email: None
    show ?thesis
    proof (cases "createAccount db (newId ''acct'' idbuf) (normalizeEmail email) now")
      case (Inl e)
      then show ?thesis using assms(2) up no_email by (auto split: if_splits)
    next
      case (Inr ad)
      then obtain a d where ad: "ad = (a, d)" by (cases ad)
      from Inr ad have d: "accounts d = accounts db @ [a]" "identities d = identities db" "distinct (map a_id (accounts d))"
        "a \<in> set (accounts d)" "a_deleted_at a = None" "a_suspended_at a = None" "a_email a = normalizeEmail email"
        using ids by (auto simp: createAccount_def Let_def split: if_splits)
      have same: "getAccountIdByIdentity d = getAccountIdByIdentity db"
        using d(2) by (intro ext) (simp add: getAccountIdByIdentity_def)
      then have "getAccountIdByIdentity d p s = None" using None by simp
      from link_and_touch_effect [OF d(3-5) this] show ?thesis
        using assms(2) up no_email Inr ad None d same by (fastforce simp: inactive_def truthy_def split: if_splits)
    qed
  qed
qed

text \<open>
  C20: signing in never takes over or invents an account.  With a verified email for a provider's
  subject, the account signed in is active; it is the one this identity was linked to before, or, for
  an identity not linked yet, the one account with that email, and the identity is linked to it from
  then on; no other identity changes.  An account is created only when sign-ups are open and no account
  that is not deleted has the email; every refusal and every failing statement leaves the store as it
  was.
\<close>

theorem account_linking_safe:
  assumes "auth_ok db" and "upsertAccountForVerifiedEmail idbuf db p s email allow now = (res, db')"
  shows "(case res of
            Inr (Inr (a, created)) \<Rightarrow>
              \<not> inactive a \<and> getAccountById db' (a_id a) = Some a
              \<and> (getAccountIdByIdentity db p s = Some (a_id a) \<and> \<not> created
                  \<or> getAccountIdByIdentity db p s = None \<and> a_email a = normalizeEmail email)
              \<and> accounts db' = (if created then accounts db @ [a] else accounts db)
              \<and> (created \<longrightarrow> allow \<and> getAccountByEmail db (normalizeEmail email) = None)
              \<and> (\<forall>q u. getAccountIdByIdentity db' q u =
                        (if (q, u) = (p, s) then Some (a_id a) else getAccountIdByIdentity db q u))
          | _ \<Rightarrow> db' = db)"
  using upsert_outcome [OF assms] .

section \<open>Sessions\<close>

lemma exec_keeps_account: "a \<in> set (accounts db) \<Longrightarrow> a \<in> set (accounts (exec_auth p db))"
  by (cases p) (auto simp: auth_ops Let_def split: sum.splits)

lemma run_keeps_account: "a \<in> set (accounts db) \<Longrightarrow> a \<in> set (accounts (run_auth ops db))"
  by (rule run_auth_invariant [where P = "\<lambda>d. a \<in> set (accounts d)"]) (auto intro: exec_keeps_account)

text \<open>A session row changes only when it is revoked, and then once.\<close>

lemma exec_keeps_session:
  assumes "s \<in> set (sessions db)" and "ss_revoked_at s \<noteq> None \<or> (\<forall>n. p \<noteq> ARevokeSession (ss_hash s) n)"
  shows "s \<in> set (sessions (exec_auth p db))"
  using assms by (cases p) (auto simp: auth_ops Let_def intro: in_update_whereI)

lemma run_keeps_session:
  assumes "s \<in> set (sessions db)"
    and "ss_revoked_at s \<noteq> None \<or> (\<forall>p \<in> set ops. \<forall>n. p \<noteq> ARevokeSession (ss_hash s) n)"
  shows "s \<in> set (sessions (run_auth ops db))"
  using assms by (induction ops arbitrary: db) (auto intro!: exec_keeps_session)

lemma getSession_row:
  assumes "auth_ok db" and "s \<in> set (sessions db)"
  shows "getSession db (ss_hash s) now = (if ss_revoked_at s = None \<and> now < ss_expires_at s then Some s else None)"
proof -
  have *: "u = s" if "u \<in> set (sessions db)" "ss_hash u = ss_hash s" for u
    using assms that by (auto simp: auth_ok_def dest: distinct_map_eq)
  show ?thesis
  proof (cases "ss_revoked_at s = None \<and> now < ss_expires_at s")
    case True
    then show ?thesis using assms(2) * by (auto simp: getSession_def intro!: find_unique)
  next
    case False
    then show ?thesis using * by (auto simp: getSession_def find_None_iff)
  qed
qed

lemma revokeSession_row:
  assumes "auth_ok db" and "s \<in> set (sessions db)" and "ss_revoked_at s = None"
  shows "s\<lparr>ss_revoked_at := Some now\<rparr> \<in> set (sessions (revokeSession db (ss_hash s) now))"
  using assms by (auto simp: revokeSession_def intro!: in_update_whereI2)

lemma ended_session:
  assumes "auth_ok d" "s \<in> set (sessions d)" "ss_revoked_at s = None"
    and "readSessionCookie hs = Some tok" "ss_hash s = sha256Hex sha256 tok"
  shows "resolveSession sha256 (run_auth rest (endSession sha256 d hs off)) hs later = None"
proof -
  define u where "u = s\<lparr>ss_revoked_at := Some (toISOString off)\<rparr>"
  define e where "e = exec_auth (ARevokeSession (ss_hash s) (toISOString off)) d"
  have "u \<in> set (sessions e)" using revokeSession_row [OF assms(1-3)] by (simp add: u_def e_def)
  then have "u \<in> set (sessions (run_auth rest e))" by (rule run_keeps_session) (simp add: u_def)
  moreover have "auth_ok (run_auth rest e)" unfolding e_def by (intro run_auth_ok exec_auth_ok assms(1))
  ultimately have "getSession (run_auth rest e) (ss_hash s) (toISOString later) = None"
    using getSession_row [of "run_auth rest e" u] by (simp add: u_def)
  then show ?thesis using assms(4,5) by (simp add: resolveSession_def endSession_def e_def)
qed

text \<open>
  A session lasts thirty days or until it is ended.  The token a sign-in hands out resolves to the
  account it was started for, whatever else runs, until exactly thirty days later, and from then on to
  nobody; once the session was ended, that token never resolves again, at any time.
\<close>

theorem session_lifetime:
  assumes "auth_ok db" and "startSession sha256 buf db acct now = Inr ((tok, maxAge), db')"
    and "getAccountById db acct = Some a" and "\<not> inactive a"
    and "readSessionCookie hs = Some tok"
    and "four_digit_year (now + 30 * ms_per_day)" and "four_digit_year t"
    and "\<forall>p \<in> set ops. \<forall>n. p \<noteq> ARevokeSession (sha256Hex sha256 tok) n"
  shows "resolveSession sha256 (run_auth ops db') hs t = (if t < now + 30 * ms_per_day then Some a else None)
       \<and> resolveSession sha256 (run_auth rest (endSession sha256 (run_auth ops db') hs off)) hs later = None"
proof -
  let ?h = "sha256Hex sha256 tok"
  define s where "s = \<lparr>ss_hash = ?h, ss_account = acct, ss_expires_at = toISOString (now + 30 * ms_per_day),
                        ss_revoked_at = None\<rparr>"
  define d where "d = run_auth ops db'"
  from assms(2) have new: "createSession db ?h acct (ss_expires_at s) = Inr db'"
    by (auto simp: startSession_def Let_def s_def SESSION_TTL_DAYS_def ms_per_day_def split: sum.splits)
  then have "db' = exec_auth (ACreateSession ?h acct (ss_expires_at s)) db" by simp
  then have ok: "auth_ok d" unfolding d_def by (metis assms(1) run_auth_ok exec_auth_ok)
  from new have "s \<in> set (sessions db')" by (auto simp: createSession_def s_def split: if_splits)
  then have row: "s \<in> set (sessions d)"
    unfolding d_def by (rule run_keeps_session) (use assms(8) in \<open>simp add: s_def\<close>)
  have a: "a \<in> set (accounts db)" "a_id a = acct" "a_deleted_at a = None"
    using assms(1,3) by (auto simp: getAccountById_iff)
  from new have "accounts db' = accounts db" by (auto simp: createSession_def split: if_splits)
  then have "getAccountById d acct = Some a"
    using ok a unfolding d_def by (auto simp: getAccountById_iff intro: run_keeps_account)
  moreover have "toISOString t < ss_expires_at s \<longleftrightarrow> t < now + 30 * ms_per_day"
    using toISOString_less_iff [OF assms(7,6)] by (simp add: s_def)
  moreover have "getSession d ?h (toISOString t) = (if toISOString t < ss_expires_at s then Some s else None)"
    using getSession_row [OF ok row] by (simp add: s_def)
  moreover have "ss_account s = acct" by (simp add: s_def)
  ultimately have "resolveSession sha256 d hs t = (if t < now + 30 * ms_per_day then Some a else None)"
    using assms(4,5) a by (auto simp: resolveSession_def inactive_def)
  moreover have "resolveSession sha256 (run_auth rest (endSession sha256 d hs off)) hs later = None"
    using ended_session [OF ok row] assms(5) by (simp add: s_def)
  ultimately show ?thesis by (simp add: d_def)
qed

section \<open>Examples\<close>

definition ex_links :: "auth_op list" where
  "ex_links =
     [ACreateLoginToken ''k'' ''a@b.co'' ''2026-01-02'', ACreateOAuthState ''k'' PGithub None None ''2026-01-02'',
      ACreateHandoff ''k'' ''ikh'' ''ten'' ''[]'' ''root'' ''2026-01-02'' 0]"

theorem links_work_once_witness:
  "let db = run_auth ex_links empty_auth; now = ''2026-01-01'' in
     fst (consumeLoginToken db ''k'' now) \<noteq> None \<and> fst (consumeOAuthState db ''k'' now) \<noteq> None
     \<and> fst (consumeInvokeKeyHandoff db ''k'' now) \<noteq> None
     \<and> fst (consumeLoginToken (run_auth ex_links (snd (consumeLoginToken db ''k'' now))) ''k'' now) = None
     \<and> fst (consumeOAuthState (run_auth ex_links (snd (consumeOAuthState db ''k'' now))) ''k'' now) = None
     \<and> fst (consumeInvokeKeyHandoff (run_auth ex_links (snd (consumeInvokeKeyHandoff db ''k'' now))) ''k'' now) = None"
proof -
  let ?db = "run_auth ex_links empty_auth" and ?now = "''2026-01-01''"
  have won: "fst (consumeLoginToken ?db ''k'' ?now) \<noteq> None" "fst (consumeOAuthState ?db ''k'' ?now) \<noteq> None"
    "fst (consumeInvokeKeyHandoff ?db ''k'' ?now) \<noteq> None" by code_simp+
  then obtain t s h where "consumeLoginToken ?db ''k'' ?now = (Some t, snd (consumeLoginToken ?db ''k'' ?now))"
    "consumeOAuthState ?db ''k'' ?now = (Some s, snd (consumeOAuthState ?db ''k'' ?now))"
    "consumeInvokeKeyHandoff ?db ''k'' ?now = (Some h, snd (consumeInvokeKeyHandoff ?db ''k'' ?now))"
    by (metis not_None_eq prod.collapse)
  then show ?thesis
    using links_work_once [OF refl, of ex_links "''k''" ?now _ _ ex_links ?now] won by (simp add: Let_def)
qed

definition ex_acct :: account where
  "ex_acct = \<lparr>a_id = ''acct_1'', a_email = ''a@b.co'', a_created_at = ''2026-01-01 00:00:00'', a_suspended_at = None,
     a_suspended_reason = None, a_deleted_at = None\<rparr>"

definition ex_auth :: auth_db where
  "ex_auth = empty_auth\<lparr>accounts := [ex_acct]\<rparr>"

lemma ex_auth_ok: "auth_ok ex_auth"
  by (simp add: auth_ok_def ex_auth_def empty_auth_def ex_acct_def)

text \<open>A new identity with the verified address of an account is linked to that account.\<close>

theorem account_linking_safe_witness:
  "fst (upsertAccountForVerifiedEmail [] ex_auth PGoogle ''1'' '' A@b.co'' False 0) = Inr (Inr (ex_acct, False))
   \<and> getAccountIdByIdentity (snd (upsertAccountForVerifiedEmail [] ex_auth PGoogle ''1'' '' A@b.co'' False 0)) PGoogle ''1''
       = Some ''acct_1''"
proof -
  have *: "fst (upsertAccountForVerifiedEmail [] ex_auth PGoogle ''1'' '' A@b.co'' False 0) = Inr (Inr (ex_acct, False))"
    by code_simp
  then have "upsertAccountForVerifiedEmail [] ex_auth PGoogle ''1'' '' A@b.co'' False 0 =
     (Inr (Inr (ex_acct, False)), snd (upsertAccountForVerifiedEmail [] ex_auth PGoogle ''1'' '' A@b.co'' False 0))"
    by (metis prod.collapse)
  from account_linking_safe [OF ex_auth_ok this] * show ?thesis by (simp add: ex_acct_def)
qed

definition ex_token :: string where
  "ex_token = randomToken [7]"

definition ex_cookie :: headers where
  "ex_cookie = [(''Cookie'', ''theme=dark; '' @ SESSION_COOKIE @ ''='' @ ex_token)]"

theorem session_lifetime_witness:
  "let (tok, db) = (case startSession id [7] ex_auth ''acct_1'' 0 of Inr (t, d) \<Rightarrow> (fst t, d) | Inl _ \<Rightarrow> ([], ex_auth)) in
     tok = ex_token \<and> resolveSession id db ex_cookie ms_per_day = Some ex_acct
     \<and> resolveSession id (endSession id db ex_cookie ms_per_day) ex_cookie ms_per_day = None"
proof -
  have cookie: "readSessionCookie ex_cookie = Some ex_token" by code_simp
  have acct: "getAccountById ex_auth ''acct_1'' = Some ex_acct" "\<not> inactive ex_acct" by code_simp+
  have years: "four_digit_year (0 + 30 * ms_per_day)" "four_digit_year ms_per_day" by code_simp+
  obtain d where d: "startSession id [7] ex_auth ''acct_1'' 0 = Inr ((ex_token, 2592000), d)"
  proof -
    have "startSession id [7] ex_auth ''acct_1'' 0 = Inr ((ex_token, 2592000), projr (createSession ex_auth
        (sha256Hex id ex_token) ''acct_1'' (toISOString 2592000000)))" by code_simp
    then show ?thesis by (rule that)
  qed
  from session_lifetime [OF ex_auth_ok d acct cookie years, of "[]" "[]" ms_per_day ms_per_day] d show ?thesis
    by (simp add: ms_per_day_def)
qed

end
