(* ===== verification/SignIn.thy ===== *)
theory SignIn
  imports Auth Float64
begin

text \<open>
  The sign-in flows over the tables of theory \<open>Auth\<close>: the single sign-on providers
  (\<^verbatim>\<open>src/src/oauth.ts\<close>), acceptance of the policy (\<^verbatim>\<open>src/src/aup.ts\<close>), and the sign-in routes and the
  session gate of \<^verbatim>\<open>src/src/index.ts\<close>.  \<^verbatim>\<open>fetch\<close> is a function from the request to the response,
  \<^const>\<open>None\<close> when the call throws.  \<^verbatim>\<open>new URL\<close> and the parser of form bodies are arguments.
\<close>

type_synonym fetcher = "http_request \<Rightarrow> http_response option"

record sign_in_env =
  CONTROL_PLANE_HOST :: string
  GOOGLE_OAUTH_CLIENT_ID :: "string option"
  GOOGLE_OAUTH_CLIENT_SECRET :: "string option"
  GITHUB_OAUTH_CLIENT_ID :: "string option"
  GITHUB_OAUTH_CLIENT_SECRET :: "string option"
  APPLE_TEAM_ID :: "string option"
  APPLE_SERVICES_ID :: "string option"
  APPLE_PRIVATE_KEY :: "string option"
  CP_RATE_LIMIT :: "(string \<Rightarrow> bool) option"
  POSTERN_SEND_URL :: "string option"
  POSTERN_SEND_TOKEN :: "string option"
  AUP_VERSION :: string
  AUP_URL :: string

definition publicOrigin :: "sign_in_env \<Rightarrow> string" where
  "publicOrigin env = ''https://'' @ CONTROL_PLANE_HOST env"

abbreviation or_empty :: "string option \<Rightarrow> string" where
  "or_empty v \<equiv> case_option [] (\<lambda>s. s) v"

section \<open>Providers\<close>

definition configuredProviders :: "sign_in_env \<Rightarrow> auth_provider list" where
  "configuredProviders env =
     (if truthy (GOOGLE_OAUTH_CLIENT_ID env) \<and> truthy (GOOGLE_OAUTH_CLIENT_SECRET env) then [PGoogle] else [])
     @ (if truthy (GITHUB_OAUTH_CLIENT_ID env) \<and> truthy (GITHUB_OAUTH_CLIENT_SECRET env) then [PGithub] else [])
     @ (if truthy (APPLE_TEAM_ID env) \<and> truthy (APPLE_SERVICES_ID env) \<and> truthy (APPLE_PRIVATE_KEY env)
        then [PApple] else [])"

definition sso_name :: "auth_provider \<Rightarrow> string" where
  "sso_name p = (case p of PGoogle \<Rightarrow> ''google'' | PGithub \<Rightarrow> ''github'' | PApple \<Rightarrow> ''apple'' | PEmail \<Rightarrow> ''email'')"

definition isSsoProvider :: "string \<Rightarrow> auth_provider option" where
  "isSsoProvider v =
     (if v = ''google'' then Some PGoogle else if v = ''github'' then Some PGithub
      else if v = ''apple'' then Some PApple else None)"

definition redirectUri :: "sign_in_env \<Rightarrow> auth_provider \<Rightarrow> string" where
  "redirectUri env p = publicOrigin env @ ''/auth/'' @ sso_name p @ ''/callback''"

text \<open>The authorize URL, the state and the verifier; \<^const>\<open>None\<close> is the throw on the Apple leg.\<close>

definition authorizeUrl ::
  "(8 word list \<Rightarrow> 8 word list) \<Rightarrow> 8 word list \<Rightarrow> 8 word list \<Rightarrow> sign_in_env \<Rightarrow> auth_provider
     \<Rightarrow> (string \<times> string \<times> string option) option" where
  "authorizeUrl sha256 statebuf verbuf env p =
     (let state = randomToken statebuf in
      case p of
        PGoogle \<Rightarrow>
          (let verifier = b64url verbuf
           in Some (''https://accounts.google.com/o/oauth2/v2/auth?'' @ form_encode
                [(''client_id'', or_empty (GOOGLE_OAUTH_CLIENT_ID env)), (''redirect_uri'', redirectUri env PGoogle),
                 (''response_type'', ''code''), (''scope'', ''openid email''), (''state'', state),
                 (''code_challenge'', pkceChallenge sha256 verifier), (''code_challenge_method'', ''S256'')],
                state, Some verifier))
      | PGithub \<Rightarrow>
          Some (''https://github.com/login/oauth/authorize?'' @ form_encode
            [(''client_id'', or_empty (GITHUB_OAUTH_CLIENT_ID env)), (''redirect_uri'', redirectUri env PGithub),
             (''scope'', ''read:user user:email''), (''state'', state)], state, None)
      | _ \<Rightarrow> None)"

definition decodeJwtPayload :: "string \<Rightarrow> json option" where
  "decodeJwtPayload jwt =
     (case split_on (CHR ''.'') jwt of
        [h, payload, sig] \<Rightarrow>
          (let p = map (\<lambda>c. if c = CHR ''-'' then CHR ''+'' else if c = CHR ''_'' then CHR ''/'' else c) payload;
               padded = p @ replicate ((4 - length p mod 4) mod 4) (CHR ''='')
           in case Option.bind (atob padded) JSON_parse of
                None \<Rightarrow> None
              | Some j \<Rightarrow> if is_object j then Some j else None)
      | _ \<Rightarrow> None)"

record verified_identity =
  vi_provider :: auth_provider
  vi_subject :: string
  vi_email :: string

definition google_token_request :: "sign_in_env \<Rightarrow> string \<Rightarrow> string option \<Rightarrow> http_request" where
  "google_token_request env code verifier =
     \<lparr>q_method = ''POST'', q_url = ''https://oauth2.googleapis.com/token'',
      q_headers = [(''content-type'', ''application/x-www-form-urlencoded'')],
      q_body = TextBody (form_encode
        ([(''code'', code), (''client_id'', or_empty (GOOGLE_OAUTH_CLIENT_ID env)),
          (''client_secret'', or_empty (GOOGLE_OAUTH_CLIENT_SECRET env)), (''redirect_uri'', redirectUri env PGoogle),
          (''grant_type'', ''authorization_code'')]
         @ (if truthy verifier then [(''code_verifier'', the verifier)] else [])))\<rparr>"

text \<open>\<^verbatim>\<open>claims.exp * 1000 <= Date.now()\<close>, false for an infinity.\<close>

definition claim_expired :: "jsnum \<Rightarrow> int \<Rightarrow> bool" where
  "claim_expired e now =
     (case e of
        Fin r \<Rightarrow> (case fl64 (r * 1000) of Fin m \<Rightarrow> m \<le> of_int now | NegInf \<Rightarrow> True | _ \<Rightarrow> False)
      | NegInf \<Rightarrow> True | _ \<Rightarrow> False)"

text \<open>The claims on the ID token, and the identity they vouch for.\<close>

definition google_identity :: "sign_in_env \<Rightarrow> json \<Rightarrow> int \<Rightarrow> verified_identity option" where
  "google_identity env claims now =
     (let iss = plain_string (jget claims ''iss''); sub = plain_string (jget claims ''sub'');
          email = plain_string (jget claims ''email'');
          verified = (jget claims ''email_verified'' = Some (JBool True)
                      \<or> jget claims ''email_verified'' = Some (JStr ''true''))
      in if iss \<noteq> ''https://accounts.google.com'' \<and> iss \<noteq> ''accounts.google.com'' then None
         else if jget claims ''aud'' \<noteq> map_option JStr (GOOGLE_OAUTH_CLIENT_ID env) then None
         else (case jget claims ''exp'' of
                 Some (JNum e) \<Rightarrow>
                   if claim_expired e now then None
                   else if sub = [] \<or> email = [] \<or> \<not> verified then None
                   else Some \<lparr>vi_provider = PGoogle, vi_subject = sub, vi_email = email\<rparr>
               | _ \<Rightarrow> None))"

text \<open>\<open>Inl\<close> is an exception; a truthy ID token that is no string has no \<^verbatim>\<open>split\<close>.\<close>

definition exchangeGoogle ::
  "fetcher \<Rightarrow> sign_in_env \<Rightarrow> string \<Rightarrow> string option \<Rightarrow> int \<Rightarrow> db_error + verified_identity option" where
  "exchangeGoogle fetch env code verifier now =
     (case fetch (google_token_request env code verifier) of
        None \<Rightarrow> Inl (Thrown ''fetch failed'')
      | Some res \<Rightarrow>
          if \<not> res_ok res then Inr None
          else (let tok = Option.bind (s_json res) (\<lambda>b. jget b ''id_token'') in
                if \<not> json_truthy tok then Inr None
                else (case tok of
                        Some (JStr jwt) \<Rightarrow>
                          (case decodeJwtPayload jwt of
                             None \<Rightarrow> Inr None | Some claims \<Rightarrow> Inr (google_identity env claims now))
                      | _ \<Rightarrow> Inl (Thrown ''jwt.split is not a function''))))"

definition github_token_request :: "sign_in_env \<Rightarrow> string \<Rightarrow> http_request" where
  "github_token_request env code =
     \<lparr>q_method = ''POST'', q_url = ''https://github.com/login/oauth/access_token'',
      q_headers = [(''content-type'', ''application/x-www-form-urlencoded''), (''accept'', ''application/json'')],
      q_body = TextBody (form_encode
        [(''code'', code), (''client_id'', or_empty (GITHUB_OAUTH_CLIENT_ID env)),
         (''client_secret'', or_empty (GITHUB_OAUTH_CLIENT_SECRET env)), (''redirect_uri'', redirectUri env PGithub)])\<rparr>"

definition github_get :: "string \<Rightarrow> string \<Rightarrow> http_request" where
  "github_get token path =
     \<lparr>q_method = ''GET'', q_url = ''https://api.github.com'' @ path,
      q_headers = [(''authorization'', ''Bearer '' @ token), (''accept'', ''application/vnd.github+json''),
                   (''user-agent'', ''vivijure-control-plane'')],
      q_body = NoBody\<rparr>"

text \<open>\<^verbatim>\<open>emails.find(...)\<close>; reading a property of null throws.\<close>

fun primary_email :: "json list \<Rightarrow> db_error + string option" where
  "primary_email [] = Inr None"
| "primary_email (e # es) =
     (if e = JNull then Inl (Thrown ''Cannot read properties of null'')
      else if json_truthy (jget e ''primary'') \<and> json_truthy (jget e ''verified'') then
        (case jget e ''email'' of Some (JStr m) \<Rightarrow> Inr (Some m) | _ \<Rightarrow> primary_email es)
      else primary_email es)"

definition github_identity :: "(jsnum \<Rightarrow> string) \<Rightarrow> jsnum \<Rightarrow> json \<Rightarrow> db_error + verified_identity option" where
  "github_identity num i emails =
     (case emails of
        JArr es \<Rightarrow>
          (case primary_email es of
             Inl e \<Rightarrow> Inl e
           | Inr m \<Rightarrow> if \<not> truthy m then Inr None
                     else Inr (Some \<lparr>vi_provider = PGithub, vi_subject = number_string num i, vi_email = the m\<rparr>))
      | _ \<Rightarrow> Inr None)"

definition ok_json_of :: "fetcher \<Rightarrow> http_request \<Rightarrow> db_error + json option" where
  "ok_json_of fetch q =
     (case fetch q of None \<Rightarrow> Inl (Thrown ''fetch failed'')
      | Some res \<Rightarrow> Inr (if res_ok res then s_json res else None))"

definition exchangeGithub ::
  "(jsnum \<Rightarrow> string) \<Rightarrow> fetcher \<Rightarrow> sign_in_env \<Rightarrow> string \<Rightarrow> db_error + verified_identity option" where
  "exchangeGithub num fetch env code =
     (case ok_json_of fetch (github_token_request env code) of
        Inl e \<Rightarrow> Inl e
      | Inr b \<Rightarrow>
          (let tok = Option.bind b (\<lambda>j. jget j ''access_token'') in
           if \<not> json_truthy tok then Inr None
           else (let token = js_string num (the tok) in
             case ok_json_of fetch (github_get token ''/user'') of
               Inl e \<Rightarrow> Inl e
             | Inr u \<Rightarrow>
                 (case Option.bind u (\<lambda>j. jget j ''id'') of
                    Some (JNum i) \<Rightarrow>
                      (case ok_json_of fetch (github_get token ''/user/emails'') of
                         Inl e \<Rightarrow> Inl e
                       | Inr None \<Rightarrow> Inr None
                       | Inr (Some emails) \<Rightarrow> github_identity num i emails)
                  | _ \<Rightarrow> Inr None))))"

definition exchangeCode ::
  "(jsnum \<Rightarrow> string) \<Rightarrow> fetcher \<Rightarrow> sign_in_env \<Rightarrow> auth_provider \<Rightarrow> string \<Rightarrow> string option \<Rightarrow> int
     \<Rightarrow> db_error + verified_identity option" where
  "exchangeCode num fetch env p code verifier now =
     (case p of PGoogle \<Rightarrow> exchangeGoogle fetch env code verifier now
      | PGithub \<Rightarrow> exchangeGithub num fetch env code | _ \<Rightarrow> Inr None)"

section \<open>The routes\<close>

definition redirectTo :: "sign_in_env \<Rightarrow> string \<Rightarrow> headers \<Rightarrow> reply" where
  "redirectTo env path hs =
     \<lparr>r_status = 302, r_headers = (''location'', publicOrigin env @ path) # hs, r_body = JNull\<rparr>"

text \<open>What \<^verbatim>\<open>new URL(raw, base)\<close> gives of a URL: origin, pathname, search and hash.\<close>

type_synonym url_parser = "string \<Rightarrow> string \<Rightarrow> (string \<times> string \<times> string \<times> string) option"

definition safeSameOriginRedirectPath :: "url_parser \<Rightarrow> string option \<Rightarrow> string \<Rightarrow> string option" where
  "safeSameOriginRedirectPath URL raw origin =
     (if \<not> truthy raw then None
      else (let r = the raw in
            if \<not> starts_with r ''/'' \<or> CHR 0x5C \<in> set r \<or> str_includes r ''//'' then None
            else (case URL r origin of
                    None \<Rightarrow> None
                  | Some (o', path, search, hash) \<Rightarrow> if o' \<noteq> origin then None else Some (path @ search @ hash))))"

definition accepted :: reply where
  "accepted = json_reply (JObj [(''ok'', JBool True)]) 202 []"

text \<open>The reply, the mail asked for if any, and the store after the background send.\<close>

definition emailStart ::
  "(jsnum \<Rightarrow> string) \<Rightarrow> (8 word list \<Rightarrow> 8 word list) \<Rightarrow> 8 word list \<Rightarrow> sign_in_env \<Rightarrow> auth_db \<Rightarrow> json option \<Rightarrow> int
     \<Rightarrow> reply \<times> mail option \<times> auth_db" where
  "emailStart num sha256 buf env db body now =
     (let email = normalizeEmail (string_or_empty num (Option.bind body (\<lambda>b. jget b ''email''))) in
      if \<not> looksLikeEmail email then (accepted, None, db)
      else if (case CP_RATE_LIMIT env of
                 Some limit \<Rightarrow> \<not> limit (''email-start:'' @ email)
               | None \<Rightarrow> truthy (POSTERN_SEND_URL env) \<and> truthy (POSTERN_SEND_TOKEN env))
      then (accepted, None, db)
      else (let existing = getAccountByEmail db email in
            if existing = None \<and> \<not> settingEnabled (getSetting db ''signups_enabled'') then (accepted, None, db)
            else if (case existing of Some a \<Rightarrow> inactive a | None \<Rightarrow> False) then (accepted, None, db)
            else (case sendMagicLink sha256 buf db (publicOrigin env) email now of
                    Inl _ \<Rightarrow> (accepted, None, db)
                  | Inr (m, db') \<Rightarrow> (accepted, Some m, db'))))"

text \<open>A form body: the fields \<^verbatim>\<open>request.formData()\<close> gives, \<^const>\<open>None\<close> for a file.\<close>

type_synonym form = "(string \<times> string option) list option"

definition magicLinkTokenFromPost :: "headers \<Rightarrow> form \<Rightarrow> string" where
  "magicLinkTokenFromPost hs form =
     (let ct = or_empty (header_get hs ''content-type'') in
      if \<not> str_includes ct ''application/x-www-form-urlencoded'' \<and> \<not> str_includes ct ''multipart/form-data'' then []
      else (case form of None \<Rightarrow> []
            | Some kvs \<Rightarrow> (case map_of kvs ''token'' of Some (Some t) \<Rightarrow> t | _ \<Rightarrow> [])))"

definition session_headers :: "sign_in_env \<Rightarrow> string \<Rightarrow> int \<Rightarrow> headers" where
  "session_headers env token maxAge =
     [(''set-cookie'', sessionCookie token maxAge (sessionCookieDomain (CONTROL_PLANE_HOST env)))]"

text \<open>An exception ends in the handler around the router.\<close>

definition internal_error :: reply where
  "internal_error = err ''internal_error'' 500 []"

definition open_session ::
  "(8 word list \<Rightarrow> 8 word list) \<Rightarrow> 8 word list \<Rightarrow> sign_in_env \<Rightarrow> auth_db \<Rightarrow> account \<Rightarrow> string \<Rightarrow> int \<Rightarrow> reply \<times> auth_db" where
  "open_session sha256 sessbuf env db a path now =
     (case startSession sha256 sessbuf db (a_id a) now of
        Inl _ \<Rightarrow> (internal_error, db)
      | Inr ((token, maxAge), db') \<Rightarrow> (redirectTo env path (session_headers env token maxAge), db'))"

definition email_callback_post ::
  "(8 word list \<Rightarrow> 8 word list) \<Rightarrow> 8 word list \<Rightarrow> 8 word list \<Rightarrow> sign_in_env \<Rightarrow> auth_db \<Rightarrow> headers \<Rightarrow> form \<Rightarrow> int
     \<Rightarrow> reply \<times> auth_db" where
  "email_callback_post sha256 idbuf sessbuf env db hs form now =
     (let origin = header_get hs ''origin'' in
      if truthy origin \<and> origin \<noteq> Some (publicOrigin env) then (err ''bad_origin'' 403 [], db)
      else (let token = magicLinkTokenFromPost hs form in
            if token = [] then (redirectTo env ''/?error=link_invalid'' [], db)
            else (case redeemMagicLink sha256 idbuf db token (settingEnabled (getSetting db ''signups_enabled'')) now of
                    (Inl _, db') \<Rightarrow> (internal_error, db')
                  | (Inr (Inl SignupsClosed), db') \<Rightarrow> (redirectTo env ''/?error=signups_closed'' [], db')
                  | (Inr (Inl Unavailable), db') \<Rightarrow> (redirectTo env ''/?error=link_invalid'' [], db')
                  | (Inr (Inr (a, _)), db') \<Rightarrow> open_session sha256 sessbuf env db' a ''/'' now)))"

definition beginSso ::
  "url_parser \<Rightarrow> (8 word list \<Rightarrow> 8 word list) \<Rightarrow> 8 word list \<Rightarrow> 8 word list \<Rightarrow> string \<Rightarrow> string option \<Rightarrow> sign_in_env \<Rightarrow> auth_db
     \<Rightarrow> int \<Rightarrow> reply \<times> auth_db" where
  "beginSso URL sha256 statebuf verbuf provider redirect_param env db now =
     (case isSsoProvider provider of
        None \<Rightarrow> (err ''unknown_provider'' 404 [], db)
      | Some p \<Rightarrow>
          if p \<notin> set (configuredProviders env) then (err ''unknown_provider'' 404 [], db)
          else (let redirect = safeSameOriginRedirectPath URL redirect_param (publicOrigin env) in
                case authorizeUrl sha256 statebuf verbuf env p of
                  None \<Rightarrow> (internal_error, db)
                | Some (authUrl, state, verifier) \<Rightarrow>
                    (case createOAuthState db state p verifier redirect (toISOString (now + 10 * 60 * 1000)) of
                       Inl _ \<Rightarrow> (internal_error, db)
                     | Inr db' \<Rightarrow> (\<lparr>r_status = 302, r_headers = [(''location'', authUrl)], r_body = JNull\<rparr>, db'))))"

definition finishSso ::
  "(jsnum \<Rightarrow> string) \<Rightarrow> fetcher \<Rightarrow> (8 word list \<Rightarrow> 8 word list) \<Rightarrow> 8 word list \<Rightarrow> 8 word list \<Rightarrow> string \<Rightarrow> string option
     \<Rightarrow> string option \<Rightarrow> sign_in_env \<Rightarrow> auth_db \<Rightarrow> int \<Rightarrow> reply \<times> auth_db" where
  "finishSso num fetch sha256 idbuf sessbuf provider code state env db now =
     (case isSsoProvider provider of
        None \<Rightarrow> (err ''unknown_provider'' 404 [], db)
      | Some p \<Rightarrow>
          if p \<notin> set (configuredProviders env) then (err ''unknown_provider'' 404 [], db)
          else if \<not> truthy code \<or> \<not> truthy state then (redirectTo env ''/?error=sso_failed'' [], db)
          else (case consumeOAuthState db (the state) (toISOString now) of
             (None, db1) \<Rightarrow> (redirectTo env ''/?error=sso_failed'' [], db1)
           | (Some row, db1) \<Rightarrow>
               if os_provider row \<noteq> p then (redirectTo env ''/?error=sso_failed'' [], db1)
               else (case exchangeCode num fetch env p (the code) (os_verifier row) now of
                  Inl _ \<Rightarrow> (internal_error, db1)
                | Inr None \<Rightarrow> (redirectTo env ''/?error=sso_unverified_email'' [], db1)
                | Inr (Some i) \<Rightarrow>
                    (case upsertAccountForVerifiedEmail idbuf db1 (vi_provider i) (vi_subject i) (vi_email i)
                            (settingEnabled (getSetting db1 ''signups_enabled'')) now of
                       (Inl _, db2) \<Rightarrow> (internal_error, db2)
                     | (Inr (Inl SignupsClosed), db2) \<Rightarrow> (redirectTo env ''/?error=signups_closed'' [], db2)
                     | (Inr (Inl Unavailable), db2) \<Rightarrow> (redirectTo env ''/?error=account_unavailable'' [], db2)
                     | (Inr (Inr (a, _)), db2) \<Rightarrow>
                         open_session sha256 sessbuf env db2 a (case os_redirect_to row of None \<Rightarrow> ''/'' | Some r \<Rightarrow> r) now))))"

definition logout_route ::
  "(8 word list \<Rightarrow> 8 word list) \<Rightarrow> sign_in_env \<Rightarrow> auth_db \<Rightarrow> headers \<Rightarrow> int \<Rightarrow> reply \<times> auth_db" where
  "logout_route sha256 env db hs now =
     (\<lparr>r_status = 204,
       r_headers = [(''set-cookie'', clearedSessionCookie (sessionCookieDomain (CONTROL_PLANE_HOST env)))],
       r_body = JNull\<rparr>,
      endSession sha256 db hs now)"

section \<open>The policy gate\<close>

definition fetchAupSha256 :: "fetcher \<Rightarrow> (8 word list \<Rightarrow> 8 word list) \<Rightarrow> string \<Rightarrow> string option" where
  "fetchAupSha256 fetch sha256 url =
     (case fetch \<lparr>q_method = ''GET'', q_url = url, q_headers = [], q_body = NoBody\<rparr> of
        None \<Rightarrow> None
      | Some res \<Rightarrow> if res_ok res then Some (sha256Hex sha256 (s_text res)) else None)"

definition isAupExempt :: "string \<Rightarrow> bool" where
  "isAupExempt path \<longleftrightarrow> path \<in> set [''/api/me'', ''/api/aup/current'', ''/api/aup/accept'', ''/api/auth/logout'']"

datatype aup_refusal = VersionStale string | Unverifiable

definition acceptAup ::
  "(8 word list \<Rightarrow> 8 word list) \<Rightarrow> auth_db \<Rightarrow> string \<Rightarrow> string \<Rightarrow> string \<Rightarrow> headers \<Rightarrow> string option \<Rightarrow> int
     \<Rightarrow> db_error + (aup_refusal option \<times> auth_db)" where
  "acceptAup sha256 db acct submitted current hs sha now =
     (if submitted \<noteq> current then Inr (Some (VersionStale current), db)
      else if \<not> truthy sha then Inr (Some Unverifiable, db)
      else (let ip = header_get hs ''cf-connecting-ip''; ua = header_get hs ''user-agent'' in
            case recordAupAcceptance db acct current (the sha)
                   (if truthy ip then Some (sha256Hex sha256 (the ip)) else None)
                   (if truthy ua then Some (take 256 (the ua)) else None) now of
              Inl e \<Rightarrow> Inl e | Inr db' \<Rightarrow> Inr (None, db')))"

datatype gate_result = Replied reply | Me account | Pass account

text \<open>What stands before the account and tenant routes.\<close>

definition api_gate ::
  "(jsnum \<Rightarrow> string) \<Rightarrow> fetcher \<Rightarrow> (8 word list \<Rightarrow> 8 word list) \<Rightarrow> sign_in_env \<Rightarrow> auth_db \<Rightarrow> headers \<Rightarrow> string \<Rightarrow> string
     \<Rightarrow> json option \<Rightarrow> int \<Rightarrow> gate_result \<times> auth_db" where
  "api_gate num fetch sha256 env db hs meth path body now =
     (case resolveSession sha256 db hs now of
        None \<Rightarrow> (Replied (err ''unauthorized'' 401 []), db)
      | Some a \<Rightarrow>
          if meth = ''GET'' \<and> path = ''/api/me'' then (Me a, db)
          else if meth = ''POST'' \<and> path = ''/api/aup/accept'' then
            (case acceptAup sha256 db (a_id a) (string_or_empty num (Option.bind body (\<lambda>b. jget b ''version'')))
                    (AUP_VERSION env) hs (fetchAupSha256 fetch sha256 (AUP_URL env)) now of
               Inl _ \<Rightarrow> (Replied internal_error, db)
             | Inr (Some Unverifiable, db') \<Rightarrow>
                 (Replied (err ''aup_unverifiable'' 503
                   [(''message'', JStr ''we could not verify the policy text; nothing was recorded'')]), db')
             | Inr (Some (VersionStale c), db') \<Rightarrow> (Replied (err ''aup_version_stale'' 409 [(''current'', JStr c)]), db')
             | Inr (None, db') \<Rightarrow> (Replied \<lparr>r_status = 204, r_headers = [], r_body = JNull\<rparr>, db'))
          else if \<not> isAupExempt path \<and> \<not> hasAcceptedAup db (a_id a) (AUP_VERSION env) then
            (Replied (err ''aup_required'' 403 [(''version'', JStr (AUP_VERSION env))]), db)
          else (Pass a, db))"

section \<open>What a provider vouched for\<close>

text \<open>The answers behind an identity: what Google's ID token claims, and what GitHub lists.\<close>

definition google_vouches :: "fetcher \<Rightarrow> sign_in_env \<Rightarrow> string \<Rightarrow> string option \<Rightarrow> string \<Rightarrow> string \<Rightarrow> bool" where
  "google_vouches fetch env code verifier subject email \<longleftrightarrow>
     (\<exists>res jwt claims. fetch (google_token_request env code verifier) = Some res \<and> res_ok res
        \<and> Option.bind (s_json res) (\<lambda>b. jget b ''id_token'') = Some (JStr jwt) \<and> decodeJwtPayload jwt = Some claims
        \<and> jget claims ''aud'' = map_option JStr (GOOGLE_OAUTH_CLIENT_ID env)
        \<and> jget claims ''sub'' = Some (JStr subject) \<and> jget claims ''email'' = Some (JStr email)
        \<and> jget claims ''email_verified'' \<in> {Some (JBool True), Some (JStr ''true'')})"

definition github_vouches :: "(jsnum \<Rightarrow> string) \<Rightarrow> fetcher \<Rightarrow> string \<Rightarrow> string \<Rightarrow> bool" where
  "github_vouches num fetch subject email \<longleftrightarrow>
     (\<exists>token u i es e. ok_json_of fetch (github_get token ''/user'') = Inr (Some u) \<and> jget u ''id'' = Some (JNum i)
        \<and> subject = number_string num i
        \<and> ok_json_of fetch (github_get token ''/user/emails'') = Inr (Some (JArr es)) \<and> e \<in> set es
        \<and> json_truthy (jget e ''primary'') \<and> json_truthy (jget e ''verified'') \<and> jget e ''email'' = Some (JStr email))"

definition vouches ::
  "(jsnum \<Rightarrow> string) \<Rightarrow> fetcher \<Rightarrow> sign_in_env \<Rightarrow> auth_provider \<Rightarrow> string \<Rightarrow> string option \<Rightarrow> verified_identity \<Rightarrow> bool" where
  "vouches num fetch env p code verifier i \<longleftrightarrow> vi_provider i = p \<and>
     (case p of PGoogle \<Rightarrow> google_vouches fetch env code verifier (vi_subject i) (vi_email i)
      | PGithub \<Rightarrow> github_vouches num fetch (vi_subject i) (vi_email i) | _ \<Rightarrow> False)"

lemma plain_stringD: "plain_string v = s \<Longrightarrow> s \<noteq> [] \<Longrightarrow> v = Some (JStr s)"
  by (auto simp: plain_string_def split: option.splits json.splits)

lemma google_identityE:
  assumes "google_identity env claims now = Some i"
  shows "vi_provider i = PGoogle \<and> jget claims ''aud'' = map_option JStr (GOOGLE_OAUTH_CLIENT_ID env)
    \<and> jget claims ''sub'' = Some (JStr (vi_subject i)) \<and> jget claims ''email'' = Some (JStr (vi_email i))
    \<and> jget claims ''email_verified'' \<in> {Some (JBool True), Some (JStr ''true'')}"
  using assms by (auto simp: google_identity_def Let_def split: if_splits option.splits json.splits intro: plain_stringD)

lemma exchangeGoogle_vouched:
  assumes "exchangeGoogle fetch env code verifier now = Inr (Some i)"
  shows "vouches num fetch env PGoogle code verifier i"
proof -
  from assms obtain res jwt claims where *: "fetch (google_token_request env code verifier) = Some res" "res_ok res"
      "Option.bind (s_json res) (\<lambda>b. jget b ''id_token'') = Some (JStr jwt)" "decodeJwtPayload jwt = Some claims"
      "google_identity env claims now = Some i"
    by (auto simp: exchangeGoogle_def Let_def split: option.splits if_splits json.splits)
  from google_identityE [OF *(5)] * show ?thesis unfolding vouches_def google_vouches_def by auto
qed

lemma primary_email_listed:
  "primary_email es = Inr (Some m) \<Longrightarrow>
     \<exists>e \<in> set es. json_truthy (jget e ''primary'') \<and> json_truthy (jget e ''verified'') \<and> jget e ''email'' = Some (JStr m)"
  by (induction es) (auto split: if_splits option.splits json.splits)

lemma exchangeGithub_vouched:
  assumes "exchangeGithub num fetch env code = Inr (Some i)"
  shows "vouches num fetch env PGithub code verifier i"
proof -
  from assms obtain token u n emails where *: "ok_json_of fetch (github_get token ''/user'') = Inr (Some u)"
      "jget u ''id'' = Some (JNum n)" "ok_json_of fetch (github_get token ''/user/emails'') = Inr (Some emails)"
      "github_identity num n emails = Inr (Some i)"
    by (auto simp: exchangeGithub_def Let_def bind_eq_Some_conv split: option.splits if_splits json.splits sum.splits)
  from *(4) obtain es m where "emails = JArr es" "primary_email es = Inr (Some m)"
      "i = \<lparr>vi_provider = PGithub, vi_subject = number_string num n, vi_email = m\<rparr>"
    by (fastforce simp: github_identity_def truthy_def split: json.splits sum.splits if_splits)
  with * primary_email_listed show ?thesis unfolding vouches_def github_vouches_def by fastforce
qed

lemma exchangeCode_vouched:
  assumes "exchangeCode num fetch env p code verifier now = Inr (Some i)"
  shows "vouches num fetch env p code verifier i"
  using assms exchangeGoogle_vouched exchangeGithub_vouched
  by (auto simp: exchangeCode_def split: auth_provider.splits)

section \<open>Who gets a session\<close>

lemma upsert_keeps_sessions: "sessions (snd (upsertAccountForVerifiedEmail idbuf db p s email allow now)) = sessions db"
  by (auto simp: upsertAccountForVerifiedEmail_def link_and_touch_def account_ops Let_def
      split: option.splits if_splits sum.splits)

lemma open_session_cases:
  assumes "open_session sha256 sessbuf env db a path now = (r, db')"
  obtains "sessions db' = sessions db"
  | s where "sessions db' = sessions db @ [s]" "ss_account s = a_id a" "ss_hash s = sha256Hex sha256 (randomToken sessbuf)"
  using assms
  by (auto simp: open_session_def startSession_def createSession_def Let_def split: sum.splits if_splits)

text \<open>The account a session row was added for, and how a verified email leads to it.\<close>

definition session_opened ::
  "(8 word list \<Rightarrow> 8 word list) \<Rightarrow> 8 word list \<Rightarrow> auth_db \<Rightarrow> auth_db \<Rightarrow> auth_provider \<Rightarrow> string \<Rightarrow> string \<Rightarrow> bool" where
  "session_opened sha256 sessbuf db db' p subject email \<longleftrightarrow>
     (\<exists>s a. sessions db' = sessions db @ [s] \<and> ss_hash s = sha256Hex sha256 (randomToken sessbuf) \<and> ss_account s = a_id a
        \<and> \<not> inactive a
        \<and> (getAccountIdByIdentity db p subject = Some (a_id a)
            \<or> getAccountIdByIdentity db p subject = None \<and> a_email a = normalizeEmail email))"

lemma upsert_then_session:
  assumes "auth_ok db" "upsertAccountForVerifiedEmail idbuf db p s email allow now = (Inr (Inr (a, c)), db')"
    and "open_session sha256 sessbuf env db' a path now = (r, db'')"
  shows "sessions db'' = sessions db \<or> session_opened sha256 sessbuf db db'' p s email"
proof -
  have "sessions db' = sessions db" using upsert_keeps_sessions [of idbuf db p s email allow now] assms(2) by simp
  moreover have "\<not> inactive a \<and> (getAccountIdByIdentity db p s = Some (a_id a)
      \<or> getAccountIdByIdentity db p s = None \<and> a_email a = normalizeEmail email)"
    using upsert_outcome [OF assms(1,2)] by auto
  ultimately show ?thesis
    using open_session_cases [OF assms(3)] unfolding session_opened_def by metis
qed

lemma consume_frame:
  "sessions (snd (consumeOAuthState db k now)) = sessions db" "sessions (snd (consumeLoginToken db k now)) = sessions db"
  by (simp_all add: spending)

lemma consume_ok:
  assumes "auth_ok db"
  shows "auth_ok (snd (consumeOAuthState db k now))" "auth_ok (snd (consumeLoginToken db k now))"
  using exec_auth_ok [OF assms, of "AConsumeOAuthState k now"] exec_auth_ok [OF assms, of "AConsumeLoginToken k now"]
  by simp_all

lemma sso_session:
  assumes "auth_ok db" and "finishSso num fetch sha256 idbuf sessbuf provider code state env db now = (r, db')"
    and "sessions db' \<noteq> sessions db"
  shows "\<exists>p row mid i. isSsoProvider provider = Some p \<and> p \<in> set (configuredProviders env)
           \<and> consumeOAuthState db (the state) (toISOString now) = (Some row, mid) \<and> os_provider row = p
           \<and> vouches num fetch env p (the code) (os_verifier row) i
           \<and> session_opened sha256 sessbuf mid db' p (vi_subject i) (vi_email i)"
proof -
  obtain taken mid where c: "consumeOAuthState db (the state) (toISOString now) = (taken, mid)" by fastforce
  have mid: "sessions mid = sessions db" "auth_ok mid"
    using consume_frame(1) [of db "the state" "toISOString now"] consume_ok(1) [OF assms(1), of "the state" "toISOString now"] c by simp_all
  let ?up = "\<lambda>i. upsertAccountForVerifiedEmail idbuf mid (vi_provider i) (vi_subject i) (vi_email i)
        (settingEnabled (getSetting mid ''signups_enabled'')) now"
  from assms(2,3) c mid obtain p row i where p: "isSsoProvider provider = Some p" "p \<in> set (configuredProviders env)"
      "taken = Some row" "os_provider row = p"
      "exchangeCode num fetch env p (the code) (os_verifier row) now = Inr (Some i)"
    and rest: "(case ?up i of (Inl _, d) \<Rightarrow> (internal_error, d)
         | (Inr (Inl SignupsClosed), d) \<Rightarrow> (redirectTo env ''/?error=signups_closed'' [], d)
         | (Inr (Inl Unavailable), d) \<Rightarrow> (redirectTo env ''/?error=account_unavailable'' [], d)
         | (Inr (Inr (a, _)), d) \<Rightarrow>
             open_session sha256 sessbuf env d a (case os_redirect_to row of None \<Rightarrow> ''/'' | Some x \<Rightarrow> x) now) = (r, db')"
    unfolding finishSso_def by (auto split: option.splits if_splits sum.splits)
  from rest upsert_keeps_sessions [of idbuf mid] assms(3) mid(1) obtain a cr d
    where "?up i = (Inr (Inr (a, cr)), d)"
      "open_session sha256 sessbuf env d a (case os_redirect_to row of None \<Rightarrow> ''/'' | Some x \<Rightarrow> x) now = (r, db')"
    by (auto split: prod.splits sum.splits upsert_refusal.splits) (metis snd_conv)+
  from upsert_then_session [OF mid(2) this] assms(3) mid(1)
  have "session_opened sha256 sessbuf mid db' (vi_provider i) (vi_subject i) (vi_email i)" by simp
  with p c exchangeCode_vouched [OF p(5)] show ?thesis by (auto simp: vouches_def)
qed

lemma mail_session:
  assumes "auth_ok db" and "email_callback_post sha256 idbuf sessbuf env db hs form now = (r, db')"
    and "sessions db' \<noteq> sessions db"
  shows "\<exists>row mid. consumeLoginToken db (sha256Hex sha256 (magicLinkTokenFromPost hs form)) (toISOString now) = (Some row, mid)
           \<and> session_opened sha256 sessbuf mid db' PEmail (lt_email row) (lt_email row)"
proof -
  let ?k = "sha256Hex sha256 (magicLinkTokenFromPost hs form)"
  obtain taken mid where c: "consumeLoginToken db ?k (toISOString now) = (taken, mid)" by fastforce
  have mid: "sessions mid = sessions db" "auth_ok mid"
    using consume_frame(2) [of db ?k "toISOString now"] consume_ok(2) [OF assms(1), of ?k "toISOString now"] c by simp_all
  let ?up = "\<lambda>row. upsertAccountForVerifiedEmail idbuf mid PEmail (lt_email row) (lt_email row)
        (settingEnabled (getSetting db ''signups_enabled'')) now"
  from assms(2,3) c mid obtain row where t: "taken = Some row"
    and rest: "(case ?up row of (Inl _, d) \<Rightarrow> (internal_error, d)
         | (Inr (Inl SignupsClosed), d) \<Rightarrow> (redirectTo env ''/?error=signups_closed'' [], d)
         | (Inr (Inl Unavailable), d) \<Rightarrow> (redirectTo env ''/?error=link_invalid'' [], d)
         | (Inr (Inr (a, _)), d) \<Rightarrow> open_session sha256 sessbuf env d a ''/'' now) = (r, db')"
    unfolding email_callback_post_def redeemMagicLink_def by (auto simp: Let_def split: option.splits if_splits)
  from rest upsert_keeps_sessions [of idbuf mid] assms(3) mid(1) obtain a cr d
    where "?up row = (Inr (Inr (a, cr)), d)" "open_session sha256 sessbuf env d a ''/'' now = (r, db')"
    by (auto split: prod.splits sum.splits upsert_refusal.splits) (metis snd_conv)+
  from upsert_then_session [OF mid(2) this] assms(3) mid(1) t c show ?thesis by auto
qed

text \<open>
  C7: a session is opened only for a verified email.  A provider's callback adds no session, or it adds
  exactly one, and then the state in the request was outstanding for that very, configured provider and
  is spent by this call, the provider vouched for the identity with a verified email, and the session
  is for an active account that this identity, or else that email, leads to.  The same holds for the
  mailed link: its token was outstanding, and the account is the one its address leads to.
\<close>

theorem session_only_for_verified_email:
  assumes "auth_ok db"
  shows "(finishSso num fetch sha256 idbuf sessbuf provider code state env db now = (r, db') \<longrightarrow>
           sessions db' = sessions db
           \<or> (\<exists>p row mid i. isSsoProvider provider = Some p \<and> p \<in> set (configuredProviders env)
                \<and> consumeOAuthState db (the state) (toISOString now) = (Some row, mid) \<and> os_provider row = p
                \<and> vouches num fetch env p (the code) (os_verifier row) i
                \<and> session_opened sha256 sessbuf mid db' p (vi_subject i) (vi_email i)))
       \<and> (email_callback_post sha256 idbuf sessbuf env db hs form now = (r, db') \<longrightarrow>
           sessions db' = sessions db
           \<or> (\<exists>row mid. consumeLoginToken db (sha256Hex sha256 (magicLinkTokenFromPost hs form)) (toISOString now) = (Some row, mid)
                \<and> session_opened sha256 sessbuf mid db' PEmail (lt_email row) (lt_email row)))"
  using sso_session [OF assms, of num fetch sha256 idbuf sessbuf provider code state env now r db']
    mail_session [OF assms, of sha256 idbuf sessbuf env hs form now r db'] by argo

section \<open>Asking for a link\<close>

lemma str_includes_prefix: "starts_with s w \<Longrightarrow> str_includes s w"
  by (cases s) (auto simp: starts_with_def)

lemma str_includes_mid: "str_includes (p @ w @ q) w"
  by (induction p) (auto intro: str_includes_prefix)

lemma magicLinkMail_carries:
  assumes "magicLinkMail (orig @ ''/auth/email/callback?token='' @ w) k = (subject, txt)"
  shows "str_includes txt w"
proof -
  let ?nl = "[CHR 0x0A]"
  have "txt = (''Here is your sign-in link for vivijure studio:'' @ ?nl @ ?nl @ orig @ ''/auth/email/callback?token='') @ w
      @ ?nl @ ?nl @ ''It works once and expires in '' @ show_int k @ '' minutes.'' @ ?nl
      @ ''If you did not ask for this link, you can ignore this mail; nothing was created.''"
    using assms by (simp add: magicLinkMail_def)
  then show ?thesis by (simp only: str_includes_mid)
qed

text \<open>
  Asking for a sign-in link tells nothing about accounts.  The answer is the same for every request,
  and a mail goes out only to a well-formed address, within the rate limit where there is one, that
  belongs to an active account or, while sign-ups are open, to nobody; it carries the token of the one
  row that was added.
\<close>

theorem email_start_uniform:
  assumes "emailStart num sha256 buf env db body now = (r, m, db')"
  shows "r = accepted
    \<and> (case m of
          None \<Rightarrow> db' = db
        | Some mail \<Rightarrow>
            looksLikeEmail (m_to mail)
            \<and> (case CP_RATE_LIMIT env of Some limit \<Rightarrow> limit (''email-start:'' @ m_to mail) | None \<Rightarrow> True)
            \<and> (case getAccountByEmail db (m_to mail) of
                  Some a \<Rightarrow> \<not> inactive a | None \<Rightarrow> settingEnabled (getSetting db ''signups_enabled''))
            \<and> str_includes (m_text mail) (randomToken buf)
            \<and> db' = db\<lparr>login_tokens := login_tokens db @
                 [\<lparr>lt_hash = sha256Hex sha256 (randomToken buf), lt_email = m_to mail,
                   lt_expires_at = toISOString (now + LOGIN_TTL_MINUTES * 60 * 1000), lt_consumed_at = None\<rparr>]\<rparr>)"
  using assms magicLinkMail_carries
  by (auto simp: emailStart_def sendMagicLink_def createLoginToken_def Let_def
      split: if_splits option.splits sum.splits prod.splits)

section \<open>Examples\<close>

definition ex_env :: sign_in_env where
  "ex_env = \<lparr>CONTROL_PLANE_HOST = ''studio.test'', GOOGLE_OAUTH_CLIENT_ID = None, GOOGLE_OAUTH_CLIENT_SECRET = None,
     GITHUB_OAUTH_CLIENT_ID = Some ''id'', GITHUB_OAUTH_CLIENT_SECRET = Some ''sec'', APPLE_TEAM_ID = None,
     APPLE_SERVICES_ID = None, APPLE_PRIVATE_KEY = None, CP_RATE_LIMIT = None, POSTERN_SEND_URL = None,
     POSTERN_SEND_TOKEN = None, AUP_VERSION = ''1'', AUP_URL = ''https://studio.test/aup''\<rparr>"

text \<open>A GitHub that knows one user, whose profile lists an unverified address first.\<close>

definition ex_github :: fetcher where
  "ex_github q =
     (let ok = (\<lambda>j. Some \<lparr>s_status = 200, s_text = [], s_json = Some j\<rparr>) in
      if q_url q = ''https://github.com/login/oauth/access_token'' then ok (JObj [(''access_token'', JStr ''t'')])
      else if q_url q = ''https://api.github.com/user'' then ok (JObj [(''id'', JNum (Fin 7))])
      else ok (JArr [JObj [(''email'', JStr ''x@y.zz''), (''primary'', JBool True), (''verified'', JBool False)],
                     JObj [(''email'', JStr ''a@b.co''), (''primary'', JBool True), (''verified'', JBool True)]]))"

definition ex_num :: "jsnum \<Rightarrow> string" where
  "ex_num n = ''NaN''"

definition ex_sso :: auth_db where
  "ex_sso = run_auth [ACreateOAuthState ''s'' PGithub None None ''2026'',
     ACreateLoginToken (sha256Hex id ''t'') ''a@b.co'' ''2026''] ex_auth"

definition ex_form :: "headers \<times> form" where
  "ex_form = ([(''content-type'', ''application/x-www-form-urlencoded'')], Some [(''token'', Some ''t'')])"

lemma ex_github_replies:
  "ok_json_of ex_github (github_token_request env code) = Inr (Some (JObj [(''access_token'', JStr ''t'')]))"
  "ok_json_of ex_github (github_get tok ''/user'') = Inr (Some (JObj [(''id'', JNum (Fin 7))]))"
  "ok_json_of ex_github (github_get tok ''/user/emails'') = Inr (Some
     (JArr [JObj [(''email'', JStr ''x@y.zz''), (''primary'', JBool True), (''verified'', JBool False)],
            JObj [(''email'', JStr ''a@b.co''), (''primary'', JBool True), (''verified'', JBool True)]]))"
  by (simp_all add: ok_json_of_def ex_github_def github_token_request_def github_get_def res_ok_def)

lemma ex_exchange:
  "exchangeCode ex_num ex_github ex_env PGithub ''c'' v now =
     Inr (Some \<lparr>vi_provider = PGithub, vi_subject = ''7'', vi_email = ''a@b.co''\<rparr>)"
proof -
  have "number_string ex_num (Fin 7) = ''7''" by code_simp
  then show ?thesis
    by (simp add: exchangeCode_def exchangeGithub_def ex_github_replies json_truthy_def jget_def github_identity_def truthy_def)
qed


lemma upsert_opens:
  assumes "auth_ok db" "sessions db = []" "fst (upsertAccountForVerifiedEmail idbuf db p s email allow now) = Inr (Inr (a, c))"
  shows "sessions (snd (open_session sha256 sessbuf env
           (snd (upsertAccountForVerifiedEmail idbuf db p s email allow now)) a path now)) \<noteq> []"
proof -
  let ?d = "snd (upsertAccountForVerifiedEmail idbuf db p s email allow now)"
  have "upsertAccountForVerifiedEmail idbuf db p s email allow now = (Inr (Inr (a, c)), ?d)"
    using assms(3) by (metis prod.collapse)
  from upsert_outcome [OF assms(1) this] have "a \<in> set (accounts ?d)" by (auto simp: getAccountById_def dest!: find_SomeD)
  moreover have "sessions ?d = []" using upsert_keeps_sessions assms(2) by simp
  ultimately show ?thesis by (simp add: open_session_def startSession_def createSession_def Let_def)
qed

lemma ex_upsert:
  "fst (upsertAccountForVerifiedEmail [] (snd (consumeOAuthState ex_sso ''s'' (toISOString 0))) PGithub ''7'' ''a@b.co'' False 0)
     = Inr (Inr (ex_acct, False))"
  "fst (upsertAccountForVerifiedEmail [] (snd (consumeLoginToken ex_sso (sha256Hex id ''t'') (toISOString 0))) PEmail ''a@b.co'' ''a@b.co'' False 0)
     = Inr (Inr (ex_acct, False))"
  by code_simp+

lemma ex_taken:
  "map_option os_provider (fst (consumeOAuthState ex_sso ''s'' (toISOString 0))) = Some PGithub"
  "map_option lt_email (fst (consumeLoginToken ex_sso (sha256Hex id ''t'') (toISOString 0))) = Some ''a@b.co''"
  "magicLinkTokenFromPost (fst ex_form) (snd ex_form) = ''t''" "header_get (fst ex_form) ''origin'' = None"
  "configuredProviders ex_env = [PGithub]" "isSsoProvider ''github'' = Some PGithub"
  "settingEnabled (getSetting (snd (consumeOAuthState ex_sso ''s'' (toISOString 0))) ''signups_enabled'') = False"
  "settingEnabled (getSetting ex_sso ''signups_enabled'') = False"
  "sessions ex_sso = []"
  by code_simp+
lemma ex_sso_ok: "auth_ok ex_sso"
  unfolding ex_sso_def by (rule run_auth_ok [OF ex_auth_ok])

lemma ex_sso_session:
  "sessions (snd (finishSso ex_num ex_github id [] [7] ''github'' (Some ''c'') (Some ''s'') ex_env ex_sso 0)) \<noteq> []"
proof -
  define mid where "mid = snd (consumeOAuthState ex_sso ''s'' (toISOString 0))"
  define d where "d = snd (upsertAccountForVerifiedEmail [] mid PGithub ''7'' ''a@b.co'' False 0)"
  obtain row where c: "consumeOAuthState ex_sso ''s'' (toISOString 0) = (Some row, mid)" "os_provider row = PGithub"
    using ex_taken(1) by (auto simp: prod_eq_iff mid_def)
  have mid: "auth_ok mid" "sessions mid = []"
    unfolding mid_def using consume_ok(1) [OF ex_sso_ok] consume_frame(1) ex_taken(9) by auto
  have u: "upsertAccountForVerifiedEmail [] mid PGithub ''7'' ''a@b.co'' False 0 = (Inr (Inr (ex_acct, False)), d)"
    using ex_upsert(1) by (simp add: prod_eq_iff mid_def d_def)
  have "sessions (snd (open_session id [7] ex_env d ex_acct path 0)) \<noteq> []" for path
    using upsert_opens [OF mid] u by (metis fst_conv snd_conv)
  then show ?thesis
    using c ex_taken(5-7) u by (simp add: finishSso_def ex_exchange truthy_def flip: mid_def)
qed

lemma ex_mail_session:
  "sessions (snd (email_callback_post id [] [7] ex_env ex_sso (fst ex_form) (snd ex_form) 0)) \<noteq> []"
proof -
  define mid where "mid = snd (consumeLoginToken ex_sso (sha256Hex id ''t'') (toISOString 0))"
  define d where "d = snd (upsertAccountForVerifiedEmail [] mid PEmail ''a@b.co'' ''a@b.co'' False 0)"
  obtain row where c: "consumeLoginToken ex_sso (sha256Hex id ''t'') (toISOString 0) = (Some row, mid)" "lt_email row = ''a@b.co''"
    using ex_taken(2) by (auto simp: prod_eq_iff mid_def)
  have mid: "auth_ok mid" "sessions mid = []"
    unfolding mid_def using consume_ok(2) [OF ex_sso_ok] consume_frame(2) ex_taken(9) by auto
  have u: "upsertAccountForVerifiedEmail [] mid PEmail ''a@b.co'' ''a@b.co'' False 0 = (Inr (Inr (ex_acct, False)), d)"
    using ex_upsert(2) by (simp add: prod_eq_iff mid_def d_def)
  have "sessions (snd (open_session id [7] ex_env d ex_acct path 0)) \<noteq> []" for path
    using upsert_opens [OF mid] u by (metis fst_conv snd_conv)
  then show ?thesis
    using c ex_taken(3,4,8) u by (simp add: email_callback_post_def redeemMagicLink_def truthy_def)
qed

theorem session_only_for_verified_email_witness:
  "let d = snd (finishSso ex_num ex_github id [] [7] ''github'' (Some ''c'') (Some ''s'') ex_env ex_sso 0);
       e = snd (email_callback_post id [] [7] ex_env ex_sso (fst ex_form) (snd ex_form) 0)
   in sessions d \<noteq> sessions ex_sso \<and> sessions e \<noteq> sessions ex_sso
      \<and> (\<exists>row mid i. consumeOAuthState ex_sso ''s'' (toISOString 0) = (Some row, mid)
           \<and> vouches ex_num ex_github ex_env PGithub ''c'' (os_verifier row) i
           \<and> session_opened id [7] mid d PGithub (vi_subject i) (vi_email i))
      \<and> (\<exists>row mid. consumeLoginToken ex_sso (sha256Hex id ''t'') (toISOString 0) = (Some row, mid)
           \<and> session_opened id [7] mid e PEmail (lt_email row) (lt_email row))"
proof -
  let ?s = "finishSso ex_num ex_github id [] [7] ''github'' (Some ''c'') (Some ''s'') ex_env ex_sso 0"
  let ?m = "email_callback_post id [] [7] ex_env ex_sso (fst ex_form) (snd ex_form) 0"
  have "sessions (snd ?s) \<noteq> sessions ex_sso" "sessions (snd ?m) \<noteq> sessions ex_sso"
    using ex_sso_session ex_mail_session ex_taken(9) by simp_all
  then show ?thesis
    using session_only_for_verified_email [OF ex_sso_ok, of ex_num ex_github id "[]" "[7]" "''github''" "Some ''c''"
        "Some ''s''" ex_env 0 "fst ?s" "snd ?s" "[]" None]
      session_only_for_verified_email [OF ex_sso_ok, of ex_num ex_github id "[]" "[7]" "[]" None None ex_env 0 "fst ?m" "snd ?m"
        "fst ex_form" "snd ex_form"]
    by (auto simp: Let_def ex_taken(3,6))
qed

theorem email_start_uniform_witness:
  "let (r, m, d) = emailStart ex_num id [7] ex_env ex_auth (Some (JObj [(''email'', JStr '' A@b.co'')])) 0 in
     r = accepted \<and> map_option m_to m = Some ''a@b.co'' \<and> length (login_tokens d) = 1"
proof -
  obtain r m d where *: "emailStart ex_num id [7] ex_env ex_auth (Some (JObj [(''email'', JStr '' A@b.co'')])) 0 = (r, m, d)"
    by (metis prod.collapse)
  have "map_option m_to (fst (snd (emailStart ex_num id [7] ex_env ex_auth (Some (JObj [(''email'', JStr '' A@b.co'')])) 0)))
      = Some ''a@b.co''" by code_simp
  moreover have "login_tokens ex_auth = []" by code_simp
  ultimately show ?thesis using email_start_uniform [OF *] * by auto
qed

end
