(* ===== verification/Routing.thy ===== *)
theory Routing
  imports SignIn KekRotation
begin

text \<open>
  Tenant hostname routing (\<^verbatim>\<open>src/src/routing.ts\<close>): which hostname belongs to which studio, when a
  request is dispatched to the studio's Worker, and what that Worker gets to see.  The dispatch
  namespace is a set of script names; a dispatched request is the result of routing, not the
  Worker's answer.
\<close>

section \<open>Hostnames\<close>

datatype host_route = FrontDoor | TenantHost string | InvalidTenant string

definition strip_dot :: "string \<Rightarrow> string" where
  "strip_dot s = (if s \<noteq> [] \<and> last s = CHR ''.'' then butlast s else s)"

definition normalizeHost :: "string \<Rightarrow> string" where
  "normalizeHost raw = strip_dot (hd (split_on (CHR '':'') (to_lower (js_trim raw))))"

definition classifyHost :: "string option \<Rightarrow> string \<Rightarrow> host_route" where
  "classifyHost hostHeader tenantSuffix =
     (if \<not> truthy hostHeader then FrontDoor
      else (let host = normalizeHost (the hostHeader); suffix = strip_dot (to_lower (js_trim tenantSuffix)) in
            if \<not> starts_with suffix ''.'' \<or> length suffix < 2 then FrontDoor
            else if \<not> ends_with host suffix then FrontDoor
            else (let label = take (length host - length suffix) host in
                  if label = [] then InvalidTenant ''empty tenant label''
                  else if CHR ''.'' \<in> set label then InvalidTenant ''multi-label host is not certificate-covered''
                  else if validateSlug label \<noteq> None then InvalidTenant ''invalid tenant slug''
                  else TenantHost label)))"

definition tenantDomainSuffix :: "sign_in_env \<Rightarrow> string" where
  "tenantDomainSuffix env = ''.'' @ CONTROL_PLANE_HOST env"

section \<open>The dispatched request\<close>

definition refusal :: "nat \<Rightarrow> string \<Rightarrow> headers \<Rightarrow> reply" where
  "refusal st msg extra =
     \<lparr>r_status = st, r_headers = json_content_type # extra, r_body = JObj [(''error'', JStr msg)]\<rparr>"

text \<open>\<^verbatim>\<open>headers.delete\<close> and \<^verbatim>\<open>headers.set\<close>; headers have no order between different names.\<close>

definition header_delete :: "headers \<Rightarrow> string \<Rightarrow> headers" where
  "header_delete hs name = filter (\<lambda>(k, v). to_lower k \<noteq> to_lower name) hs"

definition header_set :: "headers \<Rightarrow> string \<Rightarrow> string \<Rightarrow> headers" where
  "header_set hs name v = header_delete hs name @ [(name, v)]"

definition freshRequest :: "http_request \<Rightarrow> http_request" where
  "freshRequest q =
     (if q_method q \<noteq> ''GET'' \<and> q_method q \<noteq> ''HEAD'' then q else q\<lparr>q_body := NoBody\<rparr>)"

definition wantsHtml :: "http_request \<Rightarrow> bool" where
  "wantsHtml q \<longleftrightarrow> q_method q = ''GET'' \<and> str_includes (or_empty (header_get (q_headers q) ''accept'')) ''text/html''"

definition stripSessionCookie :: "headers \<Rightarrow> headers" where
  "stripSessionCookie hs =
     (case header_get hs ''cookie'' of
        None \<Rightarrow> hs
      | Some raw \<Rightarrow>
          if raw = [] then hs
          else (let kept = filter (\<lambda>c. c \<noteq> [] \<and> \<not> starts_with c (SESSION_COOKIE @ ''='')) (map js_trim (split_on (CHR '';'') raw))
                in if kept \<noteq> [] then header_set hs ''cookie'' (join_with ''; '' kept) else header_delete hs ''cookie''))"

definition dispatchRequest :: "http_request \<Rightarrow> string option \<Rightarrow> http_request" where
  "dispatchRequest q injected =
     (let hs = stripSessionCookie (q_headers q);
          hs' = (if truthy injected then header_set hs ''authorization'' (''Bearer '' @ the injected) else hs)
      in q\<lparr>q_headers := hs',
           q_body := (if q_method q \<noteq> ''GET'' \<and> q_method q \<noteq> ''HEAD'' then q_body q else NoBody)\<rparr>)"

section \<open>Refusal and dispatch\<close>

definition tenantRefusal :: "tenant \<Rightarrow> reply option" where
  "tenantRefusal t =
     (if t_deleted_at t \<noteq> None then Some (refusal 404 ''No studio at this address.'' [])
      else if t_suspended_at t \<noteq> None then Some (refusal 403 ''This studio is suspended. Contact support.'' [])
      else (case t_status t of
              Live \<Rightarrow> None
            | Pending \<Rightarrow> Some (refusal 503 ''This studio is still being set up.'' [(''retry-after'', ''30'')])
            | Provisioning \<Rightarrow> Some (refusal 503 ''This studio is still being set up.'' [(''retry-after'', ''30'')])
            | AwaitingGoLive \<Rightarrow> Some (refusal 503 ''This studio is still being set up.'' [(''retry-after'', ''30'')])
            | AwaitingInvokeKey \<Rightarrow> Some (refusal 503 ''This studio is still being set up.'' [(''retry-after'', ''30'')])
            | Failed \<Rightarrow> Some (refusal 503 ''This studio failed to finish provisioning.'' [])
            | _ \<Rightarrow> Some (refusal 404 ''No studio at this address.'' [])))"

record dispatch_env =
  TENANT_DISPATCH :: "string list option"
  STUDIO_TOKEN_KEK :: "string option"
  STUDIO_TOKEN_KEK_NEXT :: "string option"
  STUDIO_TOKEN_KEK_ENCRYPT_SLOT :: "string option"

definition studioKekRing :: "dispatch_env \<Rightarrow> kek_ring" where
  "studioKekRing denv = kekRing (or_empty (STUDIO_TOKEN_KEK denv)) (STUDIO_TOKEN_KEK_NEXT denv) (STUDIO_TOKEN_KEK_ENCRYPT_SLOT denv)"

datatype outcome = FrontDoorOwns | Answer reply | Dispatched string http_request

definition is_owner :: "account option \<Rightarrow> tenant \<Rightarrow> bool" where
  "is_owner acct t \<longleftrightarrow> (case acct of Some a \<Rightarrow> a_id a = t_account_id t | None \<Rightarrow> False)"

definition injected_token :: "unaead \<Rightarrow> dispatch_env \<Rightarrow> account option \<Rightarrow> tenant \<Rightarrow> string option" where
  "injected_token dec denv acct t =
     (if is_owner acct t \<and> truthy (STUDIO_TOKEN_KEK denv) \<and> truthy (t_studio_token_enc t)
      then decryptStudioToken dec (studioKekRing denv) (the (t_studio_token_enc t)) else None)"

text \<open>The lookup by slug is an argument, so that it can fail.\<close>

definition routeTenantRequest ::
  "unaead \<Rightarrow> (8 word list \<Rightarrow> 8 word list) \<Rightarrow> sign_in_env \<Rightarrow> dispatch_env \<Rightarrow> (string \<Rightarrow> db_error + tenant option) \<Rightarrow> auth_db
     \<Rightarrow> http_request \<Rightarrow> int \<Rightarrow> outcome" where
  "routeTenantRequest dec sha256 env denv lookup db q now =
     (case classifyHost (header_get (q_headers q) ''host'') (tenantDomainSuffix env) of
        FrontDoor \<Rightarrow> FrontDoorOwns
      | InvalidTenant _ \<Rightarrow> Answer (refusal 404 ''No studio at this address.'' [])
      | TenantHost slug \<Rightarrow>
          (case lookup slug of
             Inl _ \<Rightarrow> Answer (refusal 503 ''This studio is temporarily unavailable.'' [(''retry-after'', ''5'')])
           | Inr None \<Rightarrow> Answer (refusal 404 ''No studio at this address.'' [])
           | Inr (Some t) \<Rightarrow>
               (case tenantRefusal t of
                  Some r \<Rightarrow> Answer r
                | None \<Rightarrow>
                    if \<not> truthy (t_script_name t) then Answer (refusal 503 ''This studio is not available yet.'' [])
                    else (case TENANT_DISPATCH denv of
                            None \<Rightarrow> Answer (refusal 503 ''This studio is not available.'' [])
                          | Some scripts \<Rightarrow>
                              (let acct = resolveSession sha256 db (q_headers q) now in
                               if \<not> is_owner acct t \<and> wantsHtml q then
                                 Answer \<lparr>r_status = 302, r_headers = [(''location'', publicOrigin env @ ''/'')], r_body = JNull\<rparr>
                               else if the (t_script_name t) \<notin> set scripts then
                                 Answer (refusal 503 ''This studio is not available.'' [])
                               else Dispatched (the (t_script_name t)) (dispatchRequest q (injected_token dec denv acct t)))))))"

section \<open>Cookies\<close>

lemma js_trim_blank: "is_ws c \<Longrightarrow> js_trim (c # s) = js_trim s"
  by (simp add: js_trim_def)

lemma js_trim_edges:
  assumes "js_trim s \<noteq> []" shows "\<not> is_ws (hd (js_trim s))" "\<not> is_ws (last (js_trim s))"
proof -
  let ?d = "dropWhile is_ws s" and ?e = "dropWhile is_ws (rev (dropWhile is_ws s))"
  have e: "?e \<noteq> []" using assms by (simp add: js_trim_def)
  then show "\<not> is_ws (last (js_trim s))" by (simp add: js_trim_def last_rev hd_dropWhile)
  obtain ys where ys: "rev ?d = ys @ ?e" by (metis takeWhile_dropWhile_id)
  then have "?d = rev ?e @ rev ys" by (metis rev_append rev_rev_ident)
  then have "hd (js_trim s) = hd ?d" using e unfolding js_trim_def by (metis hd_append2 rev_is_Nil_conv)
  moreover have "?d \<noteq> []" using e by (metis dropWhile.simps(1) rev.simps(1))
  ultimately show "\<not> is_ws (hd (js_trim s))" by (metis hd_dropWhile)
qed

lemma dropWhile_tight: "s = [] \<or> \<not> P (hd s) \<Longrightarrow> dropWhile P s = s"
  by (cases s) auto

lemma js_trim_tight: "s = [] \<or> \<not> is_ws (hd s) \<and> \<not> is_ws (last s) \<Longrightarrow> js_trim s = s"
  by (auto simp: js_trim_def dropWhile_tight hd_rev)

lemma js_trim_idem [simp]: "js_trim (js_trim s) = js_trim s"
  using js_trim_edges js_trim_tight by blast

lemma set_js_trim: "set (js_trim s) \<subseteq> set s"
  by (auto simp: js_trim_def dest!: set_dropWhileD)

text \<open>Splitting a joined cookie header gives the joined parts back.\<close>

lemma split_joined_cookies:
  assumes "cs \<noteq> []" "\<And>c. c \<in> set cs \<Longrightarrow> CHR '';'' \<notin> set c"
  shows "map js_trim (split_on (CHR '';'') (join_with ''; '' cs)) = map js_trim cs"
  using assms
proof (induction cs)
  case (Cons c cs)
  show ?case
  proof (cases cs)
    case Nil
    then show ?thesis using Cons.prems by (simp add: split_on_no_sep)
  next
    case (Cons d ds)
    have blank: "map js_trim (split_on (CHR '';'') (CHR '' '' # s)) = map js_trim (split_on (CHR '';'') s)" for s
      using split_on_not_Nil [of "CHR '';''" s]
      by (cases "split_on (CHR '';'') s") (auto simp: js_trim_blank is_ws_def)
    have "split_on (CHR '';'') (join_with ''; '' (c # cs)) = c # split_on (CHR '';'') (CHR '' '' # join_with ''; '' cs)"
      using Cons Cons.prems by (simp add: split_on_append)
    then show ?thesis using Cons Cons.IH Cons.prems blank by simp
  qed
qed simp

lemma split_on_starts:
  assumes "split_on c s = k # v" "v \<noteq> []" shows "starts_with s (k @ [c])"
  using assms
proof (induction s arbitrary: k)
  case (Cons x s)
  then show ?case
    by (cases "split_on c s") (auto simp: starts_with_iff split: if_splits)
qed simp

lemma cookie_value_None:
  "(\<And>p. p \<in> set ps \<Longrightarrow> \<not> starts_with (js_trim p) (SESSION_COOKIE @ ''='')) \<Longrightarrow> cookie_value ps = None"
proof (induction ps)
  case (Cons p ps)
  obtain k v where kv: "split_on (CHR ''='') (js_trim p) = k # v" by (metis neq_Nil_conv split_on_not_Nil)
  then show ?case using Cons split_on_starts [OF kv] by (cases v) auto
qed simp

lemma header_get_set [simp]:
  "header_get (header_set hs n v) m = (if to_lower m = to_lower n then Some v else header_get hs m)"
  "header_get (header_delete hs n) m = (if to_lower m = to_lower n then None else header_get hs m)"
proof -
  let ?is = "\<lambda>m (k, v). to_lower k = to_lower m" and ?not = "\<lambda>(k, v). to_lower k \<noteq> to_lower n"
  have f: "filter (?is m) (filter ?not hs) = (if to_lower m = to_lower n then [] else filter (?is m) hs)"
    by (induction hs) auto
  show "header_get (header_delete hs n) m = (if to_lower m = to_lower n then None else header_get hs m)"
    unfolding header_get_def header_delete_def f by simp
  show "header_get (header_set hs n v) m = (if to_lower m = to_lower n then Some v else header_get hs m)"
    unfolding header_get_def header_set_def header_delete_def filter_append f by simp
qed

lemma header_get_cong: "to_lower m = to_lower n \<Longrightarrow> header_get hs m = header_get hs n"
  by (simp add: header_get_def)

lemma lower_names [simp]: "to_lower ''cookie'' = ''cookie''" "to_lower ''authorization'' = ''authorization''"
  by code_simp+

definition kept_cookies :: "string \<Rightarrow> string list" where
  "kept_cookies raw =
     filter (\<lambda>c. c \<noteq> [] \<and> \<not> starts_with c (SESSION_COOKIE @ ''='')) (map js_trim (split_on (CHR '';'') raw))"

lemma kept_cookies_tight:
  assumes "c \<in> set (kept_cookies raw)"
  shows "js_trim c = c \<and> CHR '';'' \<notin> set c \<and> \<not> starts_with c (SESSION_COOKIE @ ''='')"
  using assms set_js_trim split_on_pieces by (fastforce simp: kept_cookies_def)

lemma kept_cookies_Nil [simp]: "kept_cookies [] = []"
  by (simp add: kept_cookies_def js_trim_def)

lemma stripped_header:
  "header_get (stripSessionCookie hs) n =
     (if to_lower n = ''cookie'' then
        (let cs = kept_cookies (or_empty (header_get hs ''cookie'')) in
         if cs \<noteq> [] then Some (join_with ''; '' cs) else if header_get hs ''cookie'' = Some [] then Some [] else None)
      else header_get hs n)"
  using header_get_cong [of n "''cookie''" hs]
  by (auto simp: stripSessionCookie_def kept_cookies_def [symmetric] Let_def split: option.splits)

lemma split_kept:
  assumes "kept_cookies raw \<noteq> []"
  shows "map js_trim (split_on (CHR '';'') (join_with ''; '' (kept_cookies raw))) = kept_cookies raw"
proof -
  have "map js_trim (kept_cookies raw) = kept_cookies raw" using kept_cookies_tight by (intro map_idI) blast
  then show ?thesis using split_joined_cookies [OF assms] kept_cookies_tight by metis
qed

text \<open>
  A studio's Worker never sees a session of this plane.  Whatever cookies and headers a request
  carries, the one that is dispatched holds no session that this plane would read, every other cookie
  is still there, in order, and the only header that may differ besides is the injected
  authorization.
\<close>

theorem dispatch_carries_no_session:
  "readSessionCookie (q_headers (dispatchRequest q injected)) = None
   \<and> map js_trim (split_on (CHR '';'') (or_empty (header_get (q_headers (dispatchRequest q injected)) ''cookie'')))
      = (if kept_cookies (or_empty (header_get (q_headers q) ''cookie'')) = [] then [[]]
         else kept_cookies (or_empty (header_get (q_headers q) ''cookie'')))
   \<and> (\<forall>n. to_lower n \<noteq> ''cookie'' \<longrightarrow>
         header_get (q_headers (dispatchRequest q injected)) n = (if to_lower n = ''authorization'' \<and> truthy injected
                             then Some (''Bearer '' @ the injected) else header_get (q_headers q) n))"
proof -
  let ?hs = "q_headers q" and ?out = "q_headers (dispatchRequest q injected)"
  let ?cs = "kept_cookies (or_empty (header_get ?hs ''cookie''))"
  have out: "header_get ?out n = (if to_lower n = ''authorization'' \<and> truthy injected
      then Some (''Bearer '' @ the injected) else header_get (stripSessionCookie ?hs) n)" for n
    by (simp add: dispatchRequest_def Let_def)
  have cookie: "header_get ?out ''cookie'' = (if ?cs \<noteq> [] then Some (join_with ''; '' ?cs)
      else if header_get ?hs ''cookie'' = Some [] then Some [] else None)"
    by (simp add: out stripped_header Let_def)
  have parts: "map js_trim (split_on (CHR '';'') (or_empty (header_get ?out ''cookie''))) = (if ?cs = [] then [[]] else ?cs)"
    using split_kept by (simp add: cookie js_trim_def)
  have "\<not> starts_with (js_trim p) (SESSION_COOKIE @ ''='')"
    if "p \<in> set (split_on (CHR '';'') (or_empty (header_get ?out ''cookie'')))" for p
  proof -
    have "js_trim p \<in> set (map js_trim (split_on (CHR '';'') (or_empty (header_get ?out ''cookie''))))"
      using that by simp
    then have "js_trim p \<in> set (if ?cs = [] then [[]] else ?cs)" unfolding parts .
    then consider "js_trim p = []" | "js_trim p \<in> set ?cs" by (cases "?cs = []") auto
    then show ?thesis
    proof cases
      case 1
      then show ?thesis by (simp add: starts_with_def)
    qed (use kept_cookies_tight in blast)
  qed
  then have "readSessionCookie ?out = None"
    using cookie_value_None by (auto simp: readSessionCookie_def split: option.splits)
  then show ?thesis using parts out by (auto simp: stripped_header)
qed

section \<open>Dispatch\<close>

lemma tenantRefusal_None: "tenantRefusal t = None \<longleftrightarrow> t_deleted_at t = None \<and> routingStatusFor t = RLive"
  by (auto simp: tenantRefusal_def routingStatusFor_def split: lifecycle.splits)

lemma tenantRefusal_SomeD: "tenantRefusal t = Some r \<Longrightarrow> t_deleted_at t = None \<Longrightarrow> routingStatusFor t \<noteq> RLive"
  by (metis option.distinct(1) tenantRefusal_None)


section \<open>A studio's hostname\<close>

lemma slug_chars:
  assumes "validateSlug s = None" and "c \<in> set s" shows "slug_inner c"
proof -
  have re: "SLUG_RE s" "2 \<le> length s"
    using assms(1) by (auto simp: validateSlug_def split: if_splits)
  then have "s \<noteq> []" "tl s \<noteq> []" by (cases s; cases "tl s"; simp)+
  then have "set s = insert (hd s) (insert (last s) (set (butlast (tl s))))"
    by (metis append_butlast_last_id last_tl list.collapse list.set(2) rotate1.simps(2) set_rotate1)
  then show ?thesis using assms(2) re(1) by (auto simp: SLUG_RE_def slug_inner_def list_all_iff)
qed

lemma slug_inner_plain:
  "slug_inner c \<Longrightarrow> \<not> is_ws c \<and> c \<noteq> CHR '':'' \<and> c \<noteq> CHR ''.'' \<and> lower_char c = c"
  by (auto simp: slug_inner_def slug_edge_def is_ws_def is_lower_alpha_def is_digit_def lower_char_def Let_def)

text \<open>A host name as it is configured: lower case, no port, no white space, no dot at its end.\<close>

definition plain_host :: "string \<Rightarrow> bool" where
  "plain_host h \<longleftrightarrow> h \<noteq> [] \<and> last h \<noteq> CHR ''.'' \<and> list_all (\<lambda>c. \<not> is_ws c \<and> c \<noteq> CHR '':'' \<and> lower_char c = c) h"

lemma plain_slug_host: "validateSlug s = None \<Longrightarrow> plain_host h \<Longrightarrow> plain_host (s @ ''.'' @ h)"
  using slug_chars slug_inner_plain by (auto simp: plain_host_def list_all_iff is_ws_def lower_char_def)

lemma plain_trim: "plain_host h \<Longrightarrow> js_trim h = h"
  by (rule js_trim_tight) (simp add: plain_host_def list_all_iff)

lemma plain_lower: "plain_host h \<Longrightarrow> to_lower h = h"
  by (auto simp: plain_host_def list_all_iff to_lower_def intro: map_idI)

lemma plain_dot_host:
  assumes "plain_host h" shows "strip_dot (to_lower (js_trim (CHR ''.'' # h))) = CHR ''.'' # h"
proof -
  have "js_trim (CHR ''.'' # h) = CHR ''.'' # h"
    using assms by (intro js_trim_tight) (auto simp: plain_host_def list_all_iff is_ws_def)
  moreover have "to_lower (CHR ''.'' # h) = CHR ''.'' # h"
    using plain_lower [OF assms] by (simp add: to_lower_def lower_char_def)
  ultimately show ?thesis using assms by (simp add: strip_dot_def plain_host_def)
qed

lemma js_trim_prefix:
  assumes "a \<noteq> []" "\<not> is_ws (hd a)" "\<not> is_ws c"
  obtains b' where "js_trim (a @ c # b) = a @ c # b'"
proof -
  have d: "dropWhile is_ws (a @ c # b) = a @ c # b" using assms by (cases a) auto
  have "dropWhile is_ws (rev b @ c # rev a) = dropWhile is_ws (rev b) @ c # rev a"
    using assms(3) by (induction "rev b" arbitrary: b) (auto simp: dropWhile_append)
  then show thesis by (intro that) (simp add: js_trim_def d)
qed

lemma normalizeHost_port:
  assumes "plain_host h" shows "normalizeHost (h @ '':'' @ port) = h" "normalizeHost h = h"
proof -
  have h: "h \<noteq> []" "\<not> is_ws (hd h)" "last h \<noteq> CHR ''.''" "CHR '':'' \<notin> set h"
    using assms by (auto simp: plain_host_def list_all_iff)
  obtain b where b: "js_trim (h @ CHR '':'' # port) = h @ CHR '':'' # b"
    using js_trim_prefix [OF h(1,2), of "CHR '':''" port] by (auto simp: is_ws_def)
  have "to_lower (h @ CHR '':'' # b) = h @ CHR '':'' # to_lower b"
    using plain_lower [OF assms] by (simp add: to_lower_def lower_char_def)
  then show "normalizeHost (h @ '':'' @ port) = h"
    using h b by (simp add: normalizeHost_def split_on_append strip_dot_def)
  show "normalizeHost h = h"
    using h plain_trim [OF assms] plain_lower [OF assms] by (simp add: normalizeHost_def split_on_no_sep strip_dot_def)
qed

lemma classify_tenant_iff:
  assumes "plain_host h" "H \<noteq> []"
  shows "classifyHost (Some H) (''.'' @ h) = TenantHost s \<longleftrightarrow> validateSlug s = None \<and> normalizeHost H = s @ ''.'' @ h"
proof
  assume "classifyHost (Some H) (''.'' @ h) = TenantHost s"
  then show "validateSlug s = None \<and> normalizeHost H = s @ ''.'' @ h"
    using assms by (auto simp: classifyHost_def truthy_def Let_def plain_dot_host ends_with_iff split: if_splits)
next
  assume r: "validateSlug s = None \<and> normalizeHost H = s @ ''.'' @ h"
  then have "CHR ''.'' \<notin> set s" using slug_chars slug_inner_plain by metis
  moreover have "s \<noteq> []" using r by (auto simp: validateSlug_def)
  ultimately show "classifyHost (Some H) (''.'' @ h) = TenantHost s"
    using r assms
    by (auto simp: classifyHost_def truthy_def Let_def plain_dot_host ends_with_iff starts_with_def plain_host_def)
qed

text \<open>
  A studio is reached at its hostname and at no other.  For every slug a tenant can have, the host
  \<^verbatim>\<open><slug>.<control plane>\<close>, with any port or none, is routed to that slug; a host is routed to the slug
  only if it is that host up to case, port, white space around it and one final dot; and the control plane's own
  host is the front door.
\<close>

theorem studio_hostname_round_trip:
  assumes "plain_host (CONTROL_PLANE_HOST env)" and "validateSlug slug = None"
  shows "classifyHost (Some (slug @ tenantDomainSuffix env)) (tenantDomainSuffix env) = TenantHost slug
       \<and> classifyHost (Some (slug @ tenantDomainSuffix env @ '':'' @ port)) (tenantDomainSuffix env) = TenantHost slug
       \<and> (classifyHost (Some host) (tenantDomainSuffix env) = TenantHost slug \<longrightarrow> normalizeHost host = slug @ tenantDomainSuffix env)
       \<and> classifyHost (Some (CONTROL_PLANE_HOST env)) (tenantDomainSuffix env) = FrontDoor"
proof -
  let ?h = "CONTROL_PLANE_HOST env"
  have plain: "plain_host (slug @ ''.'' @ ?h)" by (rule plain_slug_host [OF assms(2,1)])
  have ne: "?h \<noteq> []" using assms(1) by (simp add: plain_host_def)
  have "classifyHost (Some ?h) (''.'' @ ?h) = FrontDoor"
    using plain_dot_host [OF assms(1)] normalizeHost_port(2) [OF assms(1)] ne
    by (auto simp: classifyHost_def truthy_def Let_def ends_with_iff)
  moreover have "classifyHost (Some host) (''.'' @ ?h) = TenantHost slug \<longrightarrow> normalizeHost host = slug @ ''.'' @ ?h"
    using classify_tenant_iff [OF assms(1), of host slug] by (cases "host = []") (auto simp: classifyHost_def truthy_def)
  ultimately show ?thesis
    using classify_tenant_iff [OF assms(1), of "slug @ ''.'' @ ?h" slug]
      classify_tenant_iff [OF assms(1), of "(slug @ ''.'' @ ?h) @ '':'' @ port" slug]
      normalizeHost_port [OF plain] assms(2)
    by (simp add: tenantDomainSuffix_def)
qed

section \<open>Examples\<close>

theorem dispatch_carries_no_session_witness:
  "let q = \<lparr>q_method = ''GET'', q_url = [], q_headers = ex_cookie @ [(''Accept'', ''text/html'')], q_body = NoBody\<rparr>;
       out = q_headers (dispatchRequest q (Some ''tok''))
   in readSessionCookie (q_headers q) \<noteq> None \<and> readSessionCookie out = None
      \<and> header_get out ''accept'' = Some ''text/html'' \<and> header_get out ''authorization'' = Some ''Bearer tok''"
proof -
  let ?q = "\<lparr>q_method = ''GET'', q_url = [], q_headers = ex_cookie @ [(''Accept'', ''text/html'')], q_body = NoBody\<rparr>"
  have names: "to_lower ''accept'' = ''accept''" by code_simp
  have "readSessionCookie (q_headers ?q) \<noteq> None" "header_get (q_headers ?q) ''accept'' = Some ''text/html''" by code_simp+
  then show ?thesis
    using dispatch_carries_no_session [of ?q "Some ''tok''"] names by (simp add: Let_def truthy_def)
qed

theorem studio_hostname_round_trip_witness:
  "plain_host (CONTROL_PLANE_HOST ex_env) \<and> validateSlug ''acme'' = None
   \<and> classifyHost (Some ''acme.studio.test:8787'') (tenantDomainSuffix ex_env) = TenantHost ''acme''
   \<and> classifyHost (Some ''studio.test'') (tenantDomainSuffix ex_env) = FrontDoor"
proof -
  have "plain_host (CONTROL_PLANE_HOST ex_env)" "validateSlug ''acme'' = None" by code_simp+
  from studio_hostname_round_trip [OF this, of "''8787''"] this show ?thesis
    by (simp add: tenantDomainSuffix_def ex_env_def)
qed

end
