(* ===== verification/RunpodProxy.thy ===== *)
theory RunpodProxy
  imports SignIn TenantStore
begin

text \<open>
  The RunPod proxy: the routes a tenant's module Workers call (\<^verbatim>\<open>src/src/runpod-proxy*.ts\<close>), the job
  index they write (the \<^verbatim>\<open>runpod_job_index\<close> statements of \<^verbatim>\<open>src/src/store-d1.ts\<close>), the sweep that adopts
  jobs no callback closed (\<^verbatim>\<open>src/src/runpod-job-sweep.ts\<close>), and the configuration of the shared pool
  (\<^verbatim>\<open>src/src/runpod-pool.ts\<close>, \<^verbatim>\<open>src/src/runpod.ts\<close>).  HMAC-SHA-256 is an argument; numbers in the index
  are the rationals a finite JavaScript number stands for.
\<close>

section \<open>Tokens\<close>

text \<open>\<^verbatim>\<open>a.charCodeAt(i)\<close> as a 16-bit unit.\<close>

definition char_unit :: "char \<Rightarrow> 16 word" where
  "char_unit c = of_nat (of_char c)"

definition timingSafeEqual :: "string \<Rightarrow> string \<Rightarrow> bool" where
  "timingSafeEqual a b \<longleftrightarrow>
     (if length a \<noteq> length b then False
      else foldl (\<lambda>diff i. diff OR (char_unit (a ! i) XOR char_unit (b ! i))) 0 [0..<length a] = 0)"

type_synonym hmac = "8 word list \<Rightarrow> 8 word list \<Rightarrow> 8 word list"

definition PROXY_TOKEN_PREFIX :: string where
  "PROXY_TOKEN_PREFIX = ''vjp1''"

definition macInput :: "string \<Rightarrow> string" where
  "macInput tenantId = PROXY_TOKEN_PREFIX @ ''.'' @ tenantId"

definition hmacHex :: "hmac \<Rightarrow> string \<Rightarrow> string \<Rightarrow> string" where
  "hmacHex hmac signingKey message = hex_bytes (hmac (utf8 signingKey) (utf8 message))"

definition mintTenantProxyToken :: "hmac \<Rightarrow> string option \<Rightarrow> string \<Rightarrow> string option" where
  "mintTenantProxyToken hmac signingKey tenantId =
     (if \<not> truthy signingKey then None
      else if tenantId = [] \<or> CHR ''.'' \<in> set tenantId then None
      else Some (PROXY_TOKEN_PREFIX @ ''.'' @ tenantId @ ''.'' @ hmacHex hmac (the signingKey) (macInput tenantId)))"

definition verifyTenantProxyToken :: "hmac \<Rightarrow> string option \<Rightarrow> string option \<Rightarrow> string option" where
  "verifyTenantProxyToken hmac signingKey token =
     (if \<not> truthy signingKey \<or> \<not> truthy token then None
      else (case split_on (CHR ''.'') (the token) of
              [prefix, tenantId, mac] \<Rightarrow>
                if prefix \<noteq> PROXY_TOKEN_PREFIX \<or> tenantId = [] \<or> mac = [] then None
                else if timingSafeEqual mac (hmacHex hmac (the signingKey) (macInput tenantId)) then Some tenantId
                else None
            | _ \<Rightarrow> None))"

section \<open>Routes\<close>

datatype passthrough_op = OpStatus | OpHealth | OpCancel

datatype proxy_route =
    SubmitRoute string
  | PollRoute passthrough_op string "string option"
  | WebhookRoute string
  | UnknownRoute

definition PROXY_PREFIX :: string where
  "PROXY_PREFIX = ''/api/runpod''"

definition PROXY_UPSTREAM_PREFIX :: string where
  "PROXY_UPSTREAM_PREFIX = PROXY_PREFIX @ ''/v2''"

definition PROXY_WEBHOOK_PREFIX :: string where
  "PROXY_WEBHOOK_PREFIX = PROXY_PREFIX @ ''/webhook''"

definition SEGMENT :: "string \<Rightarrow> bool" where
  "SEGMENT s \<longleftrightarrow> s \<noteq> [] \<and> list_all (\<lambda>c. is_alnum c \<or> c = CHR ''_'' \<or> c = CHR ''-'') s"

definition TOKEN_RE :: "string \<Rightarrow> bool" where
  "TOKEN_RE s \<longleftrightarrow> length s = 64 \<and> list_all (\<lambda>c. is_digit c \<or> c \<in> set ''abcdef'') s"

definition matchProxyRoute :: "string \<Rightarrow> string \<Rightarrow> proxy_route option" where
  "matchProxyRoute meth path =
     (if path \<noteq> PROXY_PREFIX \<and> \<not> starts_with path (PROXY_PREFIX @ ''/'') then None
      else if starts_with path (PROXY_WEBHOOK_PREFIX @ ''/'') then
        (let token = drop (length PROXY_WEBHOOK_PREFIX + 1) path in
         if meth = ''POST'' \<and> TOKEN_RE token then Some (WebhookRoute token) else Some UnknownRoute)
      else if starts_with path (PROXY_UPSTREAM_PREFIX @ ''/'') then
        (case split_on (CHR ''/'') (drop (length PROXY_UPSTREAM_PREFIX + 1) path) of
           [ep, verb] \<Rightarrow>
             if \<not> SEGMENT ep then Some UnknownRoute
             else if verb = ''run'' \<and> meth = ''POST'' then Some (SubmitRoute ep)
             else if verb = ''health'' \<and> meth = ''GET'' then Some (PollRoute OpHealth ep None)
             else Some UnknownRoute
         | [ep, verb, job] \<Rightarrow>
             if \<not> SEGMENT ep then Some UnknownRoute
             else if SEGMENT job \<and> verb = ''status'' \<and> meth = ''GET'' then Some (PollRoute OpStatus ep (Some job))
             else if SEGMENT job \<and> verb = ''cancel'' \<and> meth = ''POST'' then Some (PollRoute OpCancel ep (Some job))
             else Some UnknownRoute
         | _ \<Rightarrow> Some UnknownRoute)
      else Some UnknownRoute)"

section \<open>What may be submitted\<close>

definition RUNPOD_HOST :: string where
  "RUNPOD_HOST = ''https://api.runpod.ai''"

definition PUBLIC_ENDPOINT_ALLOWLIST :: "string list" where
  "PUBLIC_ENDPOINT_ALLOWLIST =
     [''wan-2-6-i2v'', ''wan-2-2-t2v-720-lora'', ''minimax-hailuo-2-3-fast'', ''minimax-speech-02-hd'']"

datatype job_outcome = OSubmitted | OCompleted | OFailed | OCancelled | OTimedOut | OUnknown

definition outcomeForStatus :: "string \<Rightarrow> job_outcome option" where
  "outcomeForStatus st =
     (if st = ''COMPLETED'' then Some OCompleted else if st = ''FAILED'' then Some OFailed
      else if st = ''CANCELLED'' then Some OCancelled else if st = ''TIMED_OUT'' then Some OTimedOut else None)"

definition isBillable :: "job_outcome option \<Rightarrow> bool" where
  "isBillable out \<longleftrightarrow> out = Some OCompleted"

definition outcome_text :: "job_outcome \<Rightarrow> string" where
  "outcome_text out =
     (case out of OSubmitted \<Rightarrow> ''submitted'' | OCompleted \<Rightarrow> ''completed'' | OFailed \<Rightarrow> ''failed''
      | OCancelled \<Rightarrow> ''cancelled'' | OTimedOut \<Rightarrow> ''timed-out'' | OUnknown \<Rightarrow> ''unknown'')"

definition RECONCILER_ADOPT_AFTER_MS :: int where
  "RECONCILER_ADOPT_AFTER_MS = 5 * 60000"

definition OBSERVED_RESULT_RETENTION_MS :: int where
  "OBSERVED_RESULT_RETENTION_MS = 30 * 60000"

definition mintWebhookToken :: "8 word list \<Rightarrow> string" where
  "mintWebhookToken buf = hex_bytes buf"

definition isAllowedEndpoint :: "string \<Rightarrow> string list \<Rightarrow> bool" where
  "isAllowedEndpoint ep pool \<longleftrightarrow>
     (if ep = [] then False else if ep \<in> set pool then True else ep \<in> set PUBLIC_ENDPOINT_ALLOWLIST)"

text \<open>\<^verbatim>\<open>o[k] = v\<close>.\<close>

definition obj_set :: "(string \<times> json) list \<Rightarrow> string \<Rightarrow> json \<Rightarrow> (string \<times> json) list" where
  "obj_set kvs k v =
     (if k \<in> set (map fst kvs) then map (\<lambda>(a, w). if a = k then (a, v) else (a, w)) kvs else kvs @ [(k, v)])"

fun js_min :: "jsnum \<Rightarrow> jsnum \<Rightarrow> jsnum" where
  "js_min NaN _ = NaN" | "js_min _ NaN = NaN"
| "js_min NegInf _ = NegInf" | "js_min _ NegInf = NegInf"
| "js_min PosInf y = y" | "js_min x PosInf = x"
| "js_min (Fin x) (Fin y) = Fin (min x y)"

text \<open>\<^const>\<open>None\<close> is the exception \<^verbatim>\<open>bad_body\<close>.\<close>

definition buildUpstreamSubmitBody :: "json \<Rightarrow> string \<Rightarrow> jsnum option \<Rightarrow> (string \<times> json) list option" where
  "buildUpstreamSubmitBody tenantBody webhookUrl clamp =
     (case tenantBody of
        JObj src \<Rightarrow>
          (let out = obj_set src ''webhook'' (JStr webhookUrl) in
           case clamp of
             None \<Rightarrow> Some out
           | Some c \<Rightarrow>
               (let policy = (case jget tenantBody ''policy'' of Some (JObj p) \<Rightarrow> p | _ \<Rightarrow> []);
                    t = (case jget (JObj policy) ''executionTimeout'' of Some (JNum e) \<Rightarrow> js_min e c | _ \<Rightarrow> c)
                in Some (obj_set out ''policy'' (JObj (obj_set policy ''executionTimeout'' (JNum t))))))
      | _ \<Rightarrow> None)"

record terminal_facts =
  tf_job :: string
  tf_status_raw :: string
  tf_outcome :: job_outcome
  tf_execution_ms :: "rat option"
  tf_delay_ms :: "rat option"

definition finite_number :: "json option \<Rightarrow> rat option" where
  "finite_number v = (case v of Some (JNum (Fin r)) \<Rightarrow> Some r | _ \<Rightarrow> None)"

definition terminalFactsFromStatus :: "string \<Rightarrow> json option \<Rightarrow> terminal_facts option" where
  "terminalFactsFromStatus jobId status =
     (case object_of status of
        None \<Rightarrow> None
      | Some s \<Rightarrow>
          (let raw = plain_string (jget s ''status'') in
           map_option (\<lambda>out. \<lparr>tf_job = jobId, tf_status_raw = raw, tf_outcome = out,
                tf_execution_ms = finite_number (jget s ''executionTime''), tf_delay_ms = finite_number (jget s ''delayTime'')\<rparr>)
             (outcomeForStatus raw)))"

definition callbackUrlFor :: "string \<Rightarrow> string \<Rightarrow> string" where
  "callbackUrlFor base token = rev (dropWhile (\<lambda>c. c = CHR ''/'') (rev base)) @ ''/'' @ token"

section \<open>The job index\<close>

record job_row =
  ji_job_id :: string
  ji_tenant_id :: string
  ji_tenant_slug :: string
  ji_module :: "string option"
  ji_outcome :: "string option"
  ji_submitted_at :: "rat option"
  ji_terminal_at :: "rat option"
  ji_harvested_at :: string
  ji_source :: "string option"
  ji_endpoint_id :: "string option"
  ji_webhook_token_sha256 :: "string option"
  ji_status_raw :: "string option"
  ji_execution_ms :: "rat option"
  ji_delay_ms :: "rat option"
  ji_closed_at :: "string option"

type_synonym job_index = "job_row list"

definition coalesce :: "'a option \<Rightarrow> 'a option \<Rightarrow> 'a option" where
  "coalesce a b = (case a of None \<Rightarrow> b | Some _ \<Rightarrow> a)"

record harvested_job =
  h_job_id :: string
  h_module :: "string option"
  h_outcome :: "string option"
  h_submitted_at :: "rat option"
  h_terminal_at :: "rat option"

definition index_harvested :: "string \<Rightarrow> string \<Rightarrow> int \<Rightarrow> harvested_job \<Rightarrow> job_index \<Rightarrow> job_index" where
  "index_harvested tid slug now h idx =
     (if list_ex (\<lambda>r. ji_job_id r = h_job_id h) idx then
        update_where (\<lambda>r. ji_job_id r = h_job_id h)
          (\<lambda>r. r\<lparr>ji_source := coalesce (ji_source r) (Some ''harvest''), ji_module := coalesce (h_module h) (ji_module r),
                 ji_outcome := coalesce (h_outcome h) (ji_outcome r),
                 ji_submitted_at := coalesce (h_submitted_at h) (ji_submitted_at r),
                 ji_terminal_at := coalesce (h_terminal_at h) (ji_terminal_at r),
                 ji_harvested_at := sqlite_datetime now\<rparr>) idx
      else idx @ [\<lparr>ji_job_id = h_job_id h, ji_tenant_id = tid, ji_tenant_slug = slug, ji_module = h_module h,
             ji_outcome = h_outcome h, ji_submitted_at = h_submitted_at h, ji_terminal_at = h_terminal_at h,
             ji_harvested_at = sqlite_datetime now, ji_source = Some ''harvest'', ji_endpoint_id = None,
             ji_webhook_token_sha256 = None, ji_status_raw = None, ji_execution_ms = None, ji_delay_ms = None,
             ji_closed_at = None\<rparr>])"

definition indexRunpodJobs :: "job_index \<Rightarrow> string \<Rightarrow> string \<Rightarrow> harvested_job list \<Rightarrow> int \<Rightarrow> nat \<times> job_index" where
  "indexRunpodJobs idx tid slug rows now = (length rows, fold (index_harvested tid slug now) rows idx)"

text \<open>A token that another job carries breaks the unique index.\<close>

definition openRunpodProxyJob ::
  "job_index \<Rightarrow> string \<Rightarrow> string \<Rightarrow> string \<Rightarrow> string option \<Rightarrow> string \<Rightarrow> int \<Rightarrow> string \<Rightarrow> db_error + job_index" where
  "openRunpodProxyJob idx job tid slug modl ep now sha =
     (if list_ex (\<lambda>r. ji_webhook_token_sha256 r = Some sha \<and> ji_job_id r \<noteq> job) idx then Inl UniqueFailed
      else if list_ex (\<lambda>r. ji_job_id r = job) idx then
        Inr (update_where (\<lambda>r. ji_job_id r = job)
          (\<lambda>r. r\<lparr>ji_tenant_id := tid, ji_tenant_slug := slug, ji_module := coalesce modl (ji_module r),
                 ji_endpoint_id := coalesce (Some ep) (ji_endpoint_id r), ji_source := Some ''proxy'',
                 ji_webhook_token_sha256 := Some sha,
                 ji_submitted_at := coalesce (ji_submitted_at r) (Some (of_int now)),
                 ji_harvested_at := sqlite_datetime now\<rparr>) idx)
      else Inr (idx @ [\<lparr>ji_job_id = job, ji_tenant_id = tid, ji_tenant_slug = slug, ji_module = modl,
             ji_outcome = Some ''submitted'', ji_submitted_at = Some (of_int now), ji_terminal_at = None,
             ji_harvested_at = sqlite_datetime now, ji_source = Some ''proxy'', ji_endpoint_id = Some ep,
             ji_webhook_token_sha256 = Some sha, ji_status_raw = None, ji_execution_ms = None, ji_delay_ms = None,
             ji_closed_at = None\<rparr>]))"

definition findRunpodProxyJobByWebhookToken :: "job_index \<Rightarrow> string \<Rightarrow> job_row option" where
  "findRunpodProxyJobByWebhookToken idx sha = first_where (\<lambda>r. ji_webhook_token_sha256 r = Some sha) idx"

definition closeRunpodProxyJob ::
  "job_index \<Rightarrow> string \<Rightarrow> job_outcome \<Rightarrow> string \<Rightarrow> rat option \<Rightarrow> rat option \<Rightarrow> int \<Rightarrow> nat \<times> job_index" where
  "closeRunpodProxyJob idx job out raw exec_ms delay now =
     (let p = (\<lambda>r. ji_job_id r = job \<and> ji_terminal_at r = None) in
      (changes p idx,
       update_where p (\<lambda>r. r\<lparr>ji_outcome := Some (outcome_text out), ji_status_raw := Some raw, ji_execution_ms := exec_ms,
          ji_delay_ms := delay, ji_terminal_at := Some (of_int now), ji_closed_at := Some (sqlite_datetime now)\<rparr>) idx))"

definition open_before :: "int \<Rightarrow> job_row \<Rightarrow> bool" where
  "open_before before r \<longleftrightarrow> ji_terminal_at r = None \<and> ji_source r = Some ''proxy'' \<and> ji_endpoint_id r \<noteq> None
     \<and> (case ji_submitted_at r of None \<Rightarrow> False | Some t \<Rightarrow> t < of_int before)"

definition listOpenRunpodProxyJobs :: "job_index \<Rightarrow> int \<Rightarrow> nat \<Rightarrow> job_row list" where
  "listOpenRunpodProxyJobs idx before limit =
     take limit (sort_key (\<lambda>r. the (ji_submitted_at r)) (filter (open_before before) idx))"

definition countOpenRunpodProxyJobs :: "job_index \<Rightarrow> int \<Rightarrow> nat" where
  "countOpenRunpodProxyJobs idx before = length (filter (open_before before) idx)"

definition listTenantRunpodJobs :: "job_index \<Rightarrow> string \<Rightarrow> int \<Rightarrow> job_row list" where
  "listTenantRunpodJobs idx tid limit =
     take (nat (max 1 (min limit 500)))
       (rev (sort_key (\<lambda>r. case ji_submitted_at r of None \<Rightarrow> 0 | Some t \<Rightarrow> t) (rev (filter (\<lambda>r. ji_tenant_id r = tid) idx))))"

section \<open>Submitting\<close>

datatype submit_refusal =
    Unauthorized | UnknownTenant | TenantNotLive | TenantSuspended | NotSharedMode | EndpointNotAllowed | BadBody

definition submitRefusal :: "tenant \<Rightarrow> submit_refusal option" where
  "submitRefusal t =
     (if t_deleted_at t \<noteq> None then Some UnknownTenant
      else if t_suspended_at t \<noteq> None then Some TenantSuspended
      else if t_status t \<noteq> Live then Some TenantNotLive
      else if t_runpod_mode t \<noteq> ''shared'' then Some NotSharedMode
      else None)"

definition refusal_text :: "submit_refusal \<Rightarrow> string" where
  "refusal_text r =
     (case r of Unauthorized \<Rightarrow> ''unauthorized'' | UnknownTenant \<Rightarrow> ''unknown_tenant''
      | TenantNotLive \<Rightarrow> ''tenant_not_live'' | TenantSuspended \<Rightarrow> ''tenant_suspended''
      | NotSharedMode \<Rightarrow> ''not_shared_mode'' | EndpointNotAllowed \<Rightarrow> ''endpoint_not_allowed'' | BadBody \<Rightarrow> ''bad_body'')"

definition HTTP_FOR :: "submit_refusal \<Rightarrow> nat" where
  "HTTP_FOR r = (case r of Unauthorized \<Rightarrow> 401 | BadBody \<Rightarrow> 400 | _ \<Rightarrow> 403)"

definition PLANE_REFUSAL_HEADER :: string where
  "PLANE_REFUSAL_HEADER = ''x-vivijure-plane-refusal''"

definition MODULE_HEADER :: string where
  "MODULE_HEADER = ''x-vivijure-module''"

text \<open>What the proxy answers: a reply of its own, or the upstream's response passed on.\<close>

datatype proxy_reply = Own reply | Relayed http_response

definition plane_json :: "nat \<Rightarrow> headers \<Rightarrow> (string \<times> json) list \<Rightarrow> proxy_reply" where
  "plane_json st hs kvs =
     Own \<lparr>r_status = st, r_headers = (''content-type'', ''application/json'') # hs, r_body = JObj kvs\<rparr>"

definition refuse :: "submit_refusal \<Rightarrow> proxy_reply" where
  "refuse r = plane_json (HTTP_FOR r) [(PLANE_REFUSAL_HEADER, refusal_text r)]
     [(''error'', JStr (''plane refusal: '' @ refusal_text r))]"

definition planeUnavailable :: "string \<Rightarrow> string \<Rightarrow> proxy_reply" where
  "planeUnavailable reason detail = plane_json 503 [(PLANE_REFUSAL_HEADER, reason)]
     [(''error'', JStr (''plane refusal: '' @ reason)), (''detail'', JStr detail)]"

definition upstream_unreachable :: "string \<Rightarrow> proxy_reply" where
  "upstream_unreachable msg = plane_json 502 [] [(''error'', JStr (''upstream unreachable: '' @ msg))]"

definition jobIdFrom :: "string \<Rightarrow> string option" where
  "jobIdFrom txt =
     (case Option.bind (JSON_parse txt) (\<lambda>j. jget j ''id'') of
        Some (JStr s) \<Rightarrow> if s \<noteq> [] then Some s else None
      | _ \<Rightarrow> None)"

text \<open>The parts a handler is built from; the key is empty when there is none.\<close>

record proxy_deps =
  p_fetch :: fetcher
  p_key :: string
  p_callback_base :: string
  p_signing_key :: "string option"
  p_pool :: "string list"

definition submit_request :: "proxy_deps \<Rightarrow> string \<Rightarrow> (string \<times> json) list \<Rightarrow> http_request" where
  "submit_request deps ep kvs =
     \<lparr>q_method = ''POST'', q_url = RUNPOD_HOST @ ''/v2/'' @ encodeURIComponent ep @ ''/run'',
      q_headers = [(''authorization'', ''Bearer '' @ p_key deps), (''content-type'', ''application/json'')],
      q_body = JsonBody (JObj kvs)\<rparr>"

text \<open>
  The answer, the requests that went upstream, and the index.  The lookup of the tenant can fail; the
  error of a failing call is its text.
\<close>

definition handleProxySubmit ::
  "hmac \<Rightarrow> (8 word list \<Rightarrow> 8 word list) \<Rightarrow> proxy_deps \<Rightarrow> (string \<Rightarrow> string + tenant option) \<Rightarrow> 8 word list \<Rightarrow> headers
     \<Rightarrow> json option \<Rightarrow> string \<Rightarrow> int \<Rightarrow> job_index \<Rightarrow> proxy_reply \<times> http_request list \<times> job_index" where
  "handleProxySubmit hmac sha256 deps lookup buf hs body ep now idx =
     (case verifyTenantProxyToken hmac (p_signing_key deps) (bearerFrom hs) of
        None \<Rightarrow> (refuse Unauthorized, [], idx)
      | Some tid \<Rightarrow>
          (case lookup tid of
             Inl msg \<Rightarrow> (planeUnavailable ''store-unavailable'' msg, [], idx)
           | Inr None \<Rightarrow> (refuse UnknownTenant, [], idx)
           | Inr (Some t) \<Rightarrow>
               (case submitRefusal t of
                  Some r \<Rightarrow> (refuse r, [], idx)
                | None \<Rightarrow>
                    if \<not> isAllowedEndpoint ep (p_pool deps) then (refuse EndpointNotAllowed, [], idx)
                    else (case body of
                       None \<Rightarrow> (refuse BadBody, [], idx)
                     | Some tenantBody \<Rightarrow>
                         if p_key deps = [] then
                           (planeUnavailable ''credential-unavailable'' ''no RunPod credential on the proxy'', [], idx)
                         else (let token = mintWebhookToken buf in
                           case buildUpstreamSubmitBody tenantBody (callbackUrlFor (p_callback_base deps) token) None of
                             None \<Rightarrow> (refuse BadBody, [], idx)
                           | Some kvs \<Rightarrow>
                               (let q = submit_request deps ep kvs in
                                case p_fetch deps q of
                                  None \<Rightarrow> (upstream_unreachable ''fetch failed'', [q], idx)
                                | Some res \<Rightarrow>
                                    (Relayed res, [q],
                                     case (if res_ok res then jobIdFrom (s_text res) else None) of
                                       None \<Rightarrow> idx
                                     | Some job \<Rightarrow>
                                         (case openRunpodProxyJob idx job (t_id t) (t_slug t) (header_get hs MODULE_HEADER) ep
                                                 now (sha256Hex sha256 token) of
                                            Inl _ \<Rightarrow> idx | Inr idx' \<Rightarrow> idx'))))))))"

section \<open>Callbacks, polls and the sweep\<close>

definition status_request :: "string \<Rightarrow> string \<Rightarrow> string \<Rightarrow> http_request" where
  "status_request key ep job =
     \<lparr>q_method = ''GET'', q_url = RUNPOD_HOST @ ''/v2/'' @ encodeURIComponent ep @ ''/status/'' @ encodeURIComponent job,
      q_headers = [(''authorization'', ''Bearer '' @ key)], q_body = NoBody\<rparr>"

definition status_error :: "nat \<Rightarrow> string" where
  "status_error st = ''upstream status '' @ show_nat st"

definition handleProxyWebhook ::
  "(8 word list \<Rightarrow> 8 word list) \<Rightarrow> proxy_deps \<Rightarrow> string \<Rightarrow> int \<Rightarrow> job_index \<Rightarrow> proxy_reply \<times> job_index" where
  "handleProxyWebhook sha256 deps token now idx =
     (case findRunpodProxyJobByWebhookToken idx (sha256Hex sha256 token) of
        None \<Rightarrow> (plane_json 404 [] [(''error'', JStr ''unknown callback'')], idx)
      | Some ref \<Rightarrow>
          if ji_terminal_at ref \<noteq> None then
            (plane_json 200 [] [(''ok'', JBool True), (''closed'', JBool False)], idx)
          else if \<not> truthy (ji_endpoint_id ref) then
            (planeUnavailable ''row-incomplete'' ''job row carries no endpoint id'', idx)
          else if p_key deps = [] then
            (planeUnavailable ''credential-unavailable'' ''no RunPod credential on the proxy'', idx)
          else (case p_fetch deps (status_request (p_key deps) (the (ji_endpoint_id ref)) (ji_job_id ref)) of
             None \<Rightarrow> (planeUnavailable ''status-unreachable'' ''fetch failed'', idx)
           | Some res \<Rightarrow>
               if \<not> res_ok res then (planeUnavailable ''status-read-failed'' (status_error (s_status res)), idx)
               else if s_json res = None then (planeUnavailable ''status-unreachable'' ''unreadable body'', idx)
               else (case terminalFactsFromStatus (ji_job_id ref) (s_json res) of
                  None \<Rightarrow> (planeUnavailable ''not-terminal'' ''authoritative status is not terminal'', idx)
                | Some f \<Rightarrow>
                    (let (n, idx') = closeRunpodProxyJob idx (tf_job f) (tf_outcome f) (tf_status_raw f)
                           (tf_execution_ms f) (tf_delay_ms f) now
                     in (plane_json 200 [] [(''ok'', JBool True), (''closed'', JBool (n = 1))], idx')))))"

definition op_text :: "passthrough_op \<Rightarrow> string" where
  "op_text op = (case op of OpStatus \<Rightarrow> ''status'' | OpHealth \<Rightarrow> ''health'' | OpCancel \<Rightarrow> ''cancel'')"

definition upstreamUrlFor :: "passthrough_op \<Rightarrow> string \<Rightarrow> string option \<Rightarrow> string option" where
  "upstreamUrlFor op ep job =
     (let base = ''https://api.runpod.ai/v2/'' @ encodeURIComponent ep in
      case op of
        OpHealth \<Rightarrow> Some (base @ ''/health'')
      | OpStatus \<Rightarrow> if truthy job then Some (base @ ''/status/'' @ encodeURIComponent (the job)) else None
      | OpCancel \<Rightarrow> if truthy job then Some (base @ ''/cancel/'' @ encodeURIComponent (the job)) else None)"

definition passthrough :: "fetcher \<Rightarrow> string \<Rightarrow> passthrough_op \<Rightarrow> string \<Rightarrow> string option \<Rightarrow> proxy_reply \<times> http_request list" where
  "passthrough fetch key op ep job =
     (if key = [] then (planeUnavailable ''credential-unavailable'' ''no RunPod credential on the proxy'', [])
      else (case upstreamUrlFor op ep job of
              None \<Rightarrow> (upstream_unreachable (op_text op @ '' requires a job id''), [])
            | Some url \<Rightarrow>
                (let q = \<lparr>q_method = (if op = OpCancel then ''POST'' else ''GET''), q_url = url,
                          q_headers = [(''authorization'', ''Bearer '' @ key)], q_body = NoBody\<rparr>
                 in case fetch q of None \<Rightarrow> (upstream_unreachable ''fetch failed'', [q]) | Some res \<Rightarrow> (Relayed res, [q]))))"

definition handleProxyPoll ::
  "hmac \<Rightarrow> proxy_deps \<Rightarrow> headers \<Rightarrow> passthrough_op \<Rightarrow> string \<Rightarrow> string option \<Rightarrow> proxy_reply \<times> http_request list" where
  "handleProxyPoll hmac deps hs op ep job =
     (case verifyTenantProxyToken hmac (p_signing_key deps) (bearerFrom hs) of
        None \<Rightarrow> (refuse Unauthorized, [])
      | Some tid \<Rightarrow>
          if \<not> isAllowedEndpoint ep (p_pool deps) then (refuse EndpointNotAllowed, [])
          else passthrough (p_fetch deps) (p_key deps) op ep job)"

definition SWEEP_MAX_ROWS_PER_RUN :: nat where
  "SWEEP_MAX_ROWS_PER_RUN = 50"

record sweep_counts =
  sw_ran :: bool
  sw_eligible :: nat
  sw_examined :: nat
  sw_closed :: nat
  sw_unknown :: nat
  sw_still_running :: nat
  sw_errors :: nat

datatype probe = ProbeTerminal terminal_facts | ProbeRunning | ProbeGone | ProbeError

definition probeJob :: "fetcher \<Rightarrow> string \<Rightarrow> job_row \<Rightarrow> probe" where
  "probeJob fetch key r =
     (case fetch (status_request key (the (ji_endpoint_id r)) (ji_job_id r)) of
        None \<Rightarrow> ProbeError
      | Some res \<Rightarrow>
          if s_status res = 404 then ProbeGone
          else if \<not> res_ok res then ProbeError
          else if s_json res = None then ProbeError
          else (case terminalFactsFromStatus (ji_job_id r) (s_json res) of
                  Some f \<Rightarrow> ProbeTerminal f | None \<Rightarrow> ProbeRunning))"

definition past_horizon :: "int \<Rightarrow> job_row \<Rightarrow> bool" where
  "past_horizon now r = (case ji_submitted_at r of None \<Rightarrow> False
     | Some t \<Rightarrow> of_int OBSERVED_RESULT_RETENTION_MS < of_int now - t)"

definition sweep_job :: "fetcher \<Rightarrow> string \<Rightarrow> int \<Rightarrow> job_row \<Rightarrow> sweep_counts \<times> job_index \<Rightarrow> sweep_counts \<times> job_index" where
  "sweep_job fetch key now r acc =
     (case acc of (c, idx) \<Rightarrow>
        (case probeJob fetch key r of
           ProbeError \<Rightarrow> (c\<lparr>sw_errors := sw_errors c + 1\<rparr>, idx)
         | ProbeRunning \<Rightarrow> (c\<lparr>sw_still_running := sw_still_running c + 1\<rparr>, idx)
         | ProbeTerminal f \<Rightarrow>
             (let (n, idx') = closeRunpodProxyJob idx (tf_job f) (tf_outcome f) (tf_status_raw f) (tf_execution_ms f)
                    (tf_delay_ms f) now
              in (if n = 1 then c\<lparr>sw_closed := sw_closed c + 1\<rparr> else c, idx'))
         | ProbeGone \<Rightarrow>
             if \<not> past_horizon now r then (c\<lparr>sw_errors := sw_errors c + 1\<rparr>, idx)
             else (let (n, idx') = closeRunpodProxyJob idx (ji_job_id r) OUnknown [] None None now
                   in (if n = 1 then c\<lparr>sw_unknown := sw_unknown c + 1\<rparr> else c, idx'))))"

definition runRunpodJobSweep :: "fetcher \<Rightarrow> string \<Rightarrow> int \<Rightarrow> job_index \<Rightarrow> sweep_counts \<times> job_index" where
  "runRunpodJobSweep fetch key now idx =
     (let empty = \<lparr>sw_ran = False, sw_eligible = 0, sw_examined = 0, sw_closed = 0, sw_unknown = 0,
                   sw_still_running = 0, sw_errors = 0\<rparr>
      in if key = [] then (empty, idx)
         else (let before = now - RECONCILER_ADOPT_AFTER_MS;
                   rows = listOpenRunpodProxyJobs idx before SWEEP_MAX_ROWS_PER_RUN
               in fold (sweep_job fetch key now) rows
                    (empty\<lparr>sw_ran := True, sw_eligible := countOpenRunpodProxyJobs idx before, sw_examined := length rows\<rparr>, idx)))"

section \<open>The shared pool\<close>

datatype backing = RunpodBacked | DoorBacked

record planned =
  pl_key :: string
  pl_label :: string
  pl_backing :: backing
  pl_endpointVar :: string

definition PROVISION_PLAN :: "planned list" where
  "PROVISION_PLAN =
     [\<lparr>pl_key = ''backend'', pl_label = ''Render (keyframes, video)'', pl_backing = RunpodBacked,
       pl_endpointVar = ''RUNPOD_ENDPOINT_ID''\<rparr>,
      \<lparr>pl_key = ''upscale'', pl_label = ''Video upscale'', pl_backing = DoorBacked, pl_endpointVar = []\<rparr>,
      \<lparr>pl_key = ''wan-train'', pl_label = ''Cast LoRA training (Wan)'', pl_backing = RunpodBacked,
       pl_endpointVar = ''RUNPOD_WAN_TRAIN_ENDPOINT_ID''\<rparr>]"

definition endpointBackedPlan :: "planned list" where
  "endpointBackedPlan = filter (\<lambda>p. pl_backing p = RunpodBacked) PROVISION_PLAN"

definition doorBackedPlan :: "planned list" where
  "doorBackedPlan = filter (\<lambda>p. pl_backing p = DoorBacked) PROVISION_PLAN"

definition requiredPoolKeys :: "string list" where
  "requiredPoolKeys = map pl_key endpointBackedPlan"

text \<open>Why a pool is refused; the messages name the same fields.\<close>

datatype pool_refusal =
    PoolNotSet | PoolNotJson | PoolNotObject | PoolOwnIron "string list" | PoolUnknownKeys "string list"
  | PoolIncomplete string | PoolMissing "string list" | PoolDuplicate string

fun pool_entries :: "planned list \<Rightarrow> json \<Rightarrow> pool_refusal + (tenant_endpoint list \<times> string list)" where
  "pool_entries [] byKey = Inr ([], [])"
| "pool_entries (spec # specs) byKey =
     (case object_of (jget byKey (pl_key spec)) of
        None \<Rightarrow> map_sum id (\<lambda>(es, ms). (es, pl_key spec # ms)) (pool_entries specs byKey)
      | Some entry \<Rightarrow>
          (let i = trimmed_string (jget entry ''id''); name = trimmed_string (jget entry ''name'') in
           if i = [] \<or> name = [] then Inl (PoolIncomplete (pl_key spec))
           else map_sum id (\<lambda>(es, ms). (\<lparr>te_key = pl_key spec, te_label = pl_label spec, te_id = i, te_name = name,
                   te_endpointVar = pl_endpointVar spec\<rparr> # es, ms)) (pool_entries specs byKey)))"

fun first_duplicate :: "string list \<Rightarrow> string list \<Rightarrow> string option" where
  "first_duplicate seen [] = None"
| "first_duplicate seen (i # is) = (if i \<in> set seen then Some i else first_duplicate (i # seen) is)"

definition parseSharedPool :: "string option \<Rightarrow> pool_refusal + tenant_endpoint list" where
  "parseSharedPool raw =
     (let t = trim_or_empty raw in
      if t = [] then Inl PoolNotSet
      else (case JSON_parse t of
              None \<Rightarrow> Inl PoolNotJson
            | Some (JObj kvs) \<Rightarrow>
                (let own = filter (\<lambda>k. k \<in> set (map fst kvs)) (map pl_key doorBackedPlan);
                     known = map pl_key endpointBackedPlan @ map pl_key doorBackedPlan;
                     unknown = filter (\<lambda>k. k \<notin> set known) (remdups (map fst kvs))
                 in if own \<noteq> [] then Inl (PoolOwnIron own)
                    else if unknown \<noteq> [] then Inl (PoolUnknownKeys unknown)
                    else (case pool_entries endpointBackedPlan (JObj kvs) of
                            Inl r \<Rightarrow> Inl r
                          | Inr (es, missing) \<Rightarrow>
                              if missing \<noteq> [] then Inl (PoolMissing missing)
                              else (case first_duplicate [] (map te_id es) of
                                      Some i \<Rightarrow> Inl (PoolDuplicate i) | None \<Rightarrow> Inr es)))
            | Some _ \<Rightarrow> Inl PoolNotObject))"

definition pool_ids :: "string option \<Rightarrow> string list" where
  "pool_ids raw = (case parseSharedPool raw of Inr es \<Rightarrow> map te_id es | Inl _ \<Rightarrow> [])"

section \<open>The proxy routes\<close>

record proxy_env =
  SHARED_RUNPOD_ENDPOINTS :: "string option"
  SHARED_RUNPOD_INVOKE_KEY :: "string option"
  RUNPOD_PROXY_SIGNING_KEY :: "string option"

definition proxy_deps_of :: "sign_in_env \<Rightarrow> proxy_env \<Rightarrow> fetcher \<Rightarrow> proxy_deps" where
  "proxy_deps_of env penv fetch =
     \<lparr>p_fetch = fetch, p_key = or_empty (SHARED_RUNPOD_INVOKE_KEY penv),
      p_callback_base = publicOrigin env @ PROXY_WEBHOOK_PREFIX, p_signing_key = RUNPOD_PROXY_SIGNING_KEY penv,
      p_pool = pool_ids (SHARED_RUNPOD_ENDPOINTS penv)\<rparr>"

text \<open>The answer, the requests sent to run or read a tenant's job, and the index.\<close>

definition runpodProxyRoutes ::
  "hmac \<Rightarrow> (8 word list \<Rightarrow> 8 word list) \<Rightarrow> sign_in_env \<Rightarrow> proxy_env \<Rightarrow> fetcher \<Rightarrow> (string \<Rightarrow> string + tenant option)
     \<Rightarrow> 8 word list \<Rightarrow> headers \<Rightarrow> json option \<Rightarrow> proxy_route \<Rightarrow> int \<Rightarrow> job_index \<Rightarrow> proxy_reply \<times> http_request list \<times> job_index" where
  "runpodProxyRoutes hmac sha256 env penv fetch lookup buf hs body route now idx =
     (let deps = proxy_deps_of env penv fetch in
      case route of
        PollRoute op ep job \<Rightarrow> (case handleProxyPoll hmac deps hs op ep job of (r, qs) \<Rightarrow> (r, qs, idx))
      | SubmitRoute ep \<Rightarrow> handleProxySubmit hmac sha256 deps lookup buf hs body ep now idx
      | WebhookRoute token \<Rightarrow> (case handleProxyWebhook sha256 deps token now idx of (r, idx') \<Rightarrow> (r, [], idx'))
      | UnknownRoute \<Rightarrow> (Own (err ''not_found'' 404 []), [], idx))"

section \<open>Lemmas: tokens\<close>

lemma or16_eq_0_iff: "(a OR b = 0) \<longleftrightarrow> a = 0 \<and> b = (0::16 word)"
  by (auto simp: bit_eq_iff bit_or_iff)

lemma xor16_eq_0_iff: "(a XOR b = 0) \<longleftrightarrow> a = (b::16 word)"
  by (auto simp: bit_eq_iff bit_xor_iff)

lemma fold_unit_diff:
  "(foldl (\<lambda>diff i. diff OR (f i XOR g i)) d is = (0::16 word)) \<longleftrightarrow> d = 0 \<and> (\<forall>i \<in> set is. f i = g i)"
  by (induction "is" arbitrary: d) (auto simp: or16_eq_0_iff xor16_eq_0_iff)

lemma unat_char_unit: "unat (char_unit c) = of_char c"
proof -
  have "of_char c mod 256 < (256 :: nat)" by (rule mod_less_divisor) simp
  then have "of_char c < (256 :: nat)" by (simp only: of_char_mod_256)
  then have "of_char c < (2 ^ 16 :: nat)" by (rule order.strict_trans) simp
  then show ?thesis by (simp add: char_unit_def unsigned_of_nat take_bit_nat_eq_self)
qed

lemma char_unit_inject: "char_unit c = char_unit d \<longleftrightarrow> c = d"
  by (metis of_char_eq_iff unat_char_unit)

lemma timingSafeEqual_iff [simp]: "timingSafeEqual a b \<longleftrightarrow> a = b"
proof -
  have "timingSafeEqual a b \<longleftrightarrow> length a = length b \<and> (\<forall>i < length a. a ! i = b ! i)"
    unfolding timingSafeEqual_def fold_unit_diff by (auto simp: char_unit_inject)
  then show ?thesis by (metis nth_equalityI)
qed

lemma join_split: "join_with [c] (split_on c s) = s"
proof (induction s)
  case (Cons x s)
  obtain w ws where "split_on c s = w # ws" by (metis neq_Nil_conv split_on_not_Nil)
  with Cons show ?case by (cases ws) auto
qed simp

lemma split_on_three:
  "split_on c s = [a, b, w] \<longleftrightarrow> s = a @ c # b @ c # w \<and> c \<notin> set a \<and> c \<notin> set b \<and> c \<notin> set w"
proof
  assume sp: "split_on c s = [a, b, w]"
  then show "s = a @ c # b @ c # w \<and> c \<notin> set a \<and> c \<notin> set b \<and> c \<notin> set w"
    using join_split [of c s] split_on_pieces [of _ c s] by auto
qed (auto simp: split_on_append split_on_no_sep)

lemma hmacHex_no_dot: "CHR ''.'' \<notin> set (hmacHex hmac k m)"
  using set_hex_bytes [of "CHR ''.''"] by (auto simp: hmacHex_def is_digit_def is_lower_alpha_def)

text \<open>
  Only a minted token names a tenant.  A bearer is accepted for a tenant exactly when it is the
  token that minting for that tenant under the same signing key gives; without a signing key nothing
  is minted and nothing is accepted.
\<close>

theorem proxy_token_exact:
  assumes "\<And>k m. hmac k m \<noteq> []"
  shows "verifyTenantProxyToken hmac key (Some token) = Some tid \<longleftrightarrow> mintTenantProxyToken hmac key tid = Some token"
proof -
  let ?mac = "hmacHex hmac (the key) (macInput tid)"
  have mac: "?mac \<noteq> []" using assms by (simp add: hmacHex_def hex_bytes_def hex_byte_def)
  have pre: "CHR ''.'' \<notin> set PROXY_TOKEN_PREFIX" by code_simp
  have "verifyTenantProxyToken hmac key (Some token) = Some tid \<longleftrightarrow>
      truthy key \<and> token \<noteq> [] \<and> split_on (CHR ''.'') token = [PROXY_TOKEN_PREFIX, tid, ?mac] \<and> tid \<noteq> []"
    using mac by (auto simp: verifyTenantProxyToken_def truthy_def split: list.splits if_splits)
  also have "\<dots> \<longleftrightarrow> truthy key \<and> tid \<noteq> [] \<and> CHR ''.'' \<notin> set tid \<and> token = PROXY_TOKEN_PREFIX @ ''.'' @ tid @ ''.'' @ ?mac"
    using pre hmacHex_no_dot by (auto simp: split_on_three)
  also have "\<dots> \<longleftrightarrow> mintTenantProxyToken hmac key tid = Some token"
    by (auto simp: mintTenantProxyToken_def)
  finally show ?thesis .
qed

theorem proxy_token_exact_witness:
  "verifyTenantProxyToken (\<lambda>k m. [7]) (Some ''k'') (Some ''vjp1.t1.07'') = Some ''t1''
   \<longleftrightarrow> mintTenantProxyToken (\<lambda>k m. [7]) (Some ''k'') ''t1'' = Some ''vjp1.t1.07''"
  using proxy_token_exact [of "\<lambda>k m. [7]" "Some ''k''" "''vjp1.t1.07''" "''t1''"] by simp

text \<open>Both sides hold there.\<close>

lemma token_of_t1: "mintTenantProxyToken (\<lambda>k m. [7]) (Some ''k'') ''t1'' = Some ''vjp1.t1.07''"
  by code_simp

section \<open>Lemmas: submitting\<close>

lemma map_of_override:
  "map_of (map (\<lambda>(b, w). if b = k then (b, v) else (b, w)) xs) a = (if a = k \<and> k \<in> fst ` set xs then Some v else map_of xs a)"
proof (induction xs)
  case (Cons x xs)
  obtain b w where "x = (b, w)" by fastforce
  with Cons show ?case by (cases "a = k") simp_all
qed simp

lemma jget_obj_set: "jget (JObj (obj_set kvs k v)) a = (if a = k then Some v else jget (JObj kvs) a)"
  by (auto simp: obj_set_def jget_def rev_map map_of_override)

text \<open>
  C4: what reaches RunPod through a submit.  A request goes upstream only for a bearer minted for a
  tenant that is on the table, live, not suspended, not deleted and on the shared pool, and only to an
  endpoint of the pool or of the public list; it is one request, to that endpoint's \<^verbatim>\<open>run\<close>, under the
  plane's own key, whose callback is the plane's and not one the tenant chose, and every other field is
  the tenant's.  When the index changes, exactly the job RunPod answered with is attributed to that
  tenant and endpoint.
\<close>

theorem submit_only_authorised:
  assumes "handleProxySubmit hmac sha256 deps lookup buf hs body ep now idx = (r, qs, idx')" and "qs \<noteq> []"
  shows "\<exists>tid t src kvs.
      verifyTenantProxyToken hmac (p_signing_key deps) (bearerFrom hs) = Some tid \<and> lookup tid = Inr (Some t)
      \<and> t_deleted_at t = None \<and> t_suspended_at t = None \<and> t_status t = Live \<and> t_runpod_mode t = ''shared''
      \<and> isAllowedEndpoint ep (p_pool deps) \<and> body = Some (JObj src) \<and> qs = [submit_request deps ep kvs]
      \<and> jget (JObj kvs) ''webhook'' = Some (JStr (callbackUrlFor (p_callback_base deps) (mintWebhookToken buf)))
      \<and> (\<forall>k. k \<noteq> ''webhook'' \<longrightarrow> jget (JObj kvs) k = jget (JObj src) k)
      \<and> (idx' = idx
          \<or> (\<exists>res job. p_fetch deps (submit_request deps ep kvs) = Some res \<and> res_ok res \<and> jobIdFrom (s_text res) = Some job
               \<and> openRunpodProxyJob idx job (t_id t) (t_slug t) (header_get hs MODULE_HEADER) ep now
                   (sha256Hex sha256 (mintWebhookToken buf)) = Inr idx'))"
proof -
  from assms obtain tid t src kvs where *:
      "verifyTenantProxyToken hmac (p_signing_key deps) (bearerFrom hs) = Some tid" "lookup tid = Inr (Some t)"
      "submitRefusal t = None" "isAllowedEndpoint ep (p_pool deps)" "body = Some src"
      "buildUpstreamSubmitBody src (callbackUrlFor (p_callback_base deps) (mintWebhookToken buf)) None = Some kvs"
      "qs = [submit_request deps ep kvs]"
    and idx: "idx' = idx \<or> (\<exists>res job. p_fetch deps (submit_request deps ep kvs) = Some res \<and> res_ok res
       \<and> jobIdFrom (s_text res) = Some job
       \<and> openRunpodProxyJob idx job (t_id t) (t_slug t) (header_get hs MODULE_HEADER) ep now
           (sha256Hex sha256 (mintWebhookToken buf)) = Inr idx')"
    by (auto simp: handleProxySubmit_def Let_def split: option.splits sum.splits if_splits)
  from *(6) obtain o' where o': "src = JObj o'" "kvs = obj_set o' ''webhook'' (JStr (callbackUrlFor (p_callback_base deps) (mintWebhookToken buf)))"
    by (auto simp: buildUpstreamSubmitBody_def split: json.splits)
  have "t_deleted_at t = None \<and> t_suspended_at t = None \<and> t_status t = Live \<and> t_runpod_mode t = ''shared''"
    using *(3) by (auto simp: submitRefusal_def split: if_splits)
  then show ?thesis using * idx o' by (auto simp: jget_obj_set)
qed

definition example_deps :: proxy_deps where
  "example_deps = \<lparr>p_fetch = (\<lambda>q. None), p_key = ''rk'', p_callback_base = ''u'', p_signing_key = Some ''k'', p_pool = [''ep1'']\<rparr>"

definition shared_tenant :: tenant where
  "shared_tenant = ex_tenant\<lparr>t_id := ''t1'', t_status := Live, t_runpod_mode := ''shared''\<rparr>"

lemma bearer_of_t1: "verifyTenantProxyToken (\<lambda>k m. [7]) (Some ''k'') (bearerFrom [(''authorization'', ''Bearer vjp1.t1.07'')]) = Some ''t1''"
  by code_simp

theorem submit_only_authorised_witness:
  "\<exists>kvs. submit_request example_deps ''ep1'' kvs \<in> set (fst (snd (handleProxySubmit (\<lambda>k m. [7]) id example_deps
       (\<lambda>i. Inr (Some shared_tenant)) [1] [(''authorization'', ''Bearer vjp1.t1.07'')] (Some (JObj [(''webhook'', JNull)])) ''ep1'' 0 [])))
     \<and> jget (JObj kvs) ''webhook'' = Some (JStr (callbackUrlFor ''u'' (mintWebhookToken [1])))"
proof -
  let ?go = "handleProxySubmit (\<lambda>k m. [7]) id example_deps (\<lambda>i. Inr (Some shared_tenant)) [1]
    [(''authorization'', ''Bearer vjp1.t1.07'')] (Some (JObj [(''webhook'', JNull)])) ''ep1'' 0 []"
  have "submitRefusal shared_tenant = None" "isAllowedEndpoint ''ep1'' [''ep1'']"
    by (simp_all add: submitRefusal_def shared_tenant_def ex_tenant_def isAllowedEndpoint_def)
  then have "fst (snd ?go) \<noteq> []"
    by (simp add: handleProxySubmit_def bearer_of_t1 example_deps_def buildUpstreamSubmitBody_def Let_def)
  with submit_only_authorised [of "\<lambda>k m. [7]" id example_deps "\<lambda>i. Inr (Some shared_tenant)" "[1]"
      "[(''authorization'', ''Bearer vjp1.t1.07'')]" "Some (JObj [(''webhook'', JNull)])" "''ep1''" 0 "[]" "fst ?go" "fst (snd ?go)" "snd (snd ?go)"]
  show ?thesis by (force simp: example_deps_def)
qed

section \<open>Lemmas: the index\<close>

definition terminal_part :: "job_row \<Rightarrow> string option \<times> string option \<times> rat option \<times> rat option \<times> rat option \<times> string option" where
  "terminal_part r = (ji_outcome r, ji_status_raw r, ji_execution_ms r, ji_delay_ms r, ji_terminal_at r, ji_closed_at r)"

definition job_ids_ok :: "job_index \<Rightarrow> bool" where
  "job_ids_ok idx \<longleftrightarrow> distinct (map ji_job_id idx)"

datatype index_op =
    IOpen string string string "string option" string int string
  | IClose string job_outcome string "rat option" "rat option" int
  | IHarvest string string "harvested_job list" int

primrec exec_index :: "index_op \<Rightarrow> job_index \<Rightarrow> job_index" where
  "exec_index (IOpen job tid slug m ep now sha) idx = kept idx (openRunpodProxyJob idx job tid slug m ep now sha)"
| "exec_index (IClose job out raw e d now) idx = snd (closeRunpodProxyJob idx job out raw e d now)"
| "exec_index (IHarvest tid slug rows now) idx = snd (indexRunpodJobs idx tid slug rows now)"

definition run_index :: "index_op list \<Rightarrow> job_index \<Rightarrow> job_index" where
  "run_index ops idx = foldl (\<lambda>i p. exec_index p i) idx ops"

text \<open>The row with an id, as far as how it ended is concerned.\<close>

definition ended :: "job_index \<Rightarrow> string \<Rightarrow> (string option \<times> string option \<times> rat option \<times> rat option \<times> rat option \<times> string option) option" where
  "ended idx j = map_option terminal_part (first_where (\<lambda>r. ji_job_id r = j) idx)"

lemma find_append_Some: "List.find p xs = Some r \<Longrightarrow> List.find p (xs @ ys) = Some r"
  by (induction xs) auto

lemma open_keeps_terminal:
  assumes "first_where (\<lambda>r. ji_job_id r = j) idx = Some r"
    and "openRunpodProxyJob idx job tid slug m ep now sha = Inr idx'"
  shows "\<exists>r'. first_where (\<lambda>r. ji_job_id r = j) idx' = Some r' \<and> terminal_part r' = terminal_part r"
  using assms(2)
  by (auto simp: openRunpodProxyJob_def find_update_key [OF assms(1)] find_append_Some [OF assms(1)] terminal_part_def
      split: if_splits)

lemma close_keeps_terminal:
  assumes "first_where (\<lambda>r. ji_job_id r = j) idx = Some r" "ji_terminal_at r \<noteq> None"
  shows "\<exists>r'. first_where (\<lambda>r. ji_job_id r = j) (snd (closeRunpodProxyJob idx job out raw e d now)) = Some r'
    \<and> terminal_part r' = terminal_part r"
  using assms(2) by (auto simp: closeRunpodProxyJob_def Let_def find_update_key [OF assms(1)])

lemma closed_row_kept:
  assumes "first_where (\<lambda>r. ji_job_id r = j) idx = Some r" "ji_terminal_at r \<noteq> None"
    and "\<forall>tid slug rows now. p \<noteq> IHarvest tid slug rows now"
  shows "\<exists>r'. first_where (\<lambda>r. ji_job_id r = j) (exec_index p idx) = Some r' \<and> terminal_part r' = terminal_part r"
proof (cases p)
  case (IOpen job tid slug m ep now sha)
  then show ?thesis
    using assms(1) open_keeps_terminal [OF assms(1), of job tid slug m ep now sha]
    by (cases "openRunpodProxyJob idx job tid slug m ep now sha") simp_all
next
  case (IClose job out raw e d now)
  then show ?thesis using close_keeps_terminal [OF assms(1,2)] by simp
qed (use assms(3) in blast)

lemma job_ids_update_where:
  assumes "\<And>s. ji_job_id (f s) = ji_job_id s"
  shows "job_ids_ok (update_where p f idx) = job_ids_ok idx"
proof -
  have "map ji_job_id (update_where p f idx) = map ji_job_id idx"
    by (simp add: update_where_def assms)
  then show ?thesis by (simp add: job_ids_ok_def)
qed

lemma job_ids_append:
  "job_ids_ok (idx @ [r]) \<longleftrightarrow> job_ids_ok idx \<and> \<not> list_ex (\<lambda>s. ji_job_id s = ji_job_id r) idx"
  by (auto simp: job_ids_ok_def list_ex_iff) (metis imageI)

lemma job_ids_harvested: "job_ids_ok idx \<Longrightarrow> job_ids_ok (fold (index_harvested tid slug now) rows idx)"
  by (induction rows arbitrary: idx) (simp_all add: index_harvested_def job_ids_update_where job_ids_append)

lemma job_ids_exec: "job_ids_ok idx \<Longrightarrow> job_ids_ok (exec_index p idx)"
  by (cases p)
    (simp_all add: openRunpodProxyJob_def closeRunpodProxyJob_def indexRunpodJobs_def Let_def job_ids_update_where
      job_ids_append job_ids_harvested)

lemma job_ids_run: "job_ids_ok idx \<Longrightarrow> job_ids_ok (run_index ops idx)"
  by (induction ops arbitrary: idx) (simp_all add: run_index_def job_ids_exec)

lemma closed_row_stays:
  assumes "ended idx j = Some e" "fst (snd (snd (snd (snd e)))) \<noteq> None"
    and "\<forall>p \<in> set ops. \<forall>tid slug rows now. p \<noteq> IHarvest tid slug rows now"
  shows "ended (run_index ops idx) j = Some e"
  using assms
proof (induction ops arbitrary: idx)
  case (Cons p ops)
  from Cons.prems(1) obtain r where r: "first_where (\<lambda>r. ji_job_id r = j) idx = Some r" "terminal_part r = e"
    by (auto simp: ended_def)
  with Cons.prems(2) have "ji_terminal_at r \<noteq> None" by (auto simp: terminal_part_def)
  then obtain r' where "first_where (\<lambda>r. ji_job_id r = j) (exec_index p idx) = Some r'" "terminal_part r' = terminal_part r"
    using closed_row_kept [OF r(1), of p] Cons.prems(3) by auto
  then have "ended (exec_index p idx) j = Some e" using r by (simp add: ended_def)
  then show ?case using Cons.IH [OF _ Cons.prems(2)] Cons.prems(3) by (simp add: run_index_def)
qed (simp add: run_index_def)

lemma close_ends:
  assumes "job_ids_ok idx" "fst (closeRunpodProxyJob idx j out raw e d now) = 1"
  shows "ended (snd (closeRunpodProxyJob idx j out raw e d now)) j =
    Some (Some (outcome_text out), Some raw, e, d, Some (of_int now), Some (sqlite_datetime now))"
proof -
  let ?p = "\<lambda>r. ji_job_id r = j \<and> ji_terminal_at r = None"
  from assms(2) obtain r where "List.find ?p idx = Some r"
    using changes_keyed [of ji_job_id idx ?p j] assms(1) by (auto simp: closeRunpodProxyJob_def Let_def job_ids_ok_def)
  from keyed_update_wins(2) [OF _ this, of ji_job_id j] assms(1) show ?thesis
    by (simp add: closeRunpodProxyJob_def Let_def ended_def job_ids_ok_def terminal_part_def)
qed

lemma no_second_close:
  assumes "job_ids_ok idx" "ended idx j = Some (a, b, c, d, Some t, u)"
  shows "fst (closeRunpodProxyJob idx j out raw e d' now) = 0"
proof -
  obtain r where r: "first_where (\<lambda>r. ji_job_id r = j) idx = Some r" "ji_terminal_at r = Some t"
    using assms(2) by (auto simp: ended_def terminal_part_def)
  have "s = r" if "s \<in> set idx" "ji_job_id s = j" for s
    using that find_SomeD [OF r(1)] assms(1) by (auto simp: job_ids_ok_def dest: distinct_map_eq)
  then show ?thesis using r(2) by (auto simp: closeRunpodProxyJob_def Let_def changes_0_iff)
qed

text \<open>
  The first terminal write of a job wins.  After a close that changed the row, its outcome, status,
  times and closing stamp stay what that close wrote, whatever callbacks, sweeps, polls and submits come
  after it, with the same job id too, and every later close reports that it changed nothing.
\<close>

theorem first_terminal_write_wins:
  assumes "job_ids_ok idx" and "closeRunpodProxyJob idx j out raw e d now = (1, idx')"
    and "\<forall>p \<in> set ops. \<forall>tid slug rows t. p \<noteq> IHarvest tid slug rows t"
  shows "ended (run_index ops idx') j =
      Some (Some (outcome_text out), Some raw, e, d, Some (of_int now), Some (sqlite_datetime now))
    \<and> fst (closeRunpodProxyJob (run_index ops idx') j out2 raw2 e2 d2 later) = 0"
proof -
  let ?e = "(Some (outcome_text out), Some raw, e, d, Some (of_int now), Some (sqlite_datetime now))"
  have close: "ended idx' j = Some ?e" using close_ends [OF assms(1), of j out raw e d now] assms(2) by simp
  then have stays: "ended (run_index ops idx') j = Some ?e" using closed_row_stays [OF _ _ assms(3)] by simp
  have "job_ids_ok idx'" using job_ids_exec [OF assms(1), of "IClose j out raw e d now"] assms(2) by simp
  then have "job_ids_ok (run_index ops idx')" by (rule job_ids_run)
  with stays show ?thesis by (simp add: no_second_close)
qed

definition example_row :: job_row where
  "example_row = \<lparr>ji_job_id = ''j1'', ji_tenant_id = ''t1'', ji_tenant_slug = ''acme'', ji_module = None,
     ji_outcome = Some ''submitted'', ji_submitted_at = Some 0, ji_terminal_at = None, ji_harvested_at = [],
     ji_source = Some ''proxy'', ji_endpoint_id = Some ''ep1'', ji_webhook_token_sha256 = Some ''01'',
     ji_status_raw = None, ji_execution_ms = None, ji_delay_ms = None, ji_closed_at = None\<rparr>"

theorem first_terminal_write_wins_witness:
  "\<exists>idx'. closeRunpodProxyJob [example_row] ''j1'' OCompleted ''COMPLETED'' (Some 5) None 9 = (1, idx')
    \<and> fst (closeRunpodProxyJob (run_index [IClose ''j1'' OFailed ''FAILED'' None None 10] idx') ''j1'' OFailed [] None None 11) = 0"
proof -
  have "job_ids_ok [example_row]" by (simp add: job_ids_ok_def)
  moreover have "closeRunpodProxyJob [example_row] ''j1'' OCompleted ''COMPLETED'' (Some 5) None 9 =
      (1, [example_row\<lparr>ji_outcome := Some ''completed'', ji_status_raw := Some ''COMPLETED'', ji_execution_ms := Some 5,
        ji_delay_ms := None, ji_terminal_at := Some 9, ji_closed_at := Some (sqlite_datetime 9)\<rparr>])"
    by (simp add: closeRunpodProxyJob_def Let_def changes_def update_where_def example_row_def outcome_text_def)
  ultimately show ?thesis
    using first_terminal_write_wins [of "[example_row]" "''j1''" OCompleted "''COMPLETED''" "Some 5" None 9 _
        "[IClose ''j1'' OFailed ''FAILED'' None None 10]" OFailed "[]" None None 11] by simp
qed

text \<open>
  A harvest is not bound by it: a harvested row with the same job id replaces the outcome and the
  terminal time of a row that is closed, and of a row of another tenant.
\<close>

theorem harvest_rewrites_closed:
  assumes "first_where (\<lambda>r. ji_job_id r = h_job_id h) idx = Some r"
    and "h_outcome h = Some out" "h_terminal_at h = Some t"
  shows "\<exists>r'. first_where (\<lambda>r. ji_job_id r = h_job_id h) (snd (indexRunpodJobs idx tid slug [h] now)) = Some r'
    \<and> ji_tenant_id r' = ji_tenant_id r \<and> ji_outcome r' = Some out \<and> ji_terminal_at r' = Some t"
proof -
  have "list_ex (\<lambda>r. ji_job_id r = h_job_id h) idx" using assms(1) by (auto simp: list_ex_iff dest!: find_SomeD)
  then show ?thesis
    using assms by (auto simp: indexRunpodJobs_def index_harvested_def find_update_key [OF assms(1)] coalesce_def
        dest!: find_SomeD)
qed

theorem harvest_rewrites_closed_witness:
  "\<exists>r'. first_where (\<lambda>r. ji_job_id r = ''j1'') (snd (indexRunpodJobs
      [example_row\<lparr>ji_terminal_at := Some 9, ji_outcome := Some ''failed''\<rparr>] ''t2'' ''other''
      [\<lparr>h_job_id = ''j1'', h_module = None, h_outcome = Some ''completed'', h_submitted_at = None, h_terminal_at = Some 3\<rparr>] 0)) = Some r'
    \<and> ji_tenant_id r' = ''t1'' \<and> ji_outcome r' = Some ''completed'' \<and> ji_terminal_at r' = Some 3"
  using harvest_rewrites_closed [of
      "\<lparr>h_job_id = ''j1'', h_module = None, h_outcome = Some ''completed'', h_submitted_at = None, h_terminal_at = Some 3\<rparr>"
      "[example_row\<lparr>ji_terminal_at := Some 9, ji_outcome := Some ''failed''\<rparr>]"
      "example_row\<lparr>ji_terminal_at := Some 9, ji_outcome := Some ''failed''\<rparr>" "''completed''" 3 "''t2''" "''other''" 0]
  by (simp add: example_row_def)

section \<open>Lemmas: the sweep\<close>

definition closed_row :: "job_outcome \<Rightarrow> string \<Rightarrow> rat option \<Rightarrow> rat option \<Rightarrow> int \<Rightarrow> job_row \<Rightarrow> job_row" where
  "closed_row out raw e d now r = r\<lparr>ji_outcome := Some (outcome_text out), ji_status_raw := Some raw, ji_execution_ms := e,
     ji_delay_ms := d, ji_terminal_at := Some (of_int now), ji_closed_at := Some (sqlite_datetime now)\<rparr>"

text \<open>What the sweep has to make of one open row: what RunPod says of it now decides.\<close>

definition swept :: "fetcher \<Rightarrow> string \<Rightarrow> int \<Rightarrow> job_row \<Rightarrow> job_row" where
  "swept fetch key now r =
     (case probeJob fetch key r of
        ProbeTerminal f \<Rightarrow> closed_row (tf_outcome f) (tf_status_raw f) (tf_execution_ms f) (tf_delay_ms f) now r
      | ProbeGone \<Rightarrow> if past_horizon now r then closed_row OUnknown [] None None now r else r
      | _ \<Rightarrow> r)"

definition tallied :: "sweep_counts \<Rightarrow> nat" where
  "tallied c = sw_closed c + sw_unknown c + sw_still_running c + sw_errors c"

lemma probe_names_its_job: "probeJob fetch key r = ProbeTerminal f \<Longrightarrow> tf_job f = ji_job_id r"
  by (auto simp: probeJob_def terminalFactsFromStatus_def Let_def split: option.splits if_splits)

lemma swept_id [simp]: "ji_job_id (swept fetch key now r) = ji_job_id r"
  by (simp add: swept_def closed_row_def split: probe.split)

lemma close_one:
  assumes "job_ids_ok idx" "r \<in> set idx" "ji_terminal_at r = None"
  shows "closeRunpodProxyJob idx (ji_job_id r) out raw e d now =
    (1, map (\<lambda>s. if s = r then closed_row out raw e d now r else s) idx)"
proof -
  have same: "s = r" if "s \<in> set idx" "ji_job_id s = ji_job_id r" for s
    using that assms(1,2) by (auto simp: job_ids_ok_def dest: distinct_map_eq)
  let ?p = "\<lambda>s. ji_job_id s = ji_job_id r \<and> ji_terminal_at s = None"
  have "changes ?p idx = 1"
    using changes_keyed [of ji_job_id idx ?p "ji_job_id r"] assms by (auto simp: job_ids_ok_def find_None_iff)
  moreover have "?p s \<longleftrightarrow> s = r" if "s \<in> set idx" for s using same that assms(3) by auto
  ultimately show ?thesis
    by (auto simp: closeRunpodProxyJob_def Let_def update_where_def closed_row_def)
qed

lemma sweep_one:
  assumes "job_ids_ok idx" "r \<in> set idx" "ji_terminal_at r = None"
  shows "snd (sweep_job fetch key now r (c, idx)) = map (\<lambda>s. if s = r then swept fetch key now r else s) idx"
    and "tallied (fst (sweep_job fetch key now r (c, idx))) = Suc (tallied c)"
    and "sw_examined (fst (sweep_job fetch key now r (c, idx))) = sw_examined c"
    and "sw_eligible (fst (sweep_job fetch key now r (c, idx))) = sw_eligible c"
proof -
  have id: "map (\<lambda>s. if s = r then r else s) idx = idx" by (rule map_idI) simp
  show "snd (sweep_job fetch key now r (c, idx)) = map (\<lambda>s. if s = r then swept fetch key now r else s) idx"
    by (cases "probeJob fetch key r")
      (simp_all add: sweep_job_def swept_def probe_names_its_job close_one [OF assms] id cong: if_cong)
  show "tallied (fst (sweep_job fetch key now r (c, idx))) = Suc (tallied c)"
    and "sw_examined (fst (sweep_job fetch key now r (c, idx))) = sw_examined c"
    and "sw_eligible (fst (sweep_job fetch key now r (c, idx))) = sw_eligible c"
    by (cases "probeJob fetch key r";
        simp add: sweep_job_def tallied_def probe_names_its_job close_one [OF assms])+
qed

lemma sweep_all:
  assumes "job_ids_ok idx" "set rows \<subseteq> set idx" "distinct rows" "\<forall>r \<in> set rows. ji_terminal_at r = None"
  shows "snd (fold (sweep_job fetch key now) rows (c, idx)) = map (\<lambda>s. if s \<in> set rows then swept fetch key now s else s) idx
    \<and> tallied (fst (fold (sweep_job fetch key now) rows (c, idx))) = tallied c + length rows
    \<and> sw_examined (fst (fold (sweep_job fetch key now) rows (c, idx))) = sw_examined c
    \<and> sw_eligible (fst (fold (sweep_job fetch key now) rows (c, idx))) = sw_eligible c"
  using assms
proof (induction rows arbitrary: c idx)
  case (Cons r rows)
  have ids: "ji_job_id s \<noteq> ji_job_id r" if "s \<in> set rows" for s
    using that Cons.prems(1,2,3) by (auto simp: job_ids_ok_def dest: distinct_map_eq)
  obtain c1 idx1 where step: "sweep_job fetch key now r (c, idx) = (c1, idx1)" by (cases "sweep_job fetch key now r (c, idx)")
  have r: "r \<in> set idx" "ji_terminal_at r = None" using Cons.prems by auto
  have idx1: "idx1 = map (\<lambda>s. if s = r then swept fetch key now r else s) idx"
    and c1: "tallied c1 = Suc (tallied c)" "sw_examined c1 = sw_examined c" "sw_eligible c1 = sw_eligible c"
    using sweep_one [OF Cons.prems(1) r, of fetch key now c] step by simp_all
  have "map ji_job_id idx1 = map ji_job_id idx" by (simp add: idx1)
  then have "job_ids_ok idx1" using Cons.prems(1) by (simp add: job_ids_ok_def)
  moreover have "set rows \<subseteq> set idx1" using Cons.prems(2,3) by (force simp: idx1)
  ultimately have IH: "snd (fold (sweep_job fetch key now) rows (c1, idx1)) =
      map (\<lambda>s. if s \<in> set rows then swept fetch key now s else s) idx1
    \<and> tallied (fst (fold (sweep_job fetch key now) rows (c1, idx1))) = tallied c1 + length rows
    \<and> sw_examined (fst (fold (sweep_job fetch key now) rows (c1, idx1))) = sw_examined c1
    \<and> sw_eligible (fst (fold (sweep_job fetch key now) rows (c1, idx1))) = sw_eligible c1"
    using Cons.IH Cons.prems(3,4) by simp
  have "swept fetch key now r \<notin> set rows" using ids by (metis swept_id)
  then have "map (\<lambda>s. if s \<in> set rows then swept fetch key now s else s) idx1
    = map (\<lambda>s. if s \<in> set (r # rows) then swept fetch key now s else s) idx"
    using Cons.prems(3) by (auto simp: idx1)
  then show ?case using IH c1 step by simp
qed simp

lemma open_rows:
  assumes "job_ids_ok idx"
  shows "set (listOpenRunpodProxyJobs idx before n) \<subseteq> set idx" "distinct (listOpenRunpodProxyJobs idx before n)"
    "\<forall>r \<in> set (listOpenRunpodProxyJobs idx before n). open_before before r"
    "length (listOpenRunpodProxyJobs idx before n) = min n (countOpenRunpodProxyJobs idx before)"
proof -
  have "distinct idx" using assms by (simp add: job_ids_ok_def distinct_map)
  then show "distinct (listOpenRunpodProxyJobs idx before n)" by (simp add: listOpenRunpodProxyJobs_def)
  show "set (listOpenRunpodProxyJobs idx before n) \<subseteq> set idx"
    and "\<forall>r \<in> set (listOpenRunpodProxyJobs idx before n). open_before before r"
    by (auto simp: listOpenRunpodProxyJobs_def dest: in_set_takeD)
  show "length (listOpenRunpodProxyJobs idx before n) = min n (countOpenRunpodProxyJobs idx before)"
    by (simp add: listOpenRunpodProxyJobs_def countOpenRunpodProxyJobs_def)
qed

text \<open>
  C17: the sweep over open jobs is exact.  It examines the oldest jobs that are open and past the
  callback's grace, fifty at most; each of them ends the way RunPod's own answer says and every other row
  of the index is untouched; a job RunPod no longer knows is closed as unknown only after its results'
  retention; and its four counts add up to the jobs it examined.
\<close>

theorem sweep_closes_what_runpod_ended:
  assumes "job_ids_ok idx" "key \<noteq> []" "runRunpodJobSweep fetch key now idx = (c, idx')"
  shows "idx' = map (\<lambda>r. if r \<in> set (listOpenRunpodProxyJobs idx (now - RECONCILER_ADOPT_AFTER_MS) 50)
      then swept fetch key now r else r) idx
    \<and> sw_closed c + sw_unknown c + sw_still_running c + sw_errors c = sw_examined c
    \<and> sw_examined c = min 50 (sw_eligible c)"
proof -
  let ?b = "now - RECONCILER_ADOPT_AFTER_MS"
  note rows = open_rows [OF assms(1), of ?b 50]
  have "\<forall>r \<in> set (listOpenRunpodProxyJobs idx ?b 50). ji_terminal_at r = None"
    using rows(3) by (auto simp: open_before_def)
  note all = sweep_all [OF assms(1) rows(1,2) this, of fetch key now
      "\<lparr>sw_ran = True, sw_eligible = countOpenRunpodProxyJobs idx ?b, sw_examined = min 50 (countOpenRunpodProxyJobs idx ?b),
        sw_closed = 0, sw_unknown = 0, sw_still_running = 0, sw_errors = 0\<rparr>"]
  then show ?thesis
    using assms(2,3) rows(4) by (simp add: runRunpodJobSweep_def Let_def SWEEP_MAX_ROWS_PER_RUN_def tallied_def)
qed

lemma gone_row_swept:
  "swept (\<lambda>q. Some \<lparr>s_status = 404, s_text = [], s_json = None\<rparr>) ''rk'' 7200000 example_row
    = closed_row OUnknown [] None None 7200000 example_row"
  by (simp add: swept_def probeJob_def past_horizon_def example_row_def OBSERVED_RESULT_RETENTION_MS_def)

theorem sweep_closes_what_runpod_ended_witness:
  "snd (runRunpodJobSweep (\<lambda>q. Some \<lparr>s_status = 404, s_text = [], s_json = None\<rparr>) ''rk'' 7200000 [example_row])
    = [closed_row OUnknown [] None None 7200000 example_row]"
proof -
  let ?go = "runRunpodJobSweep (\<lambda>q. Some \<lparr>s_status = 404, s_text = [], s_json = None\<rparr>) ''rk'' 7200000 [example_row]"
  have "job_ids_ok [example_row]" by (simp add: job_ids_ok_def)
  moreover have "listOpenRunpodProxyJobs [example_row] (7200000 - RECONCILER_ADOPT_AFTER_MS) 50 = [example_row]"
    by (simp add: listOpenRunpodProxyJobs_def open_before_def example_row_def RECONCILER_ADOPT_AFTER_MS_def)
  ultimately show ?thesis
    using sweep_closes_what_runpod_ended [of "[example_row]" "''rk''" _ 7200000 "fst ?go" "snd ?go"] gone_row_swept by simp
qed

text \<open>
  C16: a callback is a hint and never evidence.  When a callback changes the index, its token is that of an
  open row, RunPod itself, asked under the plane's own key for the row's job, answered with a terminal
  status, and that row alone is closed, with the facts of RunPod's answer.
\<close>

theorem callback_closes_on_authoritative_status:
  assumes "job_ids_ok idx" "handleProxyWebhook sha256 deps token now idx = (r, idx')" "idx' \<noteq> idx"
  shows "\<exists>row ep res f. findRunpodProxyJobByWebhookToken idx (sha256Hex sha256 token) = Some row
    \<and> ji_terminal_at row = None \<and> ji_endpoint_id row = Some ep \<and> p_key deps \<noteq> []
    \<and> p_fetch deps (status_request (p_key deps) ep (ji_job_id row)) = Some res \<and> res_ok res
    \<and> terminalFactsFromStatus (ji_job_id row) (s_json res) = Some f
    \<and> idx' = map (\<lambda>s. if s = row
        then closed_row (tf_outcome f) (tf_status_raw f) (tf_execution_ms f) (tf_delay_ms f) now s else s) idx"
proof -
  from assms(2,3) obtain row res f where *: "findRunpodProxyJobByWebhookToken idx (sha256Hex sha256 token) = Some row"
      "ji_terminal_at row = None" "truthy (ji_endpoint_id row)" "p_key deps \<noteq> []"
      "p_fetch deps (status_request (p_key deps) (the (ji_endpoint_id row)) (ji_job_id row)) = Some res" "res_ok res"
      "terminalFactsFromStatus (ji_job_id row) (s_json res) = Some f"
    and idx': "idx' = snd (closeRunpodProxyJob idx (tf_job f) (tf_outcome f) (tf_status_raw f) (tf_execution_ms f)
      (tf_delay_ms f) now)"
    by (auto simp: handleProxyWebhook_def Let_def case_prod_beta split: option.splits if_splits)
  have "row \<in> set idx" using *(1) by (auto simp: findRunpodProxyJobByWebhookToken_def dest: find_SomeD)
  moreover have "tf_job f = ji_job_id row" using *(7) by (auto simp: terminalFactsFromStatus_def Let_def split: option.splits)
  ultimately have "idx' = map (\<lambda>s. if s = row
      then closed_row (tf_outcome f) (tf_status_raw f) (tf_execution_ms f) (tf_delay_ms f) now s else s) idx"
    using close_one [OF assms(1) _ *(2)] idx' by auto
  moreover obtain ep where "ji_endpoint_id row = Some ep" using *(3) by (cases "ji_endpoint_id row") (simp_all add: truthy_def)
  ultimately show ?thesis using * by (intro exI [of _ row] exI [of _ ep] exI [of _ res] exI [of _ f]) simp
qed

theorem callback_closes_on_authoritative_status_witness:
  "\<exists>f. terminalFactsFromStatus ''j1'' (Some (JObj [(''status'', JStr ''COMPLETED'')])) = Some f
    \<and> snd (handleProxyWebhook (\<lambda>b. [1])
         (example_deps\<lparr>p_fetch := (\<lambda>q. Some \<lparr>s_status = 200, s_text = [], s_json = Some (JObj [(''status'', JStr ''COMPLETED'')])\<rparr>)\<rparr>)
         ''tok'' 9 [example_row])
       = [closed_row (tf_outcome f) (tf_status_raw f) (tf_execution_ms f) (tf_delay_ms f) 9 example_row]"
proof -
  let ?deps = "example_deps\<lparr>p_fetch := (\<lambda>q. Some \<lparr>s_status = 200, s_text = [], s_json = Some (JObj [(''status'', JStr ''COMPLETED'')])\<rparr>)\<rparr>"
  let ?go = "handleProxyWebhook (\<lambda>b. [1]) ?deps ''tok'' 9 [example_row]"
  have sha: "sha256Hex (\<lambda>b. [1]) ''tok'' = ''01''" by code_simp
  have row: "findRunpodProxyJobByWebhookToken [example_row] ''01'' = Some example_row"
    by (simp add: findRunpodProxyJobByWebhookToken_def example_row_def)
  have "ji_terminal_at (hd (snd ?go)) = Some 9"
    unfolding handleProxyWebhook_def sha row
    by (simp add: example_deps_def example_row_def truthy_def res_ok_def
        terminalFactsFromStatus_def object_of_def is_object_def plain_string_def jget_def outcomeForStatus_def
        closeRunpodProxyJob_def Let_def update_where_def)
  then have "snd ?go \<noteq> [example_row]" by (auto simp: example_row_def)
  moreover have "job_ids_ok [example_row]" by (simp add: job_ids_ok_def)
  ultimately show ?thesis
    using callback_closes_on_authoritative_status [of "[example_row]" "\<lambda>b. [1]" ?deps "''tok''" 9 "fst ?go" "snd ?go"] row
    by (auto simp: sha example_row_def)
qed

section \<open>Lemmas: the pool\<close>

lemma pool_entries_complete:
  "pool_entries specs byKey = Inr (es, []) \<Longrightarrow>
    map te_key es = map pl_key specs \<and> map te_endpointVar es = map pl_endpointVar specs
    \<and> (\<forall>e \<in> set es. te_id e \<noteq> [] \<and> te_name e \<noteq> [])"
proof (induction specs arbitrary: es)
  case (Cons spec specs)
  then obtain e es1 where "es = e # es1" "pool_entries specs byKey = Inr (es1, [])" "te_key e = pl_key spec"
      "te_endpointVar e = pl_endpointVar spec" "te_id e \<noteq> []" "te_name e \<noteq> []"
    by (cases "pool_entries specs byKey") (auto simp: Let_def split: option.splits if_splits prod.splits)
  with Cons.IH [of es1] show ?case by simp
qed simp

lemma first_duplicate_None: "first_duplicate seen is = None \<longleftrightarrow> distinct is \<and> set is \<inter> set seen = {}"
  by (induction "is" arbitrary: seen) auto

text \<open>
  A pool that is accepted is whole.  It has one endpoint for every RunPod-backed stage of the plan, in
  its order and under the variable that stage reads, each with an id and a name, and no endpoint stands
  for two stages.  Otherwise the pool is refused and no endpoint of it is usable.
\<close>

theorem shared_pool_all_or_nothing:
  assumes "parseSharedPool raw = Inr es"
  shows "map te_key es = requiredPoolKeys \<and> map te_endpointVar es = map pl_endpointVar endpointBackedPlan
    \<and> distinct (map te_id es) \<and> (\<forall>e \<in> set es. te_id e \<noteq> [] \<and> te_name e \<noteq> [])
    \<and> pool_ids raw = map te_id es"
proof -
  from assms obtain byKey where "pool_entries endpointBackedPlan byKey = Inr (es, [])" "first_duplicate [] (map te_id es) = None"
    by (auto simp: parseSharedPool_def Let_def split: if_splits option.splits json.splits sum.splits prod.splits)
  with pool_entries_complete [of endpointBackedPlan byKey es] assms show ?thesis
    by (simp add: requiredPoolKeys_def pool_ids_def first_duplicate_None)
qed

definition example_pool :: string where
  "example_pool = ''{\"wan-train\":{\"id\":\"e2\",\"name\":\"w\"},\"backend\":{\"id\":\"e1\",\"name\":\"b\"}}''"

lemma example_pool_parses: "\<not> isl (parseSharedPool (Some example_pool))"
  by code_simp

theorem shared_pool_all_or_nothing_witness:
  "\<exists>es. parseSharedPool (Some example_pool) = Inr es \<and> map te_key es = requiredPoolKeys
    \<and> distinct (pool_ids (Some example_pool))"
proof -
  obtain es where "parseSharedPool (Some example_pool) = Inr es"
    using example_pool_parses by (cases "parseSharedPool (Some example_pool)") simp_all
  with shared_pool_all_or_nothing [OF this] show ?thesis by simp
qed

end
