(* ===== verification/Effects.thy ===== *)
theory Effects
  imports TenantStore RunpodProxy
begin

text \<open>
  Programs that call services and the store: a small state monad with exceptions, the calls the
  provisioner and the teardown make, and the error class of \<^verbatim>\<open>src/src/cf-api.ts\<close>.

  A program works on a world: the store, the job index and the trace of everything it did.  What a
  service answers, what the clock and the random source say and whether a statement reaches the store
  may depend on the whole trace, so a law about every service record is a law about every behaviour of
  the services.  Every write to the store is one of the operations of \<open>TenantStore\<close>, and the trace
  keeps it, so that what is proved there of sequences of operations holds of every run of a program.
\<close>

section \<open>Errors\<close>

type_synonym cf_error = "(int option \<times> string)"

text \<open>The error classes the callers tell apart; any other error by its class name and message.\<close>

datatype exn =
    CfApiError string nat "cf_error list"
  | ProvisionFailure string string
  | ProvisionYield string
  | TenantModuleError string string
  | StudioUpgradeError string string
  | OtherError string string

definition CF_SCRIPT_NOT_FOUND :: int where
  "CF_SCRIPT_NOT_FOUND = 10007"

definition CF_VPC_BINDING_UNAUTHORIZED :: int where
  "CF_VPC_BINDING_UNAUTHORIZED = 10196"

fun error_message :: "exn \<Rightarrow> string" where
  "error_message (CfApiError operation status errs) =
     operation @ '': '' @ (if errs = [] then ''HTTP '' @ show_nat status else join_with ''; '' (map snd errs))"
| "error_message (ProvisionFailure step msg) = msg"
| "error_message (ProvisionYield after) = ''provision yielded after '' @ after"
| "error_message (TenantModuleError step msg) = msg"
| "error_message (StudioUpgradeError step msg) = msg"
| "error_message (OtherError nam msg) = msg"

fun error_name :: "exn \<Rightarrow> string" where
  "error_name (CfApiError _ _ _) = ''CfApiError''"
| "error_name (ProvisionFailure _ _) = ''ProvisionFailure''"
| "error_name (ProvisionYield _) = ''ProvisionYield''"
| "error_name (TenantModuleError _ _) = ''TenantModuleError''"
| "error_name (StudioUpgradeError _ _) = ''StudioUpgradeError''"
| "error_name (OtherError nam _) = nam"

text \<open>\<^verbatim>\<open>String(e)\<close> of an \<^verbatim>\<open>Error\<close>.\<close>

definition error_string :: "exn \<Rightarrow> string" where
  "error_string e =
     (if error_name e = [] then error_message e
      else if error_message e = [] then error_name e
      else error_name e @ '': '' @ error_message e)"

datatype vpc_failure = Unrelated | VpcRefused | Unmatched "int option list" "string list"

definition classifyVpcBindingFailure :: "exn \<Rightarrow> bool \<Rightarrow> vpc_failure" where
  "classifyVpcBindingFailure e attachingVpc =
     (case e of
        CfApiError operation status errs \<Rightarrow>
          if \<not> attachingVpc then Unrelated
          else if list_ex (\<lambda>c. fst c = Some CF_VPC_BINDING_UNAUTHORIZED) errs then VpcRefused
          else Unmatched (map fst errs) (map snd errs)
      | _ \<Rightarrow> Unrelated)"

definition isScriptAbsent :: "exn \<Rightarrow> bool" where
  "isScriptAbsent e =
     (case e of
        CfApiError operation status errs \<Rightarrow> status = 404 \<and> list_ex (\<lambda>c. fst c = Some CF_SCRIPT_NOT_FOUND) errs
      | _ \<Rightarrow> False)"

section \<open>Calls\<close>

datatype binding =
    AiBinding string
  | D1Binding string string
  | R2Binding string string
  | PlainText string string
  | SecretText string string
  | AssetsBinding string
  | RateLimit string string nat nat
  | DispatchNamespace string string
  | VpcService string string
  | Inherit string

fun binding_name :: "binding \<Rightarrow> string" where
  "binding_name (AiBinding n) = n"
| "binding_name (D1Binding n _) = n"
| "binding_name (R2Binding n _) = n"
| "binding_name (PlainText n _) = n"
| "binding_name (SecretText n _) = n"
| "binding_name (AssetsBinding n) = n"
| "binding_name (RateLimit n _ _ _) = n"
| "binding_name (DispatchNamespace n _) = n"
| "binding_name (VpcService n _) = n"
| "binding_name (Inherit n) = n"

fun is_vpc :: "binding \<Rightarrow> bool" where
  "is_vpc (VpcService _ _) = True"
| "is_vpc _ = False"

record worker_upload =
  u_namespace :: string
  u_script :: string
  u_main :: string
  u_text :: string
  u_date :: string
  u_flags :: "string list option"
  u_assets_jwt :: "string option"
  u_bindings :: "binding list"

record asset =
  as_path :: string
  as_base64 :: string
  as_type :: string
  as_hash :: string
  as_size :: nat

datatype call =
    CreateD1 string
  | QueryD1 string string "json list"
  | DeleteD1 string
  | CreateBucket string
  | DeleteBucket string
  | MintBucketToken string string
  | MintAigToken string
  | Revoke string
  | RevokeByName string
  | EmptyBucket string string
  | CreateNamespace string
  | UploadWorker worker_upload
  | DeleteWorker string string
  | ListScripts string
  | GetBindings string string
  | PatchSettings string string "binding list"
  | GetSecretNames string string
  | AssetsSession string string "(string \<times> string \<times> nat) list"
  | AssetsBucket string "(string \<times> string \<times> string) list"
  | StudioCall string string string string "string option"
  | ModuleCall string string
  | FetchBundle string
  | FetchModule string string

text \<open>
  What a program did: a call and whether it returned, a write, a batch of index rows, a statement that
  failed, a look at the store, the clock or the random source, or a wait.
\<close>

datatype event =
    Called call bool
  | Wrote int store_op
  | Indexed string string "harvested_job list" int
  | StoreFailed
  | Observed
  | Slept int

type_synonym trace = "event list"

fun written :: "event \<Rightarrow> (int \<times> store_op) option" where
  "written (Wrote now p) = Some (now, p)"
| "written _ = None"

definition writes :: "trace \<Rightarrow> (int \<times> store_op) list" where
  "writes tr = List.map_filter written tr"

fun indexed :: "event \<Rightarrow> index_op option" where
  "indexed (Indexed tid slug rows now) = Some (IHarvest tid slug rows now)"
| "indexed _ = None"

definition index_writes :: "trace \<Rightarrow> index_op list" where
  "index_writes tr = List.map_filter indexed tr"

section \<open>Programs\<close>

record world =
  w_db :: cp_db
  w_index :: job_index
  w_trace :: trace

type_synonym 'a prog = "world \<Rightarrow> (exn + 'a) \<times> world"

definition ret :: "'a \<Rightarrow> 'a prog" where
  "ret x w = (Inr x, w)"

definition raise :: "exn \<Rightarrow> 'a prog" where
  "raise e w = (Inl e, w)"

definition andThen :: "'a prog \<Rightarrow> ('a \<Rightarrow> 'b prog) \<Rightarrow> 'b prog" where
  "andThen m f w = (case m w of (Inl e, w') \<Rightarrow> (Inl e, w') | (Inr x, w') \<Rightarrow> f x w')"

definition catching :: "'a prog \<Rightarrow> (exn \<Rightarrow> 'a prog) \<Rightarrow> 'a prog" where
  "catching m h w = (case m w of (Inl e, w') \<Rightarrow> h e w' | (Inr x, w') \<Rightarrow> (Inr x, w'))"

text \<open>The result of a program as a value.\<close>

definition attempted :: "'a prog \<Rightarrow> (exn + 'a) prog" where
  "attempted m w = (case m w of (r, w') \<Rightarrow> (Inr r, w'))"

fun for_each :: "'a list \<Rightarrow> 'b \<Rightarrow> ('a \<Rightarrow> 'b \<Rightarrow> 'b prog) \<Rightarrow> 'b prog" where
  "for_each [] acc body = ret acc"
| "for_each (x # xs) acc body = andThen (body x acc) (\<lambda>acc'. for_each xs acc' body)"

definition calling :: "call \<Rightarrow> (trace \<Rightarrow> exn + 'a) \<Rightarrow> 'a prog" where
  "calling c f w = (let r = f (w_trace w) in (r, w\<lparr>w_trace := w_trace w @ [Called c (\<not> isl r)]\<rparr>))"

text \<open>The clock and the store; a failing statement throws its message and changes nothing.\<close>

record platform =
  s_now :: "trace \<Rightarrow> int"
  s_random :: "trace \<Rightarrow> 8 word list"
  s_store :: "trace \<Rightarrow> string option"

text \<open>What each service answers to a call, given everything that happened before.\<close>

record worker_bundle =
  b_main :: string
  b_text :: string
  b_date :: string
  b_flags :: "string list option"

record studio_bundle = worker_bundle +
  b_assets :: "asset list"
  b_migrations :: "(string \<times> string) list"
  b_required_vars :: "string list"

record services = platform +
  s_createD1 :: "trace \<Rightarrow> string \<Rightarrow> exn + string"
  s_queryD1 :: "trace \<Rightarrow> string \<Rightarrow> string \<Rightarrow> json list \<Rightarrow> exn + json"
  s_deleteD1 :: "trace \<Rightarrow> string \<Rightarrow> exn + unit"
  s_createBucket :: "trace \<Rightarrow> string \<Rightarrow> exn + unit"
  s_deleteBucket :: "trace \<Rightarrow> string \<Rightarrow> exn + unit"
  s_mintBucketToken :: "trace \<Rightarrow> string \<Rightarrow> string \<Rightarrow> exn + (string \<times> string)"
  s_mintAigToken :: "trace \<Rightarrow> string \<Rightarrow> exn + (string \<times> string)"
  s_revoke :: "trace \<Rightarrow> string \<Rightarrow> exn + unit"
  s_revokeByName :: "trace \<Rightarrow> string \<Rightarrow> exn + bool"
  s_emptyBucket :: "trace \<Rightarrow> string \<Rightarrow> string \<Rightarrow> exn + (bool \<times> nat \<times> string option)"
  s_createNamespace :: "trace \<Rightarrow> string \<Rightarrow> exn + unit"
  s_uploadWorker :: "trace \<Rightarrow> worker_upload \<Rightarrow> exn + unit"
  s_deleteWorker :: "trace \<Rightarrow> string \<Rightarrow> string \<Rightarrow> exn + unit"
  s_listScripts :: "trace \<Rightarrow> string \<Rightarrow> exn + string list"
  s_getBindings :: "trace \<Rightarrow> string \<Rightarrow> string \<Rightarrow> exn + (string \<times> string) list"
  s_patchSettings :: "trace \<Rightarrow> string \<Rightarrow> string \<Rightarrow> binding list \<Rightarrow> exn + unit"
  s_getSecretNames :: "trace \<Rightarrow> string \<Rightarrow> string \<Rightarrow> exn + string list"
  s_assetsSession :: "trace \<Rightarrow> string \<Rightarrow> string \<Rightarrow> (string \<times> string \<times> nat) list \<Rightarrow> exn + (string option \<times> string list list)"
  s_assetsBucket :: "trace \<Rightarrow> string \<Rightarrow> (string \<times> string \<times> string) list \<Rightarrow> exn + string option"
  s_studio :: "trace \<Rightarrow> string \<Rightarrow> string \<Rightarrow> string \<Rightarrow> string \<Rightarrow> string option \<Rightarrow> exn + (nat \<times> string)"
  s_module :: "trace \<Rightarrow> string \<Rightarrow> string \<Rightarrow> exn + (nat \<times> string)"
  s_fetchBundle :: "trace \<Rightarrow> string \<Rightarrow> exn + studio_bundle"
  s_fetchModule :: "trace \<Rightarrow> string \<Rightarrow> string \<Rightarrow> exn + worker_bundle"

definition observing :: "(world \<Rightarrow> 'a) \<Rightarrow> 'a prog" where
  "observing f w = (Inr (f w), w\<lparr>w_trace := w_trace w @ [Observed]\<rparr>)"

definition clock :: "'s platform_scheme \<Rightarrow> int prog" where
  "clock S = observing (\<lambda>w. s_now S (w_trace w))"

definition random_bytes :: "'s platform_scheme \<Rightarrow> 8 word list prog" where
  "random_bytes S = observing (\<lambda>w. s_random S (w_trace w))"

definition sleep :: "int \<Rightarrow> unit prog" where
  "sleep ms w = (Inr (), w\<lparr>w_trace := w_trace w @ [Slept ms]\<rparr>)"

definition store_failed :: "string \<Rightarrow> world \<Rightarrow> (exn + 'a) \<times> world" where
  "store_failed msg w = (Inl (OtherError ''Error'' msg), w\<lparr>w_trace := w_trace w @ [StoreFailed]\<rparr>)"

definition reading :: "'s platform_scheme \<Rightarrow> (cp_db \<Rightarrow> 'a) \<Rightarrow> 'a prog" where
  "reading S f w = (case s_store S (w_trace w) of Some msg \<Rightarrow> store_failed msg w
     | None \<Rightarrow> observing (\<lambda>v. f (w_db v)) w)"

text \<open>A statement with its answer, which is computed from the store before the write.\<close>

definition writing :: "'s platform_scheme \<Rightarrow> store_op \<Rightarrow> (cp_db \<Rightarrow> int \<Rightarrow> 'a) \<Rightarrow> 'a prog" where
  "writing S p f w =
     (case s_store S (w_trace w) of
        Some msg \<Rightarrow> store_failed msg w
      | None \<Rightarrow> (let now = s_now S (w_trace w) in
                 (Inr (f (w_db w) now),
                  w\<lparr>w_db := exec now p (w_db w), w_trace := w_trace w @ [Wrote now p]\<rparr>)))"

definition wrote :: "'s platform_scheme \<Rightarrow> store_op \<Rightarrow> unit prog" where
  "wrote S p = writing S p (\<lambda>_ _. ())"

definition index_jobs :: "'s platform_scheme \<Rightarrow> string \<Rightarrow> string \<Rightarrow> harvested_job list \<Rightarrow> nat prog" where
  "index_jobs S tid slug rows w =
     (case s_store S (w_trace w) of
        Some msg \<Rightarrow> store_failed msg w
      | None \<Rightarrow> (let now = s_now S (w_trace w); (n, idx) = indexRunpodJobs (w_index w) tid slug rows now in
                 (Inr n, w\<lparr>w_index := idx, w_trace := w_trace w @ [Indexed tid slug rows now]\<rparr>)))"

lemma attempted_reading:
  "attempted (reading S f) w =
    (case s_store S (w_trace w) of
       Some msg \<Rightarrow> (Inr (Inl (OtherError ''Error'' msg)), w\<lparr>w_trace := w_trace w @ [StoreFailed]\<rparr>)
     | None \<Rightarrow> (Inr (Inr (f (w_db w))), w\<lparr>w_trace := w_trace w @ [Observed]\<rparr>))"
  by (simp add: attempted_def reading_def store_failed_def observing_def split: option.split)

section \<open>Rules\<close>

text \<open>What holds of the outcome of a program.\<close>

definition wp :: "'a prog \<Rightarrow> (exn + 'a \<Rightarrow> world \<Rightarrow> bool) \<Rightarrow> world \<Rightarrow> bool" where
  "wp m Q w = (case m w of (r, w') \<Rightarrow> Q r w')"

lemma wp_ret [simp]: "wp (ret x) Q w = Q (Inr x) w"
  by (simp add: wp_def ret_def)

lemma wp_raise [simp]: "wp (raise e) Q w = Q (Inl e) w"
  by (simp add: wp_def raise_def)

lemma wp_andThen [simp]:
  "wp (andThen m f) Q w = wp m (\<lambda>r w'. case r of Inl e \<Rightarrow> Q (Inl e) w' | Inr x \<Rightarrow> wp (f x) Q w') w"
  by (simp add: wp_def andThen_def split: prod.splits sum.splits)

lemma wp_catching [simp]:
  "wp (catching m h) Q w = wp m (\<lambda>r w'. case r of Inl e \<Rightarrow> wp (h e) Q w' | Inr x \<Rightarrow> Q (Inr x) w') w"
  by (simp add: wp_def catching_def split: prod.splits sum.splits)

lemma wp_attempted [simp]: "wp (attempted m) Q w = wp m (\<lambda>r. Q (Inr r)) w"
  by (simp add: wp_def attempted_def case_prod_beta)

lemma wp_if [simp]: "wp (if b then m else n) Q w = (if b then wp m Q w else wp n Q w)"
  by simp

lemma wp_mono: "wp m Q w \<Longrightarrow> (\<And>r w'. Q r w' \<Longrightarrow> Q' r w') \<Longrightarrow> wp m Q' w"
  by (simp add: wp_def split: prod.splits)

text \<open>Inverting a program that returned.\<close>

lemma andThenE [elim!]:
  assumes "andThen m f w = (Inr y, w')"
  obtains x w1 where "m w = (Inr x, w1)" "f x w1 = (Inr y, w')"
  using assms by (auto simp: andThen_def split: prod.splits sum.splits)

lemma catchingE [elim!]:
  assumes "catching m h w = (Inr y, w')"
  obtains "m w = (Inr y, w')" | e w1 where "m w = (Inl e, w1)" "h e w1 = (Inr y, w')"
  using assms by (auto simp: catching_def split: prod.splits sum.splits)

lemma retE [elim!]:
  assumes "ret x w = (Inr y, w')"
  obtains "y = x" "w' = w"
  using assms by (simp add: ret_def)

lemma raise_returns [simp]: "raise e w = (Inr y, w') \<longleftrightarrow> False"
  by (simp add: raise_def)

lemma attemptedE [elim!]:
  assumes "attempted m w = (Inr r, w')"
  obtains "m w = (r, w')"
  using assms by (auto simp: attempted_def split: prod.splits)

lemma wroteE [elim!]:
  assumes "wrote S p w = (Inr y, w')"
  obtains now where "w' = w\<lparr>w_db := exec now p (w_db w), w_trace := w_trace w @ [Wrote now p]\<rparr>"
  using assms by (auto simp: wrote_def writing_def store_failed_def Let_def split: option.splits)

text \<open>
  A program whose events all satisfy a predicate, and whose effect on the store and on the index is that
  of the writes in its trace.
\<close>

definition emits :: "(event \<Rightarrow> bool) \<Rightarrow> 'a prog \<Rightarrow> bool" where
  "emits P m \<longleftrightarrow> (\<forall>w. \<exists>es. list_all P es \<and> w_trace (snd (m w)) = w_trace w @ es
     \<and> w_db (snd (m w)) = run_ops (writes es) (w_db w) \<and> w_index (snd (m w)) = run_index (index_writes es) (w_index w))"

named_theorems emits_intro

lemma writes_simps [simp]:
  "writes [] = []" "writes (xs @ ys) = writes xs @ writes ys" "index_writes [] = []"
  "index_writes (xs @ ys) = index_writes xs @ index_writes ys"
  "writes (Called c b # es) = writes es" "writes (Wrote now p # es) = (now, p) # writes es"
  "writes (Indexed i s r n # es) = writes es" "writes (StoreFailed # es) = writes es" "writes (Observed # es) = writes es" "writes (Slept ms # es) = writes es"
  "index_writes (Called c b # es) = index_writes es" "index_writes (Wrote now p # es) = index_writes es"
  "index_writes (Indexed i s r n # es) = IHarvest i s r n # index_writes es" "index_writes (StoreFailed # es) = index_writes es"
  "index_writes (Observed # es) = index_writes es" "index_writes (Slept ms # es) = index_writes es"
  by (simp_all add: writes_def index_writes_def List.map_filter_def)

lemma run_append [simp]:
  "run_ops (xs @ ys) db = run_ops ys (run_ops xs db)" "run_index (ps @ qs) idx = run_index qs (run_index ps idx)"
  by (simp_all add: run_ops_def run_index_def)

lemma run_simps [simp]:
  "run_ops [] db = db" "run_ops ((now, p) # ops) db = run_ops ops (exec now p db)"
  "run_index [] idx = idx" "run_index (q # qs) idx = run_index qs (exec_index q idx)"
  by (simp_all add: run_ops_def run_index_def)

lemma emits_ret [emits_intro]: "emits P (ret x)"
  unfolding emits_def by (intro allI exI [of _ "[]"]) (simp add: ret_def)

lemma emits_raise [emits_intro]: "emits P (raise e)"
  unfolding emits_def by (intro allI exI [of _ "[]"]) (simp add: raise_def)

lemma emits_observing [emits_intro]: "P Observed \<Longrightarrow> emits P (observing f)"
  unfolding emits_def by (intro allI exI [of _ "[Observed]"]) (simp add: observing_def)

lemma emits_sleep [emits_intro]: "P (Slept ms) \<Longrightarrow> emits P (sleep ms)"
  unfolding emits_def by (intro allI exI [of _ "[Slept ms]"]) (simp add: sleep_def)

lemma emits_clock [emits_intro]: "P Observed \<Longrightarrow> emits P (clock S)"
  unfolding clock_def by (rule emits_observing)

lemma emits_random [emits_intro]: "P Observed \<Longrightarrow> emits P (random_bytes S)"
  unfolding random_bytes_def by (rule emits_observing)

lemma emits_andThen [emits_intro]:
  assumes "emits P m" "\<And>x. emits P (f x)"
  shows "emits P (andThen m f)"
  unfolding emits_def
proof
  fix w
  obtain es where es: "list_all P es" "w_trace (snd (m w)) = w_trace w @ es"
      "w_db (snd (m w)) = run_ops (writes es) (w_db w)" "w_index (snd (m w)) = run_index (index_writes es) (w_index w)"
    using assms(1) unfolding emits_def by blast
  show "\<exists>es. list_all P es \<and> w_trace (snd (andThen m f w)) = w_trace w @ es
     \<and> w_db (snd (andThen m f w)) = run_ops (writes es) (w_db w)
     \<and> w_index (snd (andThen m f w)) = run_index (index_writes es) (w_index w)"
  proof (cases "fst (m w)")
    case (Inl e)
    then have "snd (andThen m f w) = snd (m w)" by (simp add: andThen_def case_prod_beta)
    with es show ?thesis by (intro exI [of _ es]) simp
  next
    case (Inr x)
    then have s: "snd (andThen m f w) = snd (f x (snd (m w)))" by (simp add: andThen_def case_prod_beta)
    obtain es' where "list_all P es'" "w_trace (snd (f x (snd (m w)))) = w_trace (snd (m w)) @ es'"
      "w_db (snd (f x (snd (m w)))) = run_ops (writes es') (w_db (snd (m w)))"
      "w_index (snd (f x (snd (m w)))) = run_index (index_writes es') (w_index (snd (m w)))"
      using assms(2) [of x] unfolding emits_def by blast
    with es show ?thesis by (intro exI [of _ "es @ es'"]) (simp add: s)
  qed
qed

lemma emits_andThen_result:
  assumes "emits P m" "\<And>w x w'. m w = (Inr x, w') \<Longrightarrow> emits P (f x)"
  shows "emits P (andThen m f)"
proof -
  let ?f = "\<lambda>x. if \<exists>w w'. m w = (Inr x, w') then f x else raise undefined"
  have "andThen m f w = andThen m ?f w" for w
    by (cases "m w") (auto simp: andThen_def split: sum.splits)
  then have "andThen m f = andThen m ?f" by blast
  moreover have "emits P (?f x)" for x using assms(2) by (auto intro: emits_raise)
  ultimately show ?thesis using emits_andThen [OF assms(1), of ?f] by simp
qed

text \<open>A handler is a continuation on the other side.\<close>

lemma catching_as_andThen:
  "snd (catching m h w) =
    snd (andThen (\<lambda>v. (case fst (m v) of Inl e \<Rightarrow> Inr (Inl e) | Inr x \<Rightarrow> Inr (Inr x), snd (m v)))
      (\<lambda>r. case r of Inl e \<Rightarrow> h e | Inr x \<Rightarrow> ret x) w)"
  by (simp add: catching_def andThen_def ret_def case_prod_beta split: sum.splits)

lemma emits_catching [emits_intro]:
  assumes "emits P m" "\<And>e. emits P (h e)"
  shows "emits P (catching m h)"
proof -
  have "emits P (\<lambda>v. (case fst (m v) of Inl e \<Rightarrow> Inr (Inl e) | Inr x \<Rightarrow> Inr (Inr x), snd (m v)))"
    using assms(1) by (simp add: emits_def)
  then have "emits P (andThen (\<lambda>v. (case fst (m v) of Inl e \<Rightarrow> Inr (Inl e) | Inr x \<Rightarrow> Inr (Inr x), snd (m v)))
      (\<lambda>r. case r of Inl e \<Rightarrow> h e | Inr x \<Rightarrow> ret x))"
    by (rule emits_andThen) (simp add: assms(2) emits_ret split: sum.split)
  then show ?thesis unfolding emits_def by (simp add: catching_as_andThen)
qed

lemma emits_attempted [emits_intro]: "emits P m \<Longrightarrow> emits P (attempted m)"
  by (simp add: emits_def attempted_def case_prod_beta)

lemma emits_if [emits_intro]: "(b \<Longrightarrow> emits P m) \<Longrightarrow> (\<not> b \<Longrightarrow> emits P n) \<Longrightarrow> emits P (if b then m else n)"
  by simp

lemma emits_option [emits_intro]:
  "(o' = None \<Longrightarrow> emits P m) \<Longrightarrow> (\<And>x. o' = Some x \<Longrightarrow> emits P (f x)) \<Longrightarrow> emits P (case o' of None \<Rightarrow> m | Some x \<Rightarrow> f x)"
  by (cases o') simp_all

lemma emits_sum [emits_intro]:
  "(\<And>e. s = Inl e \<Longrightarrow> emits P (f e)) \<Longrightarrow> (\<And>x. s = Inr x \<Longrightarrow> emits P (g x)) \<Longrightarrow> emits P (case s of Inl e \<Rightarrow> f e | Inr x \<Rightarrow> g x)"
  by (cases s) simp_all

lemma emits_prod [emits_intro]: "(\<And>x y. p = (x, y) \<Longrightarrow> emits P (f x y)) \<Longrightarrow> emits P (case p of (x, y) \<Rightarrow> f x y)"
  by (cases p) simp

lemma emits_let [emits_intro]: "emits P (f v) \<Longrightarrow> emits P (let x = v in f x)"
  by simp

lemma emits_for_each [emits_intro]:
  "(\<And>x acc. x \<in> set xs \<Longrightarrow> emits P (body x acc)) \<Longrightarrow> emits P (for_each xs acc body)"
  by (induction xs arbitrary: acc) (auto intro!: emits_intro)

lemma emits_calling [emits_intro]: "(\<And>b. P (Called c b)) \<Longrightarrow> emits P (calling c f)"
  unfolding emits_def
  by (intro allI, rule_tac x = "[Called c (\<not> isl (f (w_trace w)))]" in exI) (simp add: calling_def Let_def)

lemma emits_failed: "P StoreFailed \<Longrightarrow> \<exists>es. list_all P es \<and> w_trace (snd (store_failed msg w)) = w_trace w @ es
    \<and> w_db (snd (store_failed msg w)) = run_ops (writes es) (w_db w)
    \<and> w_index (snd (store_failed msg w)) = run_index (index_writes es) (w_index w)"
  by (intro exI [of _ "[StoreFailed]"]) (simp add: store_failed_def)

lemma emits_reading [emits_intro]:
  assumes "P StoreFailed" "P Observed"
  shows "emits P (reading S f)"
  unfolding emits_def
proof
  fix w
  show "\<exists>es. list_all P es \<and> w_trace (snd (reading S f w)) = w_trace w @ es
     \<and> w_db (snd (reading S f w)) = run_ops (writes es) (w_db w)
     \<and> w_index (snd (reading S f w)) = run_index (index_writes es) (w_index w)"
  proof (cases "s_store S (w_trace w)")
    case None
    then show ?thesis using assms(2) by (intro exI [of _ "[Observed]"]) (simp add: reading_def observing_def)
  next
    case (Some msg)
    then show ?thesis using emits_failed [of P, OF assms(1)] by (simp add: reading_def)
  qed
qed

lemma emits_writing [emits_intro]:
  assumes "P StoreFailed" "\<And>now. P (Wrote now p)"
  shows "emits P (writing S p f)"
  unfolding emits_def
proof
  fix w
  show "\<exists>es. list_all P es \<and> w_trace (snd (writing S p f w)) = w_trace w @ es
     \<and> w_db (snd (writing S p f w)) = run_ops (writes es) (w_db w)
     \<and> w_index (snd (writing S p f w)) = run_index (index_writes es) (w_index w)"
  proof (cases "s_store S (w_trace w)")
    case None
    then show ?thesis
      using assms(2) by (intro exI [of _ "[Wrote (s_now S (w_trace w)) p]"]) (simp add: writing_def Let_def)
  next
    case (Some msg)
    then show ?thesis using emits_failed [of P, OF assms(1)] by (simp add: writing_def)
  qed
qed

lemma emits_wrote [emits_intro]: "P StoreFailed \<Longrightarrow> (\<And>now. P (Wrote now p)) \<Longrightarrow> emits P (wrote S p)"
  unfolding wrote_def by (rule emits_writing)

lemma emits_index_jobs [emits_intro]:
  assumes "P StoreFailed" "\<And>now. P (Indexed tid slug rows now)"
  shows "emits P (index_jobs S tid slug rows)"
  unfolding emits_def
proof
  fix w
  show "\<exists>es. list_all P es \<and> w_trace (snd (index_jobs S tid slug rows w)) = w_trace w @ es
     \<and> w_db (snd (index_jobs S tid slug rows w)) = run_ops (writes es) (w_db w)
     \<and> w_index (snd (index_jobs S tid slug rows w)) = run_index (index_writes es) (w_index w)"
  proof (cases "s_store S (w_trace w)")
    case None
    then show ?thesis
      using assms(2) by (intro exI [of _ "[Indexed tid slug rows (s_now S (w_trace w))]"])
        (simp add: index_jobs_def Let_def case_prod_beta)
  next
    case (Some msg)
    then show ?thesis using emits_failed [of P, OF assms(1)] by (simp add: index_jobs_def)
  qed
qed

text \<open>What a run appended to the trace.\<close>

definition did :: "'a prog \<Rightarrow> world \<Rightarrow> trace" where
  "did m w = drop (length (w_trace w)) (w_trace (snd (m w)))"

text \<open>The same of a run from one world only, when the predicate is about that world.\<close>

definition emits_at :: "(event \<Rightarrow> bool) \<Rightarrow> 'a prog \<Rightarrow> world \<Rightarrow> bool" where
  "emits_at P m w \<longleftrightarrow> (\<exists>es. list_all P es \<and> w_trace (snd (m w)) = w_trace w @ es
     \<and> w_db (snd (m w)) = run_ops (writes es) (w_db w) \<and> w_index (snd (m w)) = run_index (index_writes es) (w_index w))"

lemma emits_at: "emits P m \<Longrightarrow> emits_at P m w"
  by (simp add: emits_def emits_at_def)

lemma emits_at_andThen:
  assumes "emits_at P m w" "\<And>x w'. m w = (Inr x, w') \<Longrightarrow> emits_at P (f x) w'"
  shows "emits_at P (andThen m f) w"
proof -
  obtain es where es: "list_all P es" "w_trace (snd (m w)) = w_trace w @ es"
      "w_db (snd (m w)) = run_ops (writes es) (w_db w)" "w_index (snd (m w)) = run_index (index_writes es) (w_index w)"
    using assms(1) unfolding emits_at_def by blast
  show ?thesis
  proof (cases "fst (m w)")
    case (Inl e)
    then have "snd (andThen m f w) = snd (m w)" by (simp add: andThen_def case_prod_beta)
    with es show ?thesis unfolding emits_at_def by (intro exI [of _ es]) simp
  next
    case (Inr x)
    then have s: "snd (andThen m f w) = snd (f x (snd (m w)))" by (simp add: andThen_def case_prod_beta)
    have "m w = (Inr x, snd (m w))" using Inr by (simp add: prod_eq_iff)
    from assms(2) [OF this] obtain es' where "list_all P es'" "w_trace (snd (f x (snd (m w)))) = w_trace (snd (m w)) @ es'"
      "w_db (snd (f x (snd (m w)))) = run_ops (writes es') (w_db (snd (m w)))"
      "w_index (snd (f x (snd (m w)))) = run_index (index_writes es') (w_index (snd (m w)))"
      unfolding emits_at_def by blast
    with es show ?thesis unfolding emits_at_def by (intro exI [of _ "es @ es'"]) (simp add: s)
  qed
qed

lemma emits_atD:
  assumes "emits_at P m w"
  shows "list_all P (did m w)" "w_trace (snd (m w)) = w_trace w @ did m w"
    "w_db (snd (m w)) = run_ops (writes (did m w)) (w_db w)"
    "w_index (snd (m w)) = run_index (index_writes (did m w)) (w_index w)"
proof -
  obtain es where es: "list_all P es" "w_trace (snd (m w)) = w_trace w @ es"
      "w_db (snd (m w)) = run_ops (writes es) (w_db w)" "w_index (snd (m w)) = run_index (index_writes es) (w_index w)"
    using assms unfolding emits_at_def by blast
  have "did m w = es" by (simp add: did_def es(2))
  with es show "list_all P (did m w)" "w_trace (snd (m w)) = w_trace w @ did m w"
    "w_db (snd (m w)) = run_ops (writes (did m w)) (w_db w)"
    "w_index (snd (m w)) = run_index (index_writes (did m w)) (w_index w)" by simp_all
qed

lemmas emitsD = emits_atD [OF emits_at]

section \<open>A platform on which every call succeeds\<close>

definition calm_services :: services where
  "calm_services = \<lparr>s_now = (\<lambda>tr. 0), s_random = (\<lambda>tr. [7]), s_store = (\<lambda>tr. None),
     s_createD1 = (\<lambda>tr n. Inr ''d1''), s_queryD1 = (\<lambda>tr d q ps. Inr (JArr [])), s_deleteD1 = (\<lambda>tr d. Inr ()),
     s_createBucket = (\<lambda>tr b. Inr ()), s_deleteBucket = (\<lambda>tr b. Inr ()),
     s_mintBucketToken = (\<lambda>tr n b. Inr (''tok'', ''val'')), s_mintAigToken = (\<lambda>tr n. Inr (''aig'', ''val'')),
     s_revoke = (\<lambda>tr i. Inr ()), s_revokeByName = (\<lambda>tr n. Inr True), s_emptyBucket = (\<lambda>tr b c. Inr (True, 0, None)),
     s_createNamespace = (\<lambda>tr n. Inr ()), s_uploadWorker = (\<lambda>tr u. Inr ()), s_deleteWorker = (\<lambda>tr n s. Inr ()),
     s_listScripts = (\<lambda>tr n. Inr []), s_getBindings = (\<lambda>tr n s. Inr []), s_patchSettings = (\<lambda>tr n s bs. Inr ()),
     s_getSecretNames = (\<lambda>tr n s. Inr []),
     s_assetsSession = (\<lambda>tr n s m. Inr (None, [])), s_assetsBucket = (\<lambda>tr j fs. Inr None),
     s_studio = (\<lambda>tr s m p k b. Inr (200, [])), s_module = (\<lambda>tr s p. Inr (200, [])),
     s_fetchBundle = (\<lambda>tr r. Inr \<lparr>b_main = ''m'', b_text = [], b_date = [], b_flags = None, b_assets = [], b_migrations = [],
       b_required_vars = []\<rparr>),
     s_fetchModule = (\<lambda>tr r m. Inr \<lparr>b_main = ''m'', b_text = [], b_date = [], b_flags = None\<rparr>)\<rparr>"

end
