(* ===== verification/Teardown.thy ===== *)
theory Teardown
  imports Effects
begin

text \<open>
  Tearing a tenant down: \<^verbatim>\<open>teardownTenant\<close> of \<^verbatim>\<open>src/src/provisioner.ts\<close>, the removal of its module
  Workers (\<^verbatim>\<open>src/src/tenant-modules.ts\<close>) and the harvest of its job log (\<^verbatim>\<open>src/src/runpod-job-index.ts\<close>).
  The two lists the pass collects are passed along as a record; log lines are left out.  Emptying a
  bucket over the S3 API (\<^verbatim>\<open>src/src/r2-empty.ts\<close>) is one call with the result it reports.
\<close>

section \<open>Names\<close>

definition tenantD1Name :: "string \<Rightarrow> string" where
  "tenantD1Name slug = ''vivijure-tenant-'' @ slug"

definition tenantBucketName :: "string \<Rightarrow> string" where
  "tenantBucketName slug = ''vivijure-tenant-'' @ slug"

definition tenantR2TokenName :: "string \<Rightarrow> string" where
  "tenantR2TokenName slug = ''vivijure-tenant-'' @ slug @ ''-r2''"

definition tenantAigTokenName :: "string \<Rightarrow> string" where
  "tenantAigTokenName slug = ''vivijure-tenant-'' @ slug @ ''-aig''"

definition tenantStudioAigTokenName :: "string \<Rightarrow> string" where
  "tenantStudioAigTokenName slug = ''vivijure-tenant-'' @ slug @ ''-aig-studio''"

definition tenantR2TeardownTokenName :: "string \<Rightarrow> string" where
  "tenantR2TeardownTokenName slug = ''vivijure-tenant-'' @ slug @ ''-teardown''"

text \<open>\<^verbatim>\<open>replace(/[^a-z0-9]+/gi, "-")\<close>: every run of other characters becomes one dash.\<close>

fun dash_runs :: "bool \<Rightarrow> string \<Rightarrow> string" where
  "dash_runs b [] = []"
| "dash_runs b (c # s) =
     (if is_alnum c then c # dash_runs False s
      else if b then dash_runs True s else CHR ''-'' # dash_runs True s)"

definition tenantModuleScriptPrefix :: "string \<Rightarrow> string" where
  "tenantModuleScriptPrefix tenantId = to_lower (dash_runs False tenantId) @ ''-''"

definition tenantModuleScriptName :: "string \<Rightarrow> string \<Rightarrow> string" where
  "tenantModuleScriptName tenantId moduleName = tenantModuleScriptPrefix tenantId @ moduleName"

section \<open>The job log\<close>

definition HARVEST_ROW_CAP :: nat where
  "HARVEST_ROW_CAP = 5000"

definition rowsOf :: "json \<Rightarrow> json list" where
  "rowsOf raw =
     (case raw of
        JArr es \<Rightarrow> concat (map (\<lambda>e. case jget e ''results'' of Some (JArr rs) \<Rightarrow> rs | _ \<Rightarrow> []) es)
      | _ \<Rightarrow> [])"

definition str_or_null :: "json option \<Rightarrow> string option" where
  "str_or_null v = (case v of Some (JStr s) \<Rightarrow> if s \<noteq> [] then Some s else None | _ \<Rightarrow> None)"

definition harvested_row :: "json \<Rightarrow> harvested_job option" where
  "harvested_row r =
     map_option (\<lambda>i. \<lparr>h_job_id = i, h_module = str_or_null (jget r ''module''), h_outcome = str_or_null (jget r ''outcome''),
          h_submitted_at = finite_number (jget r ''submitted_at''), h_terminal_at = finite_number (jget r ''terminal_at'')\<rparr>)
       (str_or_null (jget r ''job_id''))"

record harvest =
  hv_complete :: bool
  hv_rows :: "harvested_job list"
  hv_table_absent :: bool

definition queryD1 :: "services \<Rightarrow> string \<Rightarrow> string \<Rightarrow> json list \<Rightarrow> json prog" where
  "queryD1 S dbid sql params = calling (QueryD1 dbid sql params) (\<lambda>tr. s_queryD1 S tr dbid sql params)"

definition SQL_TABLE_PRESENT :: string where
  "SQL_TABLE_PRESENT = ''SELECT name FROM sqlite_master WHERE type = ?1 AND name = ?2;''"

definition SQL_JOB_LOG :: string where
  "SQL_JOB_LOG = ''SELECT job_id, module, outcome, submitted_at, terminal_at FROM runpod_job_log '' @
     ''ORDER BY submitted_at ASC LIMIT ?1;''"

definition harvestTenantJobLog :: "services \<Rightarrow> string \<Rightarrow> nat \<Rightarrow> harvest prog" where
  "harvestTenantJobLog S dbid cap =
     andThen (queryD1 S dbid SQL_TABLE_PRESENT [JStr ''table'', JStr ''runpod_job_log'']) (\<lambda>present.
     if rowsOf present = [] then ret \<lparr>hv_complete = True, hv_rows = [], hv_table_absent = True\<rparr>
     else andThen (queryD1 S dbid SQL_JOB_LOG [JNum (Fin (of_nat cap + 1))]) (\<lambda>log.
       let raw = rowsOf log in
       if JNull \<in> set (take cap raw)
       then raise (OtherError ''TypeError'' ''Cannot read properties of null (reading 'job_id')'')
       else ret \<lparr>hv_complete = (length raw \<le> cap), hv_rows = List.map_filter harvested_row (take cap raw),
                  hv_table_absent = False\<rparr>))"

section \<open>Collecting outcomes\<close>

record teardown_state =
  td_failures :: "(string \<times> string) list"
  td_absent :: "(string \<times> string) list"

definition fail_with :: "string \<Rightarrow> string \<Rightarrow> teardown_state \<Rightarrow> teardown_state" where
  "fail_with resource error td = td\<lparr>td_failures := td_failures td @ [(resource, error)]\<rparr>"

definition note_absent :: "string \<Rightarrow> string \<Rightarrow> teardown_state \<Rightarrow> teardown_state" where
  "note_absent resource detail td = td\<lparr>td_absent := td_absent td @ [(resource, detail)]\<rparr>"

record teardown_outcome =
  oc_ok :: bool
  oc_failures :: "(string \<times> string) list"
  oc_absent :: "(string \<times> string) list"

definition recordTeardownSafely :: "services \<Rightarrow> string \<Rightarrow> (string \<times> string) list \<Rightarrow> unit prog" where
  "recordTeardownSafely S tid failures = catching (wrote S (ORecordTeardown tid failures)) (\<lambda>e. ret ())"

definition clearColumn :: "services \<Rightarrow> string \<Rightarrow> string \<Rightarrow> resource_kind \<Rightarrow> teardown_state \<Rightarrow> teardown_state prog" where
  "clearColumn S tid resource clears td =
     catching (andThen (wrote S (OClearResource tid clears)) (\<lambda>_. ret td))
       (\<lambda>e. ret (fail_with (resource @ ''_record'') (error_string e) td))"

text \<open>
  \<^verbatim>\<open>attempt\<close>: the work reports the exception it ends with, if any, and the lists as it leaves them.
\<close>

type_synonym work = "teardown_state \<Rightarrow> (exn option \<times> teardown_state) prog"

definition work_of :: "'a prog \<Rightarrow> work" where
  "work_of m td = andThen m (\<lambda>_. ret (None, td))"

definition attempt ::
  "services \<Rightarrow> string \<Rightarrow> string \<Rightarrow> work \<Rightarrow> resource_kind option \<Rightarrow> (exn \<Rightarrow> bool) \<Rightarrow> teardown_state \<Rightarrow> teardown_state prog" where
  "attempt S tid resource fn clears absentWhen td =
     andThen (catching (fn td) (\<lambda>e. ret (Some e, td))) (\<lambda>(r, td').
       case r of
         None \<Rightarrow> (case clears of None \<Rightarrow> ret td' | Some k \<Rightarrow> clearColumn S tid resource k td')
       | Some e \<Rightarrow>
           if absentWhen e then
             (case clears of None \<Rightarrow> ret (note_absent resource (error_string e) td')
              | Some k \<Rightarrow> clearColumn S tid resource k (note_absent resource (error_string e) td'))
           else ret (fail_with resource (error_string e) td'))"

section \<open>The referential guard\<close>

fun resource_text :: "resource_kind \<Rightarrow> string" where
  "resource_text RD1 = ''d1''"
| "resource_text RBucket = ''r2_bucket''"
| "resource_text RToken = ''r2_token''"
| "resource_text RWorker = ''worker''"

definition status_string :: "lifecycle \<Rightarrow> string" where
  "status_string st = (case lifecycle_text st of JStr s \<Rightarrow> s | _ \<Rightarrow> [])"

definition guard_error :: "tenant \<Rightarrow> resource_kind \<Rightarrow> referrer list \<Rightarrow> bool \<Rightarrow> string option \<Rightarrow> bool \<Rightarrow> string" where
  "guard_error t k hits live recordedOwner ownerLookupFailed =
     ''refused: '' @ resource_text k @ '' is still referenced by '' @ show_nat (length hits) @ '' other tenant row(s): '' @
     join_with '', '' (map (\<lambda>h. f_tenant_id h @ '' ('' @ f_slug h @ '', status='' @ status_string (f_status h) @ '')'') hits) @
     (if live then '' -- AT LEAST ONE IS NOT DELETED, this resource is in use''
      else if truthy recordedOwner \<and> recordedOwner \<noteq> Some (t_id t) then
        '' -- recorded owner is '' @ the recordedOwner @ '', not this tenant (i_own cannot override a recorded owner)''
      else if ownerLookupFailed then
        '' -- all referrers are tombstones, but the ownership lookup FAILED, so whether this tenant owns the resource is '' @
        ''UNKNOWN. i_own is refused on an unknown, not on a legacy row. Retry once the store is reachable (cp#106)''
      else '' -- all referrers are tombstones and NO owner is recorded (legacy); re-run with i_own: '' @ [CHR 0x22] @ t_id t @
        [CHR 0x22] @ '' after verifying ownership, or re-provision to record ownership (cp#106)'')"

definition owner_lookup :: "services \<Rightarrow> tenant \<Rightarrow> resource_kind \<Rightarrow> (string option \<times> bool) prog" where
  "owner_lookup S t k =
     (case resource_column k t of
        None \<Rightarrow> ret (None, False)
      | Some key \<Rightarrow>
          if key = [] then ret (None, False)
          else catching (andThen (reading S (\<lambda>db. getResourceOwner db k key)) (\<lambda>o'. ret (o', False)))
                 (\<lambda>e. ret (None, True)))"

definition guarded ::
  "services \<Rightarrow> tenant \<Rightarrow> bool \<Rightarrow> referrer list \<Rightarrow> resource_kind \<Rightarrow> teardown_state \<Rightarrow> (bool \<times> teardown_state) prog" where
  "guarded S t ignoreTombstones referrers k td =
     (let hits = filter (\<lambda>r. f_resource r = k) referrers in
      if hits = [] then ret (False, td)
      else (let live = list_ex (\<lambda>h. f_status h \<noteq> Deleted) hits in
        andThen (owner_lookup S t k) (\<lambda>(recordedOwner, lookupFailed).
          if recordedOwner = Some (t_id t) \<and> \<not> live then ret (False, td)
          else if \<not> live \<and> \<not> truthy recordedOwner \<and> \<not> lookupFailed \<and> ignoreTombstones then ret (False, td)
          else ret (True, fail_with (resource_text k) (guard_error t k hits live recordedOwner lookupFailed) td))))"

section \<open>Modules\<close>

definition listNamespaceScripts :: "services \<Rightarrow> string \<Rightarrow> string list prog" where
  "listNamespaceScripts S ns = calling (ListScripts ns) (\<lambda>tr. s_listScripts S tr ns)"

definition deleteUserWorker :: "services \<Rightarrow> string \<Rightarrow> string \<Rightarrow> unit prog" where
  "deleteUserWorker S ns script = calling (DeleteWorker ns script) (\<lambda>tr. s_deleteWorker S tr ns script)"

definition delete_module :: "services \<Rightarrow> string \<Rightarrow> string \<Rightarrow> teardown_state \<Rightarrow> teardown_state prog" where
  "delete_module S ns script td =
     catching (andThen (deleteUserWorker S ns script) (\<lambda>_. ret td))
       (\<lambda>e. ret (if isScriptAbsent e then note_absent (''module:'' @ script) (error_string e) td
                 else fail_with (''module:'' @ script) (error_string e) td))"

text \<open>The lists it returns are appended to the caller's.\<close>

definition teardownTenantModules :: "services \<Rightarrow> string \<Rightarrow> string \<Rightarrow> teardown_state \<Rightarrow> teardown_state prog" where
  "teardownTenantModules S ns tid td =
     (let mine = filter (\<lambda>s. starts_with s (tenantModuleScriptPrefix tid)) in
      andThen (attempted (listNamespaceScripts S ns)) (\<lambda>r.
        case r of
          Inl e \<Rightarrow> ret (fail_with ''modules_list'' (error_string e) td)
        | Inr scripts \<Rightarrow>
            andThen (for_each (mine scripts) td (delete_module S ns)) (\<lambda>td'.
              catching
                (andThen (listNamespaceScripts S ns) (\<lambda>ss.
                   let remaining = mine ss in
                   ret (if remaining = [] then td'
                        else fail_with ''modules_census''
                          (show_nat (length remaining) @ '' module script(s) still resident: '' @ join_with '', '' remaining) td')))
                (\<lambda>e. ret (fail_with ''modules_census'' (error_string e) td')))))"

section \<open>The pass\<close>

definition revokeToken :: "services \<Rightarrow> string \<Rightarrow> unit prog" where
  "revokeToken S i = calling (Revoke i) (\<lambda>tr. s_revoke S tr i)"

definition revokeByName :: "services \<Rightarrow> string \<Rightarrow> bool prog" where
  "revokeByName S nam = calling (RevokeByName nam) (\<lambda>tr. s_revokeByName S tr nam)"

definition mintBucketToken :: "services \<Rightarrow> string \<Rightarrow> string \<Rightarrow> (string \<times> string) prog" where
  "mintBucketToken S nam bucket = calling (MintBucketToken nam bucket) (\<lambda>tr. s_mintBucketToken S tr nam bucket)"

definition not_emptied :: "nat \<Rightarrow> string option \<Rightarrow> string" where
  "not_emptied deleted stalled =
     ''bucket not emptied this cycle (deleted '' @ show_nat deleted @ '' object(s)'' @
     (if truthy stalled then '', stalled: '' @ the stalled else []) @ ''); re-run teardown to continue''"

text \<open>The revocation in the \<^verbatim>\<open>finally\<close> clause runs however the work before it ended.\<close>

definition emptyThenDeleteBucket :: "services \<Rightarrow> tenant \<Rightarrow> string \<Rightarrow> work" where
  "emptyThenDeleteBucket S t bucket td =
     andThen (mintBucketToken S (tenantR2TeardownTokenName (t_slug t)) bucket) (\<lambda>(cred, _).
     andThen (attempted
       (andThen (calling (EmptyBucket bucket cred) (\<lambda>tr. s_emptyBucket S tr bucket cred)) (\<lambda>(emptied, deleted, stalled).
          if \<not> emptied then raise (OtherError ''Error'' (not_emptied deleted stalled))
          else calling (DeleteBucket bucket) (\<lambda>tr. s_deleteBucket S tr bucket)))) (\<lambda>r.
     andThen (attempted (revokeToken S cred)) (\<lambda>v.
     ret (case r of Inl e \<Rightarrow> Some e | Inr _ \<Rightarrow> None,
          case v of
            Inr _ \<Rightarrow> td
          | Inl e \<Rightarrow> fail_with ''r2_empty_credential''
              (''teardown credential '' @ cred @ '' could NOT be revoked, revoke it by hand: '' @ error_string e) td))))"

definition phold_kind_text :: "phold_kind \<Rightarrow> string" where
  "phold_kind_text k = (case k of Ncmec2258ah \<Rightarrow> ''ncmec_2258a_h'' | Le2703f \<Rightarrow> ''le_2703_f'' | InternalHold \<Rightarrow> ''internal'')"

definition hold_error :: "phold list \<Rightarrow> string" where
  "hold_error held =
     ''refused: '' @ show_nat (length held) @ '' open preservation hold(s) on this tenant, teardown is NEVER '' @
     ''permitted while one is open -- suspend instead, and release the hold explicitly if the duty is genuinely over: '' @
     join_with ''; '' (map (\<lambda>h. p_id h @ '' ('' @ phold_kind_text (p_kind h) @ '', '' @
       (if truthy (p_expires_at h) then ''preserve-until '' @ the (p_expires_at h) else ''no clock set'') @
       '', opened '' @ p_opened_at h @ '' by '' @ p_opened_by h @ '': '' @ p_reason h @ '')'') held)"

definition hold_unknown :: "exn \<Rightarrow> string" where
  "hold_unknown e =
     ''refused: could not determine whether a preservation hold is open, refusing every deletion: '' @ error_string e"

definition guard_unknown :: "exn \<Rightarrow> string" where
  "guard_unknown e = ''referential guard could not run, refusing every deletion: '' @ error_string e"

definition refused :: "services \<Rightarrow> string \<Rightarrow> string \<Rightarrow> string \<Rightarrow> teardown_outcome prog" where
  "refused S tid resource error =
     andThen (recordTeardownSafely S tid [(resource, error)]) (\<lambda>_.
     ret \<lparr>oc_ok = False, oc_failures = [(resource, error)], oc_absent = []\<rparr>)"

definition teardown_worker :: "services \<Rightarrow> string \<Rightarrow> tenant \<Rightarrow> bool \<Rightarrow> referrer list \<Rightarrow> teardown_state \<Rightarrow> teardown_state prog" where
  "teardown_worker S ns t ign refs td =
     (let script = (case t_script_name t of Some s \<Rightarrow> s | None \<Rightarrow> tenantScriptName (t_slug t)) in
      andThen (guarded S t ign refs RWorker td) (\<lambda>(g, td').
        if g then ret td'
        else attempt S (t_id t) ''worker'' (work_of (deleteUserWorker S ns script)) (Some RWorker) isScriptAbsent td'))"

definition revoke_own_token :: "services \<Rightarrow> tenant \<Rightarrow> string \<Rightarrow> teardown_state \<Rightarrow> (bool \<times> teardown_state) prog" where
  "revoke_own_token S t i td =
     andThen (attempted (revokeToken S i)) (\<lambda>r.
       case r of
         Inl e \<Rightarrow> ret (False, fail_with ''r2_token'' (error_string e) td)
       | Inr _ \<Rightarrow> andThen (clearColumn S (t_id t) ''r2_token'' RToken td) (\<lambda>td'. ret (True, td')))"

definition by_name :: "services \<Rightarrow> tenant \<Rightarrow> string \<Rightarrow> string \<Rightarrow> teardown_state \<Rightarrow> teardown_state prog" where
  "by_name S t resource nam = attempt S (t_id t) resource (work_of (revokeByName S nam)) None (\<lambda>e. False)"

definition teardown_tokens :: "services \<Rightarrow> tenant \<Rightarrow> bool \<Rightarrow> referrer list \<Rightarrow> teardown_state \<Rightarrow> teardown_state prog" where
  "teardown_tokens S t ign refs td =
     andThen (guarded S t ign refs RToken td) (\<lambda>(g, td1).
     andThen (if truthy (t_r2_token_id t) \<and> \<not> g then revoke_own_token S t (the (t_r2_token_id t)) td1
              else ret (False, td1)) (\<lambda>(revokedById, td2).
     andThen (if \<not> revokedById \<and> \<not> g then by_name S t ''r2_token_by_name'' (tenantR2TokenName (t_slug t)) td2
              else ret td2) (\<lambda>td3.
     if g then ret td3
     else andThen (by_name S t ''aig_token_by_name'' (tenantAigTokenName (t_slug t)) td3) (\<lambda>td4.
          by_name S t ''aig_studio_token_by_name'' (tenantStudioAigTokenName (t_slug t)) td4))))"

definition HARVEST_CAPPED :: string where
  "HARVEST_CAPPED = ''job log exceeded the 5000-row harvest ceiling, so the index would be silently short of the log we '' @
     ''are about to delete; paging is needed before this tenant can be torn down''"

definition harvest_log :: "services \<Rightarrow> tenant \<Rightarrow> string \<Rightarrow> teardown_state \<Rightarrow> teardown_state prog" where
  "harvest_log S t dbid td =
     catching (andThen (harvestTenantJobLog S dbid HARVEST_ROW_CAP) (\<lambda>h.
         if \<not> hv_complete h then raise (OtherError ''Error'' HARVEST_CAPPED)
         else andThen (index_jobs S (t_id t) (t_slug t) (hv_rows h)) (\<lambda>_. ret td)))
       (\<lambda>e. ret (fail_with ''job_index_harvest'' (error_string e) td))"

definition deleteD1 :: "services \<Rightarrow> string \<Rightarrow> unit prog" where
  "deleteD1 S dbid = calling (DeleteD1 dbid) (\<lambda>tr. s_deleteD1 S tr dbid)"

definition teardown_database :: "services \<Rightarrow> tenant \<Rightarrow> bool \<Rightarrow> referrer list \<Rightarrow> teardown_state \<Rightarrow> teardown_state prog" where
  "teardown_database S t ign refs td =
     (if \<not> truthy (t_d1_database_id t) then ret td
      else (let dbid = the (t_d1_database_id t) in
        andThen (guarded S t ign refs RD1 td) (\<lambda>(g, td1).
          if g then ret td1
          else andThen (harvest_log S t dbid td1) (\<lambda>td2.
            if list_ex (\<lambda>f. fst f = ''job_index_harvest'') (td_failures td2) then ret td2
            else attempt S (t_id t) ''d1'' (work_of (deleteD1 S dbid)) (Some RD1) (\<lambda>e. False) td2))))"

definition teardown_bucket :: "services \<Rightarrow> tenant \<Rightarrow> bool \<Rightarrow> referrer list \<Rightarrow> teardown_state \<Rightarrow> teardown_state prog" where
  "teardown_bucket S t ign refs td =
     (if \<not> truthy (t_r2_bucket_name t) then ret td
      else andThen (guarded S t ign refs RBucket td) (\<lambda>(g, td1).
        if g then ret td1
        else attempt S (t_id t) ''r2_bucket'' (emptyThenDeleteBucket S t (the (t_r2_bucket_name t))) (Some RBucket)
               (\<lambda>e. False) td1))"

text \<open>The deletions, in the order of the pass; the data only on request.\<close>

definition teardown_pass ::
  "services \<Rightarrow> string \<Rightarrow> string \<Rightarrow> tenant \<Rightarrow> bool \<Rightarrow> bool \<Rightarrow> referrer list \<Rightarrow> teardown_outcome prog" where
  "teardown_pass S ns mns t deleteData ign refs =
     andThen (teardown_worker S ns t ign refs \<lparr>td_failures = [], td_absent = []\<rparr>) (\<lambda>td1.
     andThen (teardownTenantModules S mns (t_id t) td1) (\<lambda>td2.
     andThen (teardown_tokens S t ign refs td2) (\<lambda>td3.
     andThen (if deleteData
              then andThen (teardown_database S t ign refs td3) (teardown_bucket S t ign refs)
              else ret td3) (\<lambda>td4.
     andThen (recordTeardownSafely S (t_id t) (td_failures td4)) (\<lambda>_.
     ret \<lparr>oc_ok = (td_failures td4 = []), oc_failures = td_failures td4, oc_absent = td_absent td4\<rparr>)))))"

definition teardown_unheld ::
  "services \<Rightarrow> string \<Rightarrow> string \<Rightarrow> tenant \<Rightarrow> bool \<Rightarrow> bool \<Rightarrow> teardown_outcome prog" where
  "teardown_unheld S ns mns t deleteData ignoreTombstones =
     andThen (attempted (reading S (\<lambda>db. findResourceReferrers db (t_id t) (\<lambda>k. resource_column k t)))) (\<lambda>g.
     case g of
       Inl e \<Rightarrow> refused S (t_id t) ''guard'' (guard_unknown e)
     | Inr refs \<Rightarrow> teardown_pass S ns mns t deleteData ignoreTombstones refs)"

definition teardownTenant ::
  "services \<Rightarrow> string \<Rightarrow> string \<Rightarrow> tenant \<Rightarrow> bool \<Rightarrow> bool \<Rightarrow> teardown_outcome prog" where
  "teardownTenant S ns mns t deleteData ignoreTombstones =
     andThen (attempted (reading S (\<lambda>db. listPreservationHolds db (t_id t) True))) (\<lambda>h.
     case h of
       Inl e \<Rightarrow> refused S (t_id t) ''preservation_hold'' (hold_unknown e)
     | Inr held \<Rightarrow>
         if held \<noteq> [] then refused S (t_id t) ''preservation_hold'' (hold_error held)
         else teardown_unheld S ns mns t deleteData ignoreTombstones)"

section \<open>Lemmas: the guard\<close>

text \<open>Another row that is not deleted records the same resource.\<close>

definition in_use :: "cp_db \<Rightarrow> tenant \<Rightarrow> resource_kind \<Rightarrow> bool" where
  "in_use db t k \<longleftrightarrow> resource_column k t \<noteq> None
     \<and> list_ex (\<lambda>u. t_id u \<noteq> t_id t \<and> t_status u \<noteq> Deleted \<and> resource_column k u = resource_column k t) (d_tenants db)"

definition live_hit :: "referrer list \<Rightarrow> resource_kind \<Rightarrow> bool" where
  "live_hit refs k \<longleftrightarrow> list_ex (\<lambda>h. f_status h \<noteq> Deleted) (filter (\<lambda>r. f_resource r = k) refs)"

lemma kinds_all [simp]: "k \<in> set RESOURCE_KINDS"
  by (cases k) (simp_all add: RESOURCE_KINDS_def)

lemma in_use_hit:
  assumes "in_use db t k"
  shows "live_hit (findResourceReferrers db (t_id t) (\<lambda>k. resource_column k t)) k"
proof -
  from assms obtain u where u: "u \<in> set (d_tenants db)" "t_id u \<noteq> t_id t" "t_status u \<noteq> Deleted"
      "resource_column k u = resource_column k t" "resource_column k t \<noteq> None"
    by (auto simp: in_use_def list_ex_iff)
  let ?r = "\<lparr>f_tenant_id = t_id u, f_slug = t_slug u, f_status = t_status u, f_resource = k\<rparr>"
  have "\<not> list_all (\<lambda>k. resource_column k t = None) RESOURCE_KINDS"
    using u(5) kinds_all [of k] by (auto simp: list_all_iff)
  moreover have "list_ex (\<lambda>k. resource_column k t \<noteq> None \<and> resource_column k u = resource_column k t) RESOURCE_KINDS"
    using u(4,5) kinds_all [of k] by (auto simp: list_ex_iff)
  ultimately have "?r \<in> set (findResourceReferrers db (t_id t) (\<lambda>k. resource_column k t))"
    using u by (auto simp: findResourceReferrers_def Let_def)
  then show ?thesis using u(3) unfolding live_hit_def list_ex_iff by (intro bexI [of _ ?r]) simp_all
qed

lemma emits_owner_lookup [emits_intro]: "P StoreFailed \<Longrightarrow> P Observed \<Longrightarrow> emits P (owner_lookup S t k)"
  unfolding owner_lookup_def by (intro emits_intro)

lemma emits_guarded [emits_intro]: "P StoreFailed \<Longrightarrow> P Observed \<Longrightarrow> emits P (guarded S t ign refs k td)"
  unfolding guarded_def Let_def by (intro emits_intro)

text \<open>The guard lets a resource through only when no live row shares it.\<close>

lemma guarded_live:
  assumes "live_hit refs k" "guarded S t ign refs k td w = (Inr (g, td'), w')"
  shows g
proof -
  have hits: "filter (\<lambda>r. f_resource r = k) refs \<noteq> []"
    and live: "list_ex (\<lambda>h. f_status h \<noteq> Deleted) (filter (\<lambda>r. f_resource r = k) refs)"
    using assms(1) by (auto simp: live_hit_def simp del: filter_empty_conv)
  from assms(2) show ?thesis
    by (simp add: guarded_def Let_def hits live andThen_def ret_def split: sum.splits prod.splits)
qed

lemma emits_after_guard:
  assumes "P StoreFailed" "P Observed" "\<And>td'. emits P (f (True, td'))" "\<And>td'. \<not> live_hit refs k \<Longrightarrow> emits P (f (False, td'))"
  shows "emits P (andThen (guarded S t ign refs k td) f)"
proof (rule emits_andThen_result)
  show "emits P (guarded S t ign refs k td)" using assms(1,2) by (rule emits_guarded)
  fix w r w'
  assume "guarded S t ign refs k td w = (Inr r, w')"
  with assms(3,4) guarded_live [of refs k S t ign td w "fst r" "snd r" w'] show "emits P (f r)"
    by (cases r; cases "fst r") auto
qed

section \<open>What a teardown may do\<close>

text \<open>
  The events of a teardown of a tenant: only its own resources are removed, none of them that a live row
  of another tenant records, only its own row is written, and only its own jobs are indexed.  The token
  of the pass that empties the bucket is one the token service issued.
\<close>

fun spares :: "services \<Rightarrow> string \<Rightarrow> string \<Rightarrow> cp_db \<Rightarrow> tenant \<Rightarrow> event \<Rightarrow> bool" where
  "spares S ns mns db t (Called (DeleteWorker n s) b) =
     ((n = ns \<and> s = (case t_script_name t of Some x \<Rightarrow> x | None \<Rightarrow> tenantScriptName (t_slug t)) \<and> \<not> in_use db t RWorker)
      \<or> (n = mns \<and> starts_with s (tenantModuleScriptPrefix (t_id t))))"
| "spares S ns mns db t (Called (DeleteD1 d) b) = (t_d1_database_id t = Some d \<and> \<not> in_use db t RD1)"
| "spares S ns mns db t (Called (DeleteBucket k) b) = (t_r2_bucket_name t = Some k \<and> \<not> in_use db t RBucket)"
| "spares S ns mns db t (Called (EmptyBucket k c) b) = (t_r2_bucket_name t = Some k \<and> \<not> in_use db t RBucket)"
| "spares S ns mns db t (Called (Revoke i) b) =
     ((t_r2_token_id t = Some i \<and> \<not> in_use db t RToken) \<or> (\<exists>tr nam k v. s_mintBucketToken S tr nam k = Inr (i, v)))"
| "spares S ns mns db t (Called (RevokeByName n) b) =
     (n \<in> {tenantR2TokenName (t_slug t), tenantAigTokenName (t_slug t), tenantStudioAigTokenName (t_slug t)}
      \<and> \<not> in_use db t RToken)"
| "spares S ns mns db t (Called (MintBucketToken nam k) b) = (t_r2_bucket_name t = Some k)"
| "spares S ns mns db t (Called (QueryD1 d q ps) b) = (t_d1_database_id t = Some d)"
| "spares S ns mns db t (Called (ListScripts n) b) = (n = mns)"
| "spares S ns mns db t (Called c b) = False"
| "spares S ns mns db t (Wrote now p) = ((\<exists>k. p = OClearResource (t_id t) k) \<or> (\<exists>fs. p = ORecordTeardown (t_id t) fs))"
| "spares S ns mns db t (Indexed i s rows now) = (i = t_id t \<and> s = t_slug t)"
| "spares S ns mns db t StoreFailed = True"
| "spares S ns mns db t Observed = True"
| "spares S ns mns db t (Slept ms) = False"

lemma emits_clearColumn [emits_intro]:
  "P StoreFailed \<Longrightarrow> (\<And>now. P (Wrote now (OClearResource i k))) \<Longrightarrow> emits P (clearColumn S i r k td)"
  unfolding clearColumn_def by (intro emits_intro)

lemma emits_record [emits_intro]:
  "P StoreFailed \<Longrightarrow> (\<And>now. P (Wrote now (ORecordTeardown i fs))) \<Longrightarrow> emits P (recordTeardownSafely S i fs)"
  unfolding recordTeardownSafely_def by (intro emits_intro)

lemma emits_attempt:
  assumes "emits P (fn td)" "P StoreFailed" "\<And>k now. clears = Some k \<Longrightarrow> P (Wrote now (OClearResource i k))"
  shows "emits P (attempt S i r fn clears absentWhen td)"
  unfolding attempt_def using assms by (intro emits_intro) auto

lemma emits_work_of [emits_intro]: "emits P m \<Longrightarrow> emits P (work_of m td)"
  unfolding work_of_def by (intro emits_intro)

lemma emits_refused [emits_intro]:
  "P StoreFailed \<Longrightarrow> (\<And>now. P (Wrote now (ORecordTeardown i [(r, e)]))) \<Longrightarrow> emits P (refused S i r e)"
  unfolding refused_def by (intro emits_intro)

lemma emits_harvest [emits_intro]:
  "(\<And>q ps b. P (Called (QueryD1 d q ps) b)) \<Longrightarrow> emits P (harvestTenantJobLog S d cap)"
  unfolding harvestTenantJobLog_def queryD1_def by (intro emits_intro)

lemma emits_modules [emits_intro]:
  assumes "\<And>b. P (Called (ListScripts ns) b)"
    "\<And>s b. starts_with s (tenantModuleScriptPrefix i) \<Longrightarrow> P (Called (DeleteWorker ns s) b)"
  shows "emits P (teardownTenantModules S ns i td)"
  unfolding teardownTenantModules_def Let_def listNamespaceScripts_def delete_module_def deleteUserWorker_def
  by (intro emits_intro assms) auto

text \<open>The guard's list accounts for every live row that shares a resource.\<close>

definition sound_refs :: "cp_db \<Rightarrow> tenant \<Rightarrow> referrer list \<Rightarrow> bool" where
  "sound_refs db t refs \<longleftrightarrow> (\<forall>k. in_use db t k \<longrightarrow> live_hit refs k)"

lemma sound_refsD: "sound_refs db t refs \<Longrightarrow> \<not> live_hit refs k \<Longrightarrow> \<not> in_use db t k"
  by (auto simp: sound_refs_def)

lemma spares_worker: "sound_refs db t refs \<Longrightarrow> emits (spares S ns mns db t) (teardown_worker S ns t ign refs td)"
  unfolding teardown_worker_def Let_def deleteUserWorker_def
  by (intro emits_after_guard) (auto intro!: emits_intro emits_attempt dest: sound_refsD)

lemma spares_by_name:
  assumes "n \<in> {tenantR2TokenName (t_slug t), tenantAigTokenName (t_slug t), tenantStudioAigTokenName (t_slug t)}"
    "sound_refs db t refs" "\<not> live_hit refs RToken"
  shows "emits (spares S ns mns db t) (by_name S t r n td)"
  unfolding by_name_def revokeByName_def using assms by (intro emits_attempt emits_intro) (auto dest: sound_refsD)

lemma spares_tokens: "sound_refs db t refs \<Longrightarrow> emits (spares S ns mns db t) (teardown_tokens S t ign refs td)"
  unfolding teardown_tokens_def revoke_own_token_def revokeToken_def
  by (intro emits_after_guard)
    (auto intro!: emits_intro spares_by_name dest: sound_refsD simp: truthy_def split: option.splits)

lemma spares_database: "sound_refs db t refs \<Longrightarrow> emits (spares S ns mns db t) (teardown_database S t ign refs td)"
proof (cases "t_d1_database_id t")
  case (Some d)
  moreover assume "sound_refs db t refs"
  ultimately show ?thesis
    unfolding teardown_database_def Let_def deleteD1_def harvest_log_def
    by (intro emits_if emits_after_guard) (auto intro!: emits_intro emits_attempt dest: sound_refsD)
qed (simp add: teardown_database_def truthy_def emits_ret)

lemma spares_bucket:
  assumes "sound_refs db t refs"
  shows "emits (spares S ns mns db t) (teardown_bucket S t ign refs td)"
proof (cases "t_r2_bucket_name t")
  case (Some b)
  have "emits (spares S ns mns db t) (emptyThenDeleteBucket S t b td)" if "\<not> live_hit refs RBucket" for td
    unfolding emptyThenDeleteBucket_def mintBucketToken_def revokeToken_def
  proof (rule emits_andThen_result, goal_cases)
    case (2 w r w')
    then have "\<exists>tr nam k v. s_mintBucketToken S tr nam k = Inr (fst r, v)"
      by (auto simp: calling_def Let_def) (metis prod.collapse)
    then show ?case using that Some assms by (cases r) (auto intro!: emits_intro dest: sound_refsD)
  qed (use Some in \<open>auto intro!: emits_intro\<close>)
  then show ?thesis
    using Some unfolding teardown_bucket_def
    by (intro emits_if emits_after_guard) (auto intro!: emits_intro emits_attempt)
qed (simp add: teardown_bucket_def truthy_def emits_ret)

lemmas spares_legs = spares_worker spares_tokens spares_database spares_bucket

lemma spares_modules: "emits (spares S ns mns db t) (teardownTenantModules S mns (t_id t) td)"
  by (intro emits_intro) simp_all

lemma spares_record: "emits (spares S ns mns db t) (recordTeardownSafely S (t_id t) fs)"
  by (intro emits_intro) simp_all

lemma emits_teardown_pass:
  "sound_refs db t refs \<Longrightarrow> emits (spares S ns mns db t) (teardown_pass S ns mns t deleteData ign refs)"
  unfolding teardown_pass_def by (intro emits_intro spares_legs spares_modules spares_record)

lemma emits_unheld: "emits_at (spares S ns mns (w_db w) t) (teardown_unheld S ns mns t deleteData ign) w"
  unfolding teardown_unheld_def
proof (rule emits_at_andThen, goal_cases)
  case 1
  show ?case by (intro emits_at emits_intro) simp_all
next
  case (2 g w')
  then have "sound_refs (w_db w) t refs" if "g = Inr refs" for refs
    using that in_use_hit [of "w_db w" t] by (auto simp: attempted_reading sound_refs_def split: option.splits)
  then show ?case by (intro emits_at emits_intro emits_teardown_pass) auto
qed

text \<open>
  C2: a teardown removes nothing that another tenant uses.  Whatever the services answer and wherever the
  store fails, a teardown deletes, empties or revokes only the tenant's own resources and only those that
  no other row that is not deleted records, writes only the tenant's row, and its effect on the store is
  the sequence of those writes.
\<close>

theorem teardown_spares_other_tenants:
  "list_all (spares S ns mns (w_db w) t) (did (teardownTenant S ns mns t deleteData ign) w)
   \<and> w_db (snd (teardownTenant S ns mns t deleteData ign w))
     = run_ops (writes (did (teardownTenant S ns mns t deleteData ign) w)) (w_db w)"
proof -
  have "emits_at (spares S ns mns (w_db w) t) (teardownTenant S ns mns t deleteData ign) w"
    unfolding teardownTenant_def
  proof (rule emits_at_andThen, goal_cases)
    case 1
    show ?case by (intro emits_at emits_intro) simp_all
  next
    case (2 h w')
    then have "w_db w' = w_db w" by (auto simp: attempted_reading split: option.splits)
    then have "emits_at (spares S ns mns (w_db w) t) (teardown_unheld S ns mns t deleteData ign) w'"
      using emits_unheld [of S ns mns w' t deleteData ign] by simp
    then show ?case by (cases h) (auto intro!: emits_at emits_intro)
  qed
  then show ?thesis using emits_atD(1,3) by blast
qed

lemma refused_outcome: "fst (refused S i r e w) = Inr \<lparr>oc_ok = False, oc_failures = [(r, e)], oc_absent = []\<rparr>"
  by (simp add: refused_def recordTeardownSafely_def andThen_def catching_def ret_def case_prod_beta split: sum.split)

text \<open>
  C13: a preservation hold stops every deletion.  While a hold of the tenant is open, or the store cannot
  say whether one is, a teardown calls no service at all: it reports failure and writes nothing but its
  own record on the tenant's row.
\<close>

theorem hold_stops_teardown:
  assumes "listPreservationHolds (w_db w) (t_id t) True \<noteq> [] \<or> s_store S (w_trace w) \<noteq> None"
  shows "\<exists>oc w'. teardownTenant S ns mns t deleteData ign w = (Inr oc, w') \<and> \<not> oc_ok oc
    \<and> (\<forall>e \<in> set (did (teardownTenant S ns mns t deleteData ign) w).
        e = StoreFailed \<or> e = Observed \<or> (\<exists>now. e = Wrote now (ORecordTeardown (t_id t) (oc_failures oc))))"
proof -
  have "\<exists>r e ev. teardownTenant S ns mns t deleteData ign w = refused S (t_id t) r e (w\<lparr>w_trace := w_trace w @ [ev]\<rparr>)
      \<and> (ev = StoreFailed \<or> ev = Observed)"
  proof (cases "s_store S (w_trace w)")
    case None
    with assms have "listPreservationHolds (w_db w) (t_id t) True \<noteq> []" by simp
    with None show ?thesis
      by (intro exI [of _ "''preservation_hold''"] exI [of _ "hold_error (listPreservationHolds (w_db w) (t_id t) True)"]
          exI [of _ Observed]) (simp add: teardownTenant_def andThen_def attempted_reading)
  next
    case (Some msg)
    then show ?thesis
      by (intro exI [of _ "''preservation_hold''"] exI [of _ "hold_unknown (OtherError ''Error'' msg)"]
          exI [of _ StoreFailed]) (simp add: teardownTenant_def andThen_def attempted_reading)
  qed
  then obtain r e ev where stop: "teardownTenant S ns mns t deleteData ign w
      = refused S (t_id t) r e (w\<lparr>w_trace := w_trace w @ [ev]\<rparr>)" "ev = StoreFailed \<or> ev = Observed"
    by blast
  let ?w = "w\<lparr>w_trace := w_trace w @ [ev]\<rparr>"
  let ?P = "\<lambda>e'. e' = StoreFailed \<or> e' = Observed \<or> (\<exists>now. e' = Wrote now (ORecordTeardown (t_id t) [(r, e)]))"
  have "emits ?P (refused S (t_id t) r e)" by (intro emits_intro) auto
  from emitsD(1,2) [OF this, of ?w] have all: "list_all ?P (did (refused S (t_id t) r e) ?w)"
    and tr: "w_trace (snd (refused S (t_id t) r e ?w)) = w_trace w @ ev # did (refused S (t_id t) r e) ?w" by simp_all
  have "did (teardownTenant S ns mns t deleteData ign) w = ev # did (refused S (t_id t) r e) ?w"
    unfolding did_def [of "teardownTenant S ns mns t deleteData ign"] stop(1) tr by simp
  then have "list_all ?P (did (teardownTenant S ns mns t deleteData ign) w)" using all stop(2) by auto
  moreover have "fst (refused S (t_id t) r e ?w) = Inr \<lparr>oc_ok = False, oc_failures = [(r, e)], oc_absent = []\<rparr>"
    by (rule refused_outcome)
  ultimately show ?thesis using stop(1) by (cases "refused S (t_id t) r e ?w") (auto simp: list_all_iff)
qed

section \<open>Lemmas: what a pass that reports success did\<close>

definition cleared :: "string \<Rightarrow> resource_kind \<Rightarrow> cp_db \<Rightarrow> bool" where
  "cleared i k db \<longleftrightarrow> list_all (\<lambda>u. t_id u = i \<longrightarrow> \<not> truthy (resource_column k u)) (d_tenants db)"

lemma clear_column_same: "resource_column k (clear_column k u) = None"
  by (cases k) simp_all

lemma clear_column_other: "resource_column k (clear_column j u) = (if j = k then None else resource_column k u)"
  by (cases k; cases j) simp_all

lemma clear_column_id [simp]: "t_id (clear_column j u) = t_id u"
  by (cases j) simp_all

lemma clear_tenants: "d_tenants (clearTenantResource db i k) = update_where (\<lambda>t. t_id t = i) (clear_column k) (d_tenants db)"
  by (simp add: clearTenantResource_def Let_def split: option.split)

lemma column_of_record [simp]: "resource_column k (u\<lparr>t_teardown_at := a, t_teardown_failures := f\<rparr>) = resource_column k u"
  by (cases k) simp_all

lemma cleared_update:
  "cleared i k (db\<lparr>d_tenants := update_where p f ts\<rparr>)
    \<longleftrightarrow> list_all (\<lambda>u. t_id (if p u then f u else u) = i \<longrightarrow> \<not> truthy (resource_column k (if p u then f u else u))) ts"
  by (simp add: cleared_def update_where_def list.pred_map o_def)

lemma cleared_cong: "d_tenants db = d_tenants db' \<Longrightarrow> cleared i k db = cleared i k db'"
  by (simp add: cleared_def)

lemma cleared_clear:
  "cleared i k (clearTenantResource db j l)
    \<longleftrightarrow> list_all (\<lambda>u. t_id u = i \<longrightarrow> (t_id u = j \<and> l = k) \<or> \<not> truthy (resource_column k u)) (d_tenants db)"
proof -
  have "cleared i k (clearTenantResource db j l)
      = cleared i k (db\<lparr>d_tenants := update_where (\<lambda>t. t_id t = j) (clear_column l) (d_tenants db)\<rparr>)"
    by (rule cleared_cong) (simp add: clear_tenants)
  also have "\<dots> \<longleftrightarrow> list_all (\<lambda>u. t_id u = i \<longrightarrow> (t_id u = j \<and> l = k) \<or> \<not> truthy (resource_column k u)) (d_tenants db)"
    unfolding cleared_update by (rule list.pred_cong) (auto simp: clear_column_other truthy_def)
  finally show ?thesis .
qed

lemma cleared_now: "cleared i k (exec now (OClearResource i k) db)"
  by (simp add: cleared_clear list_all_iff)

lemma cleared_stays:
  assumes "cleared i k db" "p = OClearResource i j \<or> p = ORecordTeardown i fs"
  shows "cleared i k (exec now p db)"
proof -
  have "cleared i k (recordTeardown db i fs now) = cleared i k db"
    unfolding recordTeardown_def set_tenant_def map_tenants_def cleared_update unfolding cleared_def
    by (rule list.pred_cong) auto
  moreover have "cleared i k (clearTenantResource db i j)"
    using assms(1) unfolding cleared_clear by (auto simp: cleared_def list_all_iff)
  ultimately show ?thesis using assms by auto
qed

lemma cleared_through:
  assumes "emits (spares S ns mns d t) m" "m w = (r, w')" "cleared (t_id t) k (w_db w)"
  shows "cleared (t_id t) k (w_db w')"
proof -
  have "cleared (t_id t) k (run_ops (writes es) db)"
    if "list_all (spares S ns mns d t) es" "cleared (t_id t) k db" for es db
    using that
  proof (induction es arbitrary: db)
    case (Cons e es)
    then show ?case using cleared_stays by (cases e) fastforce+
  qed simp
  then show ?thesis using emitsD(1,3) [OF assms(1), of w] assms(2,3) by simp
qed

text \<open>Failures are only ever added.\<close>

definition grows :: "teardown_state \<Rightarrow> teardown_state \<Rightarrow> bool" where
  "grows td td' \<longleftrightarrow> (\<exists>fs. td_failures td' = td_failures td @ fs)"

lemma grows_simps [simp]:
  "grows td td" "grows td (fail_with r e td)" "grows td (note_absent r e td) "
  "td_failures (fail_with r e td) \<noteq> []" "td_failures (note_absent r e td) = td_failures td"
  by (simp_all add: grows_def fail_with_def note_absent_def)

lemma grows_absent [simp]: "grows (note_absent r e td) td' = grows td td'"
  by (simp add: grows_def)

lemma grows_fail [simp]: "grows td td' \<Longrightarrow> grows td (fail_with r e td')"
  by (auto simp: grows_def fail_with_def)

lemma grows_trans: "grows a b \<Longrightarrow> grows b c \<Longrightarrow> grows a c"
  by (auto simp: grows_def)

lemma grows_empty: "grows a b \<Longrightarrow> td_failures b = [] \<Longrightarrow> td_failures a = []"
  by (auto simp: grows_def)

lemma clearColumn_returns:
  assumes "clearColumn S i r k td w = (Inr td', w')"
  shows "grows td td'" "td_failures td' = [] \<Longrightarrow> cleared i k (w_db w')"
  using assms cleared_now by (auto simp: clearColumn_def)

lemma guarded_returns:
  assumes "guarded S t ign refs k td w = (Inr (g, td'), w')"
  shows "grows td td'" "g \<Longrightarrow> td_failures td' \<noteq> []"
  using assms by (auto simp: guarded_def Let_def split: if_splits)

lemma attempt_returns:
  assumes "attempt S i r fn clears absentWhen td w = (Inr td', w')"
    and fn: "\<And>v x td'' v'. fn td v = (Inr (x, td''), v') \<Longrightarrow> grows td td''"
  shows "grows td td'" "clears = Some k \<Longrightarrow> td_failures td' = [] \<Longrightarrow> cleared i k (w_db w')"
proof -
  from assms(1) obtain p w1 where step: "catching (fn td) (\<lambda>e. ret (Some e, td)) w = (Inr p, w1)"
    and rest0: "(case p of (x, td1) \<Rightarrow> case x of None \<Rightarrow> (case clears of None \<Rightarrow> ret td1 | Some k \<Rightarrow> clearColumn S i r k td1)
       | Some e \<Rightarrow> if absentWhen e
           then (case clears of None \<Rightarrow> ret (note_absent r (error_string e) td1)
                 | Some k \<Rightarrow> clearColumn S i r k (note_absent r (error_string e) td1))
           else ret (fail_with r (error_string e) td1)) w1 = (Inr td', w')"
    unfolding attempt_def by (rule andThenE)
  obtain x td1 where p: "p = (x, td1)" by fastforce
  from rest0 have rest: "(case x of None \<Rightarrow> (case clears of None \<Rightarrow> ret td1 | Some k \<Rightarrow> clearColumn S i r k td1)
       | Some e \<Rightarrow> if absentWhen e
           then (case clears of None \<Rightarrow> ret (note_absent r (error_string e) td1)
                 | Some k \<Rightarrow> clearColumn S i r k (note_absent r (error_string e) td1))
           else ret (fail_with r (error_string e) td1)) w1 = (Inr td', w')"
    unfolding p by simp
  have g1: "grows td td1" using step fn unfolding p by auto
  have "grows td1 td' \<and> (clears = Some k \<longrightarrow> td_failures td' = [] \<longrightarrow> cleared i k (w_db w'))"
  proof (cases clears)
    case (Some l)
    then show ?thesis using rest clearColumn_returns [of S i r l td1 w1 td' w']
        clearColumn_returns [of S i r l "note_absent r (error_string (the x)) td1" w1 td' w'] grows_trans
      by (auto split: option.splits if_splits)
  qed (use rest in \<open>auto split: option.splits if_splits\<close>)
  with g1 show "grows td td'" "clears = Some k \<Longrightarrow> td_failures td' = [] \<Longrightarrow> cleared i k (w_db w')"
    using grows_trans by blast+
qed

lemma work_of_grows: "work_of m td w = (Inr (x, td'), w') \<Longrightarrow> grows td td'"
  by (auto simp: work_of_def)

text \<open>A leg: the guard, and then the removal that clears the column.\<close>

lemma leg_returns:
  assumes "andThen (guarded S t ign refs k td) (\<lambda>(g, td1). if g then ret td1 else m td1) w = (Inr td', w')"
    and m: "\<And>td1 w1. m td1 w1 = (Inr td', w') \<Longrightarrow> grows td1 td' \<and> (td_failures td' = [] \<longrightarrow> cleared (t_id t) k (w_db w'))"
  shows "grows td td' \<and> (td_failures td' = [] \<longrightarrow> cleared (t_id t) k (w_db w'))"
proof -
  from assms(1) obtain p w1 where p: "guarded S t ign refs k td w = (Inr p, w1)"
    and rest: "(case p of (g, td1) \<Rightarrow> if g then ret td1 else m td1) w1 = (Inr td', w')"
    by (rule andThenE)
  obtain g td1 where [simp]: "p = (g, td1)" by fastforce
  have "grows td1 td' \<and> (td_failures td' = [] \<longrightarrow> cleared (t_id t) k (w_db w'))"
    using rest m [of td1 w1] guarded_returns(2) [of S t ign refs k td w g td1 w1] p by (cases g) auto
  then show ?thesis using guarded_returns(1) [of S t ign refs k td w g td1 w1] p grows_trans by auto
qed

lemma attempt_clears:
  assumes "attempt S i r fn (Some k) absentWhen td w = (Inr td', w')"
    and "\<And>v x td'' v'. fn td v = (Inr (x, td''), v') \<Longrightarrow> grows td td''"
  shows "grows td td' \<and> (td_failures td' = [] \<longrightarrow> cleared i k (w_db w'))"
  using attempt_returns [OF assms] by simp

lemma worker_returns:
  assumes "teardown_worker S ns t ign refs td w = (Inr td', w')"
  shows "grows td td' \<and> (td_failures td' = [] \<longrightarrow> cleared (t_id t) RWorker (w_db w'))"
  using assms unfolding teardown_worker_def Let_def
  by (rule leg_returns) (rule attempt_clears, assumption, rule work_of_grows)

lemma by_name_returns: "by_name S t r n td w = (Inr td', w') \<Longrightarrow> grows td td'"
  unfolding by_name_def by (rule attempt_returns(1), assumption, rule work_of_grows)

lemma bucket_work_grows: "emptyThenDeleteBucket S t b td w = (Inr (x, td'), w') \<Longrightarrow> grows td td'"
  by (auto simp: emptyThenDeleteBucket_def split: sum.splits)

lemma bucket_returns:
  assumes "teardown_bucket S t ign refs td w = (Inr td', w')"
  shows "grows td td' \<and> (truthy (t_r2_bucket_name t) \<longrightarrow> td_failures td' = [] \<longrightarrow> cleared (t_id t) RBucket (w_db w'))"
proof (cases "truthy (t_r2_bucket_name t)")
  case True
  from assms have "andThen (guarded S t ign refs RBucket td) (\<lambda>(g, td1). if g then ret td1
      else attempt S (t_id t) ''r2_bucket'' (emptyThenDeleteBucket S t (the (t_r2_bucket_name t))) (Some RBucket)
        (\<lambda>e. False) td1) w = (Inr td', w')"
    by (simp add: teardown_bucket_def True)
  then have "grows td td' \<and> (td_failures td' = [] \<longrightarrow> cleared (t_id t) RBucket (w_db w'))"
    by (rule leg_returns) (rule attempt_clears, assumption, rule bucket_work_grows)
  then show ?thesis by simp
qed (use assms in \<open>auto simp: teardown_bucket_def\<close>)

lemma harvest_log_returns: "harvest_log S t d td w = (Inr td', w') \<Longrightarrow> grows td td'"
  by (auto simp: harvest_log_def split: if_splits)

lemma database_work_returns:
  assumes "andThen (harvest_log S t d td) (\<lambda>td2.
      if list_ex (\<lambda>f. fst f = ''job_index_harvest'') (td_failures td2) then ret td2
      else attempt S (t_id t) ''d1'' (work_of (deleteD1 S d)) (Some RD1) (\<lambda>e. False) td2) w = (Inr td', w')"
  shows "grows td td' \<and> (td_failures td' = [] \<longrightarrow> cleared (t_id t) RD1 (w_db w'))"
proof -
  from assms obtain td2 w2 where h: "harvest_log S t d td w = (Inr td2, w2)"
    and rest: "(if list_ex (\<lambda>f. fst f = ''job_index_harvest'') (td_failures td2) then ret td2
      else attempt S (t_id t) ''d1'' (work_of (deleteD1 S d)) (Some RD1) (\<lambda>e. False) td2) w2 = (Inr td', w')"
    by (rule andThenE)
  have "grows td2 td' \<and> (td_failures td' = [] \<longrightarrow> cleared (t_id t) RD1 (w_db w'))"
  proof (cases "list_ex (\<lambda>f. fst f = ''job_index_harvest'') (td_failures td2)")
    case True
    then show ?thesis using rest by (auto simp: list_ex_iff)
  next
    case False
    with rest have "attempt S (t_id t) ''d1'' (work_of (deleteD1 S d)) (Some RD1) (\<lambda>e. False) td2 w2 = (Inr td', w')"
      by simp
    then show ?thesis by (rule attempt_clears) (rule work_of_grows)
  qed
  then show ?thesis using harvest_log_returns [OF h] grows_trans by blast
qed

lemma database_returns:
  assumes "teardown_database S t ign refs td w = (Inr td', w')"
  shows "grows td td' \<and> (truthy (t_d1_database_id t) \<longrightarrow> td_failures td' = [] \<longrightarrow> cleared (t_id t) RD1 (w_db w'))"
proof (cases "truthy (t_d1_database_id t)")
  case True
  let ?d = "the (t_d1_database_id t)"
  from assms have "andThen (guarded S t ign refs RD1 td) (\<lambda>(g, td1). if g then ret td1
      else andThen (harvest_log S t ?d td1) (\<lambda>td2.
        if list_ex (\<lambda>f. fst f = ''job_index_harvest'') (td_failures td2) then ret td2
        else attempt S (t_id t) ''d1'' (work_of (deleteD1 S ?d)) (Some RD1) (\<lambda>e. False) td2)) w = (Inr td', w')"
    by (simp add: teardown_database_def True Let_def)
  then have "grows td td' \<and> (td_failures td' = [] \<longrightarrow> cleared (t_id t) RD1 (w_db w'))"
    by (rule leg_returns) (rule database_work_returns)
  then show ?thesis by simp
qed (use assms in \<open>auto simp: teardown_database_def\<close>)

lemma delete_module_returns: "delete_module S ns s td w = (Inr td', w') \<Longrightarrow> grows td td'"
  by (auto simp: delete_module_def split: if_splits)

lemma delete_modules_return: "for_each ss td (delete_module S ns) w = (Inr td', w') \<Longrightarrow> grows td td'"
proof (induction ss arbitrary: td w)
  case (Cons s ss)
  then obtain td1 w1 where "delete_module S ns s td w = (Inr td1, w1)" "for_each ss td1 (delete_module S ns) w1 = (Inr td', w')"
    by auto
  then show ?case using Cons.IH delete_module_returns grows_trans by blast
qed auto

lemma modules_returns: "teardownTenantModules S ns i td w = (Inr td', w') \<Longrightarrow> grows td td'"
  by (auto simp: teardownTenantModules_def Let_def split: sum.splits if_splits
      dest!: delete_modules_return intro: grows_trans)

lemma own_token_returns:
  assumes "revoke_own_token S t i td w = (Inr (b, td'), w')"
  shows "grows td td'" "b \<Longrightarrow> td_failures td' = [] \<Longrightarrow> cleared (t_id t) RToken (w_db w')" "\<not> b \<Longrightarrow> td_failures td' \<noteq> []"
  using assms clearColumn_returns by (auto simp: revoke_own_token_def split: sum.splits)

lemma tokens_rest_returns:
  assumes "andThen (if \<not> b \<and> \<not> g then by_name S t r1 n1 td2 else ret td2) (\<lambda>td3.
      if g then ret td3 else andThen (by_name S t r2 n2 td3) (\<lambda>td4. by_name S t r3 n3 td4)) w = (Inr td', w')"
  shows "grows td2 td'"
proof -
  from assms obtain td3 w3 where 3: "(if \<not> b \<and> \<not> g then by_name S t r1 n1 td2 else ret td2) w = (Inr td3, w3)"
    and rest: "(if g then ret td3 else andThen (by_name S t r2 n2 td3) (\<lambda>td4. by_name S t r3 n3 td4)) w3 = (Inr td', w')"
    by (rule andThenE)
  have "grows td2 td3" using 3 by_name_returns by (auto split: if_splits)
  moreover have "grows td3 td'" using rest by (auto split: if_splits dest!: by_name_returns intro: grows_trans)
  ultimately show ?thesis by (rule grows_trans)
qed

definition no_write :: "event \<Rightarrow> bool" where
  "no_write e \<longleftrightarrow> written e = None"

lemma no_write_simps [simp]: "no_write (Called c b)" "no_write StoreFailed" "no_write Observed"
  by (simp_all add: no_write_def)

lemma no_write_db:
  assumes "emits no_write m" "m w = (r, w')"
  shows "w_db w' = w_db w"
proof -
  have "writes es = []" if "list_all no_write es" for es
    using that by (simp add: writes_def List.map_filter_def no_write_def list_all_iff)
  then show ?thesis using emitsD(1,3) [OF assms(1), of w] assms(2) by simp
qed

lemma by_name_quiet: "emits no_write (by_name S t r n td)"
  unfolding by_name_def revokeByName_def by (intro emits_attempt emits_intro) simp_all

lemma tokens_returns:
  assumes "teardown_tokens S t ign refs td w = (Inr td', w')"
  shows "grows td td' \<and> (truthy (t_r2_token_id t) \<longrightarrow> td_failures td' = [] \<longrightarrow> cleared (t_id t) RToken (w_db w'))"
proof -
  let ?rest = "\<lambda>g b td2. andThen (if \<not> b \<and> \<not> g then by_name S t ''r2_token_by_name'' (tenantR2TokenName (t_slug t)) td2
      else ret td2) (\<lambda>td3. if g then ret td3
      else andThen (by_name S t ''aig_token_by_name'' (tenantAigTokenName (t_slug t)) td3)
        (\<lambda>td4. by_name S t ''aig_studio_token_by_name'' (tenantStudioAigTokenName (t_slug t)) td4))"
  let ?own = "\<lambda>g td1. if truthy (t_r2_token_id t) \<and> \<not> g then revoke_own_token S t (the (t_r2_token_id t)) td1 else ret (False, td1)"
  from assms obtain p w1 where p: "guarded S t ign refs RToken td w = (Inr p, w1)"
    and r1: "(case p of (g, td1) \<Rightarrow> andThen (?own g td1) (\<lambda>(b, td2). ?rest g b td2)) w1 = (Inr td', w')"
    unfolding teardown_tokens_def by (rule andThenE)
  obtain g td1 where [simp]: "p = (g, td1)" by fastforce
  from r1 have "andThen (?own g td1) (\<lambda>(b, td2). ?rest g b td2) w1 = (Inr td', w')" by simp
  then obtain q w2 where q: "?own g td1 w1 = (Inr q, w2)" and r2: "(case q of (b, td2) \<Rightarrow> ?rest g b td2) w2 = (Inr td', w')"
    by (rule andThenE)
  obtain b td2 where [simp]: "q = (b, td2)" by fastforce
  have rest: "?rest g b td2 w2 = (Inr td', w')" using r2 by simp
  have "emits no_write (?rest g b td2)" by (intro emits_intro by_name_quiet)
  then have db: "w_db w' = w_db w2" using rest by (rule no_write_db)
  have g2: "grows td2 td'" using rest by (rule tokens_rest_returns)
  note gd = guarded_returns [OF p [simplified]]
  have own: "grows td1 td2" "truthy (t_r2_token_id t) \<Longrightarrow> \<not> g \<Longrightarrow> td_failures td2 = [] \<Longrightarrow> cleared (t_id t) RToken (w_db w2)"
    using q own_token_returns [of S t "the (t_r2_token_id t)" td1 w1 b td2 w2] by (auto split: if_splits)
  have "g \<Longrightarrow> td_failures td2 \<noteq> []" using gd(2) grows_empty [OF own(1)] by blast
  then show ?thesis using own gd(1) g2 db grows_trans grows_empty [OF g2] by metis
qed

lemma pass_steps:
  assumes "teardown_pass S ns mns t True ign refs w = (Inr oc, w')"
  obtains td1 w1 td2 w2 td3 w3 td5 w5 td4 w4 u where
    "teardown_worker S ns t ign refs \<lparr>td_failures = [], td_absent = []\<rparr> w = (Inr td1, w1)"
    "teardownTenantModules S mns (t_id t) td1 w1 = (Inr td2, w2)"
    "teardown_tokens S t ign refs td2 w2 = (Inr td3, w3)"
    "teardown_database S t ign refs td3 w3 = (Inr td5, w5)"
    "teardown_bucket S t ign refs td5 w5 = (Inr td4, w4)"
    "recordTeardownSafely S (t_id t) (td_failures td4) w4 = (Inr u, w')"
    "oc_ok oc \<longleftrightarrow> td_failures td4 = []"
proof -
  let ?close = "\<lambda>td4. andThen (recordTeardownSafely S (t_id t) (td_failures td4)) (\<lambda>_. ret \<lparr>oc_ok = (td_failures td4 = []),
        oc_failures = td_failures td4, oc_absent = td_absent td4\<rparr>)"
  let ?data = "\<lambda>td3. if True then andThen (teardown_database S t ign refs td3) (teardown_bucket S t ign refs) else ret td3"
  from assms obtain td1 w1 where 1: "teardown_worker S ns t ign refs \<lparr>td_failures = [], td_absent = []\<rparr> w = (Inr td1, w1)"
    and r1: "andThen (teardownTenantModules S mns (t_id t) td1) (\<lambda>td2. andThen (teardown_tokens S t ign refs td2)
      (\<lambda>td3. andThen (?data td3) ?close)) w1 = (Inr oc, w')"
    unfolding teardown_pass_def by (rule andThenE)
  from r1 obtain td2 w2 where 2: "teardownTenantModules S mns (t_id t) td1 w1 = (Inr td2, w2)"
    and r2: "andThen (teardown_tokens S t ign refs td2) (\<lambda>td3. andThen (?data td3) ?close) w2 = (Inr oc, w')"
    by (rule andThenE)
  from r2 obtain td3 w3 where 3: "teardown_tokens S t ign refs td2 w2 = (Inr td3, w3)"
    and r3: "andThen (?data td3) ?close w3 = (Inr oc, w')" by (rule andThenE)
  from r3 obtain td4 w4 where 34: "andThen (teardown_database S t ign refs td3) (teardown_bucket S t ign refs) w3 = (Inr td4, w4)"
    and r4: "?close td4 w4 = (Inr oc, w')" unfolding if_True by (rule andThenE)
  from 34 obtain td5 w5 where 4: "teardown_database S t ign refs td3 w3 = (Inr td5, w5)"
    and 5: "teardown_bucket S t ign refs td5 w5 = (Inr td4, w4)" by (rule andThenE)
  from r4 obtain u where "recordTeardownSafely S (t_id t) (td_failures td4) w4 = (Inr u, w')" "oc_ok oc \<longleftrightarrow> td_failures td4 = []"
    by auto
  with 1 2 3 4 5 show ?thesis by (rule that)
qed

lemma pass_returns:
  assumes "teardown_pass S ns mns t True ign refs w = (Inr oc, w')" "oc_ok oc" "sound_refs db t refs"
    and "\<And>k. \<not> truthy (resource_column k t) \<Longrightarrow> cleared (t_id t) k (w_db w)"
  shows "cleared (t_id t) k (w_db w')"
  using assms(1)
proof (cases rule: pass_steps)
  case (1 td1 w1 td2 w2 td3 w3 td5 w5 td4 w4 u)
  have ok: "td_failures td4 = []" using 1(7) assms(2) by simp
  note grow = worker_returns [OF 1(1)] modules_returns [OF 1(2)] tokens_returns [OF 1(3)] database_returns [OF 1(4)]
    bucket_returns [OF 1(5)]
  have empty: "td_failures td5 = []" "td_failures td3 = []" "td_failures td2 = []" "td_failures td1 = []"
    using grow ok grows_empty by blast+
  note keep = cleared_through [OF spares_worker [OF assms(3)] 1(1)] cleared_through [OF spares_modules 1(2)]
    cleared_through [OF spares_tokens [OF assms(3)] 1(3)] cleared_through [OF spares_database [OF assms(3)] 1(4)]
    cleared_through [OF spares_bucket [OF assms(3)] 1(5)] cleared_through [OF spares_record 1(6)]
  show ?thesis
  proof (cases "truthy (resource_column k t)")
    case True
    then show ?thesis using grow empty ok keep by (cases k) simp_all
  next
    case False
    then show ?thesis using assms(4) keep by blast
  qed
qed

text \<open>
  A teardown that reports success has removed everything.  When a teardown with the data answers
  \<^verbatim>\<open>ok\<close>, the tenant's row records no database, no bucket, no token and no Worker any more.
\<close>

theorem teardown_ok_leaves_nothing:
  assumes "distinct (map t_id (d_tenants (w_db w)))" "t \<in> set (d_tenants (w_db w))"
    and "teardownTenant S ns mns t True ign w = (Inr oc, w')" "oc_ok oc"
  shows "\<forall>u \<in> set (d_tenants (w_db w')). t_id u = t_id t \<longrightarrow> (\<forall>k. \<not> truthy (resource_column k u))"
proof -
  have no_ok: "\<not> oc_ok oc" if "refused S i r e v = (Inr oc, w')" for i r e v
    using refused_outcome [of S i r e v] that by simp
  from assms(3) obtain h w1 where h: "attempted (reading S (\<lambda>db. listPreservationHolds db (t_id t) True)) w = (Inr h, w1)"
    and r1: "(case h of Inl e \<Rightarrow> refused S (t_id t) ''preservation_hold'' (hold_unknown e)
      | Inr held \<Rightarrow> if held \<noteq> [] then refused S (t_id t) ''preservation_hold'' (hold_error held)
          else teardown_unheld S ns mns t True ign) w1 = (Inr oc, w')"
    unfolding teardownTenant_def by (rule andThenE)
  from r1 assms(4) no_ok have "teardown_unheld S ns mns t True ign w1 = (Inr oc, w')"
    by (auto split: sum.splits if_splits)
  then obtain g w2 where g: "attempted (reading S (\<lambda>db. findResourceReferrers db (t_id t) (\<lambda>k. resource_column k t))) w1 = (Inr g, w2)"
    and r2: "(case g of Inl e \<Rightarrow> refused S (t_id t) ''guard'' (guard_unknown e)
      | Inr refs \<Rightarrow> teardown_pass S ns mns t True ign refs) w2 = (Inr oc, w')"
    unfolding teardown_unheld_def by (rule andThenE)
  from r2 assms(4) no_ok obtain refs where refs: "g = Inr refs" "teardown_pass S ns mns t True ign refs w2 = (Inr oc, w')"
    by (auto split: sum.splits)
  have db: "w_db w1 = w_db w" "w_db w2 = w_db w" using h g by (auto simp: attempted_reading split: option.splits)
  have "sound_refs (w_db w) t refs"
    using g refs(1) db in_use_hit [of "w_db w" t] by (auto simp: attempted_reading sound_refs_def split: option.splits)
  moreover have "cleared (t_id t) k (w_db w2)" if "\<not> truthy (resource_column k t)" for k
    using that assms(1,2) distinct_map_eq [of t_id] by (auto simp: cleared_def list_all_iff db)
  ultimately have "cleared (t_id t) k (w_db w')" for k using pass_returns [OF refs(2) assms(4)] by blast
  then show ?thesis by (auto simp: cleared_def list_all_iff)
qed

section \<open>Lemmas: the job log before the database\<close>

text \<open>The whole job log of a database, as its answers give it; a database without the table has none.\<close>

definition whole_log :: "services \<Rightarrow> string \<Rightarrow> harvested_job list \<Rightarrow> bool" where
  "whole_log S d rows \<longleftrightarrow>
     (\<exists>tr raw. s_queryD1 S tr d SQL_TABLE_PRESENT [JStr ''table'', JStr ''runpod_job_log''] = Inr raw \<and> rowsOf raw = [] \<and> rows = [])
     \<or> (\<exists>tr raw. s_queryD1 S tr d SQL_JOB_LOG [JNum (Fin (of_nat HARVEST_ROW_CAP + 1))] = Inr raw
          \<and> length (rowsOf raw) \<le> HARVEST_ROW_CAP \<and> rows = List.map_filter harvested_row (rowsOf raw))"

definition log_first :: "services \<Rightarrow> tenant \<Rightarrow> trace \<Rightarrow> bool" where
  "log_first S t es \<longleftrightarrow> (\<forall>pre d b post. es = pre @ Called (DeleteD1 d) b # post \<longrightarrow>
     (\<exists>pre' rows now. pre = pre' @ [Indexed (t_id t) (t_slug t) rows now] \<and> whole_log S d rows))"

definition no_drop :: "event \<Rightarrow> bool" where
  "no_drop e \<longleftrightarrow> (\<forall>d b. e \<noteq> Called (DeleteD1 d) b)"

lemma log_first_none: "list_all no_drop es \<Longrightarrow> log_first S t es"
  by (auto simp: log_first_def no_drop_def)

lemma log_first_append: "log_first S t xs \<Longrightarrow> log_first S t ys \<Longrightarrow> log_first S t (xs @ ys)"
  unfolding log_first_def
proof (intro allI impI)
  fix pre d b post
  assume xs: "\<forall>pre d b post. xs = pre @ Called (DeleteD1 d) b # post \<longrightarrow>
      (\<exists>pre' rows now. pre = pre' @ [Indexed (t_id t) (t_slug t) rows now] \<and> whole_log S d rows)"
    and ys: "\<forall>pre d b post. ys = pre @ Called (DeleteD1 d) b # post \<longrightarrow>
      (\<exists>pre' rows now. pre = pre' @ [Indexed (t_id t) (t_slug t) rows now] \<and> whole_log S d rows)"
    and "xs @ ys = pre @ Called (DeleteD1 d) b # post"
  then consider us where "xs = pre @ Called (DeleteD1 d) b # us" | us where "pre = xs @ us" "ys = us @ Called (DeleteD1 d) b # post"
    by (auto simp: append_eq_append_conv2 append_eq_Cons_conv)
  then show "\<exists>pre' rows now. pre = pre' @ [Indexed (t_id t) (t_slug t) rows now] \<and> whole_log S d rows"
  proof cases
    case 2
    then obtain pre' rows now where "us = pre' @ [Indexed (t_id t) (t_slug t) rows now]" "whole_log S d rows" using ys by blast
    with 2 show ?thesis by (intro exI [of _ "xs @ pre'"]) auto
  qed (use xs in blast)
qed

lemma log_first_drop:
  assumes "list_all no_drop xs" "whole_log S d rows" "list_all no_drop ys"
  shows "log_first S t (xs @ [Indexed (t_id t) (t_slug t) rows now, Called (DeleteD1 d) b] @ ys)"
proof -
  have "log_first S t [Indexed (t_id t) (t_slug t) rows now, Called (DeleteD1 d) b]"
    using assms(2) by (auto simp: log_first_def Cons_eq_append_conv)
  moreover have "log_first S t xs" "log_first S t ys" using assms(1,3) log_first_none by blast+
  ultimately show ?thesis by (intro log_first_append)
qed

definition tracks :: "(trace \<Rightarrow> bool) \<Rightarrow> 'a prog \<Rightarrow> bool" where
  "tracks R m \<longleftrightarrow> (\<forall>w. \<exists>es. w_trace (snd (m w)) = w_trace w @ es \<and> R es)"

lemma tracks_emits: "emits no_drop m \<Longrightarrow> tracks (log_first S t) m"
  unfolding tracks_def using emitsD(1,2) log_first_none by blast

lemma tracks_andThen:
  assumes "tracks (log_first S t) m" "\<And>x. tracks (log_first S t) (f x)"
  shows "tracks (log_first S t) (andThen m f)"
  unfolding tracks_def
proof
  fix w
  obtain es where es: "w_trace (snd (m w)) = w_trace w @ es" "log_first S t es" using assms(1) unfolding tracks_def by blast
  show "\<exists>es. w_trace (snd (andThen m f w)) = w_trace w @ es \<and> log_first S t es"
  proof (cases "fst (m w)")
    case (Inr x)
    obtain es' where "w_trace (snd (f x (snd (m w)))) = w_trace (snd (m w)) @ es'" "log_first S t es'"
      using assms(2) unfolding tracks_def by blast
    then show ?thesis
      using Inr es log_first_append by (intro exI [of _ "es @ es'"]) (simp add: andThen_def case_prod_beta)
  qed (use es in \<open>auto simp: andThen_def case_prod_beta\<close>)
qed

lemma no_drop_simps [simp]:
  "no_drop (Wrote now p)" "no_drop (Indexed i sl rows now)" "no_drop StoreFailed" "no_drop Observed"
  "no_drop (Called (QueryD1 d q ps) b)"
  by (simp_all add: no_drop_def)

lemma harvest_whole:
  assumes "harvestTenantJobLog S d HARVEST_ROW_CAP w = (Inr h, w')" "hv_complete h"
  shows "whole_log S d (hv_rows h)"
  using assms
  by (auto simp: harvestTenantJobLog_def queryD1_def calling_def Let_def whole_log_def split: if_splits; blast)

lemma harvest_trace:
  assumes "harvest_log S t d td w = (Inr td', w')"
  shows "\<exists>es. w_trace w' = w_trace w @ es \<and> list_all no_drop es \<and>
    (list_ex (\<lambda>f. fst f = ''job_index_harvest'') (td_failures td')
     \<or> (\<exists>es' rows now. es = es' @ [Indexed (t_id t) (t_slug t) rows now] \<and> whole_log S d rows))"
proof -
  have harvest: "emits no_drop (harvestTenantJobLog S d HARVEST_ROW_CAP)" by (intro emits_intro) simp
  have log: "emits no_drop (harvest_log S t d td)" unfolding harvest_log_def by (intro emits_intro) simp_all
  have "list_ex (\<lambda>f. fst f = ''job_index_harvest'') (td_failures td')
     \<or> (\<exists>es' rows now. w_trace w' = w_trace w @ es' @ [Indexed (t_id t) (t_slug t) rows now] \<and> whole_log S d rows)"
    using assms unfolding harvest_log_def
  proof (cases rule: catchingE)
    case 1
    then obtain h w1 where h: "harvestTenantJobLog S d HARVEST_ROW_CAP w = (Inr h, w1)" "hv_complete h"
      and "andThen (index_jobs S (t_id t) (t_slug t) (hv_rows h)) (\<lambda>_. ret td) w1 = (Inr td', w')"
      by (auto split: if_splits)
    then obtain n where "index_jobs S (t_id t) (t_slug t) (hv_rows h) w1 = (Inr n, w')" by auto
    then obtain now where "w_trace w' = w_trace w1 @ [Indexed (t_id t) (t_slug t) (hv_rows h) now]"
      by (auto simp: index_jobs_def store_failed_def Let_def split: option.splits prod.splits)
    moreover have "w_trace w1 = w_trace w @ did (harvestTenantJobLog S d HARVEST_ROW_CAP) w"
      using emitsD(2) [OF harvest, of w] h(1) by simp
    ultimately show ?thesis using harvest_whole [OF h] by auto
  qed (auto simp: fail_with_def)
  moreover have "list_all no_drop (did (harvest_log S t d td) w)" "w_trace w' = w_trace w @ did (harvest_log S t d td) w"
    using emitsD(1,2) [OF log, of w] assms by simp_all
  ultimately show ?thesis by (intro exI [of _ "did (harvest_log S t d td) w"]) auto
qed

lemma drop_trace:
  "\<exists>b ys. w_trace (snd (attempt S i r (work_of (deleteD1 S d)) (Some k) (\<lambda>e. False) td w)) = w_trace w @ Called (DeleteD1 d) b # ys
    \<and> list_all no_drop ys"
proof -
  let ?v = "\<lambda>b. w\<lparr>w_trace := w_trace w @ [Called (DeleteD1 d) b]\<rparr>"
  have clear: "emits no_drop (clearColumn S i r k td)" by (intro emits_intro) simp_all
  show ?thesis
  proof (cases "s_deleteD1 S (w_trace w) d")
    case (Inl e)
    then show ?thesis
      by (intro exI [of _ False] exI [of _ "[]"])
        (simp add: attempt_def work_of_def deleteD1_def calling_def Let_def catching_def andThen_def ret_def)
  next
    case (Inr u)
    then have "attempt S i r (work_of (deleteD1 S d)) (Some k) (\<lambda>e. False) td w = clearColumn S i r k td (?v True)"
      by (simp add: attempt_def work_of_def deleteD1_def calling_def Let_def catching_def andThen_def ret_def)
    then show ?thesis using emitsD(1,2) [OF clear, of "?v True"] by auto
  qed
qed

lemma tracks_database_work:
  "tracks (log_first S t) (andThen (harvest_log S t d td) (\<lambda>td2.
      if list_ex (\<lambda>f. fst f = ''job_index_harvest'') (td_failures td2) then ret td2
      else attempt S (t_id t) ''d1'' (work_of (deleteD1 S d)) (Some RD1) (\<lambda>e. False) td2))"
  (is "tracks _ (andThen ?h ?f)")
  unfolding tracks_def
proof
  fix w
  have quiet: "emits no_drop ?h" unfolding harvest_log_def by (intro emits_intro) simp_all
  show "\<exists>es. w_trace (snd (andThen ?h ?f w)) = w_trace w @ es \<and> log_first S t es"
  proof (cases "fst (?h w)")
    case (Inl e)
    then show ?thesis
      using emitsD(1,2) [OF quiet, of w] log_first_none by (auto simp: andThen_def case_prod_beta)
  next
    case (Inr td2)
    then obtain w1 where h: "?h w = (Inr td2, w1)" by (cases "?h w") simp
    from harvest_trace [OF h] obtain es where es: "w_trace w1 = w_trace w @ es" "list_all no_drop es"
        "list_ex (\<lambda>f. fst f = ''job_index_harvest'') (td_failures td2)
          \<or> (\<exists>es' rows now. es = es' @ [Indexed (t_id t) (t_slug t) rows now] \<and> whole_log S d rows)" by blast
    have step: "andThen ?h ?f w = ?f td2 w1" by (simp add: andThen_def h)
    show ?thesis
    proof (cases "list_ex (\<lambda>f. fst f = ''job_index_harvest'') (td_failures td2)")
      case True
      then show ?thesis unfolding step using es(1,2) log_first_none by (auto simp: ret_def)
    next
      case False
      then obtain es' rows now where idx: "es = es' @ [Indexed (t_id t) (t_slug t) rows now]" "whole_log S d rows"
        using es(3) by blast
      from False drop_trace [of S "t_id t" "''d1''" d RD1 td2 w1] obtain b ys where
        "w_trace (snd (?f td2 w1)) = w_trace w1 @ Called (DeleteD1 d) b # ys" "list_all no_drop ys" by auto
      moreover have "list_all no_drop es'" using es(2) idx(1) by simp
      ultimately show ?thesis
        unfolding step using es(1) idx log_first_drop [of es' S d rows ys t now b]
        by (intro exI [of _ "es' @ [Indexed (t_id t) (t_slug t) rows now, Called (DeleteD1 d) b] @ ys"]) simp
    qed
  qed
qed

lemma no_drop_calls [simp]:
  "no_drop (Called (DeleteWorker n s) b)" "no_drop (Called (ListScripts n) b)" "no_drop (Called (Revoke i) b)"
  "no_drop (Called (RevokeByName n) b)" "no_drop (Called (MintBucketToken n k) b)" "no_drop (Called (EmptyBucket k i) b)"
  "no_drop (Called (DeleteBucket k) b)"
  by (simp_all add: no_drop_def)

lemma quiet_legs:
  "emits no_drop (teardown_worker S ns t ign refs td)" "emits no_drop (teardownTenantModules S mns i td)"
  "emits no_drop (teardown_tokens S t ign refs td)" "emits no_drop (teardown_bucket S t ign refs td)"
  "emits no_drop (recordTeardownSafely S i fs)" "emits no_drop (refused S i r e)"
  unfolding teardown_worker_def Let_def deleteUserWorker_def teardown_tokens_def revoke_own_token_def revokeToken_def
    by_name_def revokeByName_def teardown_bucket_def emptyThenDeleteBucket_def mintBucketToken_def
  by (intro emits_intro emits_attempt; simp)+

lemma tracks_cases:
  "tracks R m \<Longrightarrow> tracks R n \<Longrightarrow> tracks R (if c then m else n)"
  "(\<And>e. tracks R (f e)) \<Longrightarrow> (\<And>x. tracks R (g x)) \<Longrightarrow> tracks R (case r of Inl e \<Rightarrow> f e | Inr x \<Rightarrow> g x)"
  "(\<And>x y. tracks R (h x y)) \<Longrightarrow> tracks R (case p of (x, y) \<Rightarrow> h x y)"
  by (auto simp: tracks_def split: sum.splits prod.splits)

lemma tracks_ret: "tracks (log_first S t) (ret x)"
  by (simp add: tracks_def ret_def log_first_def)

lemma tracks_quiet:
  "tracks (log_first S t) (attempted (reading S f))" "tracks (log_first S t) (guarded S t ign refs k td)"
  by (intro tracks_emits emits_intro; simp)+

lemmas tracks_rules = tracks_database_work tracks_quiet quiet_legs [THEN tracks_emits] tracks_andThen tracks_cases tracks_ret

lemma tracks_database: "tracks (log_first S t) (teardown_database S t ign refs td)"
  unfolding teardown_database_def Let_def by (intro tracks_rules)

lemma tracks_teardown: "tracks (log_first S t) (teardownTenant S ns mns t deleteData ign)"
  unfolding teardownTenant_def teardown_unheld_def teardown_pass_def by (intro tracks_database tracks_rules)

text \<open>
  C12: a tenant's job history outlives its database.  A teardown deletes a database only right after it
  put the whole job log of that database into the plane's index, and it does not delete it when the log
  cannot be read to its end or cannot be recorded.
\<close>

theorem database_deleted_after_harvest:
  assumes "did (teardownTenant S ns mns t deleteData ign) w = pre @ Called (DeleteD1 d) b # post"
  shows "\<exists>pre' rows now. pre = pre' @ [Indexed (t_id t) (t_slug t) rows now] \<and> whole_log S d rows"
proof -
  obtain es where "w_trace (snd (teardownTenant S ns mns t deleteData ign w)) = w_trace w @ es" "log_first S t es"
    using tracks_teardown unfolding tracks_def by blast
  then have "log_first S t (did (teardownTenant S ns mns t deleteData ign) w)" by (simp add: did_def)
  with assms show ?thesis by (auto simp: log_first_def)
qed

section \<open>Witnesses\<close>

definition ex_td_store :: cp_db where
  "ex_td_store = \<lparr>d_accounts = [''acct_1''], d_tenants = [ex_tenant], d_jobs = [], d_owners = [], d_pholds = []\<rparr>"

definition ex_world :: "phold list \<Rightarrow> world" where
  "ex_world held = \<lparr>w_db = ex_td_store\<lparr>d_pholds := held\<rparr>, w_index = [], w_trace = []\<rparr>"

lemmas run_defs = andThen_def attempted_def reading_def catching_def ret_def observing_def calling_def wrote_def writing_def
  index_jobs_def indexRunpodJobs_def did_def

lemmas teardown_defs = teardownTenant_def teardown_unheld_def teardown_pass_def teardown_worker_def
  teardownTenantModules_def teardown_tokens_def teardown_database_def teardown_bucket_def recordTeardownSafely_def
  guarded_def attempt_def work_of_def deleteUserWorker_def clearColumn_def by_name_def revokeByName_def
  listNamespaceScripts_def deleteD1_def harvest_log_def harvestTenantJobLog_def queryD1_def rowsOf_def

lemmas ex_teardown_defs = teardown_defs run_defs calm_services_def ex_world_def ex_td_store_def ex_tenant_def
  listPreservationHolds_def findResourceReferrers_def RESOURCE_KINDS_def truthy_def Let_def

lemma ex_teardown:
  "\<exists>oc w'. teardownTenant calm_services ''ns'' ''mns'' ex_tenant True False (ex_world []) = (Inr oc, w') \<and> oc_ok oc"
  by (simp add: ex_teardown_defs)

lemma ex_teardown_drops:
  "\<exists>pre post. did (teardownTenant calm_services ''ns'' ''mns'' ex_tenant True False) (ex_world [])
    = pre @ Called (DeleteD1 ''d1'') True # post"
  by (rule split_list) (simp add: ex_teardown_defs)

theorem teardown_ok_leaves_nothing_witness:
  "\<exists>oc w'. teardownTenant calm_services ''ns'' ''mns'' ex_tenant True False (ex_world []) = (Inr oc, w') \<and> oc_ok oc
    \<and> (\<forall>u \<in> set (d_tenants (w_db w')). t_id u = ''ten_1'' \<longrightarrow> (\<forall>k. \<not> truthy (resource_column k u)))"
proof -
  obtain oc w' where run: "teardownTenant calm_services ''ns'' ''mns'' ex_tenant True False (ex_world []) = (Inr oc, w')" "oc_ok oc"
    using ex_teardown by blast
  have "t_id ex_tenant = ''ten_1''" by (simp add: ex_tenant_def)
  with teardown_ok_leaves_nothing [of "ex_world []" ex_tenant calm_services "''ns''" "''mns''" False oc w'] run show ?thesis
    by (simp add: ex_world_def ex_td_store_def)
qed

theorem database_deleted_after_harvest_witness:
  "\<exists>pre' rows now post. did (teardownTenant calm_services ''ns'' ''mns'' ex_tenant True False) (ex_world [])
    = pre' @ Indexed ''ten_1'' ''acme'' rows now # Called (DeleteD1 ''d1'') True # post \<and> whole_log calm_services ''d1'' rows"
proof -
  obtain pre post where d: "did (teardownTenant calm_services ''ns'' ''mns'' ex_tenant True False) (ex_world [])
      = pre @ Called (DeleteD1 ''d1'') True # post" using ex_teardown_drops by blast
  have "t_id ex_tenant = ''ten_1''" "t_slug ex_tenant = ''acme''" by (simp_all add: ex_tenant_def)
  with database_deleted_after_harvest [OF d] obtain pre' rows now where
    "pre = pre' @ [Indexed ''ten_1'' ''acme'' rows now]" "whole_log calm_services ''d1'' rows" by auto
  with d show ?thesis by (intro exI [of _ pre'] exI [of _ rows] exI [of _ now] exI [of _ post]) simp
qed

definition ex_held :: phold where
  "ex_held = \<lparr>p_id = ''h1'', p_tenant_id = ''ten_1'', p_kind = Le2703f, p_reason = ''r'', p_opened_at = ''2026-07-01 00:00:00'',
     p_opened_by = ''op'', p_expires_at = None, p_released_at = None, p_released_by = None, p_release_reason = None\<rparr>"

theorem hold_stops_teardown_witness:
  "\<exists>oc w'. teardownTenant calm_services ''ns'' ''mns'' ex_tenant True True (ex_world [ex_held]) = (Inr oc, w') \<and> \<not> oc_ok oc"
proof -
  have "listPreservationHolds (w_db (ex_world [ex_held])) (t_id ex_tenant) True \<noteq> []"
    by (simp add: listPreservationHolds_def ex_world_def ex_td_store_def ex_held_def ex_tenant_def)
  then show ?thesis
    using hold_stops_teardown [of "ex_world [ex_held]" ex_tenant calm_services "''ns''" "''mns''" True True] by blast
qed

end
