(* ===== verification/TenantModules.thy ===== *)
theory TenantModules
  imports Teardown KekRotation "HOL-Library.Multiset"
begin

text \<open>
  The module Workers of a tenant (\<^verbatim>\<open>src/src/tenant-modules.ts\<close>): the catalog, the bindings each module is
  uploaded with, the upload, the installation in the studio, the readiness checks, and the variables and
  quota a studio is bound with (\<^verbatim>\<open>src/src/tenant-studio-env.ts\<close>, \<^verbatim>\<open>src/src/tenant-storage-quota.ts\<close>,
  \<^verbatim>\<open>src/src/tenant-abuse-report.ts\<close>, \<^verbatim>\<open>src/src/video-finish-tier-state.ts\<close>).  Log lines are left out.
\<close>

section \<open>What the plane is configured with\<close>

record resolved_door =
  rd_urlVar :: string
  rd_url :: string
  rd_tokens :: "(string \<times> string) list"

text \<open>
  The part of \<^verbatim>\<open>ProvisionDeps\<close> that is data, with the cryptographic primitives and JavaScript's
  \<^verbatim>\<open>Number(s)\<close> and \<^verbatim>\<open>String(n)\<close> of the numbers that are no small integers.
\<close>

record plane =
  c_namespace :: string
  c_module_namespace :: string
  c_release :: string
  c_r2Endpoint :: string
  c_pool :: "tenant_endpoint list option"
  c_aig :: "string option"
  c_proxy :: "(string \<times> string) option"
  c_ceiling :: "string option"
  c_quota_bytes :: "string option"
  c_quota_invalid :: "string option"
  c_quota_mode :: "string option"
  c_abuse_url :: "string option"
  c_media_doors :: "(string \<times> string) list"
  c_doors :: "(string \<times> resolved_door) list"
  c_kek :: kek_ring
  c_enc :: aead
  c_dec :: unaead
  c_hmac :: hmac
  c_sha256 :: "8 word list \<Rightarrow> 8 word list"
  c_number :: "string \<Rightarrow> jsnum"
  c_num :: "jsnum \<Rightarrow> string"

section \<open>Studio variables\<close>

datatype disposition = Provisioned | Conditional | Default | NotHosted

definition TENANT_STUDIO_VAR_DISPOSITION :: "(string \<times> disposition) list" where
  "TENANT_STUDIO_VAR_DISPOSITION =
     [(''AUTH_MODE'', Provisioned), (''R2_S3_BUCKET'', Provisioned), (''R2_S3_ENDPOINT'', Provisioned),
      (''SPEND_DAILY_CEILING'', Conditional), (''R2_STORAGE_QUOTA_BYTES'', Conditional),
      (''R2_STORAGE_QUOTA_MODE'', Conditional), (''ABUSE_REPORT_URL'', Conditional),
      (''ALLOW_UNAUTHENTICATED'', Default), (''SPEND_LIMIT_FAIL_CLOSED'', Default),
      (''FILM_CLIP_DURATION_FLOOR'', Default), (''ACCESS_TEAM_DOMAIN'', NotHosted), (''ACCESS_AUD'', NotHosted),
      (''PLANNER_AI_MOCK'', NotHosted), (''VIDEO_FINISH_URL'', Conditional), (''AUDIO_MIX_URL'', Conditional),
      (''AUDIO_BEAT_SYNC_URL'', Conditional), (''IMAGE_PREP_URL'', Conditional), (''AUDIO_MASTER_URL'', Conditional),
      (''FINISH_UPSCALE_DOORS'', Conditional), (''SPEECH_UPSCALE_DOORS'', Conditional),
      (''FINISH_BLENDER_DOORS'', Conditional), (''RUNPOD_WAN_TRAIN_ENDPOINT_ID'', Conditional),
      (''SPEND_PRICEBOOK'', NotHosted)]"

definition REQUIRED_TENANT_STUDIO_VARS :: "string list" where
  "REQUIRED_TENANT_STUDIO_VARS = sort (map fst (filter (\<lambda>(k, d). d = Provisioned) TENANT_STUDIO_VAR_DISPOSITION))"

definition undecided_vars :: "string list \<Rightarrow> string list" where
  "undecided_vars required = filter (\<lambda>k. k \<notin> set (map fst TENANT_STUDIO_VAR_DISPOSITION)) required"

definition undecided_message :: "string list \<Rightarrow> string" where
  "undecided_message undecided =
     ''the pinned studio release declares '' @ show_nat (length undecided) @ '' var(s) with no disposition in '' @
     ''tenant-studio-env.ts: '' @ join_with '', '' undecided @ ''. Add each one with its reason '' @
     ''(provisioned / conditional / default / not-hosted) rather than leaving it unbound.''"

definition assertDispositionCoversContract :: "string list \<Rightarrow> unit prog" where
  "assertDispositionCoversContract required =
     (if undecided_vars required \<noteq> [] then raise (OtherError ''Error'' (undecided_message (undecided_vars required))) else ret ())"

section \<open>Storage quota and other studio bindings\<close>

definition isPositiveIntegerBytes :: "plane \<Rightarrow> string \<Rightarrow> bool" where
  "isPositiveIntegerBytes C value \<longleftrightarrow> js_trim value \<noteq> []
     \<and> (case as_int (c_number C (js_trim value)) of None \<Rightarrow> False | Some n \<Rightarrow> 0 < n)"

datatype quota_record = NoOverride | Override quota_override | CorruptOverride

definition tenantStorageQuotaOverride :: "plane \<Rightarrow> tenant \<Rightarrow> quota_record" where
  "tenantStorageQuotaOverride C t =
     (case t_r2_storage_quota_override t of
        None \<Rightarrow> NoOverride
      | Some mode \<Rightarrow>
          if mode = [] then NoOverride
          else if mode = ''none'' then Override QuotaNone
          else if mode = ''set'' then
            (case t_r2_storage_quota_bytes t of
               None \<Rightarrow> CorruptOverride
             | Some b \<Rightarrow> if isPositiveIntegerBytes C b
                         then Override (QuotaSet (number_string (c_num C) (c_number C (js_trim b)))) else CorruptOverride)
          else CorruptOverride)"

datatype quota_source = TenantQuota | TenantNone | PlaneQuota | PlaneUnset

record resolved_quota =
  rq_bytes :: "string option"
  rq_source :: quota_source
  rq_blocked :: "string option"

definition json_or_null :: "string option \<Rightarrow> string" where
  "json_or_null v = (case v of None \<Rightarrow> ''null'' | Some s \<Rightarrow> json_quote s)"

definition quota_unreadable :: "tenant \<Rightarrow> string" where
  "quota_unreadable t =
     ''this tenant's storage-quota record is unreadable (mode='' @ json_or_null (t_r2_storage_quota_override t) @ '', bytes='' @
     json_or_null (t_r2_storage_quota_bytes t) @ ''); refusing rather than guessing whether it should be capped, because both '' @
     ''guesses are wrong in opposite directions''"

definition quota_malformed :: "string \<Rightarrow> string" where
  "quota_malformed invalid =
     ''this plane configures TENANT_R2_STORAGE_QUOTA_BYTES='' @ [CHR 0x22] @ invalid @ [CHR 0x22] @ '', which is not a positive '' @
     ''integer number of BYTES. The studio would read that as NO ceiling, so this refuses rather than leaving a tenant uncapped '' @
     ''while the deploy config says otherwise. Fix the var (bytes only, no units), or record a per-tenant decision on this '' @
     ''tenant, and re-run''"

definition resolveStorageQuota :: "plane \<Rightarrow> tenant \<Rightarrow> resolved_quota" where
  "resolveStorageQuota C t =
     (case tenantStorageQuotaOverride C t of
        CorruptOverride \<Rightarrow> \<lparr>rq_bytes = None, rq_source = TenantQuota, rq_blocked = Some (quota_unreadable t)\<rparr>
      | Override QuotaNone \<Rightarrow> \<lparr>rq_bytes = None, rq_source = TenantNone, rq_blocked = None\<rparr>
      | Override (QuotaSet b) \<Rightarrow> \<lparr>rq_bytes = Some b, rq_source = TenantQuota, rq_blocked = None\<rparr>
      | NoOverride \<Rightarrow>
          (case c_quota_invalid C of
             Some i \<Rightarrow> \<lparr>rq_bytes = None, rq_source = PlaneQuota, rq_blocked = Some (quota_malformed i)\<rparr>
           | None \<Rightarrow> \<lparr>rq_bytes = c_quota_bytes C,
                       rq_source = (if c_quota_bytes C = None then PlaneUnset else PlaneQuota), rq_blocked = None\<rparr>))"

definition storageQuotaBindings :: "string option \<Rightarrow> string option \<Rightarrow> binding list" where
  "storageQuotaBindings bytes mode =
     (if truthy bytes then [PlainText ''R2_STORAGE_QUOTA_BYTES'' (the bytes)] else []) @
     (if truthy mode then [PlainText ''R2_STORAGE_QUOTA_MODE'' (the mode)] else [])"

definition videoFinishTierStateBindings :: "tenant \<Rightarrow> binding list" where
  "videoFinishTierStateBindings t =
     (if t_video_finish_unreachable t = 1 then [PlainText ''VIDEO_FINISH_TIER_STATE'' ''unprovisionable''] else [])"

definition abuseReportUrlBindings :: "string option \<Rightarrow> binding list" where
  "abuseReportUrlBindings url = (if truthy url then [PlainText ''ABUSE_REPORT_URL'' (the url)] else [])"

section \<open>The catalog\<close>

record module_spec =
  ms_module :: string
  ms_endpointKey :: "string option"
  ms_needsAiGateway :: bool
  ms_recordsRunpodJobs :: bool
  ms_publicEndpoint :: "string option"
  ms_writesTenantRenders :: bool

definition pooled :: "string \<Rightarrow> string \<Rightarrow> module_spec" where
  "pooled m k = \<lparr>ms_module = m, ms_endpointKey = Some k, ms_needsAiGateway = False, ms_recordsRunpodJobs = True,
     ms_publicEndpoint = None, ms_writesTenantRenders = False\<rparr>"

definition public :: "string \<Rightarrow> string \<Rightarrow> module_spec" where
  "public m ep = \<lparr>ms_module = m, ms_endpointKey = None, ms_needsAiGateway = False, ms_recordsRunpodJobs = True,
     ms_publicEndpoint = Some ep, ms_writesTenantRenders = True\<rparr>"

definition gateway :: "string \<Rightarrow> bool \<Rightarrow> module_spec" where
  "gateway m renders = \<lparr>ms_module = m, ms_endpointKey = None, ms_needsAiGateway = True, ms_recordsRunpodJobs = False,
     ms_publicEndpoint = None, ms_writesTenantRenders = renders\<rparr>"

definition TENANT_MODULE_CATALOG :: "module_spec list" where
  "TENANT_MODULE_CATALOG =
     [pooled ''keyframe'' ''backend'', pooled ''own-gpu'' ''backend'', pooled ''finish-upscale'' ''upscale'',
      pooled ''finish-rife'' ''backend'', gateway ''plan-enhance'' False, public ''alibaba-wan'' ''wan-2-6-i2v'',
      public ''alibaba-wan-lora'' ''wan-2-2-t2v-720-lora'', public ''minimax-hailuo'' ''minimax-hailuo-2-3-fast'',
      public ''narration-gen'' ''minimax-speech-02-hd'', gateway ''cf-grok-video'' True, gateway ''cf-seedance'' True,
      gateway ''cf-flux-3-video'' True, gateway ''cf-hh1-r2v'' True]"

definition TENANT_MODULE_FORBIDDEN_BINDINGS :: "string list" where
  "TENANT_MODULE_FORBIDDEN_BINDINGS = [''RUNPOD_WORKERS_MAX'']"

definition forbidden_message :: "string \<Rightarrow> string \<Rightarrow> string" where
  "forbidden_message m forbidden =
     ''module '' @ m @ '': binding '' @ forbidden @ '' is forbidden on tenant modules (cf#361: management API reach must stay '' @
     ''operator-only; refuse rather than upload)''"

definition assertNoTenantModuleForbiddenBindings :: "string \<Rightarrow> binding list \<Rightarrow> unit prog" where
  "assertNoTenantModuleForbiddenBindings m bindings =
     (case filter (\<lambda>f. f \<in> set (map binding_name bindings)) TENANT_MODULE_FORBIDDEN_BINDINGS of
        [] \<Rightarrow> ret ()
      | f # _ \<Rightarrow> raise (TenantModuleError ''modules_upload'' (forbidden_message m f)))"

definition reachesRunpod :: "module_spec \<Rightarrow> bool" where
  "reachesRunpod spec \<longleftrightarrow> truthy (ms_endpointKey spec) \<or> truthy (ms_publicEndpoint spec)"

definition tenantModuleProxyBinding :: "plane \<Rightarrow> runpod_mode \<Rightarrow> string \<Rightarrow> (string \<times> string) option" where
  "tenantModuleProxyBinding C mode tid =
     (if mode \<noteq> Shared then None
      else (case c_proxy C of
              None \<Rightarrow> None
            | Some (base, signingKey) \<Rightarrow>
                map_option (\<lambda>token. (base, token)) (mintTenantProxyToken (c_hmac C) (Some signingKey) tid)))"

section \<open>Uploading modules\<close>

text \<open>An endpoint as the module and studio bindings read it: its key, id and variable.\<close>

type_synonym endpoint = "string \<times> string \<times> string"

definition door_knobs :: string where
  "door_knobs = ''FINISH_UPSCALE_DOORS + FINISH_DOOR_TOKEN + FINISH_DOOR_TOKEN_PROPAGANDHI''"

definition modules_error :: "string \<Rightarrow> 'a prog" where
  "modules_error msg = raise (TenantModuleError ''modules_upload'' msg)"

definition no_endpoint_message :: "module_spec \<Rightarrow> string" where
  "no_endpoint_message spec =
     ''module '' @ ms_module spec @ '' needs the '' @ the (ms_endpointKey spec) @ '' endpoint, which the tenant does not have''"

definition no_door_message :: "module_spec \<Rightarrow> string" where
  "no_door_message spec =
     ''module '' @ ms_module spec @ '' is served by our own iron, but this plane configures no HTTPS door for '' @
     the (ms_endpointKey spec) @ '': set '' @ door_knobs @ ''. Workers VPC is not a fallback.''"

definition no_bucket_message :: "module_spec \<Rightarrow> string" where
  "no_bucket_message spec =
     ''module '' @ ms_module spec @ '' writes tenant renders but the tenant has no R2 bucket recorded; uploading it would write '' @
     ''those renders into the operator bucket''"

datatype backing_choice = NoBacking | Endpoint string | Door resolved_door

text \<open>The endpoint or the door a module is bound to, or why it cannot be.\<close>

definition module_backing :: "plane \<Rightarrow> endpoint list \<Rightarrow> module_spec \<Rightarrow> string + backing_choice" where
  "module_backing C endpoints spec =
     (if \<not> truthy (ms_endpointKey spec) then Inr NoBacking
      else (let key = the (ms_endpointKey spec) in
            if key \<in> set (map pl_key doorBackedPlan) then
              (case map_of (c_doors C) key of
                 Some d \<Rightarrow> if rd_url d = [] then Inl (no_door_message spec) else Inr (Door d)
               | None \<Rightarrow> Inl (no_door_message spec))
            else (case List.find (\<lambda>(k, i, v). k = key) endpoints of
                    Some (k, i, v) \<Rightarrow> Inr (Endpoint i)
                  | None \<Rightarrow> Inl (no_endpoint_message spec))))"

text \<open>The groups of bindings, in the order they are pushed.\<close>

definition backing_bindings :: "backing_choice \<Rightarrow> binding list" where
  "backing_bindings backing =
     (case backing of
        NoBacking \<Rightarrow> []
      | Endpoint i \<Rightarrow> [PlainText ''RUNPOD_ENDPOINT_ID'' i]
      | Door d \<Rightarrow> PlainText (rd_urlVar d) (rd_url d) # map (\<lambda>(n, tok). SecretText n tok) (rd_tokens d))"

definition proxy_bindings :: "(string \<times> string) option \<Rightarrow> module_spec \<Rightarrow> binding list" where
  "proxy_bindings proxy spec =
     (case proxy of
        Some (base, tok) \<Rightarrow>
          if reachesRunpod spec then [PlainText ''RUNPOD_PROXY_BASE'' base, SecretText ''RUNPOD_PROXY_TOKEN'' tok] else []
      | None \<Rightarrow> [])"

definition ai_bindings :: "plane \<Rightarrow> string \<Rightarrow> string \<Rightarrow> string option \<Rightarrow> module_spec \<Rightarrow> binding list" where
  "ai_bindings C tid slug aigToken spec =
     (if \<not> ms_needsAiGateway spec then []
      else [AiBinding ''AI'', PlainText ''TENANT_ID'' tid, PlainText ''TENANT_SLUG'' slug] @
        (if truthy (c_aig C) \<and> truthy aigToken
         then [PlainText ''GATEWAY_ID'' (the (c_aig C)), SecretText ''CF_AIG_TOKEN'' (the aigToken)] else []))"

definition module_bindings ::
  "plane \<Rightarrow> string \<Rightarrow> string \<Rightarrow> string \<Rightarrow> string option \<Rightarrow> (string \<times> string) option \<Rightarrow> string option \<Rightarrow> module_spec
     \<Rightarrow> backing_choice \<Rightarrow> string + binding list" where
  "module_bindings C tid slug d1 bucket proxy aigToken spec backing =
     (if ms_writesTenantRenders spec \<and> \<not> truthy bucket then Inl (no_bucket_message spec)
      else Inr (backing_bindings backing @ proxy_bindings proxy spec @
        (if ms_writesTenantRenders spec then [R2Binding ''R2_RENDERS'' (the bucket)] else []) @
        (if ms_recordsRunpodJobs spec then [D1Binding ''TELEMETRY_DB'' d1] else []) @
        ai_bindings C tid slug aigToken spec))"

definition vpc_refused_module :: "string \<Rightarrow> string" where
  "vpc_refused_module m =
     ''door binding refused for module '' @ m @ '': the plane SCRIPT UPLOAD credential is not authorized for Workers VPC (needs '' @
     ''Connectivity Directory access). The tenant was NOT provisioned without its doors -- fix the upload credential, or clear '' @
     ''the door service ids to run this plane without own-iron doors on purpose.''"

definition uploadUserWorker :: "services \<Rightarrow> worker_upload \<Rightarrow> unit prog" where
  "uploadUserWorker S u = calling (UploadWorker u) (\<lambda>tr. s_uploadWorker S tr u)"

definition uploadModuleScript :: "services \<Rightarrow> string \<Rightarrow> worker_upload \<Rightarrow> unit prog" where
  "uploadModuleScript S m u =
     catching (uploadUserWorker S u) (\<lambda>e.
       if classifyVpcBindingFailure e (list_ex is_vpc (u_bindings u)) = VpcRefused
       then modules_error (vpc_refused_module m) else raise e)"

definition fetch_module :: "services \<Rightarrow> string \<Rightarrow> string \<Rightarrow> worker_bundle prog" where
  "fetch_module S release m = calling (FetchModule release m) (\<lambda>tr. s_fetchModule S tr release m)"

fun prefetch :: "services \<Rightarrow> string \<Rightarrow> module_spec list \<Rightarrow> (string \<times> worker_bundle) list prog" where
  "prefetch S release [] = ret []"
| "prefetch S release (spec # specs) =
     andThen (catching (fetch_module S release (ms_module spec)) (\<lambda>e.
       modules_error (''fetch module bundle '' @ ms_module spec @ '' at '' @ release @ '': '' @ error_message e))) (\<lambda>b.
     andThen (prefetch S release specs) (\<lambda>bs. ret ((ms_module spec, b) # bs)))"

definition prefetchModuleBundles :: "services \<Rightarrow> string \<Rightarrow> (string \<times> worker_bundle) list prog" where
  "prefetchModuleBundles S release = prefetch S release TENANT_MODULE_CATALOG"

definition upload_module ::
  "services \<Rightarrow> plane \<Rightarrow> string \<Rightarrow> string \<Rightarrow> string \<Rightarrow> endpoint list \<Rightarrow> string \<Rightarrow> string option \<Rightarrow> (string \<times> string) option
     \<Rightarrow> (string \<times> worker_bundle) list \<Rightarrow> string option \<Rightarrow> module_spec \<Rightarrow> string list \<Rightarrow> string list prog" where
  "upload_module S C release tid slug endpoints d1 bucket proxy prefetched aigToken spec names =
     (case module_backing C endpoints spec of
        Inl msg \<Rightarrow> modules_error msg
      | Inr backing \<Rightarrow>
          andThen (case map_of prefetched (ms_module spec) of
                     Some b \<Rightarrow> ret b
                   | None \<Rightarrow> catching (fetch_module S release (ms_module spec)) (\<lambda>e.
                       modules_error (''fetch module bundle '' @ ms_module spec @ '': '' @ error_message e))) (\<lambda>b.
          case module_bindings C tid slug d1 bucket proxy aigToken spec backing of
            Inl msg \<Rightarrow> modules_error msg
          | Inr bindings \<Rightarrow>
              andThen (assertNoTenantModuleForbiddenBindings (ms_module spec) bindings) (\<lambda>_.
              andThen (uploadModuleScript S (ms_module spec)
                \<lparr>u_namespace = c_module_namespace C, u_script = tenantModuleScriptName tid (ms_module spec), u_main = b_main b,
                 u_text = b_text b, u_date = b_date b, u_flags = b_flags b, u_assets_jwt = None, u_bindings = bindings\<rparr>) (\<lambda>_.
              ret (names @ [tenantModuleScriptName tid (ms_module spec)])))))"

definition no_database_message :: string where
  "no_database_message =
     ''no tenant D1 id for the TELEMETRY_DB binding; refusing to upload module workers that would record no RunPod job rows '' @
     ''(cp#248). Repair tenants.d1_database_id or re-provision''"

definition uploadTenantModules ::
  "services \<Rightarrow> plane \<Rightarrow> string \<Rightarrow> string \<Rightarrow> string \<Rightarrow> endpoint list \<Rightarrow> string option \<Rightarrow> string option \<Rightarrow> runpod_mode
     \<Rightarrow> (string \<times> worker_bundle) list \<Rightarrow> string option \<Rightarrow> string list prog" where
  "uploadTenantModules S C release tid slug endpoints d1 bucket mode prefetched aigToken =
     (if \<not> truthy d1 then modules_error no_database_message
      else andThen (calling (CreateNamespace (c_module_namespace C)) (\<lambda>tr. s_createNamespace S tr (c_module_namespace C))) (\<lambda>_.
        let proxy = tenantModuleProxyBinding C mode tid in
        for_each TENANT_MODULE_CATALOG []
          (upload_module S C release tid slug endpoints (the d1) bucket proxy prefetched aigToken)))"

section \<open>Installing and verifying modules\<close>

definition callTenantStudio :: "services \<Rightarrow> string \<Rightarrow> string \<Rightarrow> string \<Rightarrow> string \<Rightarrow> string option \<Rightarrow> (nat \<times> string) prog" where
  "callTenantStudio S script meth path token body =
     calling (StudioCall script meth path token body) (\<lambda>tr. s_studio S tr script meth path token body)"

definition STUDIO_TOKEN_PROBE_DEADLINE_MS :: int where
  "STUDIO_TOKEN_PROBE_DEADLINE_MS = 15000"

text \<open>The wait after the n-th attempt.\<close>

definition backoff_ms :: "nat \<Rightarrow> int" where
  "backoff_ms attempts = [250, 500, 1000, 2000] ! min (attempts - 1) 3"

text \<open>
  The loop both probes share: a round does its work, asks the clock and ends or goes on with a state; past
  the deadline it gives up, before it sleeps.  The bound on the rounds is for the model only:
  \<^const>\<open>None\<close> is a loop that has not ended, and the theory shows that it does end.
\<close>

type_synonym ('s, 'r) round = "nat \<Rightarrow> int \<Rightarrow> 's \<Rightarrow> (int \<times> ('r + 's)) prog"

fun retrying ::
  "('s, 'r) round \<Rightarrow> (nat \<Rightarrow> int \<Rightarrow> 's \<Rightarrow> 'r prog) \<Rightarrow> int \<Rightarrow> int \<Rightarrow> nat \<Rightarrow> nat \<Rightarrow> 's \<Rightarrow> 'r option prog" where
  "retrying body gave_up deadline started 0 attempts s = ret None"
| "retrying body gave_up deadline started (Suc rounds) attempts s =
     andThen (body (attempts + 1) started s) (\<lambda>(elapsed, r).
       case r of
         Inl x \<Rightarrow> ret (Some x)
       | Inr s' \<Rightarrow>
           if elapsed + backoff_ms (attempts + 1) \<ge> deadline
           then andThen (gave_up (attempts + 1) elapsed s') (\<lambda>x. ret (Some x))
           else andThen (sleep (backoff_ms (attempts + 1))) (\<lambda>_.
             retrying body gave_up deadline started rounds (attempts + 1) s'))"

definition PROBE_ROUNDS :: nat where
  "PROBE_ROUNDS = 10"

definition probe_failed :: "nat \<Rightarrow> string \<Rightarrow> nat \<Rightarrow> int \<Rightarrow> string" where
  "probe_failed st txt attempts elapsed =
     ''studio token probe -> '' @ show_nat st @ '': '' @ take 200 txt @ '' (not retryable; attempts='' @ show_nat attempts @
     '', elapsed='' @ show_int elapsed @ ''ms)''"

definition probe_gave_up :: "nat \<Rightarrow> string \<Rightarrow> nat \<Rightarrow> int \<Rightarrow> string" where
  "probe_gave_up st txt attempts elapsed =
     ''studio never served the uploaded STUDIO_API_TOKEN -> '' @ show_nat st @ '': '' @ take 200 txt @ '' (gave up after '' @
     show_nat attempts @ '' attempts, '' @ show_int elapsed @ ''ms; either propagation is far slower than '' @
     show_int STUDIO_TOKEN_PROBE_DEADLINE_MS @ ''ms or the token is wrong)''"

text \<open>The state of the loop is the last answer.\<close>

definition token_round :: "services \<Rightarrow> string \<Rightarrow> string \<Rightarrow> (nat \<times> string, nat \<times> int) round" where
  "token_round S script token attempts started answer =
     andThen (callTenantStudio S script ''GET'' ''/api/modules/installed'' token None) (\<lambda>(st, txt).
     andThen (clock S) (\<lambda>now.
     if st = 200 then ret (now - started, Inl (attempts, now - started))
     else if st \<noteq> 403 then raise (TenantModuleError ''modules_install'' (probe_failed st txt attempts (now - started)))
     else ret (now - started, Inr (st, txt))))"

definition token_gave_up :: "nat \<Rightarrow> int \<Rightarrow> nat \<times> string \<Rightarrow> (nat \<times> int) prog" where
  "token_gave_up attempts elapsed answer =
     raise (TenantModuleError ''modules_install'' (probe_gave_up (fst answer) (snd answer) attempts elapsed))"

definition awaitStudioTokenLive :: "services \<Rightarrow> string \<Rightarrow> string \<Rightarrow> (nat \<times> int) option prog" where
  "awaitStudioTokenLive S script token =
     andThen (clock S) (\<lambda>started.
     retrying (token_round S script token) token_gave_up STUDIO_TOKEN_PROBE_DEADLINE_MS started PROBE_ROUNDS 0 (0, []))"

definition install_module :: "services \<Rightarrow> string \<Rightarrow> string \<Rightarrow> string \<Rightarrow> module_spec \<Rightarrow> string list \<Rightarrow> string list prog" where
  "install_module S tid script token spec installed =
     (let scriptName = tenantModuleScriptName tid (ms_module spec) in
      andThen (callTenantStudio S script ''POST'' ''/api/modules/install'' token
        (Some (stringify_strings [(''script_name'', scriptName)]))) (\<lambda>(st, txt).
      if st \<noteq> 201 then raise (TenantModuleError ''modules_install''
        (''install '' @ ms_module spec @ '' ('' @ scriptName @ '') -> '' @ show_nat st @ '': '' @ take 300 txt))
      else ret (installed @ [ms_module spec])))"

text \<open>A probe that has not ended would go on; the theory shows that this does not happen.\<close>

definition installTenantModules :: "services \<Rightarrow> string \<Rightarrow> string \<Rightarrow> string \<Rightarrow> string list prog" where
  "installTenantModules S tid script token =
     andThen (awaitStudioTokenLive S script token) (\<lambda>live.
     if live = None then raise (OtherError [] ''the probe has not ended'')
     else for_each TENANT_MODULE_CATALOG [] (install_module S tid script token))"

definition verify_error :: "string \<Rightarrow> 'a prog" where
  "verify_error msg = raise (TenantModuleError ''verify'' msg)"

text \<open>\<^verbatim>\<open>(parsed.modules ?? []).map((m) => m.name)\<close>, which throws on what is no array and on a null entry.\<close>

definition installed_names :: "json \<Rightarrow> string list option" where
  "installed_names parsed =
     (if parsed = JNull then None
      else (case jget parsed ''modules'' of
              None \<Rightarrow> Some []
            | Some JNull \<Rightarrow> Some []
            | Some (JArr ms) \<Rightarrow> if JNull \<in> set ms then None else Some (List.map_filter (\<lambda>m. jstring (jget m ''name'')) ms)
            | _ \<Rightarrow> None))"

definition verifyTenantModulesInstalled :: "services \<Rightarrow> string \<Rightarrow> string \<Rightarrow> string list prog" where
  "verifyTenantModulesInstalled S script token =
     andThen (callTenantStudio S script ''GET'' ''/api/modules/installed'' token None) (\<lambda>(st, txt).
     if st \<noteq> 200 then verify_error (''GET /api/modules/installed -> '' @ show_nat st @ '': '' @ take 200 txt)
     else (case JSON_parse txt of
             None \<Rightarrow> verify_error ''GET /api/modules/installed returned non-JSON''
           | Some parsed \<Rightarrow>
               (case installed_names parsed of
                  None \<Rightarrow> raise (OtherError ''TypeError'' ''modules is not readable'')
                | Some names \<Rightarrow>
                    if names = [] then verify_error ''tenant studio reports zero installed modules after provisioning''
                    else ret names)))"

section \<open>Readiness\<close>

definition callTenantModule :: "services \<Rightarrow> string \<Rightarrow> string \<Rightarrow> (nat \<times> string) prog" where
  "callTenantModule S script path = calling (ModuleCall script path) (\<lambda>tr. s_module S tr script path)"

datatype door_backing = NoDoor | DoorToken bool | UnreadableDoor

definition parseDoorBacking :: "json option \<Rightarrow> door_backing" where
  "parseDoorBacking raw =
     (case raw of
        None \<Rightarrow> NoDoor
      | Some JNull \<Rightarrow> NoDoor
      | Some (JObj kvs) \<Rightarrow> (case jget (JObj kvs) ''token'' of Some (JBool b) \<Rightarrow> DoorToken b | _ \<Rightarrow> UnreadableDoor)
      | Some _ \<Rightarrow> UnreadableDoor)"

datatype ready_verdict = Ready | NotVisibleYet | Unverifiable | Misconfigured

definition credentials_verdict :: "json option \<Rightarrow> ready_verdict" where
  "credentials_verdict creds =
     (case Option.bind creds (\<lambda>c. jget c ''runpod_api_key'') of
        Some (JBool key) \<Rightarrow>
          (case Option.bind creds (\<lambda>c. jget c ''runpod_endpoint_id'') of
             None \<Rightarrow> if key then Ready else NotVisibleYet
           | Some (JBool endpoint) \<Rightarrow>
               if key \<and> endpoint then Ready else if endpoint \<and> \<not> key then NotVisibleYet else Misconfigured
           | _ \<Rightarrow> Misconfigured)
      | _ \<Rightarrow> Misconfigured)"

text \<open>\<^const>\<open>None\<close> is the exception that reading a field of the body \<^verbatim>\<open>null\<close> throws.\<close>

definition classifyReadyResponse :: "nat \<Rightarrow> string \<Rightarrow> string \<Rightarrow> ready_verdict option" where
  "classifyReadyResponse status txt expectedModule =
     (if status = 404 then Some Unverifiable
      else if status \<noteq> 200 then Some Misconfigured
      else (case JSON_parse txt of
              None \<Rightarrow> Some Misconfigured
            | Some JNull \<Rightarrow> None
            | Some body \<Rightarrow>
                if jget body ''module'' \<noteq> Some (JStr expectedModule) then Some Misconfigured
                else (case parseDoorBacking (jget body ''door'') of
                        DoorToken token \<Rightarrow> Some (if token then Ready else Misconfigured)
                      | _ \<Rightarrow> Some (credentials_verdict (jget body ''credentials'')))))"

definition MODULE_READY_PROBE_DEADLINE_MS :: int where
  "MODULE_READY_PROBE_DEADLINE_MS = 10000"

record module_readiness =
  mr_verified :: "string list"
  mr_unverified :: "(string \<times> string \<times> string) list"
  mr_unconfirmed :: "string list"
  mr_notProbed :: "string list"
  mr_attempts :: nat
  mr_elapsed :: int

record ready_result =
  rr_module :: string
  rr_script :: string
  rr_status :: nat
  rr_text :: string
  rr_verdict :: ready_verdict

text \<open>
  \<^verbatim>\<open>Promise.all\<close>: every call is made, here in the order of the list, and the whole fails with the first that fails.
\<close>

fun all_of :: "'a prog list \<Rightarrow> 'a list prog" where
  "all_of [] = ret []"
| "all_of (m # ms) =
     andThen (attempted m) (\<lambda>r.
     andThen (attempted (all_of ms)) (\<lambda>rs.
     case r of Inl e \<Rightarrow> raise e
     | Inr x \<Rightarrow> (case rs of Inl e \<Rightarrow> raise e | Inr xs \<Rightarrow> ret (x # xs))))"

definition ask_ready :: "services \<Rightarrow> string \<Rightarrow> string \<Rightarrow> ready_result prog" where
  "ask_ready S tid m =
     (let script = tenantModuleScriptName tid m in
      andThen (callTenantModule S script ''/ready'') (\<lambda>(st, txt).
      case classifyReadyResponse st txt m of
        None \<Rightarrow> raise (OtherError ''TypeError'' ''Cannot read properties of null (reading 'module')'')
      | Some v \<Rightarrow> ret \<lparr>rr_module = m, rr_script = script, rr_status = st, rr_text = txt, rr_verdict = v\<rparr>))"

definition or_empty :: "string \<Rightarrow> string" where
  "or_empty s = (if s = [] then ''(empty)'' else s)"

definition unverifiable_detail :: "ready_result \<Rightarrow> string" where
  "unverifiable_detail r =
     rr_script r @ '' did not answer GET /ready (404): either the module image predates '' @
     ''/ready, or the probe could not reach it (no module under that script name, or the '' @
     ''control plane cannot dispatch to the module namespace). Credential propagation could '' @
     ''not be verified either way. Response: '' @ or_empty (take 200 (rr_text r)) @ ''. '' @
     ''Check that response first: if it names a missing binding the defect is in the control '' @
     ''plane deploy, not the tenant; otherwise re-provision against a release that carries '' @
     ''/ready, and if it still 404s the script is missing, not stale''"

definition misconfigured_message :: "ready_result \<Rightarrow> nat \<Rightarrow> int \<Rightarrow> string" where
  "misconfigured_message r attempts elapsed =
     ''module '' @ rr_module r @ '' ('' @ rr_script r @ '') /ready -> '' @ show_nat (rr_status r) @ '': '' @ take 200 (rr_text r) @
     '' (not retryable; attempts='' @ show_nat attempts @ '', elapsed='' @ show_int elapsed @ ''ms)''"

definition no_population_message :: "nat \<Rightarrow> string" where
  "no_population_message n =
     ''no RunPod-reaching modules in a catalog of '' @ show_nat n @ '': refusing to report '' @
     ''readiness for a tenant whose module set was never probed (reachesRunpod excluded every row)''"

text \<open>The loop over the results of a round: what was verified and unverified so far, and what is still pending.\<close>

type_synonym ready_lists = "string list \<times> (string \<times> string \<times> string) list \<times> string list"

definition sort_result :: "nat \<Rightarrow> int \<Rightarrow> ready_result \<Rightarrow> ready_lists \<Rightarrow> ready_lists prog" where
  "sort_result attempts elapsed r = (\<lambda>(verified, unverified, pending).
     case rr_verdict r of
       Ready \<Rightarrow> ret (verified @ [rr_module r], unverified, pending)
     | Unverifiable \<Rightarrow> ret (verified, unverified @ [(rr_module r, unverifiable_detail r, rr_script r)], pending)
     | Misconfigured \<Rightarrow> verify_error (misconfigured_message r attempts elapsed)
     | NotVisibleYet \<Rightarrow> ret (verified, unverified, pending @ [rr_module r]))"

definition readiness_of :: "string list \<Rightarrow> nat \<Rightarrow> int \<Rightarrow> ready_lists \<Rightarrow> module_readiness" where
  "readiness_of notProbed attempts elapsed = (\<lambda>(vs, us, ps).
     \<lparr>mr_verified = vs, mr_unverified = us, mr_unconfirmed = ps, mr_notProbed = notProbed, mr_attempts = attempts,
      mr_elapsed = elapsed\<rparr>)"

definition ready_round :: "services \<Rightarrow> string \<Rightarrow> string list \<Rightarrow> (ready_lists, module_readiness) round" where
  "ready_round S tid notProbed attempts started = (\<lambda>(verified, unverified, pending).
     andThen (all_of (map (ask_ready S tid) pending)) (\<lambda>results.
     andThen (clock S) (\<lambda>now.
     andThen (for_each results (verified, unverified, []) (sort_result attempts (now - started))) (\<lambda>found.
     ret (now - started,
       if snd (snd found) = [] then Inl (readiness_of notProbed attempts (now - started) found) else Inr found)))))"

definition awaitTenantModulesReady :: "services \<Rightarrow> string \<Rightarrow> module_spec list \<Rightarrow> module_readiness option prog" where
  "awaitTenantModulesReady S tid catalog =
     andThen (clock S) (\<lambda>started.
     let pending = map ms_module (filter reachesRunpod catalog);
         notProbed = map ms_module (filter (\<lambda>s. \<not> reachesRunpod s) catalog)
     in if pending = [] then verify_error (no_population_message (length catalog))
        else retrying (ready_round S tid notProbed)
               (\<lambda>attempts elapsed found. ret (readiness_of notProbed attempts elapsed found))
               MODULE_READY_PROBE_DEADLINE_MS started PROBE_ROUNDS 0 ([], [], pending))"

section \<open>What a tenant's modules report\<close>

datatype job_log = JobLogOk | JobLogUnavailable | JobLogUnknown

definition parseJobLogReadiness :: "json option \<Rightarrow> job_log option" where
  "parseJobLogReadiness raw =
     (case raw of
        Some (JBool b) \<Rightarrow> Some (if b then JobLogOk else JobLogUnavailable)
      | Some (JStr s) \<Rightarrow>
          if s = ''ok'' then Some JobLogOk else if s = ''unavailable'' then Some JobLogUnavailable
          else if s = ''unknown'' then Some JobLogUnknown else None
      | _ \<Rightarrow> None)"

definition isUnrecognisedJobLog :: "json option \<Rightarrow> bool" where
  "isUnrecognisedJobLog raw \<longleftrightarrow> raw \<noteq> None \<and> parseJobLogReadiness raw = None"

datatype reading_state = Reading job_log | AbsentReading | Unreachable

text \<open>A sample without its human-readable \<^verbatim>\<open>detail\<close>.\<close>

record module_sample =
  sm_module :: string
  sm_script :: string
  sm_status :: nat
  sm_ok :: "bool option"
  sm_credentials :: "(bool \<times> bool) option"
  sm_door :: door_backing
  sm_job_log :: "job_log option"
  sm_records :: bool
  sm_reading :: reading_state

definition both_credentials :: "json option \<Rightarrow> (bool \<times> bool) option" where
  "both_credentials creds =
     (case (Option.bind creds (\<lambda>c. jget c ''runpod_api_key''), Option.bind creds (\<lambda>c. jget c ''runpod_endpoint_id'')) of
        (Some (JBool k), Some (JBool e)) \<Rightarrow> Some (k, e)
      | _ \<Rightarrow> None)"

definition sample_of :: "string \<Rightarrow> module_spec \<Rightarrow> nat \<Rightarrow> string \<Rightarrow> module_sample" where
  "sample_of tid spec st txt =
     (let blank = \<lparr>sm_module = ms_module spec, sm_script = tenantModuleScriptName tid (ms_module spec), sm_status = st,
            sm_ok = None, sm_credentials = None, sm_door = NoDoor, sm_job_log = None, sm_records = ms_recordsRunpodJobs spec,
            sm_reading = Unreachable\<rparr>
      in case (if st = 200 then JSON_parse txt else None) of
           None \<Rightarrow> blank
         | Some body \<Rightarrow>
             if jget body ''module'' \<noteq> Some (JStr (ms_module spec)) then blank
             else (let log = parseJobLogReadiness (Option.bind (jget body ''telemetry'') (\<lambda>t. jget t ''job_log''))
                   in blank\<lparr>sm_reading := (case log of Some l \<Rightarrow> Reading l | None \<Rightarrow> AbsentReading),
                        sm_ok := (case jget body ''ok'' of Some (JBool b) \<Rightarrow> Some b | _ \<Rightarrow> None),
                        sm_credentials := both_credentials (jget body ''credentials''),
                        sm_job_log := log, sm_door := parseDoorBacking (jget body ''door'')\<rparr>))"

definition observe_module :: "services \<Rightarrow> string \<Rightarrow> module_spec \<Rightarrow> module_sample prog" where
  "observe_module S tid spec =
     andThen (callTenantModule S (tenantModuleScriptName tid (ms_module spec)) ''/ready'') (\<lambda>(st, txt).
     ret (sample_of tid spec st txt))"

definition observeTenantModulesOnce :: "services \<Rightarrow> string \<Rightarrow> module_sample list prog" where
  "observeTenantModulesOnce S tid = all_of (map (observe_module S tid) TENANT_MODULE_CATALOG)"

definition MODULE_READINESS_PROBE_GAP_MS :: int where
  "MODULE_READINESS_PROBE_GAP_MS = 250"

definition MODULE_READINESS_SAMPLES :: nat where
  "MODULE_READINESS_SAMPLES = 2"

record observation =
  ob_sample :: module_sample
  ob_readings :: "reading_state list"
  ob_settled :: bool

definition foldModuleSamples :: "module_sample list list \<Rightarrow> observation list" where
  "foldModuleSamples rounds =
     map (\<lambda>sample.
         let readings = map sm_reading (List.map_filter (\<lambda>round. List.find (\<lambda>s. sm_module s = sm_module sample) round) rounds)
         in \<lparr>ob_sample = sample, ob_readings = readings,
              ob_settled = (2 \<le> length readings \<and> list_all (\<lambda>r. r = hd readings) readings)\<rparr>)
       (last rounds)"

fun sample_rounds :: "services \<Rightarrow> string \<Rightarrow> nat \<Rightarrow> module_sample list list \<Rightarrow> module_sample list list prog" where
  "sample_rounds S tid 0 rounds = ret rounds"
| "sample_rounds S tid (Suc n) rounds =
     andThen (if rounds \<noteq> [] then sleep MODULE_READINESS_PROBE_GAP_MS else ret ()) (\<lambda>_.
     andThen (observeTenantModulesOnce S tid) (\<lambda>r. sample_rounds S tid n (rounds @ [r])))"

definition probeTenantModuleReadiness :: "services \<Rightarrow> string \<Rightarrow> observation list prog" where
  "probeTenantModuleReadiness S tid =
     andThen (sample_rounds S tid (max 1 MODULE_READINESS_SAMPLES) []) (\<lambda>rounds. ret (foldModuleSamples rounds))"

definition records_unproven :: "observation list \<Rightarrow> string list" where
  "records_unproven ms =
     map (\<lambda>m. sm_module (ob_sample m))
       (filter (\<lambda>m. sm_records (ob_sample m) \<and> \<not> (sm_job_log (ob_sample m) = Some JobLogOk \<and> ob_settled m)) ms)"

definition unsettled :: "observation list \<Rightarrow> string list" where
  "unsettled ms = map (\<lambda>m. sm_module (ob_sample m)) (filter (\<lambda>m. \<not> ob_settled m) ms)"

definition summariseModuleReadiness :: "observation list \<Rightarrow> string list \<times> string list" where
  "summariseModuleReadiness ms = (records_unproven ms, unsettled ms)"

section \<open>Time\<close>

text \<open>How long a run slept, and a clock that never goes back and advances by what a run sleeps.\<close>

fun slept_ms :: "event \<Rightarrow> int" where
  "slept_ms (Slept ms) = ms"
| "slept_ms _ = 0"

definition slept :: "trace \<Rightarrow> int" where
  "slept es = sum_list (map slept_ms es)"

definition time_passes :: "'s platform_scheme \<Rightarrow> bool" where
  "time_passes S \<longleftrightarrow> (\<forall>tr es. s_now S tr + slept es \<le> s_now S (tr @ es))"

definition awake :: "event \<Rightarrow> bool" where
  "awake e \<longleftrightarrow> slept_ms e = 0"

lemma slept_simps [simp]: "slept [] = 0" "slept (e # es) = slept_ms e + slept es" "slept (xs @ ys) = slept xs + slept ys"
  by (simp_all add: slept_def)

lemma awake_simps [simp]: "awake (Called c b)" "awake Observed"
  by (simp_all add: awake_def)

lemma awake_slept: "list_all awake es \<Longrightarrow> slept es = 0"
  by (induction es) (simp_all add: awake_def)

definition total_backoff :: "nat \<Rightarrow> int" where
  "total_backoff n = (\<Sum>k<n. backoff_ms (k + 1))"

lemma backoff_pos: "0 < backoff_ms n"
proof -
  have "min (n - 1) 3 \<in> {0, 1, 2, 3 :: nat}" by auto
  then show ?thesis unfolding backoff_ms_def by auto
qed

lemma total_backoff_Suc: "total_backoff (Suc n) = total_backoff n + backoff_ms (n + 1)"
  by (simp add: total_backoff_def)

lemma total_backoff_ten: "total_backoff 10 = 15750"
  by (simp add: total_backoff_def backoff_ms_def eval_nat_numeral)

section \<open>The probe loops\<close>

text \<open>What a round owes the loop: it asks the clock once and never sleeps, and giving up does not sleep either.\<close>

locale probe =
  fixes S :: services and body :: "('s, 'r) round" and gave_up :: "nat \<Rightarrow> int \<Rightarrow> 's \<Rightarrow> 'r prog"
  assumes round_awake: "emits awake (body attempts started s)"
    and round_clock: "body attempts started s w = (Inr (elapsed, r), w') \<Longrightarrow>
      \<exists>es. elapsed = s_now S (w_trace w @ es) - started \<and> list_all awake es"
    and gave_up_awake: "emits awake (gave_up attempts elapsed s)"
begin

lemma round_elapsed:
  assumes "time_passes S" "body attempts started s w = (Inr (elapsed, r), w')"
  shows "s_now S (w_trace w) - started \<le> elapsed"
proof -
  obtain es where "elapsed = s_now S (w_trace w @ es) - started" "list_all awake es" using round_clock [OF assms(2)] by blast
  moreover have "s_now S (w_trace w) + slept es \<le> s_now S (w_trace w @ es)" using assms(1) by (simp add: time_passes_def)
  ultimately show ?thesis using awake_slept by auto
qed

lemma round_now:
  assumes "time_passes S" "body attempts started s w = (r, w')"
  shows "s_now S (w_trace w) \<le> s_now S (w_trace w')" "w_trace w' = w_trace w @ did (body attempts started s) w"
    "slept (did (body attempts started s) w) = 0"
proof -
  note d = emitsD(1,2) [OF round_awake, of attempts started s w]
  then show w': "w_trace w' = w_trace w @ did (body attempts started s) w" and 0: "slept (did (body attempts started s) w) = 0"
    using assms(2) awake_slept by simp_all
  have "s_now S (w_trace w) + slept (did (body attempts started s) w) \<le> s_now S (w_trace w @ did (body attempts started s) w)"
    using assms(1) unfolding time_passes_def by blast
  then show "s_now S (w_trace w) \<le> s_now S (w_trace w')" using w' 0 by simp
qed

text \<open>
  One induction for both loops: while the clock runs, the loop ends within the rounds whose waits exceed
  the deadline, and it sleeps less than the deadline in all.
\<close>

lemma retrying_bounded:
  assumes time: "time_passes S" and "deadline \<le> total_backoff (attempts + rounds)" "total_backoff attempts < deadline"
    and "total_backoff attempts \<le> s_now S (w_trace w) - started"
  shows "fst (retrying body gave_up deadline started rounds attempts s w) \<noteq> Inr None
    \<and> (\<exists>es. w_trace (snd (retrying body gave_up deadline started rounds attempts s w)) = w_trace w @ es
          \<and> total_backoff attempts + slept es < deadline)"
  using assms(2-)
proof (induction rounds arbitrary: attempts s w)
  case (Suc rounds)
  let ?run = "retrying body gave_up deadline started (Suc rounds) attempts s w"
  obtain r w1 where b: "body (Suc attempts) started s w = (r, w1)" by fastforce
  note now = round_now [OF time b]
  show ?case
  proof (cases r)
    case (Inl e)
    then show ?thesis using now(2,3) Suc.prems(2) by (simp add: andThen_def b)
  next
    case (Inr p)
    obtain elapsed q where p [simp]: "p = (elapsed, q)" by fastforce
    have late: "total_backoff attempts \<le> elapsed" using round_elapsed [OF time b [unfolded Inr p]] Suc.prems(3) by simp
    show ?thesis
    proof (cases q)
      case (Inl x)
      then show ?thesis using now(2,3) Suc.prems(2) by (simp add: andThen_def b \<open>r = Inr p\<close> ret_def)
    next
      case (Inr s')
      show ?thesis
      proof (cases "elapsed + backoff_ms (Suc attempts) \<ge> deadline")
        case True
        then have run: "?run = andThen (gave_up (Suc attempts) elapsed s') (\<lambda>x. ret (Some x)) w1"
          by (simp add: andThen_def b \<open>r = Inr p\<close> Inr)
        have "emits awake (andThen (gave_up (Suc attempts) elapsed s') (\<lambda>x. ret (Some x)))"
          by (intro emits_intro gave_up_awake)
        from emitsD(1,2) [OF this, of w1] show ?thesis
          unfolding run using now(2,3) Suc.prems(2) awake_slept
          by (intro conjI exI [of _ "did (body (Suc attempts) started s) w @ did (andThen (gave_up (Suc attempts) elapsed s') (\<lambda>x. ret (Some x))) w1"])
            (auto simp: andThen_def ret_def split: prod.splits sum.splits)
      next
        case False
        let ?w2 = "w1\<lparr>w_trace := w_trace w1 @ [Slept (backoff_ms (Suc attempts))]\<rparr>"
        from False have run: "?run = retrying body gave_up deadline started rounds (Suc attempts) s' ?w2"
          by (simp add: andThen_def b \<open>r = Inr p\<close> Inr sleep_def)
        have "s_now S (w_trace w1) + slept [Slept (backoff_ms (Suc attempts))] \<le> s_now S (w_trace w1 @ [Slept (backoff_ms (Suc attempts))])"
          using time unfolding time_passes_def by blast
        then have "total_backoff (Suc attempts) \<le> s_now S (w_trace ?w2) - started"
          using now(1) Suc.prems(3) by (simp add: total_backoff_Suc)
        moreover have "total_backoff (Suc attempts) < deadline" using False late by (simp add: total_backoff_Suc)
        ultimately obtain es where "fst (retrying body gave_up deadline started rounds (Suc attempts) s' ?w2) \<noteq> Inr None"
          "w_trace (snd (retrying body gave_up deadline started rounds (Suc attempts) s' ?w2)) = w_trace ?w2 @ es"
          "total_backoff (Suc attempts) + slept es < deadline"
          using Suc.IH [of "Suc attempts" ?w2 s'] Suc.prems(1) by auto
        then show ?thesis
          unfolding run using now(2,3)
          by (intro conjI exI [of _ "did (body (Suc attempts) started s) w @ Slept (backoff_ms (Suc attempts)) # es"])
            (simp_all add: total_backoff_Suc)
      qed
    qed
  qed
qed simp

lemma retrying_ends:
  assumes "time_passes S" "deadline \<le> total_backoff PROBE_ROUNDS" "0 < deadline"
  shows "fst (andThen (clock S) (\<lambda>started. retrying body gave_up deadline started PROBE_ROUNDS 0 s) w) \<noteq> Inr None
    \<and> slept (did (andThen (clock S) (\<lambda>started. retrying body gave_up deadline started PROBE_ROUNDS 0 s)) w) < deadline"
proof -
  let ?w = "w\<lparr>w_trace := w_trace w @ [Observed]\<rparr>"
  have "s_now S (w_trace w) + slept [Observed] \<le> s_now S (w_trace w @ [Observed])"
    using assms(1) unfolding time_passes_def by blast
  then have "s_now S (w_trace w) \<le> s_now S (w_trace ?w)" by simp
  with retrying_bounded [OF assms(1), of deadline 0 PROBE_ROUNDS ?w "s_now S (w_trace w)" s] assms(2,3)
  show ?thesis by (auto simp: andThen_def clock_def observing_def did_def total_backoff_def)
qed

end

lemma emits_studio [emits_intro]:
  "(\<And>b. P (Called (StudioCall script meth path token body) b)) \<Longrightarrow> emits P (callTenantStudio S script meth path token body)"
  unfolding callTenantStudio_def by (intro emits_intro)

lemma emits_module_call [emits_intro]:
  "(\<And>b. P (Called (ModuleCall script path) b)) \<Longrightarrow> emits P (callTenantModule S script path)"
  unfolding callTenantModule_def by (intro emits_intro)

lemma emits_all_of [emits_intro]: "(\<And>m. m \<in> set ms \<Longrightarrow> emits P m) \<Longrightarrow> emits P (all_of ms)"
  by (induction ms) (auto intro!: emits_intro)

lemma emits_ask [emits_intro]:
  "(\<And>b. P (Called (ModuleCall (tenantModuleScriptName tid m) ''/ready'') b)) \<Longrightarrow> emits P (ask_ready S tid m)"
  unfolding ask_ready_def Let_def by (intro emits_intro)

lemma emits_sort_result [emits_intro]: "emits P (sort_result attempts elapsed r acc)"
  unfolding sort_result_def verify_error_def
  by (cases "rr_verdict r") (auto intro!: emits_intro split: prod.split)

lemma clock_elapsed:
  assumes "emits awake m" "andThen m (\<lambda>x. andThen (clock S) (\<lambda>now. f x (now - started :: int))) w = (Inr (elapsed, r), w')"
    and "\<And>x d v v'. f x d v = (Inr (elapsed, r), v') \<Longrightarrow> d = elapsed"
  shows "\<exists>es. elapsed = s_now S (w_trace w @ es) - started \<and> list_all awake es"
proof -
  from assms(2) obtain x w1 where m: "m w = (Inr x, w1)" and "andThen (clock S) (\<lambda>now. f x (now - started)) w1 = (Inr (elapsed, r), w')"
    by (rule andThenE)
  then obtain now w2 where "clock S w1 = (Inr now, w2)" "f x (now - started) w2 = (Inr (elapsed, r), w')" by (auto elim: andThenE)
  then have "elapsed = s_now S (w_trace w1) - started" using assms(3) by (auto simp: clock_def observing_def)
  moreover have "w_trace w1 = w_trace w @ did m w" "list_all awake (did m w)" using emitsD(1,2) [OF assms(1), of w] m by simp_all
  ultimately show ?thesis by auto
qed

interpretation token: probe S "token_round S script tok" token_gave_up for S script tok
proof
  show "emits awake (token_round S script tok attempts started answer)" for attempts started answer
    unfolding token_round_def by (intro emits_intro) simp_all
  show "emits awake (token_gave_up attempts elapsed answer)" for attempts elapsed answer
    unfolding token_gave_up_def by (intro emits_intro)
  fix attempts started answer w elapsed r w'
  assume "token_round S script tok attempts started answer w = (Inr (elapsed, r), w')"
  then have "andThen (callTenantStudio S script ''GET'' ''/api/modules/installed'' tok None) (\<lambda>x. andThen (clock S) (\<lambda>now.
      (\<lambda>(st, txt) d. if st = 200 then ret (d, Inl (attempts, d))
        else if st \<noteq> 403 then raise (TenantModuleError ''modules_install'' (probe_failed st txt attempts d))
        else ret (d, Inr (st, txt))) x (now - started))) w = (Inr (elapsed, r), w')"
    by (simp add: token_round_def case_prod_unfold)
  then show "\<exists>es. elapsed = s_now S (w_trace w @ es) - started \<and> list_all awake es"
    by (rule clock_elapsed [rotated]) (auto intro!: emits_intro split: if_splits)
qed

interpretation ready: probe S "ready_round S tid notProbed" "\<lambda>attempts elapsed found. ret (readiness_of notProbed attempts elapsed found)"
  for S tid notProbed
proof
  show "emits awake (ready_round S tid notProbed attempts started found)" for attempts started found
    unfolding ready_round_def by (intro emits_intro) (auto intro!: emits_intro)
  show "emits awake (ret (readiness_of notProbed attempts elapsed found))" for attempts elapsed found
    by (intro emits_intro)
  fix attempts started found w elapsed r w'
  assume run: "ready_round S tid notProbed attempts started found w = (Inr (elapsed, r), w')"
  obtain vs us ps where [simp]: "found = (vs, us, ps)" by (cases found) auto
  from run have "andThen (all_of (map (ask_ready S tid) ps)) (\<lambda>x. andThen (clock S) (\<lambda>now.
      (\<lambda>results d. andThen (for_each results (vs, us, []) (sort_result attempts d)) (\<lambda>found.
        ret (d, if snd (snd found) = [] then Inl (readiness_of notProbed attempts d found) else Inr found))) x (now - started))) w
      = (Inr (elapsed, r), w')"
    by (simp add: ready_round_def)
  then show "\<exists>es. elapsed = s_now S (w_trace w @ es) - started \<and> list_all awake es"
    by (rule clock_elapsed [rotated]) (auto intro!: emits_intro)
qed

text \<open>
  C32: neither probe waits forever.  When the clock does not go back and advances by what a run sleeps,
  the wait for the studio's token and the wait for the modules' credentials both end, with a result or an
  exception, and they sleep less than their deadlines of fifteen and ten seconds in all.
\<close>

theorem probes_end_in_time:
  assumes "time_passes S"
  shows "fst (awaitStudioTokenLive S script tok w) \<noteq> Inr None
    \<and> slept (did (awaitStudioTokenLive S script tok) w) < STUDIO_TOKEN_PROBE_DEADLINE_MS
    \<and> fst (awaitTenantModulesReady S tid TENANT_MODULE_CATALOG w) \<noteq> Inr None
    \<and> slept (did (awaitTenantModulesReady S tid TENANT_MODULE_CATALOG) w) < MODULE_READY_PROBE_DEADLINE_MS"
proof -
  have some: "map ms_module (filter reachesRunpod TENANT_MODULE_CATALOG) \<noteq> []"
    by (simp add: TENANT_MODULE_CATALOG_def pooled_def reachesRunpod_def truthy_def)
  note ends = token.retrying_ends [OF assms, of STUDIO_TOKEN_PROBE_DEADLINE_MS] ready.retrying_ends [OF assms, of MODULE_READY_PROBE_DEADLINE_MS]
  have "0 < STUDIO_TOKEN_PROBE_DEADLINE_MS" "0 < MODULE_READY_PROBE_DEADLINE_MS"
    "STUDIO_TOKEN_PROBE_DEADLINE_MS \<le> total_backoff PROBE_ROUNDS" "MODULE_READY_PROBE_DEADLINE_MS \<le> total_backoff PROBE_ROUNDS"
    by (simp_all add: STUDIO_TOKEN_PROBE_DEADLINE_MS_def MODULE_READY_PROBE_DEADLINE_MS_def PROBE_ROUNDS_def total_backoff_ten)
  then show ?thesis using ends unfolding awaitStudioTokenLive_def awaitTenantModulesReady_def Let_def if_not_P [OF some]
    by blast
qed

section \<open>What the readiness wait reports\<close>

lemma retrying_result:
  assumes "retrying body gave_up deadline started rounds attempts s w = (Inr (Some x), w')" "I s"
    and "\<And>k s v e s' v'. I s \<Longrightarrow> body k started s v = (Inr (e, Inr s'), v') \<Longrightarrow> I s' \<and> (\<forall>x u u'. gave_up k e s' u = (Inr x, u') \<longrightarrow> Q x)"
    and "\<And>k s v e x v'. I s \<Longrightarrow> body k started s v = (Inr (e, Inl x), v') \<Longrightarrow> Q x"
  shows "Q x"
  using assms(1,2)
proof (induction rounds arbitrary: attempts s w)
  case (Suc rounds)
  from Suc.prems(1) obtain p v where p: "body (attempts + 1) started s w = (Inr p, v)"
    and r: "(case p of (elapsed, r) \<Rightarrow> case r of Inl x \<Rightarrow> ret (Some x)
       | Inr s' \<Rightarrow> if elapsed + backoff_ms (attempts + 1) \<ge> deadline
           then andThen (gave_up (attempts + 1) elapsed s') (\<lambda>x. ret (Some x))
           else andThen (sleep (backoff_ms (attempts + 1))) (\<lambda>_.
             retrying body gave_up deadline started rounds (attempts + 1) s')) v = (Inr (Some x), w')"
    unfolding retrying.simps by (rule andThenE)
  obtain e q where [simp]: "p = (e, q)" by fastforce
  show ?case
  proof (cases q)
    case (Inl y)
    then show ?thesis using assms(4) [OF Suc.prems(2), of "attempts + 1" w e y v] p r by auto
  next
    case (Inr s')
    note next_state = assms(3) [OF Suc.prems(2), of "attempts + 1" w e s' v]
    show ?thesis
    proof (cases "deadline \<le> e + backoff_ms (attempts + 1)")
      case True
      with r Inr have "gave_up (attempts + 1) e s' v = (Inr x, w')" by auto
      then show ?thesis using next_state p Inr by auto
    next
      case False
      with r Inr obtain u where "retrying body gave_up deadline started rounds (attempts + 1) s' u = (Inr (Some x), w')" by auto
      then show ?thesis using next_state p Inr Suc.IH by auto
    qed
  qed
qed auto

lemma all_of_results:
  assumes "all_of (map f xs) w = (Inr ys, w')" "\<And>x v y v'. f x v = (Inr y, v') \<Longrightarrow> R x y"
  shows "list_all2 R xs ys"
  using assms(1)
proof (induction xs arbitrary: w ys w')
  case (Cons x xs)
  from Cons.prems obtain r w1 where r: "attempted (f x) w = (Inr r, w1)"
    and rest: "andThen (attempted (all_of (map f xs))) (\<lambda>rs. case r of Inl e \<Rightarrow> raise e
      | Inr y \<Rightarrow> (case rs of Inl e \<Rightarrow> raise e | Inr ys \<Rightarrow> ret (y # ys))) w1 = (Inr ys, w')"
    unfolding list.map all_of.simps by (rule andThenE)
  from rest obtain rs w2 where rs: "attempted (all_of (map f xs)) w1 = (Inr rs, w2)"
    and fin: "(case r of Inl e \<Rightarrow> raise e | Inr y \<Rightarrow> (case rs of Inl e \<Rightarrow> raise e | Inr ys \<Rightarrow> ret (y # ys))) w2 = (Inr ys, w')"
    by (rule andThenE)
  from fin obtain y zs where "r = Inr y" "rs = Inr zs" "ys = y # zs" by (auto split: sum.splits)
  with r rs assms(2) Cons.IH show ?case by (auto elim!: attemptedE)
qed auto

text \<open>At some moment the tenant's module answered in a way that is read as the verdict.\<close>

definition answered :: "services \<Rightarrow> string \<Rightarrow> ready_verdict \<Rightarrow> string \<Rightarrow> bool" where
  "answered S tid v m \<longleftrightarrow> (\<exists>tr st txt. s_module S tr (tenantModuleScriptName tid m) ''/ready'' = Inr (st, txt)
     \<and> classifyReadyResponse st txt m = Some v)"

lemma ask_ready_answer:
  assumes "ask_ready S tid m w = (Inr r, w')"
  shows "rr_module r = m \<and> answered S tid (rr_verdict r) m"
  using assms
  by (auto simp: ask_ready_def callTenantModule_def calling_def Let_def answered_def split: option.splits) blast

text \<open>The three lists hold the modules that were asked, each under the verdict it answered with.\<close>

definition sorted_out :: "services \<Rightarrow> string \<Rightarrow> string multiset \<Rightarrow> ready_lists \<Rightarrow> bool" where
  "sorted_out S tid M = (\<lambda>(vs, us, ps).
     mset vs + mset (map fst us) + mset ps = M \<and> list_all (answered S tid Ready) vs
     \<and> list_all (\<lambda>u. answered S tid Unverifiable (fst u)) us)"

lemma sort_results:
  assumes "for_each rs (vs, us, ps) (sort_result k d) w = (Inr (vs', us', ps'), w')"
    and "\<forall>r \<in> set rs. answered S tid (rr_verdict r) (rr_module r)" "list_all (answered S tid NotVisibleYet) ps"
    and "sorted_out S tid M (vs, us, ps)"
  shows "sorted_out S tid (M + mset (map rr_module rs)) (vs', us', ps') \<and> list_all (answered S tid NotVisibleYet) ps'"
  using assms
proof (induction rs arbitrary: vs us ps w M)
  case (Cons r rs)
  from Cons.prems(1) obtain q w1 where q: "sort_result k d r (vs, us, ps) w = (Inr q, w1)"
    and rest: "for_each rs q (sort_result k d) w1 = (Inr (vs', us', ps'), w')" by auto
  obtain vs1 us1 ps1 where [simp]: "q = (vs1, us1, ps1)" by (cases q) auto
  have "sorted_out S tid (M + {#rr_module r#}) (vs1, us1, ps1) \<and> list_all (answered S tid NotVisibleYet) ps1"
    using q Cons.prems(2,3,4)
    by (cases "rr_verdict r") (auto simp: sort_result_def verify_error_def sorted_out_def)
  then show ?case using Cons.IH [of vs1 us1 ps1 w1 "M + {#rr_module r#}"] rest Cons.prems(2) by simp
qed auto

lemma ready_round_sorts:
  assumes "ready_round S tid np k started (vs, us, ps) w = (Inr (e, r), w')" "sorted_out S tid M (vs, us, ps)"
  shows "\<exists>found. sorted_out S tid M found \<and> list_all (answered S tid NotVisibleYet) (snd (snd found))
    \<and> (r = Inr found \<or> r = Inl (readiness_of np k e found) \<and> snd (snd found) = [])"
proof -
  from assms(1) obtain rs w1 now w2 found where
      ask: "all_of (map (ask_ready S tid) ps) w = (Inr rs, w1)"
    and sort: "for_each rs (vs, us, []) (sort_result k (now - started)) w2 = (Inr found, w')"
    and r: "e = now - started" "r = (if snd (snd found) = [] then Inl (readiness_of np k (now - started) found) else Inr found)"
    unfolding ready_round_def by auto
  obtain vs' us' ps' where [simp]: "found = (vs', us', ps')" by (cases found) auto
  have "list_all2 (\<lambda>m r. rr_module r = m \<and> answered S tid (rr_verdict r) m) ps rs"
    using ask by (rule all_of_results) (rule ask_ready_answer)
  then have "map rr_module rs = ps" "\<forall>r \<in> set rs. answered S tid (rr_verdict r) (rr_module r)"
    by (induction) auto
  moreover have "sorted_out S tid (mset vs + mset (map fst us)) (vs, us, [])" using assms(2) by (simp add: sorted_out_def)
  ultimately have "sorted_out S tid (mset vs + mset (map fst us) + mset ps) (vs', us', ps')
      \<and> list_all (answered S tid NotVisibleYet) ps'"
    using sort_results [OF sort [simplified]] by simp
  then show ?thesis using r assms(2) by (intro exI [of _ found]) (auto simp: sorted_out_def)
qed

text \<open>
  A module counts as verified only on its own word.  When the wait for the modules' credentials
  returns, every module of the catalog that reaches RunPod is in exactly one of the three lists: those
  that answered ready, those no answer can be had from, and those that said their key is not visible
  yet; the others are listed as not probed.
\<close>

theorem readiness_is_evidence:
  assumes "awaitTenantModulesReady S tid catalog w = (Inr (Some r), w')"
  shows "mset (mr_verified r) + mset (map fst (mr_unverified r)) + mset (mr_unconfirmed r)
      = mset (map ms_module (filter reachesRunpod catalog))
    \<and> (\<forall>m \<in> set (mr_verified r). answered S tid Ready m)
    \<and> (\<forall>u \<in> set (mr_unverified r). answered S tid Unverifiable (fst u))
    \<and> (\<forall>m \<in> set (mr_unconfirmed r). answered S tid NotVisibleYet m)
    \<and> mr_notProbed r = map ms_module (filter (\<lambda>s. \<not> reachesRunpod s) catalog)"
proof -
  let ?np = "map ms_module (filter (\<lambda>s. \<not> reachesRunpod s) catalog)" and ?ps = "map ms_module (filter reachesRunpod catalog)"
  let ?Q = "\<lambda>r. \<exists>k e found. r = readiness_of ?np k e found \<and> sorted_out S tid (mset ?ps) found
    \<and> list_all (answered S tid NotVisibleYet) (snd (snd found))"
  from assms obtain started w1 where
    run: "retrying (ready_round S tid ?np) (\<lambda>k e found. ret (readiness_of ?np k e found)) MODULE_READY_PROBE_DEADLINE_MS
      started PROBE_ROUNDS 0 ([], [], ?ps) w1 = (Inr (Some r), w')"
    unfolding awaitTenantModulesReady_def verify_error_def Let_def by (auto split: if_splits)
  have "?Q r"
  proof (rule retrying_result [OF run, where I = "sorted_out S tid (mset ?ps)"], goal_cases)
    case (2 k s v e s' v')
    obtain vs us ps where "s = (vs, us, ps)" by (cases s) auto
    with ready_round_sorts [of S tid ?np k started vs us ps v e "Inr s'" v' "mset ?ps"] 2
    have s': "sorted_out S tid (mset ?ps) s'" "list_all (answered S tid NotVisibleYet) (snd (snd s'))" by auto
    then have "?Q (readiness_of ?np k e s')" by blast
    then have "\<forall>x u u'. ret (readiness_of ?np k e s') u = (Inr x, u') \<longrightarrow> ?Q x" by (metis retE)
    with s'(1) show ?case by (rule conjI)
  next
    case (3 k s v e x v')
    obtain vs us ps where "s = (vs, us, ps)" by (cases s) auto
    with ready_round_sorts [of S tid ?np k started vs us ps v e "Inl x" v' "mset ?ps"] 3 obtain found where
      "x = readiness_of ?np k e found" "sorted_out S tid (mset ?ps) found"
      "list_all (answered S tid NotVisibleYet) (snd (snd found))" by auto
    then show ?case by blast
  qed (simp add: sorted_out_def)
  then show ?thesis by (auto simp: readiness_of_def sorted_out_def list_all_iff)
qed

section \<open>What a module Worker is given\<close>

definition module_scripts :: "string \<Rightarrow> string list" where
  "module_scripts tid = map (\<lambda>s. tenantModuleScriptName tid (ms_module s)) TENANT_MODULE_CATALOG"

text \<open>
  The bindings a tenant's module may have: the tenant's own database and bucket, a secret that is a door's
  bearer, the tenant's own proxy token or its gateway token, and no name that is forbidden.
\<close>

definition own_binding :: "plane \<Rightarrow> runpod_mode \<Rightarrow> string \<Rightarrow> string \<Rightarrow> string option \<Rightarrow> string option \<Rightarrow> binding \<Rightarrow> bool" where
  "own_binding C mode tid d1 bucket aig b \<longleftrightarrow> binding_name b \<notin> set TENANT_MODULE_FORBIDDEN_BINDINGS \<and>
     (case b of
        D1Binding n d \<Rightarrow> d = d1
      | R2Binding n k \<Rightarrow> bucket = Some k
      | SecretText n v \<Rightarrow>
          (\<exists>k d. map_of (c_doors C) k = Some d \<and> (n, v) \<in> set (rd_tokens d))
          \<or> (\<exists>base key. n = ''RUNPOD_PROXY_TOKEN'' \<and> mode = Shared \<and> c_proxy C = Some (base, key)
               \<and> mintTenantProxyToken (c_hmac C) (Some key) tid = Some v)
          \<or> n = ''CF_AIG_TOKEN'' \<and> aig = Some v
      | PlainText n v \<Rightarrow> True
      | AiBinding n \<Rightarrow> True
      | _ \<Rightarrow> False)"

fun confined :: "plane \<Rightarrow> runpod_mode \<Rightarrow> string \<Rightarrow> string \<Rightarrow> string option \<Rightarrow> string option \<Rightarrow> event \<Rightarrow> bool" where
  "confined C mode tid d1 bucket aig (Called (UploadWorker u) b) \<longleftrightarrow>
     u_namespace u = c_module_namespace C \<and> u_script u \<in> set (module_scripts tid)
     \<and> list_all (own_binding C mode tid d1 bucket aig) (u_bindings u)"
| "confined C mode tid d1 bucket aig (Called (CreateNamespace n) b) \<longleftrightarrow> n = c_module_namespace C"
| "confined C mode tid d1 bucket aig (Called (FetchModule r m) b) \<longleftrightarrow> True"
| "confined C mode tid d1 bucket aig _ \<longleftrightarrow> False"

lemma forbidden_checked:
  assumes "assertNoTenantModuleForbiddenBindings m bs w = (Inr u, w')"
  shows "\<forall>b \<in> set bs. binding_name b \<notin> set TENANT_MODULE_FORBIDDEN_BINDINGS"
proof -
  have "filter (\<lambda>f. f \<in> set (map binding_name bs)) TENANT_MODULE_FORBIDDEN_BINDINGS = []"
    using assms by (auto simp: assertNoTenantModuleForbiddenBindings_def split: list.splits)
  then show ?thesis by (auto simp: filter_empty_conv)
qed

lemma backing_door:
  "module_backing C endpoints spec = Inr (Door d) \<Longrightarrow> \<exists>k. map_of (c_doors C) k = Some d"
  by (auto simp: module_backing_def Let_def split: if_splits option.splits)

lemma bindings_cases:
  assumes "module_bindings C tid slug d1 bucket proxy aig spec backing = Inr bs" "b \<in> set bs"
  shows "b \<in> set (backing_bindings backing) \<or> b \<in> set (proxy_bindings proxy spec) \<or> b \<in> set (ai_bindings C tid slug aig spec)
    \<or> (\<exists>k. bucket = Some k \<and> b = R2Binding ''R2_RENDERS'' k) \<or> b = D1Binding ''TELEMETRY_DB'' d1"
  using assms by (auto simp: module_bindings_def truthy_def split: if_splits option.splits)

lemma bindings_own:
  assumes "module_bindings C tid slug d1 bucket (tenantModuleProxyBinding C mode tid) aig spec backing = Inr bs"
    and "module_backing C endpoints spec = Inr backing" "b \<in> set bs" "binding_name b \<notin> set TENANT_MODULE_FORBIDDEN_BINDINGS"
  shows "own_binding C mode tid d1 bucket aig b"
proof -
  consider "b \<in> set (backing_bindings backing)" | "b \<in> set (proxy_bindings (tenantModuleProxyBinding C mode tid) spec)"
    | "b \<in> set (ai_bindings C tid slug aig spec)" | k where "bucket = Some k" "b = R2Binding ''R2_RENDERS'' k"
    | "b = D1Binding ''TELEMETRY_DB'' d1"
    using bindings_cases [OF assms(1,3)] by blast
  then show ?thesis
  proof cases
    case 1
    then show ?thesis using assms(2,4) backing_door [of C endpoints spec]
      by (cases backing) (auto simp: backing_bindings_def own_binding_def)
  next
    case 2
    then show ?thesis using assms(4)
      by (auto simp: proxy_bindings_def own_binding_def tenantModuleProxyBinding_def
          eq_commute [of "Some _" "map_option _ _"] split: option.splits if_splits)
  next
    case 3
    then show ?thesis using assms(4)
      by (auto simp: ai_bindings_def own_binding_def truthy_def split: if_splits option.splits)
  qed (use assms(4) in \<open>simp_all add: own_binding_def\<close>)
qed

lemma emits_fetch [emits_intro]: "(\<And>b. P (Called (FetchModule r m) b)) \<Longrightarrow> emits P (fetch_module S r m)"
  unfolding fetch_module_def by (intro emits_intro)

lemma emits_upload [emits_intro]: "(\<And>b. P (Called (UploadWorker u) b)) \<Longrightarrow> emits P (uploadModuleScript S m u)"
  unfolding uploadModuleScript_def uploadUserWorker_def modules_error_def by (intro emits_intro)

lemma emits_assert [emits_intro]: "emits P (assertNoTenantModuleForbiddenBindings m bs)"
  unfolding assertNoTenantModuleForbiddenBindings_def by (auto intro!: emits_intro split: list.split)

lemma upload_module_confined:
  assumes "spec \<in> set TENANT_MODULE_CATALOG"
  shows "emits (confined C mode tid d1 bucket aig)
    (upload_module S C release tid slug endpoints d1 bucket (tenantModuleProxyBinding C mode tid) prefetched aig spec names)"
proof -
  have script: "tenantModuleScriptName tid (ms_module spec) \<in> set (module_scripts tid)"
    using assms by (auto simp: module_scripts_def)
  have up: "emits (confined C mode tid d1 bucket aig) (andThen (assertNoTenantModuleForbiddenBindings (ms_module spec) bs) (\<lambda>_.
      andThen (uploadModuleScript S (ms_module spec)
        \<lparr>u_namespace = c_module_namespace C, u_script = tenantModuleScriptName tid (ms_module spec), u_main = b_main b,
         u_text = b_text b, u_date = b_date b, u_flags = b_flags b, u_assets_jwt = None, u_bindings = bs\<rparr>) (\<lambda>_.
      ret (names @ [tenantModuleScriptName tid (ms_module spec)]))))"
    if "module_bindings C tid slug d1 bucket (tenantModuleProxyBinding C mode tid) aig spec backing = Inr bs"
      "module_backing C endpoints spec = Inr backing" for bs backing and b :: worker_bundle
  proof (rule emits_andThen_result, goal_cases)
    case (2 w x w')
    then have "list_all (own_binding C mode tid d1 bucket aig) bs"
      using bindings_own [OF that] forbidden_checked [OF 2] by (simp add: list_all_iff)
    then show ?case using script by (intro emits_intro) simp
  qed (intro emits_intro)
  show ?thesis
    unfolding upload_module_def modules_error_def by (intro emits_intro up) simp_all
qed

lemma upload_script_returns:
  assumes "uploadModuleScript S m u w = (Inr x, w')"
  shows "w_trace w' = w_trace w @ [Called (UploadWorker u) True]"
  using assms unfolding uploadModuleScript_def modules_error_def
  by (auto simp: uploadUserWorker_def calling_def Let_def split: if_splits)

lemma upload_module_returns:
  assumes "upload_module S C release tid slug endpoints d1 bucket proxy prefetched aig spec names w = (Inr names', w')"
  shows "names' = names @ [tenantModuleScriptName tid (ms_module spec)]
    \<and> (\<exists>es u. w_trace w' = w_trace w @ es \<and> Called (UploadWorker u) True \<in> set es
        \<and> u_script u = tenantModuleScriptName tid (ms_module spec))"
proof -
  let ?script = "tenantModuleScriptName tid (ms_module spec)"
  let ?fetch = "case map_of prefetched (ms_module spec) of Some b \<Rightarrow> ret b
    | None \<Rightarrow> catching (fetch_module S release (ms_module spec)) (\<lambda>e.
        modules_error (''fetch module bundle '' @ ms_module spec @ '': '' @ error_message e))"
  from assms obtain b w1 bs w2 u w3 where fetch: "?fetch w = (Inr b, w1)"
    and assert: "assertNoTenantModuleForbiddenBindings (ms_module spec) bs w1 = (Inr (), w2)"
    and up: "uploadModuleScript S (ms_module spec) u w2 = (Inr (), w3)" "u_script u = ?script"
    and fin: "names' = names @ [?script]" "w' = w3"
    unfolding upload_module_def modules_error_def by (auto split: sum.splits)
  have "emits (\<lambda>e. True) ?fetch" unfolding modules_error_def by (intro emits_intro) simp_all
  from emitsD(2) [OF this, of w] fetch obtain es1 where 1: "w_trace w1 = w_trace w @ es1" by simp
  have "emits (\<lambda>e. True) (assertNoTenantModuleForbiddenBindings (ms_module spec) bs)" by (intro emits_intro)
  from emitsD(2) [OF this, of w1] assert obtain es2 where 2: "w_trace w2 = w_trace w1 @ es2" by simp
  have "w_trace w' = w_trace w @ (es1 @ es2 @ [Called (UploadWorker u) True])"
    using upload_script_returns [OF up(1)] 1 2 fin(2) by simp
  then show ?thesis using fin(1) up(2) by (intro conjI exI [of _ "es1 @ es2 @ [Called (UploadWorker u) True]"] exI [of _ u]) simp_all
qed

lemma upload_modules_return:
  assumes "for_each specs names (upload_module S C release tid slug endpoints d1 bucket proxy prefetched aig) w = (Inr names', w')"
  shows "names' = names @ map (\<lambda>s. tenantModuleScriptName tid (ms_module s)) specs
    \<and> (\<exists>es. w_trace w' = w_trace w @ es \<and> (\<forall>s \<in> set specs. \<exists>u. Called (UploadWorker u) True \<in> set es
          \<and> u_script u = tenantModuleScriptName tid (ms_module s)))"
  using assms
proof (induction specs arbitrary: names w)
  case (Cons s specs)
  from Cons.prems obtain ns w1 where
      one: "upload_module S C release tid slug endpoints d1 bucket proxy prefetched aig s names w = (Inr ns, w1)"
    and rest: "for_each specs ns (upload_module S C release tid slug endpoints d1 bucket proxy prefetched aig) w1 = (Inr names', w')"
    unfolding for_each.simps by (rule andThenE)
  from upload_module_returns [OF one] Cons.IH [OF rest] obtain es u es' where
    "ns = names @ [tenantModuleScriptName tid (ms_module s)]" "w_trace w1 = w_trace w @ es" "Called (UploadWorker u) True \<in> set es"
    "u_script u = tenantModuleScriptName tid (ms_module s)"
    "names' = ns @ map (\<lambda>s. tenantModuleScriptName tid (ms_module s)) specs" "w_trace w' = w_trace w1 @ es'"
    "\<forall>s \<in> set specs. \<exists>u. Called (UploadWorker u) True \<in> set es' \<and> u_script u = tenantModuleScriptName tid (ms_module s)"
    by blast
  then show ?case by (auto intro!: exI [of _ "es @ es'"])
qed auto

text \<open>
  A tenant's modules see nothing of another tenant.  Whatever the services answer, an upload of a
  tenant's modules puts Workers only under the tenant's own script names in the module namespace, and
  binds them to no database and no bucket but the tenant's, to no secret but a door's bearer, the
  tenant's own proxy token (on the shared pool only) and its gateway token, and to no forbidden name; the
  store is not written.  When it returns, every module of the catalog was uploaded.
\<close>

theorem modules_confined:
  assumes "truthy d1"
  shows "list_all (confined C mode tid (the d1) bucket aig)
      (did (uploadTenantModules S C release tid slug endpoints d1 bucket mode prefetched aig) w)
    \<and> w_db (snd (uploadTenantModules S C release tid slug endpoints d1 bucket mode prefetched aig w)) = w_db w
    \<and> (\<forall>names w'. uploadTenantModules S C release tid slug endpoints d1 bucket mode prefetched aig w = (Inr names, w') \<longrightarrow>
        names = module_scripts tid \<and> (\<forall>script \<in> set (module_scripts tid). \<exists>u. u_script u = script
          \<and> Called (UploadWorker u) True \<in> set (did (uploadTenantModules S C release tid slug endpoints d1 bucket mode prefetched aig) w)))"
proof -
  let ?up = "uploadTenantModules S C release tid slug endpoints d1 bucket mode prefetched aig"
  let ?P = "confined C mode tid (the d1) bucket aig"
  have em: "emits ?P ?up"
    unfolding uploadTenantModules_def modules_error_def Let_def
    by (intro emits_intro upload_module_confined) simp_all
  have "writes es = []" if "list_all ?P es" for es
    using that
  proof (induction es)
    case (Cons e es)
    then show ?case by (cases e) auto
  qed simp
  then have "w_db (snd (?up w)) = w_db w" using emitsD(1,3) [OF em, of w] by simp
  moreover have "names = module_scripts tid \<and> (\<forall>script \<in> set (module_scripts tid). \<exists>u. u_script u = script
      \<and> Called (UploadWorker u) True \<in> set (did ?up w))" if run: "?up w = (Inr names, w')" for names w'
  proof -
    from run assms obtain w1 x where ns: "calling (CreateNamespace (c_module_namespace C)) (\<lambda>tr. s_createNamespace S tr (c_module_namespace C)) w = (Inr x, w1)"
      and up: "for_each TENANT_MODULE_CATALOG [] (upload_module S C release tid slug endpoints (the d1) bucket
        (tenantModuleProxyBinding C mode tid) prefetched aig) w1 = (Inr names, w')"
      unfolding uploadTenantModules_def Let_def by auto
    have "w_trace w1 = w_trace w @ [Called (CreateNamespace (c_module_namespace C)) True]"
      using ns by (auto simp: calling_def Let_def)
    with upload_modules_return [OF up] obtain es where "names = module_scripts tid"
      "w_trace w' = w_trace w @ Called (CreateNamespace (c_module_namespace C)) True # es"
      "\<forall>s \<in> set TENANT_MODULE_CATALOG. \<exists>u. Called (UploadWorker u) True \<in> set es \<and> u_script u = tenantModuleScriptName tid (ms_module s)"
      by (auto simp: module_scripts_def)
    moreover from this(2) run have "did ?up w = Called (CreateNamespace (c_module_namespace C)) True # es" by (simp add: did_def)
    ultimately show ?thesis by (auto simp: module_scripts_def)
  qed
  ultimately show ?thesis using emitsD(1) [OF em, of w] by blast
qed

section \<open>Witnesses\<close>

definition ticking_services :: services where
  "ticking_services = calm_services\<lparr>s_now := slept, s_module := \<lambda>tr s p. Inr (404, [])\<rparr>"

lemma ticking_time: "time_passes ticking_services"
  by (simp add: time_passes_def ticking_services_def)

theorem probes_end_in_time_witness:
  "fst (awaitStudioTokenLive ticking_services ''s'' ''tok'' (ex_world [])) \<noteq> Inr None
   \<and> slept (did (awaitTenantModulesReady ticking_services ''ten_1'' TENANT_MODULE_CATALOG) (ex_world [])) < 10000"
  using probes_end_in_time [OF ticking_time, of "''s''" "''tok''" "ex_world []" "''ten_1''"]
  by (simp add: MODULE_READY_PROBE_DEADLINE_MS_def)

lemmas catalog_defs = TENANT_MODULE_CATALOG_def pooled_def public_def gateway_def reachesRunpod_def truthy_def

lemma ex_ask:
  "ask_ready ticking_services tid m w =
    (Inr \<lparr>rr_module = m, rr_script = tenantModuleScriptName tid m, rr_status = 404, rr_text = [], rr_verdict = Unverifiable\<rparr>,
     w\<lparr>w_trace := w_trace w @ [Called (ModuleCall (tenantModuleScriptName tid m) ''/ready'') True]\<rparr>)"
  by (simp add: ask_ready_def callTenantModule_def calling_def ticking_services_def andThen_def classifyReadyResponse_def ret_def
      Let_def)

lemma ex_readiness:
  "\<exists>r w'. awaitTenantModulesReady ticking_services ''ten_1'' [public ''alibaba-wan'' ''wan-2-6-i2v'', gateway ''plan-enhance'' False]
      (ex_world []) = (Inr (Some r), w')"
  by (simp add: awaitTenantModulesReady_def catalog_defs PROBE_ROUNDS_def eval_nat_numeral ready_round_def ex_ask
      clock_def observing_def andThen_def attempted_def ret_def sort_result_def Let_def)

theorem readiness_is_evidence_witness:
  "\<exists>r w'. awaitTenantModulesReady ticking_services ''ten_1'' [public ''alibaba-wan'' ''wan-2-6-i2v'', gateway ''plan-enhance'' False]
      (ex_world []) = (Inr (Some r), w')
    \<and> mset (mr_verified r) + mset (map fst (mr_unverified r)) + mset (mr_unconfirmed r) = {#''alibaba-wan''#}
    \<and> mr_notProbed r = [''plan-enhance'']"
proof -
  obtain r w' where run: "awaitTenantModulesReady ticking_services ''ten_1''
      [public ''alibaba-wan'' ''wan-2-6-i2v'', gateway ''plan-enhance'' False] (ex_world []) = (Inr (Some r), w')"
    using ex_readiness by blast
  with readiness_is_evidence [OF run] show ?thesis by (simp add: catalog_defs)
qed

definition ex_plane :: plane where
  "ex_plane = \<lparr>c_namespace = ''ns'', c_module_namespace = ''mns'', c_release = ''v1'', c_r2Endpoint = ''https://r2'', c_pool = None,
     c_aig = Some ''gw'', c_proxy = Some (''https://proxy'', ''key''), c_ceiling = None, c_quota_bytes = None,
     c_quota_invalid = None, c_quota_mode = None, c_abuse_url = None, c_media_doors = [],
     c_doors = [(''upscale'', \<lparr>rd_urlVar = ''FINISH_UPSCALE_DOORS'', rd_url = ''https://door'', rd_tokens = [(''FINISH_DOOR_TOKEN'', ''t'')]\<rparr>)],
     c_kek = ex_ring, c_enc = ex_enc, c_dec = ex_dec, c_hmac = (\<lambda>k m. [7]), c_sha256 = id, c_number = (\<lambda>s. NaN), c_num = (\<lambda>n. [])\<rparr>"

definition ex_endpoints :: "endpoint list" where
  "ex_endpoints = [(''backend'', ''e1'', ''RUNPOD_ENDPOINT_ID'')]"

lemma ex_backing: "spec \<in> set TENANT_MODULE_CATALOG \<Longrightarrow> \<exists>b. module_backing ex_plane ex_endpoints spec = Inr b
    \<and> (\<forall>x \<in> set (backing_bindings b). binding_name x \<noteq> ''RUNPOD_WORKERS_MAX'')"
  by (auto simp: catalog_defs module_backing_def ex_plane_def ex_endpoints_def backing_bindings_def doorBackedPlan_def
      PROVISION_PLAN_def)

lemma ex_upload:
  assumes "spec \<in> set TENANT_MODULE_CATALOG"
  shows "\<exists>ns w'. upload_module calm_services ex_plane ''v1'' ''ten_1'' ''acme'' ex_endpoints ''d1'' (Some ''b'')
      (tenantModuleProxyBinding ex_plane Shared ''ten_1'') [] (Some ''aig'') spec names w = (Inr ns, w')"
proof -
  obtain b where b: "module_backing ex_plane ex_endpoints spec = Inr b"
    "\<forall>x \<in> set (backing_bindings b). binding_name x \<noteq> ''RUNPOD_WORKERS_MAX''" using ex_backing [OF assms] by blast
  obtain bs where bs: "module_bindings ex_plane ''ten_1'' ''acme'' ''d1'' (Some ''b'')
      (tenantModuleProxyBinding ex_plane Shared ''ten_1'') (Some ''aig'') spec b = Inr bs"
    by (simp add: module_bindings_def truthy_def)
  have "binding_name x \<noteq> ''RUNPOD_WORKERS_MAX''" if "x \<in> set bs" for x
    using bindings_cases [OF bs that] b(2)
    by (auto simp: proxy_bindings_def ai_bindings_def split: if_splits option.splits)
  then have "''RUNPOD_WORKERS_MAX'' \<notin> set (map binding_name bs)" by fastforce
  then have "assertNoTenantModuleForbiddenBindings (ms_module spec) bs = ret ()"
    by (simp add: assertNoTenantModuleForbiddenBindings_def TENANT_MODULE_FORBIDDEN_BINDINGS_def)
  then show ?thesis
    using b(1) bs by (simp add: upload_module_def andThen_def catching_def fetch_module_def calling_def calm_services_def ret_def
        uploadModuleScript_def uploadUserWorker_def)
qed

lemma ex_uploads:
  "set specs \<subseteq> set TENANT_MODULE_CATALOG \<Longrightarrow> \<exists>ns w'. for_each specs names (upload_module calm_services ex_plane ''v1'' ''ten_1'' ''acme''
      ex_endpoints ''d1'' (Some ''b'') (tenantModuleProxyBinding ex_plane Shared ''ten_1'') [] (Some ''aig'')) w = (Inr ns, w')"
proof (induction specs arbitrary: names w)
  case (Cons spec specs)
  then have "spec \<in> set TENANT_MODULE_CATALOG" by simp
  from ex_upload [OF this, of names w] obtain ns w1 where "upload_module calm_services ex_plane ''v1'' ''ten_1'' ''acme'' ex_endpoints
      ''d1'' (Some ''b'') (tenantModuleProxyBinding ex_plane Shared ''ten_1'') [] (Some ''aig'') spec names w = (Inr ns, w1)"
    by blast
  then show ?case using Cons by (simp add: andThen_def)
qed (simp add: ret_def)

theorem modules_confined_witness:
  "\<exists>w'. uploadTenantModules calm_services ex_plane ''v1'' ''ten_1'' ''acme'' ex_endpoints (Some ''d1'') (Some ''b'') Shared []
      (Some ''aig'') (ex_world []) = (Inr (module_scripts ''ten_1''), w')"
proof -
  let ?up = "uploadTenantModules calm_services ex_plane ''v1'' ''ten_1'' ''acme'' ex_endpoints (Some ''d1'') (Some ''b'') Shared []
      (Some ''aig'')"
  have "truthy (Some ''d1'')" by (simp add: truthy_def)
  note all = modules_confined [OF this, of ex_plane Shared "''ten_1''" "Some ''b''" "Some ''aig''" calm_services "''v1''" "''acme''"
      ex_endpoints "[]" "ex_world []"]
  have "calling (CreateNamespace n) (\<lambda>tr. s_createNamespace calm_services tr n) w
      = (Inr (), w\<lparr>w_trace := w_trace w @ [Called (CreateNamespace n) True]\<rparr>)" for n w
    by (simp add: calling_def calm_services_def)
  moreover obtain ns w' where "for_each TENANT_MODULE_CATALOG [] (upload_module calm_services ex_plane ''v1'' ''ten_1'' ''acme''
      ex_endpoints ''d1'' (Some ''b'') (tenantModuleProxyBinding ex_plane Shared ''ten_1'') [] (Some ''aig''))
      (ex_world []\<lparr>w_trace := w_trace (ex_world []) @ [Called (CreateNamespace (c_module_namespace ex_plane)) True]\<rparr>) = (Inr ns, w')"
    using ex_uploads [OF subset_refl] by blast
  ultimately have run: "?up (ex_world []) = (Inr ns, w')"
    using \<open>truthy (Some ''d1'')\<close> by (simp add: uploadTenantModules_def andThen_def)
  with all show ?thesis by blast
qed

end
