(* ===== verification/Migrations.thy ===== *)
theory Migrations
  imports Teardown
begin

text \<open>
  The migrations of a tenant's database (\<^verbatim>\<open>src/src/migrate.ts\<close>): the removal of comments from a script,
  and the loop that applies what the database has not recorded yet.
\<close>

section \<open>Comments\<close>

definition closer_of :: "char \<Rightarrow> char option" where
  "closer_of c = (if c \<in> {CHR 0x27, CHR 0x22, CHR 0x60} then Some c else if c = CHR ''['' then Some (CHR '']'') else None)"

definition split_at :: "char \<Rightarrow> string \<Rightarrow> (string \<times> string) option" where
  "split_at c s = (case dropWhile (\<lambda>x. x \<noteq> c) s of [] \<Rightarrow> None | _ # rest \<Rightarrow> Some (takeWhile (\<lambda>x. x \<noteq> c) s, rest))"

fun after_block :: "string \<Rightarrow> string option" where
  "after_block [] = None"
| "after_block (c # s) = (if c = CHR ''*'' \<and> starts_with s ''/'' then Some (tl s) else after_block s)"

lemma split_at_shorter:
  assumes "split_at c s = Some (a, b)"
  shows "length b < length s"
proof -
  from assms obtain d where "dropWhile (\<lambda>x. x \<noteq> c) s = d # b" by (auto simp: split_at_def split: list.splits)
  then have "length (d # b) \<le> length s" by (metis length_dropWhile_le)
  then show ?thesis by simp
qed

lemma after_block_shorter: "after_block s = Some r \<Longrightarrow> length r \<le> length s"
  by (induction s) (auto split: if_splits)

text \<open>\<^const>\<open>None\<close> is a quote or a block comment that is not closed: the text is then left as it is.\<close>

function strip_from :: "string \<Rightarrow> string option" where
  "strip_from [] = Some []"
| "strip_from (c # s) =
     (case closer_of c of
        Some d \<Rightarrow>
          (case split_at d s of
             None \<Rightarrow> None
           | Some (inner, rest) \<Rightarrow> map_option (\<lambda>r. c # inner @ d # r) (strip_from rest))
      | None \<Rightarrow>
          if starts_with (c # s) ''--'' then
            (case split_at (CHR 0x0A) s of None \<Rightarrow> Some [] | Some (_, rest) \<Rightarrow> map_option (\<lambda>r. CHR 0x0A # r) (strip_from rest))
          else if starts_with (c # s) ''/*'' then
            (case after_block (tl s) of None \<Rightarrow> None | Some rest \<Rightarrow> map_option (\<lambda>r. CHR '' '' # r) (strip_from rest))
          else map_option (\<lambda>r. c # r) (strip_from s))"
  by pat_completeness auto
termination
  by (relation "measure length") (auto dest!: split_at_shorter after_block_shorter)

definition stripSqlComments :: "string \<Rightarrow> string" where
  "stripSqlComments sql = (case strip_from sql of None \<Rightarrow> sql | Some s \<Rightarrow> js_trim s)"

section \<open>Applying migrations\<close>

definition lifted :: "exn + 'a \<Rightarrow> 'a prog" where
  "lifted r = (case r of Inl e \<Rightarrow> raise e | Inr x \<Rightarrow> ret x)"

definition sqlString :: "string \<Rightarrow> exn + string" where
  "sqlString v =
     (if CHR 0x27 \<in> set v then Inl (OtherError ''Error'' (''migration name must not contain a quote: '' @ v))
      else Inr ([CHR 0x27] @ v @ [CHR 0x27]))"

definition TRACKING_DDL :: string where
  "TRACKING_DDL =
     ''CREATE TABLE IF NOT EXISTS schema_migrations ('' @ [CHR 0x0A] @ ''  name TEXT PRIMARY KEY,'' @ [CHR 0x0A] @
     ''  applied_at TEXT NOT NULL DEFAULT (datetime('' @ [CHR 0x27] @ ''now'' @ [CHR 0x27] @ ''))'' @ [CHR 0x0A] @ '');''"

definition ADOPTED_PROBE_TABLE :: string where
  "ADOPTED_PROBE_TABLE = ''cast_members''"

definition SQL_APPLIED :: string where
  "SQL_APPLIED = ''SELECT name FROM schema_migrations;''"

definition SQL_ADOPTED :: string where
  "SQL_ADOPTED =
     ''SELECT name FROM sqlite_master WHERE type='' @ [CHR 0x27] @ ''table'' @ [CHR 0x27] @ '' AND name='' @
     [CHR 0x27] @ ADOPTED_PROBE_TABLE @ [CHR 0x27] @ '';''"

definition sql_record :: "string \<Rightarrow> string" where
  "sql_record values = ''INSERT OR IGNORE INTO schema_migrations (name) VALUES '' @ values @ '';''"

definition in_parens :: "string \<Rightarrow> string" where
  "in_parens s = ''('' @ s @ '')''"

fun quoted_names :: "string list \<Rightarrow> exn + string list" where
  "quoted_names [] = Inr []"
| "quoted_names (n # ns) =
     (case sqlString n of Inl e \<Rightarrow> Inl e
      | Inr q \<Rightarrow> (case quoted_names ns of Inl e \<Rightarrow> Inl e | Inr qs \<Rightarrow> Inr (in_parens q # qs)))"

definition row_name :: "(jsnum \<Rightarrow> string) \<Rightarrow> json \<Rightarrow> string" where
  "row_name num row = (case jget row ''name'' of None \<Rightarrow> ''undefined'' | Some v \<Rightarrow> js_string num v)"

definition apply_migration ::
  "services \<Rightarrow> string \<Rightarrow> string list \<Rightarrow> string \<times> string \<Rightarrow> string list \<Rightarrow> string list prog" where
  "apply_migration S d already m applied =
     (if fst m \<in> set already then ret applied
      else (let statements = stripSqlComments (snd m) in
        andThen (if statements \<noteq> [] then andThen (queryD1 S d statements []) (\<lambda>_. ret ()) else ret ()) (\<lambda>_.
        andThen (lifted (sqlString (fst m))) (\<lambda>q.
        andThen (queryD1 S d (sql_record (in_parens q)) []) (\<lambda>_.
        ret (applied @ [fst m]))))))"

definition seed_migrations :: "services \<Rightarrow> string \<Rightarrow> (string \<times> string) list \<Rightarrow> (string list \<times> string list) prog" where
  "seed_migrations S d migrations =
     andThen (lifted (quoted_names (map fst migrations))) (\<lambda>vs.
     andThen (queryD1 S d (sql_record (join_with '', '' vs)) []) (\<lambda>_.
     ret ([], map fst migrations)))"

definition apply_all :: "services \<Rightarrow> string \<Rightarrow> string list \<Rightarrow> (string \<times> string) list \<Rightarrow> (string list \<times> string list) prog" where
  "apply_all S d already migrations =
     andThen (for_each migrations [] (apply_migration S d already)) (\<lambda>applied. ret (applied, []))"

definition applyStudioMigrations ::
  "(jsnum \<Rightarrow> string) \<Rightarrow> services \<Rightarrow> string \<Rightarrow> (string \<times> string) list \<Rightarrow> (string list \<times> string list) prog" where
  "applyStudioMigrations num S d migrations =
     andThen (queryD1 S d TRACKING_DDL []) (\<lambda>_.
     andThen (queryD1 S d SQL_APPLIED []) (\<lambda>raw.
     if JNull \<in> set (rowsOf raw)
     then raise (OtherError ''TypeError'' ''Cannot read properties of null (reading 'name')'')
     else if rowsOf raw = [] \<and> migrations \<noteq> []
     then andThen (queryD1 S d SQL_ADOPTED []) (\<lambda>probe.
       if rowsOf probe \<noteq> [] then seed_migrations S d migrations else apply_all S d [] migrations)
     else apply_all S d (map (row_name num) (rowsOf raw)) migrations))"

section \<open>What a run does\<close>

lemma queryD1_returns:
  "queryD1 S d q ps w = (Inr x, w') \<longleftrightarrow>
    s_queryD1 S (w_trace w) d q ps = Inr x \<and> w' = w\<lparr>w_trace := w_trace w @ [Called (QueryD1 d q ps) True]\<rparr>"
  by (auto simp: queryD1_def calling_def Let_def)

lemma lifted_returns: "lifted r w = (Inr x, w') \<longleftrightarrow> r = Inr x \<and> w' = w"
  by (auto simp: lifted_def ret_def split: sum.splits)

lemma emits_queryD1 [emits_intro]: "(\<And>b. P (Called (QueryD1 d q ps) b)) \<Longrightarrow> emits P (queryD1 S d q ps)"
  unfolding queryD1_def by (intro emits_intro)

lemma emits_lifted [emits_intro]: "emits P (lifted r)"
  unfolding lifted_def by (intro emits_intro)

text \<open>The calls for one migration: its statements, if any are left, and then its record.\<close>

definition migration_calls :: "string \<Rightarrow> string \<times> string \<Rightarrow> trace" where
  "migration_calls d m =
     (if stripSqlComments (snd m) \<noteq> [] then [Called (QueryD1 d (stripSqlComments (snd m)) []) True] else []) @
     [Called (QueryD1 d (sql_record (in_parens ([CHR 0x27] @ fst m @ [CHR 0x27]))) []) True]"

definition pending_migrations :: "string list \<Rightarrow> (string \<times> string) list \<Rightarrow> (string \<times> string) list" where
  "pending_migrations already ms = filter (\<lambda>m. fst m \<notin> set already) ms"

lemma apply_migration_returns:
  assumes "apply_migration S d already m applied w = (Inr applied', w')"
  shows "applied' = applied @ map fst (pending_migrations already [m])
    \<and> w_trace w' = w_trace w @ concat (map (migration_calls d) (pending_migrations already [m]))"
  using assms unfolding apply_migration_def Let_def pending_migrations_def migration_calls_def
  by (auto simp: queryD1_returns lifted_returns sqlString_def split: if_splits)

lemma apply_migrations_return:
  assumes "for_each ms applied (apply_migration S d already) w = (Inr applied', w')"
  shows "applied' = applied @ map fst (pending_migrations already ms)
    \<and> w_trace w' = w_trace w @ concat (map (migration_calls d) (pending_migrations already ms))"
  using assms
proof (induction ms arbitrary: applied w)
  case (Cons m ms)
  from Cons.prems obtain a w1 where one: "apply_migration S d already m applied w = (Inr a, w1)"
    and rest: "for_each ms a (apply_migration S d already) w1 = (Inr applied', w')"
    unfolding for_each.simps by (rule andThenE)
  from apply_migration_returns [OF one] Cons.IH [OF rest] show ?case by (auto simp: pending_migrations_def)
qed (auto simp: pending_migrations_def)

lemma apply_all_returns:
  assumes "apply_all S d already ms w = (Inr (applied, seeded), w')"
  shows "applied = map fst (pending_migrations already ms) \<and> seeded = []
    \<and> w_trace w' = w_trace w @ concat (map (migration_calls d) (pending_migrations already ms))"
proof -
  from assms have "for_each ms [] (apply_migration S d already) w = (Inr applied, w')" "seeded = []"
    by (auto simp: apply_all_def)
  with apply_migrations_return [OF this(1)] show ?thesis by simp
qed


lemma ex_strip: "stripSqlComments ''a; -- b'' = ''a;''" "stripSqlComments ''/* n */'' = []"
  by code_simp+


end
