(* ===== verification/Provision.thy ===== *)
theory Provision
  imports TenantModules Migrations
begin

text \<open>
  Provisioning a tenant: \<^verbatim>\<open>runProvisionJob\<close>, \<^verbatim>\<open>continueProvisionJob\<close>, the rollback of a failed run and the
  module upgrade of \<^verbatim>\<open>src/src/provisioner.ts\<close>.

  The heartbeat that renews the lease beside a run is not part of a run (it is the operation
  \<open>renewJobLease\<close> of the store), and log lines are left out.
\<close>

section \<open>Steps\<close>

definition PROVISION_STEPS :: "string list" where
  "PROVISION_STEPS =
     [''d1_create'', ''d1_migrate'', ''r2_bucket'', ''r2_token'', ''runpod_endpoints'', ''wfp_upload'', ''modules_upload'',
      ''modules_install'', ''verify'']"

definition PROVISION_INVOCATION_BUDGET_MS :: int where
  "PROVISION_INVOCATION_BUDGET_MS = 15000"

definition YIELD_UNSAFE_STEPS :: "string list" where
  "YIELD_UNSAFE_STEPS = []"

definition inferStep :: "string list \<Rightarrow> string" where
  "inferStep steps = PROVISION_STEPS ! min (length steps) (length PROVISION_STEPS - 1)"

definition REPROVISION_DESTROYS :: string where
  "REPROVISION_DESTROYS =
     ''this cannot be continued. POST /api/tenant/provision with the same name again destroys the partial environment and '' @
     ''starts over from scratch''"

datatype provision_outcome = ProvisionOk | ProvisionFailed string string | Yielded string

definition stringify_list :: "string list \<Rightarrow> string" where
  "stringify_list xs = ''['' @ join_with '','' (map json_quote xs) @ '']''"

section \<open>Runs\<close>

text \<open>
  The list of completed steps is local to a run, and its \<^verbatim>\<open>catch\<close> still reads it: a program that also
  carries that list, past an exception too.
\<close>

type_synonym 'a run = "string list \<Rightarrow> ((exn + 'a) \<times> string list) prog"

definition doing :: "'a prog \<Rightarrow> 'a run" where
  "doing m steps = andThen (attempted m) (\<lambda>r. ret (r, steps))"

definition afterwards :: "'a run \<Rightarrow> ('a \<Rightarrow> 'b run) \<Rightarrow> 'b run" where
  "afterwards m f steps =
     andThen (m steps) (\<lambda>(r, steps'). case r of Inl e \<Rightarrow> ret (Inl e, steps') | Inr x \<Rightarrow> f x steps')"

text \<open>\<^verbatim>\<open>if (!complete(step)) ...\<close>\<close>

definition unless_done :: "string \<Rightarrow> unit run \<Rightarrow> unit run" where
  "unless_done step m steps = (if step \<in> set steps then ret (Inr (), steps) else m steps)"

text \<open>What \<^verbatim>\<open>mark\<close> does once the list is extended: record it, look at the clock and perhaps yield.\<close>

definition record_progress :: "services \<Rightarrow> string \<Rightarrow> int \<Rightarrow> bool \<Rightarrow> string \<Rightarrow> string list \<Rightarrow> unit prog" where
  "record_progress S jobId startedAt yieldUnsafe step steps =
     andThen (wrote S (OProgress jobId step (stringify_list steps))) (\<lambda>_.
     andThen (clock S) (\<lambda>at'.
     if \<not> yieldUnsafe \<and> at' - startedAt \<ge> PROVISION_INVOCATION_BUDGET_MS then raise (ProvisionYield step) else ret ()))"

definition mark :: "services \<Rightarrow> string \<Rightarrow> int \<Rightarrow> bool \<Rightarrow> string \<Rightarrow> unit run" where
  "mark S jobId startedAt resumed step steps =
     (let steps' = (if step \<in> set steps then steps else steps @ [step]);
          yieldUnsafe = (step \<in> set YIELD_UNSAFE_STEPS \<or> resumed \<and> step = ''r2_token'')
      in doing (record_progress S jobId startedAt yieldUnsafe step steps') steps')"

text \<open>The \<^verbatim>\<open>mark\<close> of the other two runs.\<close>

definition mark_next :: "services \<Rightarrow> string \<Rightarrow> int \<Rightarrow> string \<Rightarrow> unit run" where
  "mark_next S jobId startedAt step steps =
     doing (record_progress S jobId startedAt (step \<in> set YIELD_UNSAFE_STEPS) step (steps @ [step])) (steps @ [step])"

section \<open>Studio upload\<close>

definition vpc_refused_studio :: string where
  "vpc_refused_studio =
     ''video-finish binding refused: the plane SCRIPT UPLOAD credential is not authorized for Workers VPC (needs '' @
     ''Connectivity Directory access). The tenant was NOT provisioned without the tier -- fix CF_WORKER_UPLOAD_TOKEN, or '' @
     ''clear VIDEO_FINISH_VPC_SERVICE_ID to run this plane without video finishing on purpose.''"

definition uploadStudioScript :: "services \<Rightarrow> worker_upload \<Rightarrow> unit prog" where
  "uploadStudioScript S u =
     catching (uploadUserWorker S u) (\<lambda>e.
       if classifyVpcBindingFailure e (list_ex is_vpc (u_bindings u)) = VpcRefused
       then raise (ProvisionFailure ''wfp_upload'' vpc_refused_studio) else raise e)"

definition asset_files :: "asset list \<Rightarrow> string list \<Rightarrow> (string \<times> string \<times> string) list" where
  "asset_files assets hashes =
     List.map_filter (\<lambda>h. map_option (\<lambda>a. (as_hash a, as_base64 a, as_type a))
       (List.find (\<lambda>a. as_hash a = h) (rev assets))) hashes"

definition or_blank :: "string option \<Rightarrow> string" where
  "or_blank s = (case s of None \<Rightarrow> [] | Some x \<Rightarrow> x)"

definition upload_bucket ::
  "services \<Rightarrow> asset list \<Rightarrow> string option \<Rightarrow> string list \<Rightarrow> string option \<Rightarrow> string option prog" where
  "upload_bucket S assets jwt bucket completion =
     (let files = asset_files assets bucket in
      if files = [] then ret completion
      else andThen (calling (AssetsBucket (or_blank jwt) files) (\<lambda>tr. s_assetsBucket S tr (or_blank jwt) files)) (\<lambda>r.
        ret (if truthy r then r else completion)))"

text \<open>The manifest is an object keyed by path; the paths of a release are distinct.\<close>

definition asset_manifest :: "asset list \<Rightarrow> (string \<times> string \<times> nat) list" where
  "asset_manifest assets = map (\<lambda>a. (as_path a, as_hash a, as_size a)) assets"

definition uploadStudioAssets :: "services \<Rightarrow> plane \<Rightarrow> string \<Rightarrow> asset list \<Rightarrow> string option prog" where
  "uploadStudioAssets S C slug assets =
     (let script = tenantScriptName slug; manifest = asset_manifest assets in
      andThen (calling (AssetsSession (c_namespace C) script manifest) (\<lambda>tr. s_assetsSession S tr (c_namespace C) script manifest))
        (\<lambda>(jwt, buckets). for_each buckets jwt (upload_bucket S assets jwt)))"

section \<open>The stages of a provision\<close>

definition endpoint_of :: "json \<Rightarrow> endpoint" where
  "endpoint_of j = (the (jstring (jget j ''key'')), the (jstring (jget j ''id'')), the (jstring (jget j ''endpointVar'')))"

definition stored_endpoint_list :: "tenant \<Rightarrow> endpoint list" where
  "stored_endpoint_list t = map endpoint_of (readTenantEndpoints t)"

definition failing :: "string \<Rightarrow> string \<Rightarrow> 'a prog" where
  "failing step msg = raise (ProvisionFailure step msg)"

definition fetch_studio :: "services \<Rightarrow> string \<Rightarrow> studio_bundle prog" where
  "fetch_studio S release = calling (FetchBundle release) (\<lambda>tr. s_fetchBundle S tr release)"

definition open_stage :: "services \<Rightarrow> plane \<Rightarrow> string \<Rightarrow> tenant \<Rightarrow> string \<Rightarrow> (studio_bundle \<times> resolved_quota) prog" where
  "open_stage S C jobId t release =
     andThen (wrote S (OSetJobRunning jobId)) (\<lambda>_.
     andThen (wrote S (OSetStatus (t_id t) Provisioning)) (\<lambda>_.
     andThen (catching (fetch_studio S release) (\<lambda>e. failing ''bundle_fetch'' (error_message e))) (\<lambda>built.
     andThen (catching (assertDispositionCoversContract (b_required_vars built))
        (\<lambda>e. failing ''bundle_fetch'' (error_message e))) (\<lambda>_.
     case rq_blocked (resolveStorageQuota C t) of
       Some msg \<Rightarrow> failing ''bundle_fetch'' msg
     | None \<Rightarrow> ret (built, resolveStorageQuota C t)))))"

text \<open>A resumed run has checked that the row records the database it does not create.\<close>

definition database_stage :: "services \<Rightarrow> string \<Rightarrow> tenant \<Rightarrow> int \<Rightarrow> bool \<Rightarrow> string run" where
  "database_stage S jobId t startedAt resumed steps =
     (if ''d1_create'' \<in> set steps then ret (Inr (or_blank (t_d1_database_id t)), steps)
      else afterwards (doing
        (andThen (calling (CreateD1 (tenantD1Name (t_slug t))) (\<lambda>tr. s_createD1 S tr (tenantD1Name (t_slug t)))) (\<lambda>uuid.
         andThen (wrote S (OSetD1 (t_id t) uuid)) (\<lambda>_. ret uuid)))) (\<lambda>uuid.
        afterwards (mark S jobId startedAt resumed ''d1_create'') (\<lambda>_. doing (ret uuid))) steps)"

definition migrate_stage ::
  "services \<Rightarrow> plane \<Rightarrow> string \<Rightarrow> int \<Rightarrow> bool \<Rightarrow> string \<Rightarrow> (string \<times> string) list \<Rightarrow> unit run" where
  "migrate_stage S C jobId startedAt resumed uuid migrations =
     unless_done ''d1_migrate'' (afterwards (doing (applyStudioMigrations (c_num C) S uuid migrations)) (\<lambda>_.
       mark S jobId startedAt resumed ''d1_migrate''))"

definition bucket_stage :: "services \<Rightarrow> string \<Rightarrow> tenant \<Rightarrow> int \<Rightarrow> bool \<Rightarrow> unit run" where
  "bucket_stage S jobId t startedAt resumed =
     (let bucket = tenantBucketName (t_slug t) in
      unless_done ''r2_bucket'' (afterwards (doing
        (andThen (calling (CreateBucket bucket) (\<lambda>tr. s_createBucket S tr bucket)) (\<lambda>_. wrote S (OSetBucket (t_id t) bucket)))) (\<lambda>_.
        mark S jobId startedAt resumed ''r2_bucket'')))"

text \<open>Minted on every run, a resumed one too: the value is never stored.\<close>

definition token_stage :: "services \<Rightarrow> plane \<Rightarrow> string \<Rightarrow> tenant \<Rightarrow> int \<Rightarrow> bool \<Rightarrow> (string \<times> string) run" where
  "token_stage S C jobId t startedAt resumed =
     afterwards (doing
       (andThen (mintBucketToken S (tenantR2TokenName (t_slug t)) (tenantBucketName (t_slug t))) (\<lambda>(i, v).
        andThen (wrote S (OSetR2Token (t_id t) i)) (\<lambda>_. ret (i, sha256Hex (c_sha256 C) v))))) (\<lambda>token.
     afterwards (mark S jobId startedAt resumed ''r2_token'') (\<lambda>_. doing (ret token)))"

definition endpoints_unreadable :: string where
  "endpoints_unreadable =
     ''the endpoints recorded for this tenant cannot be read, although the provision got past the step that writes them; '' @
     REPROVISION_DESTROYS"

definition pool_endpoint :: "tenant_endpoint \<Rightarrow> endpoint" where
  "pool_endpoint e = (te_key e, te_id e, te_endpointVar e)"

text \<open>\<open>resolved\<close>: an earlier run got past this step.  \<^const>\<open>None\<close> is the plane without a shared pool.\<close>

definition resolve_endpoints :: "services \<Rightarrow> plane \<Rightarrow> tenant \<Rightarrow> bool \<Rightarrow> (endpoint list \<times> runpod_mode) option prog" where
  "resolve_endpoints S C t resolved =
     (if resolved then
        (if stored_endpoint_list t = [] then failing ''runpod_endpoints'' endpoints_unreadable
         else ret (Some (stored_endpoint_list t, readRunPodMode (Some (t_runpod_mode t)))))
      else (case c_pool C of
              None \<Rightarrow> ret None
            | Some es \<Rightarrow>
                andThen (wrote S (OSetRunPodMode (t_id t) Shared)) (\<lambda>_.
                andThen (wrote S (OSetEndpoints (t_id t) (stringify_objects (map endpoint_object es)))) (\<lambda>_.
                ret (Some (map pool_endpoint es, Shared))))))"

definition endpoints_stage :: "services \<Rightarrow> plane \<Rightarrow> tenant \<Rightarrow> (endpoint list \<times> runpod_mode) option run" where
  "endpoints_stage S C t steps = doing (resolve_endpoints S C t (''runpod_endpoints'' \<in> set steps)) steps"

text \<open>A gateway token: the old one of that name is revoked, if that works, and a new one minted.\<close>

definition mint_gateway_token :: "services \<Rightarrow> plane \<Rightarrow> string \<Rightarrow> string option prog" where
  "mint_gateway_token S C nam =
     (if \<not> truthy (c_aig C) then ret None
      else andThen (attempted (revokeByName S nam)) (\<lambda>_.
        andThen (calling (MintAigToken nam) (\<lambda>tr. s_mintAigToken S tr nam)) (\<lambda>(i, v). ret (Some v))))"

definition SPEND_RATELIMIT_NAMESPACE :: string where
  "SPEND_RATELIMIT_NAMESPACE = ''3001''"

definition studio_bindings ::
  "plane \<Rightarrow> tenant \<Rightarrow> resolved_quota \<Rightarrow> string \<Rightarrow> endpoint list \<Rightarrow> string \<times> string \<Rightarrow> string \<Rightarrow> string option \<Rightarrow> binding list" where
  "studio_bindings C t quota uuid endpoints token studioApiToken aig =
     (let bucket = tenantBucketName (t_slug t) in
      [AssetsBinding ''ASSETS'', DispatchNamespace ''MODULE_DISPATCH'' (c_module_namespace C), D1Binding ''DB'' uuid,
       R2Binding ''R2_RENDERS'' bucket, R2Binding ''R2'' bucket, PlainText ''AUTH_MODE'' ''token'',
       PlainText ''R2_S3_BUCKET'' bucket, PlainText ''R2_S3_ENDPOINT'' (c_r2Endpoint C)] @
      map (\<lambda>(k, i, v). PlainText v i) endpoints @
      [SecretText ''R2_S3_ACCESS_KEY_ID'' (fst token), SecretText ''R2_S3_SECRET_ACCESS_KEY'' (snd token),
       SecretText ''STUDIO_API_TOKEN'' studioApiToken, RateLimit ''SPEND_RATE_LIMITER'' SPEND_RATELIMIT_NAMESPACE 30 60] @
      (if truthy (c_ceiling C) then [PlainText ''SPEND_DAILY_CEILING'' (the (c_ceiling C))] else []) @
      storageQuotaBindings (rq_bytes quota) (c_quota_mode C) @
      map (\<lambda>(n, v). PlainText n v) (c_media_doors C) @
      videoFinishTierStateBindings t @ abuseReportUrlBindings (c_abuse_url C) @ [AiBinding ''AI''] @
      (if truthy (c_aig C) \<and> truthy aig then [PlainText ''GATEWAY_ID'' (the (c_aig C)), SecretText ''CF_AIG_TOKEN'' (the aig)] else []))"

fun kek_exn :: "kek_error \<Rightarrow> exn" where
  "kek_exn BadKek = OtherError ''Error'' ''a studio token KEK must be a base64-encoded 32-byte key''"
| "kek_exn EncryptSlotUnavailable = OtherError ''KekRingError''
     (''STUDIO_TOKEN_KEK_ENCRYPT_SLOT names 'next' but STUDIO_TOKEN_KEK_NEXT is not installed. '' @
      ''Refusing to encrypt: falling back to the primary key would write customer credentials '' @
      ''under a key the operator believes is out of use. Install the next key or set the slot back '' @
      ''to 'primary', then redeploy.'')"

definition encrypt_token :: "services \<Rightarrow> plane \<Rightarrow> string \<Rightarrow> string prog" where
  "encrypt_token S C token =
     andThen (random_bytes S) (\<lambda>iv.
     lifted (case encryptStudioToken (c_enc C) iv (c_kek C) token of Inl e \<Rightarrow> Inl (kek_exn e) | Inr b \<Rightarrow> Inr b))"

definition upload_studio ::
  "services \<Rightarrow> plane \<Rightarrow> tenant \<Rightarrow> string \<Rightarrow> studio_bundle \<Rightarrow> resolved_quota \<Rightarrow> string \<Rightarrow> endpoint list \<Rightarrow> string \<times> string \<Rightarrow> string prog" where
  "upload_studio S C t release built quota uuid endpoints token =
     andThen (if b_assets built \<noteq> [] then uploadStudioAssets S C (t_slug t) (b_assets built) else ret None) (\<lambda>jwt.
     andThen (random_bytes S) (\<lambda>buf.
     let studioApiToken = randomToken buf in
     andThen (mint_gateway_token S C (tenantStudioAigTokenName (t_slug t))) (\<lambda>aig.
     andThen (uploadStudioScript S
       \<lparr>u_namespace = c_namespace C, u_script = tenantScriptName (t_slug t), u_main = b_main built, u_text = b_text built,
        u_date = b_date built, u_flags = b_flags built, u_assets_jwt = jwt,
        u_bindings = studio_bindings C t quota uuid endpoints token studioApiToken aig\<rparr>) (\<lambda>_.
     andThen (wrote S (OSetScript (t_id t) (tenantScriptName (t_slug t)) release)) (\<lambda>_.
     andThen (encrypt_token S C studioApiToken) (\<lambda>blob.
     andThen (wrote S (OSetStudioToken (t_id t) blob)) (\<lambda>_.
     ret studioApiToken)))))))"

text \<open>The token the row carried before is revoked once the studio holds the new one; a failure is only logged.\<close>

definition revoke_previous :: "services \<Rightarrow> tenant \<Rightarrow> string \<Rightarrow> unit prog" where
  "revoke_previous S t tokenId =
     (if truthy (t_r2_token_id t) \<and> t_r2_token_id t \<noteq> Some tokenId
      then andThen (attempted (revokeToken S (the (t_r2_token_id t)))) (\<lambda>_. ret ()) else ret ())"

section \<open>Verification\<close>

definition required_bindings :: "endpoint list \<Rightarrow> string list" where
  "required_bindings endpoints =
     [''DB'', ''R2_RENDERS'', ''ASSETS'', ''SPEND_RATE_LIMITER''] @ REQUIRED_TENANT_STUDIO_VARS @ map (\<lambda>(k, i, v). v) endpoints"

definition missing_binding :: "string \<Rightarrow> string" where
  "missing_binding n = ''tenant worker is missing the '' @ n @ '' binding after upload''"

definition missing_secret :: "string \<Rightarrow> string" where
  "missing_secret n = ''tenant worker is missing the '' @ n @ '' secret after upload''"

definition require_all :: "(string \<Rightarrow> string) \<Rightarrow> string list \<Rightarrow> string list \<Rightarrow> unit prog" where
  "require_all msg needed present =
     (case List.find (\<lambda>n. n \<notin> set present) needed of None \<Rightarrow> ret () | Some n \<Rightarrow> failing ''verify'' (msg n))"

definition not_serving :: "nat \<Rightarrow> string" where
  "not_serving st = ''tenant studio root returned '' @ show_nat st @ ''; the worker is not serving''"

definition verify_studio :: "services \<Rightarrow> plane \<Rightarrow> string \<Rightarrow> endpoint list \<Rightarrow> string \<Rightarrow> string list prog" where
  "verify_studio S C script endpoints token =
     andThen (calling (GetBindings (c_namespace C) script) (\<lambda>tr. s_getBindings S tr (c_namespace C) script)) (\<lambda>bindings.
     andThen (require_all missing_binding (required_bindings endpoints) (map fst bindings)) (\<lambda>_.
     andThen (calling (GetSecretNames (c_namespace C) script) (\<lambda>tr. s_getSecretNames S tr (c_namespace C) script)) (\<lambda>secrets.
     andThen (require_all missing_secret [''R2_S3_SECRET_ACCESS_KEY'', ''STUDIO_API_TOKEN''] secrets) (\<lambda>_.
     andThen (callTenantStudio S script ''GET'' ''/'' token None) (\<lambda>(st, txt).
     if st \<ge> 500 then failing ''verify'' (not_serving st)
     else verifyTenantModulesInstalled S script token)))))"

section \<open>Closing a run\<close>

definition rollbackFailedProvision :: "services \<Rightarrow> plane \<Rightarrow> string \<Rightarrow> unit prog" where
  "rollbackFailedProvision S C tid =
     catching
       (andThen (reading S (\<lambda>db. getTenantById db tid)) (\<lambda>fresh.
          case fresh of
            None \<Rightarrow> ret ()
          | Some t \<Rightarrow> andThen (teardownTenant S (c_namespace C) (c_module_namespace C) t True False) (\<lambda>_. ret ())))
       (\<lambda>e. ret ())"

fun failed_step :: "exn \<Rightarrow> string list \<Rightarrow> string" where
  "failed_step (ProvisionFailure step msg) steps = step"
| "failed_step (TenantModuleError step msg) steps = step"
| "failed_step e steps = inferStep steps"

fun failure_message :: "exn \<Rightarrow> string" where
  "failure_message (OtherError n msg) = error_string (OtherError n msg)"
| "failure_message (ProvisionYield after) = error_string (ProvisionYield after)"
| "failure_message (StudioUpgradeError step msg) = error_string (StudioUpgradeError step msg)"
| "failure_message e = error_message e"

definition finish_job :: "services \<Rightarrow> string \<Rightarrow> bool \<Rightarrow> string option \<Rightarrow> string option \<Rightarrow> bool prog" where
  "finish_job S jobId ok step msg =
     writing S (OFinishJob jobId ok step msg) (\<lambda>db now. fst (finishJob db jobId ok step msg now))"

definition close_failed :: "services \<Rightarrow> plane \<Rightarrow> string \<Rightarrow> string \<Rightarrow> string \<Rightarrow> string \<Rightarrow> provision_outcome prog" where
  "close_failed S C jobId tid step msg =
     andThen (finish_job S jobId False (Some step) (Some msg)) (\<lambda>closed.
     if \<not> closed then ret (ProvisionFailed step msg)
     else andThen (wrote S (OSetStatus tid Failed)) (\<lambda>_.
       andThen (rollbackFailedProvision S C tid) (\<lambda>_. ret (ProvisionFailed step msg))))"

text \<open>The \<^verbatim>\<open>catch\<close> both provisioning runs have.\<close>

definition closing ::
  "services \<Rightarrow> plane \<Rightarrow> string \<Rightarrow> string \<Rightarrow> (exn + provision_outcome) \<times> string list \<Rightarrow> provision_outcome prog" where
  "closing S C jobId tid = (\<lambda>(r, steps).
     case r of
       Inr outcome \<Rightarrow> ret outcome
     | Inl (ProvisionYield after) \<Rightarrow> andThen (wrote S (OReleaseLease jobId)) (\<lambda>_. ret (Yielded after))
     | Inl e \<Rightarrow> close_failed S C jobId tid (failed_step e steps) (failure_message e))"

section \<open>A provision run\<close>

definition modules_stage ::
  "services \<Rightarrow> plane \<Rightarrow> string \<Rightarrow> tenant \<Rightarrow> int \<Rightarrow> bool \<Rightarrow> string \<Rightarrow> endpoint list \<Rightarrow> runpod_mode \<Rightarrow> string \<Rightarrow> string \<Rightarrow> string
     \<Rightarrow> provision_outcome run" where
  "modules_stage S C jobId t startedAt resumed release endpoints mode uuid tokenId studioApiToken =
     (let script = tenantScriptName (t_slug t) in
      afterwards (doing
        (andThen (revoke_previous S t tokenId) (\<lambda>_.
         andThen (mint_gateway_token S C (tenantAigTokenName (t_slug t))) (\<lambda>aig.
         uploadTenantModules S C release (t_id t) (t_slug t) endpoints (Some uuid) (Some (tenantBucketName (t_slug t))) mode [] aig)))) (\<lambda>_.
      afterwards (mark S jobId startedAt resumed ''modules_upload'') (\<lambda>_.
      afterwards (doing (installTenantModules S (t_id t) script studioApiToken)) (\<lambda>_.
      afterwards (mark S jobId startedAt resumed ''modules_install'') (\<lambda>_.
      afterwards (doing
        (andThen (wrote S (OSetModulesRelease (t_id t) (Some release))) (\<lambda>_.
         verify_studio S C script endpoints studioApiToken))) (\<lambda>_.
      afterwards (mark S jobId startedAt resumed ''verify'') (\<lambda>_.
      doing
        (andThen (wrote S (OSetStatus (t_id t) AwaitingGoLive)) (\<lambda>_.
         andThen (finish_job S jobId True None None) (\<lambda>_. ret ProvisionOk))))))))))"

definition provision_body ::
  "services \<Rightarrow> plane \<Rightarrow> string \<Rightarrow> tenant \<Rightarrow> int \<Rightarrow> bool \<Rightarrow> string \<Rightarrow> provision_outcome run" where
  "provision_body S C jobId t startedAt resumed release =
     afterwards (doing (open_stage S C jobId t release)) (\<lambda>(built, quota).
     afterwards (database_stage S jobId t startedAt resumed) (\<lambda>uuid.
     afterwards (migrate_stage S C jobId startedAt resumed uuid (b_migrations built)) (\<lambda>_.
     afterwards (bucket_stage S jobId t startedAt resumed) (\<lambda>_.
     afterwards (token_stage S C jobId t startedAt resumed) (\<lambda>token.
     afterwards (endpoints_stage S C t) (\<lambda>eps.
     case eps of
       None \<Rightarrow> doing (ret (ProvisionFailed ''runpod_endpoints'' ''runpod_key_required''))
     | Some (endpoints, mode) \<Rightarrow>
         afterwards (mark S jobId startedAt resumed ''runpod_endpoints'') (\<lambda>_.
         afterwards (doing (upload_studio S C t release built quota uuid endpoints token)) (\<lambda>studioApiToken.
         afterwards (mark S jobId startedAt resumed ''wfp_upload'') (\<lambda>_.
         modules_stage S C jobId t startedAt resumed release endpoints mode uuid (fst token) studioApiToken)))))))))"

text \<open>\<open>resume\<close> is the list of steps and the release of the run that is continued.\<close>

definition runProvisionJob ::
  "services \<Rightarrow> plane \<Rightarrow> string \<Rightarrow> tenant \<Rightarrow> (string list \<times> string) option \<Rightarrow> provision_outcome prog" where
  "runProvisionJob S C jobId t resume =
     andThen (clock S) (\<lambda>startedAt.
     andThen (provision_body S C jobId t startedAt (resume \<noteq> None) (case resume of Some (_, r) \<Rightarrow> r | None \<Rightarrow> c_release C)
       (case resume of Some (steps, _) \<Rightarrow> steps | None \<Rightarrow> [])) (closing S C jobId (t_id t)))"

section \<open>Module steps\<close>

record module_steps =
  ma_tenantId :: string
  ma_slug :: string
  ma_script :: string
  ma_endpoints :: "endpoint list"
  ma_token :: string
  ma_release :: string
  ma_d1 :: "string option"
  ma_bucket :: "string option"
  ma_mode :: runpod_mode
  ma_prefetched :: "(string \<times> worker_bundle) list"

text \<open>The hooks are the guard of a step and what marks it.\<close>

definition runModuleSteps ::
  "services \<Rightarrow> plane \<Rightarrow> module_steps \<Rightarrow> (string \<Rightarrow> unit run \<Rightarrow> unit run) \<Rightarrow> (string \<Rightarrow> unit run) \<Rightarrow> unit run" where
  "runModuleSteps S C a when_due on_done =
     afterwards (when_due ''modules_upload'' (afterwards (doing
         (andThen (mint_gateway_token S C (tenantAigTokenName (ma_slug a))) (\<lambda>aig.
          uploadTenantModules S C (ma_release a) (ma_tenantId a) (ma_slug a) (ma_endpoints a) (ma_d1 a) (ma_bucket a) (ma_mode a)
            (ma_prefetched a) aig))) (\<lambda>_. on_done ''modules_upload''))) (\<lambda>_.
     afterwards (when_due ''modules_install'' (afterwards (doing
         (installTenantModules S (ma_tenantId a) (ma_script a) (ma_token a))) (\<lambda>_. on_done ''modules_install''))) (\<lambda>_.
     when_due ''verify'' (afterwards (doing
         (verify_studio S C (ma_script a) (ma_endpoints a) (ma_token a))) (\<lambda>_. on_done ''verify''))))"

section \<open>Continuing a provision\<close>

definition not_contiguous :: "string list \<Rightarrow> string" where
  "not_contiguous steps =
     ''job progress is not contiguous ('' @ stringify_list steps @ ''), so no step order can be inferred from it; this row '' @
     ''cannot be resumed''"

definition contiguous :: "string list \<Rightarrow> bool" where
  "contiguous steps \<longleftrightarrow> steps = take (length steps) PROVISION_STEPS"

definition database_lost :: string where
  "database_lost =
     ''the job progress record says the database was created but the tenant row has no database id, so this row is '' @
     ''inconsistent and cannot be resumed''"

definition job_gone :: "string \<Rightarrow> string" where
  "job_gone jobId = ''job '' @ jobId @ '' no longer exists; this row cannot be resumed''"

definition mode_unrecorded :: string where
  "mode_unrecorded =
     ''this provision was started before the plane recorded which RunPod shape it was for, so there is no way to tell whether '' @
     ''it can be finished without the original key; '' @ REPROVISION_DESTROYS"

definition key_never_stored :: string where
  "key_never_stored =
     ''provisioning was interrupted before the studio was uploaded, and the RunPod key needed to finish it is never stored; '' @
     REPROVISION_DESTROYS"

definition release_unrecorded :: string where
  "release_unrecorded =
     ''this provision did not record which release it was building, so resuming it could upload a studio that does not match '' @
     ''the database schema already created for it; '' @ REPROVISION_DESTROYS"

definition mode_unrecognised :: "string \<Rightarrow> string" where
  "mode_unrecognised m =
     ''this provision records an unrecognised RunPod shape ('' @ json_quote m @ ''), so it cannot be resumed; '' @ REPROVISION_DESTROYS"

definition token_unrecorded :: string where
  "token_unrecorded =
     ''no studio token is recorded for this tenant, although the provision got past the step that writes it, so its studio '' @
     ''cannot be reached; '' @ REPROVISION_DESTROYS"

definition studio_release_unrecorded :: string where
  "studio_release_unrecorded =
     ''no studio release recorded for this tenant, so the modules that pair with its studio cannot be identified; '' @
     REPROVISION_DESTROYS"

text \<open>Before the studio is uploaded only a run on the shared pool goes on, as a resumed provision.\<close>

definition resume_early :: "services \<Rightarrow> plane \<Rightarrow> string \<Rightarrow> tenant \<Rightarrow> provision_job \<Rightarrow> provision_outcome run" where
  "resume_early S C jobId t job steps =
     (case j_runpod_mode job of
        None \<Rightarrow> doing (failing (inferStep steps) mode_unrecorded) steps
      | Some m \<Rightarrow>
          if m = ''dedicated'' then doing (failing (inferStep steps) key_never_stored) steps
          else if m = ''shared'' then
            (if \<not> truthy (j_to_release job) then doing (failing (inferStep steps) release_unrecorded) steps
             else doing (runProvisionJob S C jobId t (Some (steps, the (j_to_release job)))) steps)
          else doing (failing (inferStep steps) (mode_unrecognised m)) steps)"

definition resume_modules :: "services \<Rightarrow> plane \<Rightarrow> string \<Rightarrow> tenant \<Rightarrow> int \<Rightarrow> provision_outcome run" where
  "resume_modules S C jobId t startedAt steps =
     (if stored_endpoint_list t = [] then doing (failing ''runpod_endpoints'' endpoints_unreadable) steps
      else if \<not> truthy (t_studio_token_enc t) then doing (failing ''wfp_upload'' token_unrecorded) steps
      else (case decryptStudioToken (c_dec C) (c_kek C) (the (t_studio_token_enc t)) of
              None \<Rightarrow> doing (raise (OtherError ''Error'' ''the studio token cannot be decrypted'')) steps
            | Some token \<Rightarrow>
                if \<not> truthy (t_studio_release t) then doing (failing ''wfp_upload'' studio_release_unrecorded) steps
                else afterwards (runModuleSteps S C
                    \<lparr>ma_tenantId = t_id t, ma_slug = t_slug t, ma_script = tenantScriptName (t_slug t),
                     ma_endpoints = stored_endpoint_list t, ma_token = token, ma_release = the (t_studio_release t),
                     ma_d1 = t_d1_database_id t, ma_bucket = t_r2_bucket_name t,
                     ma_mode = readRunPodMode (Some (t_runpod_mode t)), ma_prefetched = []\<rparr>
                    unless_done (mark_next S jobId startedAt)) (\<lambda>_.
                  doing
                    (andThen (wrote S (OSetModulesRelease (t_id t) (t_studio_release t))) (\<lambda>_.
                     andThen (wrote S (OSetStatus (t_id t) AwaitingGoLive)) (\<lambda>_.
                     andThen (finish_job S jobId True None None) (\<lambda>_. ret ProvisionOk))))) steps))"

definition continue_body :: "services \<Rightarrow> plane \<Rightarrow> string \<Rightarrow> tenant \<Rightarrow> int \<Rightarrow> provision_outcome run" where
  "continue_body S C jobId t startedAt steps =
     (if \<not> contiguous steps then doing (failing (inferStep steps) (not_contiguous steps)) steps
      else if ''d1_create'' \<in> set steps \<and> t_d1_database_id t = None then doing (failing ''d1_create'' database_lost) steps
      else afterwards (doing (reading S (\<lambda>db. getJob db jobId))) (\<lambda>found.
        case found of
          None \<Rightarrow> doing (failing (inferStep steps) (job_gone jobId))
        | Some job \<Rightarrow>
            if ''wfp_upload'' \<notin> set steps then resume_early S C jobId t job
            else resume_modules S C jobId t startedAt) steps)"

definition continueProvisionJob ::
  "services \<Rightarrow> plane \<Rightarrow> string \<Rightarrow> tenant \<Rightarrow> string list \<Rightarrow> provision_outcome prog" where
  "continueProvisionJob S C jobId t stepsDone =
     andThen (clock S) (\<lambda>startedAt.
     andThen (continue_body S C jobId t startedAt (filter (\<lambda>s. s \<in> set stepsDone) PROVISION_STEPS)) (closing S C jobId (t_id t)))"

section \<open>Upgrading modules\<close>

record upgrade_context =
  uc_script :: string
  uc_endpoints :: "endpoint list"
  uc_token :: string
  uc_release :: string
  uc_bundles :: "(string \<times> worker_bundle) list"

type_synonym upgrade_refusal = "string \<times> nat \<times> string"

definition tenant_not_live :: "tenant \<Rightarrow> string" where
  "tenant_not_live t =
     ''module upgrade requires a live tenant; this one is '' @ status_string (t_status t) @ ''. '' @
     ''An unfinished provision is resumed through the provision job, not upgraded.''"

definition modules_without_endpoint :: "tenant \<Rightarrow> string list" where
  "modules_without_endpoint t =
     map ms_module (filter (\<lambda>spec. ms_endpointKey spec \<noteq> None
       \<and> the (ms_endpointKey spec) \<notin> set (map fst (stored_endpoint_list t))) TENANT_MODULE_CATALOG)"

definition upgrade_refusal_of :: "tenant \<Rightarrow> upgrade_refusal option" where
  "upgrade_refusal_of t =
     (if t_deleted_at t \<noteq> None then Some (''tenant_deleted'', 404, ''this tenant no longer exists'')
      else if t_suspended_at t \<noteq> None then
        Some (''tenant_suspended'', 409, ''this tenant is suspended; resume it before upgrading modules'')
      else if t_status t \<noteq> Live then Some (''tenant_not_live'', 409, tenant_not_live t)
      else if \<not> truthy (t_script_name t) then
        Some (''tenant_has_no_studio'', 409, ''this tenant has no studio script recorded; it cannot be upgraded'')
      else if modules_without_endpoint t \<noteq> [] then
        Some (''tenant_endpoints_incomplete'', 422,
          ''this tenant is missing the endpoint(s) needed by: '' @ join_with '', '' (modules_without_endpoint t))
      else if \<not> truthy (t_studio_token_enc t) then
        Some (''tenant_studio_token_missing'', 422, ''no studio token recorded for this tenant'')
      else None)"

definition studio_not_serving :: "nat \<Rightarrow> string" where
  "studio_not_serving st = ''the tenant studio answered '' @ show_nat st @ '' before the upgrade started; fix that first''"

definition token_unreadable :: string where
  "token_unreadable = ''the stored studio token could not be decrypted: ''"

text \<open>The text of the decryption error that ends one message is left out.\<close>

definition preflightModuleUpgrade ::
  "services \<Rightarrow> plane \<Rightarrow> tenant \<Rightarrow> string \<Rightarrow> (upgrade_refusal + upgrade_context) prog" where
  "preflightModuleUpgrade S C t release =
     (case upgrade_refusal_of t of
        Some r \<Rightarrow> ret (Inl r)
      | None \<Rightarrow>
          (case decryptStudioToken (c_dec C) (c_kek C) (the (t_studio_token_enc t)) of
             None \<Rightarrow> ret (Inl (''tenant_studio_token_unreadable'', 422, token_unreadable))
           | Some token \<Rightarrow>
               andThen (callTenantStudio S (the (t_script_name t)) ''GET'' ''/'' token None) (\<lambda>(st, txt).
               if st \<ge> 500 then ret (Inl (''tenant_studio_not_serving'', 422, studio_not_serving st))
               else andThen (attempted (prefetchModuleBundles S release)) (\<lambda>r.
                 case r of
                   Inl e \<Rightarrow> ret (Inl (''module_bundle_unavailable'', 422,
                     (case e of TenantModuleError _ msg \<Rightarrow> msg | _ \<Rightarrow> error_string e)))
                 | Inr bundles \<Rightarrow> ret (Inr \<lparr>uc_script = the (t_script_name t), uc_endpoints = stored_endpoint_list t,
                     uc_token = token, uc_release = release, uc_bundles = bundles\<rparr>)))))"

definition budget_message :: "string \<Rightarrow> string" where
  "budget_message after =
     ''the upgrade ran out of its invocation budget after '' @ after @ ''; module bytes may be mixed (see steps_done) and the '' @
     ''tenant is still serving. Re-run the upgrade to finish it, or re-run at from_release to go back.''"

definition upgrade_body :: "services \<Rightarrow> plane \<Rightarrow> string \<Rightarrow> tenant \<Rightarrow> upgrade_context \<Rightarrow> int \<Rightarrow> unit run" where
  "upgrade_body S C jobId t ctx startedAt =
     afterwards (doing (andThen (wrote S (OSetJobRunning jobId)) (\<lambda>_. wrote S (OSetModulesRelease (t_id t) None)))) (\<lambda>_.
     afterwards (runModuleSteps S C
         \<lparr>ma_tenantId = t_id t, ma_slug = t_slug t, ma_script = uc_script ctx, ma_endpoints = uc_endpoints ctx,
          ma_token = uc_token ctx, ma_release = uc_release ctx, ma_d1 = t_d1_database_id t, ma_bucket = t_r2_bucket_name t,
          ma_mode = readRunPodMode (Some (t_runpod_mode t)), ma_prefetched = uc_bundles ctx\<rparr>
         (\<lambda>step m. m) (mark_next S jobId startedAt)) (\<lambda>_.
     doing
       (andThen (wrote S (OSetModulesRelease (t_id t) (Some (uc_release ctx)))) (\<lambda>_.
        andThen (finish_job S jobId True None None) (\<lambda>_. ret ())))))"

datatype upgrade_outcome = UpgradeOk string "string list" | UpgradeFailed string string

definition upgrade_closing ::
  "services \<Rightarrow> string \<Rightarrow> upgrade_context \<Rightarrow> (exn + unit) \<times> string list \<Rightarrow> upgrade_outcome prog" where
  "upgrade_closing S jobId ctx = (\<lambda>(r, steps).
     case r of
       Inr _ \<Rightarrow> ret (UpgradeOk (uc_release ctx) (map ms_module TENANT_MODULE_CATALOG))
     | Inl (ProvisionYield after) \<Rightarrow>
         andThen (finish_job S jobId False (Some after) (Some (budget_message after))) (\<lambda>_.
         ret (UpgradeFailed after (budget_message after)))
     | Inl e \<Rightarrow>
         andThen (finish_job S jobId False (Some (failed_step e steps)) (Some (failure_message e))) (\<lambda>_.
         ret (UpgradeFailed (failed_step e steps) (failure_message e))))"

definition upgradeTenantModules :: "services \<Rightarrow> plane \<Rightarrow> string \<Rightarrow> tenant \<Rightarrow> upgrade_context \<Rightarrow> upgrade_outcome prog" where
  "upgradeTenantModules S C jobId t ctx =
     andThen (clock S) (\<lambda>startedAt.
     andThen (upgrade_body S C jobId t ctx startedAt []) (upgrade_closing S jobId ctx))"

section \<open>Rules for runs\<close>

definition run_emits :: "(event \<Rightarrow> bool) \<Rightarrow> 'a run \<Rightarrow> bool" where
  "run_emits P m \<longleftrightarrow> (\<forall>steps. emits P (m steps))"

named_theorems run_intro

lemma run_doing [run_intro]: "emits P m \<Longrightarrow> run_emits P (doing m)"
  unfolding run_emits_def doing_def by (intro allI emits_intro)

lemma run_afterwards [run_intro]: "run_emits P m \<Longrightarrow> (\<And>x. run_emits P (f x)) \<Longrightarrow> run_emits P (afterwards m f)"
  unfolding run_emits_def afterwards_def
  by (intro allI emits_andThen emits_prod emits_sum emits_ret) blast+

lemma run_unless [run_intro]: "run_emits P m \<Longrightarrow> run_emits P (unless_done step m)"
  unfolding run_emits_def unless_done_def by (intro allI emits_if emits_ret) blast

lemma run_if [run_intro]: "run_emits P m \<Longrightarrow> run_emits P n \<Longrightarrow> run_emits P (if b then m else n)"
  by simp

lemma run_option [run_intro]:
  "run_emits P m \<Longrightarrow> (\<And>x. run_emits P (f x)) \<Longrightarrow> run_emits P (case v of None \<Rightarrow> m | Some x \<Rightarrow> f x)"
  by (cases v) simp_all

lemma run_prod [run_intro]: "(\<And>x y. run_emits P (f x y)) \<Longrightarrow> run_emits P (case v of (x, y) \<Rightarrow> f x y)"
  by (cases v) simp

lemma run_steps: "run_emits P m \<Longrightarrow> emits P (m steps)"
  by (simp add: run_emits_def)

lemma emits_record_progress [emits_intro]:
  "P StoreFailed \<Longrightarrow> P Observed \<Longrightarrow> (\<And>now. P (Wrote now (OProgress j step (stringify_list steps)))) \<Longrightarrow>
    emits P (record_progress S j started unsafe step steps)"
  unfolding record_progress_def by (intro emits_intro)

lemma run_mark [run_intro]:
  "P StoreFailed \<Longrightarrow> P Observed \<Longrightarrow> (\<And>now xs. P (Wrote now (OProgress j step xs))) \<Longrightarrow> run_emits P (mark S j started resumed step)"
  unfolding run_emits_def mark_def Let_def doing_def by (intro allI emits_intro)

lemma run_mark_next [run_intro]:
  "P StoreFailed \<Longrightarrow> P Observed \<Longrightarrow> (\<And>now xs. P (Wrote now (OProgress j step xs))) \<Longrightarrow> run_emits P (mark_next S j started step)"
  unfolding run_emits_def mark_next_def doing_def by (intro allI emits_intro)

text \<open>Inverting a run that ended normally.\<close>

lemma doingE:
  assumes "doing m steps w = (Inr (Inr x, steps'), w')"
  obtains "m w = (Inr x, w')" "steps' = steps"
  using assms by (auto simp: doing_def)

lemma afterwardsE:
  assumes "afterwards m f steps w = (Inr (Inr y, steps'), w')"
  obtains x s1 w1 where "m steps w = (Inr (Inr x, s1), w1)" "f x s1 w1 = (Inr (Inr y, steps'), w')"
  using assms by (auto simp: afterwards_def split: sum.splits)

section \<open>What a run may do\<close>

text \<open>
  The events of a provision of one tenant: its writes are on the tenant's row and its job and never make
  the tenant live, its Workers are the tenant's studio and modules.
\<close>

fun provision_op :: "string \<Rightarrow> string \<Rightarrow> store_op \<Rightarrow> bool" where
  "provision_op tid job (OSetStatus i st) \<longleftrightarrow> i = tid \<and> st \<in> {Provisioning, AwaitingGoLive, Failed}"
| "provision_op tid job (OSetD1 i k) \<longleftrightarrow> i = tid"
| "provision_op tid job (OSetBucket i k) \<longleftrightarrow> i = tid"
| "provision_op tid job (OSetR2Token i k) \<longleftrightarrow> i = tid"
| "provision_op tid job (OSetScript i k r) \<longleftrightarrow> i = tid"
| "provision_op tid job (OSetEndpoints i e) \<longleftrightarrow> i = tid"
| "provision_op tid job (OSetRunPodMode i m) \<longleftrightarrow> i = tid \<and> m = Shared"
| "provision_op tid job (OSetModulesRelease i r) \<longleftrightarrow> i = tid"
| "provision_op tid job (OSetStudioToken i e) \<longleftrightarrow> i = tid"
| "provision_op tid job (OClearResource i k) \<longleftrightarrow> i = tid"
| "provision_op tid job (ORecordTeardown i fs) \<longleftrightarrow> i = tid"
| "provision_op tid job (OSetJobRunning j) \<longleftrightarrow> j = job"
| "provision_op tid job (OProgress j step xs) \<longleftrightarrow> j = job"
| "provision_op tid job (OFinishJob j ok step msg) \<longleftrightarrow> j = job"
| "provision_op tid job (OReleaseLease j) \<longleftrightarrow> j = job"
| "provision_op tid job _ \<longleftrightarrow> False"

fun provision_event :: "plane \<Rightarrow> string \<Rightarrow> string \<Rightarrow> string \<Rightarrow> event \<Rightarrow> bool" where
  "provision_event C tid slug job (Wrote now p) \<longleftrightarrow> provision_op tid job p"
| "provision_event C tid slug job (Indexed i s rows now) \<longleftrightarrow> i = tid"
| "provision_event C tid slug job (Called (UploadWorker u) b) \<longleftrightarrow>
     u_namespace u = c_namespace C \<and> u_script u = tenantScriptName slug
     \<or> u_namespace u = c_module_namespace C \<and> u_script u \<in> set (module_scripts tid)"
| "provision_event C tid slug job _ \<longleftrightarrow> True"

lemma emits_weaken:
  assumes "emits P m" "\<And>e. P e \<Longrightarrow> Q e"
  shows "emits Q m"
  unfolding emits_def
proof
  fix w
  from assms(1) obtain es where "list_all P es" "w_trace (snd (m w)) = w_trace w @ es"
    "w_db (snd (m w)) = run_ops (writes es) (w_db w)" "w_index (snd (m w)) = run_index (index_writes es) (w_index w)"
    unfolding emits_def by blast
  moreover from this(1) assms(2) have "list_all Q es" by (auto simp: list_all_iff)
  ultimately show "\<exists>es. list_all Q es \<and> w_trace (snd (m w)) = w_trace w @ es
    \<and> w_db (snd (m w)) = run_ops (writes es) (w_db w) \<and> w_index (snd (m w)) = run_index (index_writes es) (w_index w)" by blast
qed

lemma emits_from_at: "(\<And>w. emits_at (P w) m w) \<Longrightarrow> (\<And>w e. P w e \<Longrightarrow> Q e) \<Longrightarrow> emits Q m"
  unfolding emits_def emits_at_def by (meson list.pred_mono_strong)

lemma spares_teardown: "emits_at (spares S ns mns (w_db w) t) (teardownTenant S ns mns t deleteData ign) w"
  unfolding teardownTenant_def
proof (rule emits_at_andThen, goal_cases)
  case 1
  show ?case by (intro emits_at emits_intro) simp_all
next
  case (2 h w')
  then have "w_db w' = w_db w" by (auto simp: attempted_reading split: option.splits)
  then have "emits_at (spares S ns mns (w_db w) t) (teardown_unheld S ns mns t deleteData ign) w'"
    using emits_unheld [of S ns mns w' t deleteData ign] by simp
  then show ?case by (cases h) (auto intro!: emits_at emits_intro)
qed

lemma spares_provision: "spares S ns mns db t e \<Longrightarrow> provision_event C (t_id t) slug job e"
  by (cases "(S, ns, mns, db, t, e)" rule: spares.cases) auto

lemma emits_teardown:
  assumes "t_id t = tid"
  shows "emits (provision_event C tid slug job) (teardownTenant S ns mns t deleteData ign)"
  using spares_teardown spares_provision unfolding assms [symmetric] by (rule emits_from_at)

lemma getTenantById_id: "getTenantById db i = Some t \<Longrightarrow> t_id t = i"
  by (auto simp: getTenantById_def dest!: find_SomeD)

lemma emits_rollback: "emits (provision_event C tid slug job) (rollbackFailedProvision S C tid)"
  unfolding rollbackFailedProvision_def
proof (intro emits_catching emits_ret emits_andThen_result, goal_cases)
  case 1
  show ?case by (intro emits_intro) simp_all
next
  case (2 w x w')
  then have "t_id t = tid" if "x = Some t" for t
    using that getTenantById_id by (auto simp: reading_def store_failed_def observing_def split: option.splits)
  then show ?case by (auto intro!: emits_intro emits_teardown split: option.split)
qed

lemma emits_finish_job [emits_intro]:
  "P StoreFailed \<Longrightarrow> (\<And>now. P (Wrote now (OFinishJob j ok step msg))) \<Longrightarrow> emits P (finish_job S j ok step msg)"
  unfolding finish_job_def by (intro emits_intro)

lemma emits_closing: "emits (provision_event C tid slug job) (closing S C job tid r)"
  unfolding closing_def close_failed_def
  by (intro emits_prod emits_sum emits_ret) (auto intro!: emits_intro emits_rollback split: exn.split)

lemma confined_provision: "confined C mode tid d1 bucket aig e \<Longrightarrow> provision_event C tid slug job e"
  by (cases "(C, mode, tid, d1, bucket, aig, e)" rule: confined.cases) auto

lemma emits_upload_modules:
  "emits (confined C mode tid (the d1) bucket aig) (uploadTenantModules S C release tid slug endpoints d1 bucket mode prefetched aig)"
  unfolding uploadTenantModules_def modules_error_def Let_def
  by (intro emits_intro upload_module_confined) simp_all

lemmas provision_upload = emits_weaken [OF emits_upload_modules confined_provision]

lemma emits_mint_gateway [emits_intro]:
  "(\<And>b. P (Called (RevokeByName n) b)) \<Longrightarrow> (\<And>b. P (Called (MintAigToken n) b)) \<Longrightarrow> emits P (mint_gateway_token S C n)"
  unfolding mint_gateway_token_def revokeByName_def by (intro emits_intro)

lemma emits_retrying:
  "(\<And>k s. emits P (body k started s)) \<Longrightarrow> (\<And>k e s. emits P (gave_up k e s)) \<Longrightarrow> (\<And>ms. P (Slept ms)) \<Longrightarrow>
    emits P (retrying body gave_up deadline started rounds attempts s)"
  by (induction rounds arbitrary: attempts s) (auto intro!: emits_intro)

lemma emits_install [emits_intro]:
  assumes "\<And>m p b x. P (Called (StudioCall script m p tok b) x)" "P Observed" "\<And>ms. P (Slept ms)"
  shows "emits P (installTenantModules S tid script tok)"
  unfolding installTenantModules_def awaitStudioTokenLive_def token_round_def token_gave_up_def install_module_def Let_def
  by (intro emits_intro emits_retrying assms)

lemma emits_verify_modules [emits_intro]:
  "(\<And>m p b x. P (Called (StudioCall script m p tok b) x)) \<Longrightarrow> emits P (verifyTenantModulesInstalled S script tok)"
  unfolding verifyTenantModulesInstalled_def verify_error_def by (intro emits_intro)

lemma emits_require [emits_intro]: "emits P (require_all msg needed present)"
  unfolding require_all_def failing_def by (intro emits_intro)

lemma emits_verify [emits_intro]:
  assumes "\<And>m p b x. P (Called (StudioCall script m p tok b) x)" "\<And>b. P (Called (GetBindings (c_namespace C) script) b)"
    "\<And>b. P (Called (GetSecretNames (c_namespace C) script) b)"
  shows "emits P (verify_studio S C script endpoints tok)"
  unfolding verify_studio_def failing_def by (intro emits_intro assms)

lemma emits_migrations [emits_intro]:
  "(\<And>q ps b. P (Called (QueryD1 d q ps) b)) \<Longrightarrow> emits P (applyStudioMigrations num S d ms)"
  unfolding applyStudioMigrations_def seed_migrations_def apply_all_def apply_migration_def Let_def by (intro emits_intro)

lemma emits_assets [emits_intro]:
  "(\<And>n s m b. P (Called (AssetsSession n s m) b)) \<Longrightarrow> (\<And>j fs b. P (Called (AssetsBucket j fs) b)) \<Longrightarrow>
    emits P (uploadStudioAssets S C slug assets)"
  unfolding uploadStudioAssets_def upload_bucket_def Let_def by (intro emits_intro)

lemma emits_encrypt [emits_intro]: "P Observed \<Longrightarrow> emits P (encrypt_token S C tok)"
  unfolding encrypt_token_def by (intro emits_intro)

lemma emits_studio_script [emits_intro]: "(\<And>b. P (Called (UploadWorker u) b)) \<Longrightarrow> emits P (uploadStudioScript S u)"
  unfolding uploadStudioScript_def uploadUserWorker_def by (intro emits_intro)

lemma provision_studio: "emits (provision_event C (t_id t) (t_slug t) job) (upload_studio S C t release built quota uuid endpoints token)"
  unfolding upload_studio_def Let_def by (intro emits_intro) simp_all

lemma provision_open: "emits (provision_event C (t_id t) (t_slug t) job) (open_stage S C job t release)"
  unfolding open_stage_def fetch_studio_def assertDispositionCoversContract_def failing_def by (intro emits_intro) simp_all

lemma provision_database: "run_emits (provision_event C (t_id t) (t_slug t) job) (database_stage S job t started resumed)"
  unfolding run_emits_def database_stage_def
  by (intro allI emits_if emits_ret run_steps run_intro emits_intro) simp_all

lemma emits_resolve [emits_intro]:
  assumes "P StoreFailed" "\<And>now. P (Wrote now (OSetRunPodMode (t_id t) Shared))" "\<And>now e. P (Wrote now (OSetEndpoints (t_id t) e))"
  shows "emits P (resolve_endpoints S C t resolved)"
  unfolding resolve_endpoints_def failing_def by (intro emits_intro assms)

lemma provision_endpoints: "run_emits (provision_event C (t_id t) (t_slug t) job) (endpoints_stage S C t)"
  unfolding run_emits_def endpoints_stage_def by (intro allI run_steps run_intro emits_intro) simp_all

lemma provision_stages:
  "run_emits (provision_event C (t_id t) (t_slug t) job) (migrate_stage S C job started resumed uuid ms)"
  "run_emits (provision_event C (t_id t) (t_slug t) job) (bucket_stage S job t started resumed)"
  "run_emits (provision_event C (t_id t) (t_slug t) job) (token_stage S C job t started resumed)"
  unfolding migrate_stage_def bucket_stage_def token_stage_def mintBucketToken_def Let_def
  by (intro run_intro emits_intro; simp)+

lemma provision_modules:
  "run_emits (provision_event C (t_id t) (t_slug t) job)
    (modules_stage S C job t started resumed release endpoints mode uuid tokenId tok)"
  unfolding modules_stage_def revoke_previous_def revokeToken_def Let_def
  by (intro run_intro emits_intro provision_upload) simp_all

lemma provision_body_emits:
  "run_emits (provision_event C (t_id t) (t_slug t) job) (provision_body S C job t started resumed release)"
  unfolding provision_body_def
  by (intro run_intro emits_intro provision_open provision_database provision_stages provision_endpoints provision_studio
      provision_modules) simp_all

lemma emits_provision: "emits (provision_event C (t_id t) (t_slug t) job) (runProvisionJob S C job t resume)"
  unfolding runProvisionJob_def
  by (intro emits_andThen emits_clock run_steps provision_body_emits emits_closing) simp

lemma run_module_steps:
  assumes "P StoreFailed" "P Observed" "\<And>ms. P (Slept ms)" "\<And>now step xs. P (Wrote now (OProgress j step xs))"
    "\<And>c b. (\<forall>u. c \<noteq> UploadWorker u) \<Longrightarrow> P (Called c b)"
    "\<And>aig. emits P (uploadTenantModules S C (ma_release a) (ma_tenantId a) (ma_slug a) (ma_endpoints a) (ma_d1 a) (ma_bucket a)
        (ma_mode a) (ma_prefetched a) aig)"
    "\<And>step m. run_emits P m \<Longrightarrow> run_emits P (due step m)"
  shows "run_emits P (runModuleSteps S C a due (mark_next S j started))"
  unfolding runModuleSteps_def by (intro run_intro assms(7) emits_intro assms(1-6)) simp_all

lemma provision_other_call: "\<forall>u. c \<noteq> UploadWorker u \<Longrightarrow> provision_event C tid slug job (Called c b)"
  by (cases c) simp_all

lemma provision_resume:
  "run_emits (provision_event C (t_id t) (t_slug t) job) (resume_early S C job t row)"
  "run_emits (provision_event C (t_id t) (t_slug t) job) (resume_modules S C job t started)"
proof -
  show "run_emits (provision_event C (t_id t) (t_slug t) job) (resume_early S C job t row)"
    unfolding run_emits_def resume_early_def failing_def
    by (intro allI emits_if emits_option run_steps run_intro emits_intro emits_provision)
  show "run_emits (provision_event C (t_id t) (t_slug t) job) (resume_modules S C job t started)"
    unfolding run_emits_def resume_modules_def failing_def
    by (intro allI emits_if emits_option run_steps run_intro run_module_steps emits_intro; (simp add: provision_upload provision_other_call)?)
qed

lemma emits_continue: "emits (provision_event C (t_id t) (t_slug t) job) (continueProvisionJob S C job t stepsDone)"
proof -
  have "run_emits (provision_event C (t_id t) (t_slug t) job) (continue_body S C job t started)" for started
    unfolding run_emits_def continue_body_def failing_def
    by (intro allI emits_if run_steps run_intro emits_intro provision_resume) simp_all
  then show ?thesis
    unfolding continueProvisionJob_def by (intro emits_andThen emits_clock run_steps emits_closing) simp_all
qed

text \<open>
  C9: a provision keeps to its own tenant and never takes it live.  Whatever the services answer and
  wherever the store fails, a provision or a continued one writes only the tenant's row and its own job,
  sets no status but provisioning, waiting for go-live and failed, uploads only the tenant's studio and
  module Workers, and its effect on the store is the sequence of those writes.
\<close>

theorem provision_stays_with_its_tenant:
  "list_all (provision_event C (t_id t) (t_slug t) job) (did (runProvisionJob S C job t resume) w)
   \<and> w_db (snd (runProvisionJob S C job t resume w)) = run_ops (writes (did (runProvisionJob S C job t resume) w)) (w_db w)
   \<and> list_all (provision_event C (t_id t) (t_slug t) job) (did (continueProvisionJob S C job t stepsDone) w)
   \<and> w_db (snd (continueProvisionJob S C job t stepsDone w))
     = run_ops (writes (did (continueProvisionJob S C job t stepsDone) w)) (w_db w)"
  by (intro conjI emitsD(1,3) [OF emits_provision] emitsD(1,3) [OF emits_continue])

section \<open>The progress record\<close>

text \<open>Every recorded progress is an initial segment of the plan that holds the step just finished.\<close>

fun in_order :: "event \<Rightarrow> bool" where
  "in_order (Wrote now (OProgress job step xs)) \<longleftrightarrow>
     (\<exists>n. xs = stringify_list (take n PROVISION_STEPS) \<and> step \<in> set (take n PROVISION_STEPS))"
| "in_order _ \<longleftrightarrow> True"

text \<open>
  A run from an initial segment of the plan, as long as the first predicate says: its records are in order,
  and the segment it leaves is as long as the second one says, when it ends normally.
\<close>

definition marks :: "(nat \<Rightarrow> bool) \<Rightarrow> 'a run \<Rightarrow> (nat \<Rightarrow> bool) \<Rightarrow> bool" where
  "marks I m K \<longleftrightarrow> (\<forall>steps w. contiguous steps \<longrightarrow> I (length steps) \<longrightarrow>
     (\<exists>es. w_trace (snd (m steps w)) = w_trace w @ es \<and> list_all in_order es)
     \<and> (\<forall>x steps'. fst (m steps w) = Inr (x, steps') \<longrightarrow> contiguous steps' \<and> (\<not> isl x \<longrightarrow> K (length steps'))))"

definition reached :: "nat \<Rightarrow> nat \<Rightarrow> bool" where
  "reached i n \<longleftrightarrow> i \<le> n"

named_theorems marks_intro

lemma marksD:
  assumes "marks I m K" "contiguous steps" "I (length steps)"
  shows "\<exists>es. w_trace (snd (m steps w)) = w_trace w @ es \<and> list_all in_order es"
    "fst (m steps w) = Inr (x, steps') \<Longrightarrow> contiguous steps'"
    "fst (m steps w) = Inr (Inr y, steps') \<Longrightarrow> K (length steps')"
  using assms unfolding marks_def by (blast, blast, metis sum.disc(2))

lemma marks_doing [marks_intro]:
  assumes "emits in_order m" "\<And>n. I n \<Longrightarrow> K n"
  shows "marks I (doing m) K"
  unfolding marks_def doing_def
proof (intro allI impI conjI)
  fix steps w
  show "\<exists>es. w_trace (snd (andThen (attempted m) (\<lambda>r. ret (r, steps)) w)) = w_trace w @ es \<and> list_all in_order es"
    using emitsD(1,2) [OF assms(1), of w] by (auto simp: andThen_def attempted_def ret_def split: prod.splits)
qed (use assms(2) in \<open>auto simp: andThen_def attempted_def ret_def split: prod.splits\<close>)

lemma marks_afterwards [marks_intro]:
  assumes "marks I m J" "\<And>x. marks J (f x) K"
  shows "marks I (afterwards m f) K"
  unfolding marks_def
proof (intro allI impI)
  fix steps w
  assume pre: "contiguous steps" "I (length steps)"
  note m = marksD [OF assms(1) pre, of w]
  obtain es where es: "w_trace (snd (m steps w)) = w_trace w @ es" "list_all in_order es" using m(1) by blast
  show "(\<exists>es. w_trace (snd (afterwards m f steps w)) = w_trace w @ es \<and> list_all in_order es)
    \<and> (\<forall>x steps'. fst (afterwards m f steps w) = Inr (x, steps') \<longrightarrow> contiguous steps' \<and> (\<not> isl x \<longrightarrow> K (length steps')))"
  proof (cases "\<exists>y s1. fst (m steps w) = Inr (Inr y, s1)")
    case True
    then obtain y s1 where y: "fst (m steps w) = Inr (Inr y, s1)" by blast
    then have s1: "contiguous s1" "J (length s1)" using m(2,3) by blast+
    have run: "afterwards m f steps w = f y s1 (snd (m steps w))"
      using y by (cases "m steps w") (simp add: afterwards_def andThen_def)
    obtain es' where "w_trace (snd (f y s1 (snd (m steps w)))) = w_trace (snd (m steps w)) @ es'" "list_all in_order es'"
      using marksD(1) [OF assms(2) s1] by blast
    with es have "\<exists>es. w_trace (snd (afterwards m f steps w)) = w_trace w @ es \<and> list_all in_order es"
      unfolding run by (intro exI [of _ "es @ es'"]) simp
    then show ?thesis unfolding run using assms(2) [of y] s1 unfolding marks_def by blast
  next
    case False
    then have "(\<exists>e s1. afterwards m f steps w = (Inr (Inl e, s1), snd (m steps w)) \<and> fst (m steps w) = Inr (Inl e, s1))
        \<or> (\<exists>e. afterwards m f steps w = (Inl e, snd (m steps w)))"
      by (cases "m steps w") (auto simp: afterwards_def andThen_def ret_def split: sum.splits prod.splits)
    then show ?thesis using es m(2) by auto
  qed
qed

lemma marks_weaken: "marks I m K \<Longrightarrow> (\<And>n. I' n \<Longrightarrow> I n) \<Longrightarrow> marks I' m K"
  unfolding marks_def by blast

lemma steps_distinct: "distinct PROVISION_STEPS"
  by (simp add: PROVISION_STEPS_def)

lemma contiguous_length: "contiguous steps \<Longrightarrow> length steps \<le> length PROVISION_STEPS"
  unfolding contiguous_def by (metis length_take min.cobounded1)

lemma step_done_iff:
  assumes "contiguous steps" "i < length PROVISION_STEPS" "PROVISION_STEPS ! i = step"
  shows "step \<in> set steps \<longleftrightarrow> i < length steps"
proof
  assume "step \<in> set steps"
  then obtain j where "j < length steps" "steps ! j = step" by (auto simp: in_set_conv_nth)
  moreover have "steps ! j = PROVISION_STEPS ! j" using assms(1) calculation(1) unfolding contiguous_def by (metis nth_take)
  ultimately have "i = j"
    using assms(2,3) nth_eq_iff_index_eq [OF steps_distinct, of i j] contiguous_length [OF assms(1)] by simp
  with \<open>j < length steps\<close> show "i < length steps" by simp
next
  assume "i < length steps"
  then have "steps ! i = step" using assms(1,3) unfolding contiguous_def by (metis nth_take)
  with \<open>i < length steps\<close> show "step \<in> set steps" by (metis nth_mem)
qed

lemma contiguous_snoc:
  assumes "contiguous steps" "length steps < length PROVISION_STEPS" "PROVISION_STEPS ! length steps = step"
  shows "contiguous (steps @ [step])"
proof -
  have "take (Suc (length steps)) PROVISION_STEPS = take (length steps) PROVISION_STEPS @ [PROVISION_STEPS ! length steps]"
    using assms(2) by (rule take_Suc_conv_app_nth)
  then show ?thesis using assms(1,3) by (simp add: contiguous_def)
qed

lemma emits_recorded:
  assumes "contiguous steps" "step \<in> set steps"
  shows "emits in_order (record_progress S job started unsafe step steps)"
proof -
  have "in_order (Wrote now (OProgress job step (stringify_list steps)))" for now
    using assms unfolding contiguous_def by (auto intro!: exI [of _ "length steps"])
  then show ?thesis by (intro emits_intro) simp_all
qed

lemma doing_run:
  assumes "emits in_order m"
  shows "\<exists>es. w_trace (snd (doing m steps w)) = w_trace w @ es \<and> list_all in_order es"
    "fst (doing m steps w) = Inr (x, steps') \<Longrightarrow> steps' = steps"
  using emitsD(1,2) [OF assms, of w] by (auto simp: doing_def andThen_def attempted_def ret_def split: prod.splits)

lemma marks_mark:
  assumes "i < length PROVISION_STEPS" "PROVISION_STEPS ! i = step" "k = Suc i"
  shows "marks (reached i) (mark S job started resumed step) (reached k)"
  unfolding marks_def mark_def Let_def
proof (intro allI impI)
  fix steps w
  assume "contiguous steps" "reached i (length steps)"
  then have pre: "contiguous steps" "i \<le> length steps" by (simp_all add: reached_def)
  let ?steps = "if step \<in> set steps then steps else steps @ [step]"
  have "contiguous ?steps \<and> reached k (length ?steps)"
  proof (cases "i = length steps")
    case True
    then have "step \<notin> set steps" using step_done_iff [OF pre(1) assms(1,2)] by simp
    then show ?thesis using True contiguous_snoc [OF pre(1), of step] assms by (simp add: reached_def)
  next
    case False
    then have "step \<in> set steps" using step_done_iff [OF pre(1) assms(1,2)] pre(2) by simp
    then show ?thesis using pre False assms(3) by (simp add: reached_def)
  qed
  moreover have "emits in_order (record_progress S job started unsafe step ?steps)" for unsafe
    using calculation by (intro emits_recorded) simp_all
  ultimately show "(\<exists>es. w_trace (snd (doing (record_progress S job started
      (step \<in> set YIELD_UNSAFE_STEPS \<or> resumed \<and> step = ''r2_token'') step ?steps) ?steps w)) = w_trace w @ es \<and> list_all in_order es)
    \<and> (\<forall>x steps'. fst (doing (record_progress S job started
      (step \<in> set YIELD_UNSAFE_STEPS \<or> resumed \<and> step = ''r2_token'') step ?steps) ?steps w) = Inr (x, steps')
        \<longrightarrow> contiguous steps' \<and> (\<not> isl x \<longrightarrow> reached k (length steps')))"
    using doing_run by blast
qed

lemma marks_next:
  assumes "i < length PROVISION_STEPS" "PROVISION_STEPS ! i = step" "k = Suc i"
  shows "marks (\<lambda>n. n = i) (mark_next S job started step) (reached k)"
  unfolding marks_def mark_next_def
proof (intro allI impI)
  fix steps w
  assume pre: "contiguous steps" "length steps = i"
  have "contiguous (steps @ [step])" using contiguous_snoc [OF pre(1), of step] assms pre(2) by simp
  moreover have "emits in_order (record_progress S job started (step \<in> set YIELD_UNSAFE_STEPS) step (steps @ [step]))"
    using calculation by (intro emits_recorded) simp_all
  ultimately show "(\<exists>es. w_trace (snd (doing (record_progress S job started (step \<in> set YIELD_UNSAFE_STEPS) step (steps @ [step]))
      (steps @ [step]) w)) = w_trace w @ es \<and> list_all in_order es)
    \<and> (\<forall>x steps'. fst (doing (record_progress S job started (step \<in> set YIELD_UNSAFE_STEPS) step (steps @ [step])) (steps @ [step]) w)
        = Inr (x, steps') \<longrightarrow> contiguous steps' \<and> (\<not> isl x \<longrightarrow> reached k (length steps')))"
    using doing_run pre(2) assms(3) by (metis length_append_singleton order_refl reached_def)
qed

lemma marks_split:
  assumes "i < length PROVISION_STEPS" "PROVISION_STEPS ! i = step" "k = Suc i"
    and "marks (reached k) m K" "marks (\<lambda>n. n = i) m' K"
  shows "marks (reached i) (\<lambda>steps. if step \<in> set steps then m steps else m' steps) K"
  unfolding marks_def
proof (intro allI impI)
  fix steps w
  assume pre: "contiguous steps" "reached i (length steps)"
  show "(\<exists>es. w_trace (snd ((if step \<in> set steps then m steps else m' steps) w)) = w_trace w @ es \<and> list_all in_order es)
    \<and> (\<forall>x steps'. fst ((if step \<in> set steps then m steps else m' steps) w) = Inr (x, steps')
        \<longrightarrow> contiguous steps' \<and> (\<not> isl x \<longrightarrow> K (length steps')))"
  proof (cases "step \<in> set steps")
    case True
    then have "reached k (length steps)" using step_done_iff [OF pre(1) assms(1,2)] assms(3) by (simp add: reached_def)
    then show ?thesis using True assms(4) pre(1) unfolding marks_def by auto
  next
    case False
    then have "length steps = i" using step_done_iff [OF pre(1) assms(1,2)] pre(2) by (simp add: reached_def)
    then show ?thesis using False assms(5) pre(1) unfolding marks_def by auto
  qed
qed

lemma doing_ret: "doing (ret x) steps = ret (Inr x, steps)"
  by (rule ext) (simp add: doing_def andThen_def attempted_def ret_def)

lemma marks_unless:
  assumes "i < length PROVISION_STEPS" "PROVISION_STEPS ! i = step" "k = Suc i" "marks (\<lambda>n. n = i) m (reached k)"
  shows "marks (reached i) (unless_done step m) (reached k)"
proof -
  have "marks (reached k) (doing (ret ())) (reached k)" by (intro marks_doing emits_ret)
  from marks_split [OF assms(1-3) this assms(4), unfolded doing_ret] show ?thesis by (simp add: unless_done_def [abs_def])
qed

text \<open>The nine steps.\<close>

lemmas step_index = PROVISION_STEPS_def eval_nat_numeral

lemma mark_steps [marks_intro]:
  "marks (reached 0) (mark S job started resumed ''d1_create'') (reached 1)"
  "marks (reached 1) (mark S job started resumed ''d1_migrate'') (reached 2)"
  "marks (reached 2) (mark S job started resumed ''r2_bucket'') (reached 3)"
  "marks (reached 3) (mark S job started resumed ''r2_token'') (reached 4)"
  "marks (reached 4) (mark S job started resumed ''runpod_endpoints'') (reached 5)"
  "marks (reached 5) (mark S job started resumed ''wfp_upload'') (reached 6)"
  "marks (reached 6) (mark S job started resumed ''modules_upload'') (reached 7)"
  "marks (reached 7) (mark S job started resumed ''modules_install'') (reached 8)"
  "marks (reached 8) (mark S job started resumed ''verify'') (reached 9)"
  by (rule marks_mark; simp add: step_index)+

lemma emits_in_order:
  assumes "emits P m" "\<And>e. P e \<Longrightarrow> in_order e"
  shows "emits in_order m"
  using assms by (rule emits_weaken)

lemma in_order_call [simp]: "in_order (Called c b)" "in_order Observed" "in_order StoreFailed" "in_order (Slept ms)"
  by simp_all

lemma confined_in_order: "confined C mode tid d1 bucket aig e \<Longrightarrow> in_order e"
  by (cases "(C, mode, tid, d1, bucket, aig, e)" rule: confined.cases) auto

lemma spares_in_order: "spares S ns mns db t e \<Longrightarrow> in_order e"
  by (cases "(S, ns, mns, db, t, e)" rule: spares.cases) auto

lemmas in_order_upload = emits_in_order [OF emits_upload_modules confined_in_order]

lemma in_order_teardown: "emits in_order (teardownTenant S ns mns t deleteData ign)"
  using spares_teardown spares_in_order by (rule emits_from_at)

lemma in_order_pieces:
  "emits in_order (open_stage S C job t release)"
  "emits in_order (upload_studio S C t release built quota uuid endpoints token)"
  "emits in_order (revoke_previous S t tokenId)"
  "emits in_order (rollbackFailedProvision S C tid)"
  unfolding open_stage_def fetch_studio_def assertDispositionCoversContract_def failing_def upload_studio_def Let_def
    revoke_previous_def revokeToken_def rollbackFailedProvision_def
  by (intro emits_intro in_order_teardown; simp)+

lemma in_order_closing: "emits in_order (closing S C job tid r)"
  unfolding closing_def close_failed_def
  by (intro emits_prod emits_sum emits_ret) (auto intro!: emits_intro in_order_pieces split: exn.split)

lemma marks_then_return:
  "marks I m K \<Longrightarrow> marks I (afterwards m (\<lambda>_. doing (ret x))) K"
  by (erule marks_afterwards) (intro marks_doing emits_ret)

lemma marks_work:
  assumes "emits in_order m" "\<And>x. marks (reached i) (f x) K"
  shows "marks (reached i) (afterwards (doing m) f) K" "marks (\<lambda>n. n = i) (afterwards (doing m) f) K"
  using assms(2) by (rule marks_afterwards [rotated], intro marks_doing assms(1), simp add: reached_def)+

lemma marks_database: "marks (reached 0) (database_stage S job t started resumed) (reached 1)"
proof -
  let ?make = "afterwards (doing
      (andThen (calling (CreateD1 (tenantD1Name (t_slug t))) (\<lambda>tr. s_createD1 S tr (tenantD1Name (t_slug t)))) (\<lambda>uuid.
       andThen (wrote S (OSetD1 (t_id t) uuid)) (\<lambda>_. ret uuid)))) (\<lambda>uuid.
      afterwards (mark S job started resumed ''d1_create'') (\<lambda>_. doing (ret uuid)))"
  have "marks (reached 1) (doing (ret (or_blank (t_d1_database_id t)))) (reached 1)" by (intro marks_doing emits_ret)
  moreover have "marks (\<lambda>n. n = 0) ?make (reached 1)"
    by (intro marks_work emits_intro marks_then_return mark_steps) simp_all
  ultimately have "marks (reached 0) (\<lambda>steps. if ''d1_create'' \<in> set steps then doing (ret (or_blank (t_d1_database_id t))) steps
      else ?make steps) (reached 1)"
    by (rule marks_split [rotated 3]) (simp_all add: PROVISION_STEPS_def)
  then show ?thesis unfolding database_stage_def [abs_def] doing_ret .
qed

lemma marks_migrate: "marks (reached 1) (migrate_stage S C job started resumed uuid ms) (reached 2)"
  unfolding migrate_stage_def
  by (rule marks_unless [where i = 1]) (auto simp: step_index intro!: marks_work emits_intro mark_steps [simplified])

lemma marks_bucket: "marks (reached 2) (bucket_stage S job t started resumed) (reached 3)"
  unfolding bucket_stage_def Let_def
  by (rule marks_unless [where i = 2]) (auto simp: step_index intro!: marks_work emits_intro mark_steps [simplified])

lemma marks_token: "marks (reached 3) (token_stage S C job t started resumed) (reached 4)"
  unfolding token_stage_def mintBucketToken_def
  by (intro marks_work(1) marks_then_return mark_steps emits_intro) simp_all

lemma marks_endpoints: "marks (reached 4) (endpoints_stage S C t) (reached 4)"
proof -
  have "emits in_order (resolve_endpoints S C t b)" for b by (intro emits_intro) simp_all
  then show ?thesis unfolding marks_def endpoints_stage_def using doing_run by blast
qed

lemma marks_modules:
  "marks (reached 6) (modules_stage S C job t started resumed release endpoints mode uuid tokenId tok) (reached 9)"
  unfolding modules_stage_def Let_def
  by (intro marks_work(1) marks_afterwards [OF mark_steps(7)] marks_afterwards [OF mark_steps(8)] marks_afterwards [OF mark_steps(9)]
      marks_doing emits_intro in_order_upload in_order_pieces) simp_all

lemma marks_any: "marks I m K \<Longrightarrow> marks I m (\<lambda>n. True)"
  unfolding marks_def by blast

lemma marks_body: "marks (reached 0) (provision_body S C job t started resumed release) (\<lambda>n. True)"
proof -
  have studio: "marks (reached 4) (afterwards (mark S job started resumed ''runpod_endpoints'') (\<lambda>_.
      afterwards (doing (upload_studio S C t release built quota uuid endpoints token)) (\<lambda>tok.
      afterwards (mark S job started resumed ''wfp_upload'') (\<lambda>_.
      modules_stage S C job t started resumed release endpoints mode uuid (fst token) tok)))) (\<lambda>n. True)"
    for built quota uuid endpoints token mode
    by (intro marks_afterwards [OF mark_steps(5)] marks_work(1) marks_afterwards [OF mark_steps(6)] marks_any [OF marks_modules]
        in_order_pieces)
  note studio_pair = studio [of _ _ _ _ "(i, v)" for i v, unfolded fst_conv]
  have none: "marks (reached 4) (doing (ret x)) (\<lambda>n. True)" for x :: provision_outcome by (intro marks_doing emits_ret) simp
  show ?thesis
    unfolding provision_body_def
    by (intro marks_work(1) in_order_pieces)
      (auto intro!: marks_afterwards [OF marks_database] marks_afterwards [OF marks_migrate] marks_afterwards [OF marks_bucket]
        marks_afterwards [OF marks_token] marks_afterwards [OF marks_endpoints] studio_pair none split: prod.split option.split)
qed

lemma tracks_all: "emits P m \<Longrightarrow> tracks (list_all P) m"
  unfolding tracks_def using emitsD(1,2) by blast

lemma tracks_all_andThen:
  assumes "tracks (list_all P) m" "\<And>x. tracks (list_all P) (f x)"
  shows "tracks (list_all P) (andThen m f)"
  unfolding tracks_def
proof
  fix w
  obtain es where es: "w_trace (snd (m w)) = w_trace w @ es" "list_all P es" using assms(1) unfolding tracks_def by blast
  show "\<exists>es. w_trace (snd (andThen m f w)) = w_trace w @ es \<and> list_all P es"
  proof (cases "fst (m w)")
    case (Inr x)
    obtain es' where "w_trace (snd (f x (snd (m w)))) = w_trace (snd (m w)) @ es'" "list_all P es'"
      using assms(2) unfolding tracks_def by blast
    then show ?thesis using Inr es by (intro exI [of _ "es @ es'"]) (simp add: andThen_def case_prod_beta)
  qed (use es in \<open>auto simp: andThen_def case_prod_beta\<close>)
qed

lemma tracks_doing:
  assumes "tracks R m"
  shows "tracks R (doing m steps)"
proof -
  have "snd (doing m steps w) = snd (m w)" for w
    by (simp add: doing_def andThen_def attempted_def ret_def case_prod_beta)
  then show ?thesis using assms unfolding tracks_def by simp
qed

lemma tracks_afterwards:
  assumes "emits P m" "\<And>x. tracks (list_all P) (f x steps)"
  shows "tracks (list_all P) (afterwards (doing m) f steps)"
proof -
  have "afterwards (doing m) f steps = andThen (attempted m) (\<lambda>r. case r of Inl e \<Rightarrow> ret (Inl e, steps) | Inr x \<Rightarrow> f x steps)"
    by (rule ext) (simp add: afterwards_def doing_def andThen_def attempted_def ret_def case_prod_beta)
  moreover have "tracks (list_all P) (attempted m)" using assms(1) by (intro tracks_all emits_attempted)
  moreover have "tracks (list_all P) (case r of Inl e \<Rightarrow> ret (Inl e, steps) | Inr x \<Rightarrow> f x steps)" for r
    using assms(2) by (cases r) (auto intro: tracks_all emits_ret)
  ultimately show ?thesis using tracks_all_andThen by metis
qed

lemma marks_tracks: "marks I m K \<Longrightarrow> contiguous steps \<Longrightarrow> I (length steps) \<Longrightarrow> tracks (list_all in_order) (m steps)"
  unfolding tracks_def using marksD(1) by blast

lemma tracks_provision:
  assumes "\<And>steps release. resume = Some (steps, release) \<Longrightarrow> contiguous steps"
  shows "tracks (list_all in_order) (runProvisionJob S C job t resume)"
proof -
  have "contiguous (case resume of Some (steps, _) \<Rightarrow> steps | None \<Rightarrow> [])"
    using assms by (auto simp: contiguous_def split: option.split)
  then show ?thesis
    unfolding runProvisionJob_def
    by (intro tracks_all_andThen tracks_all [OF emits_clock] marks_tracks [OF marks_body] tracks_all [OF in_order_closing])
      (simp_all add: reached_def)
qed

lemma next_steps:
  "marks (\<lambda>n. n = 6) (mark_next S job started ''modules_upload'') (reached 7)"
  "marks (\<lambda>n. n = 7) (mark_next S job started ''modules_install'') (reached 8)"
  "marks (\<lambda>n. n = 8) (mark_next S job started ''verify'') (reached 9)"
  by (rule marks_next; simp add: step_index)+

lemma marks_work_at:
  "emits in_order m \<Longrightarrow> (\<And>x. marks (\<lambda>n. n = i) (f x) K) \<Longrightarrow> marks (\<lambda>n. n = i) (afterwards (doing m) f) K"
  by (rule marks_afterwards [where J = "\<lambda>n. n = i"], intro marks_doing) simp_all

lemma marks_module_steps: "marks (reached 6) (runModuleSteps S C a unless_done (mark_next S job started)) (reached 9)"
  unfolding runModuleSteps_def
proof (rule marks_afterwards [where J = "reached 7"], goal_cases)
  case 1
  show ?case by (rule marks_unless [where i = 6]; (intro marks_work_at next_steps emits_intro in_order_upload)?; simp add: step_index)
next
  case 2
  show ?case
  proof (rule marks_afterwards [where J = "reached 8"], goal_cases)
    case 1
    show ?case by (rule marks_unless [where i = 7]; (intro marks_work_at next_steps emits_intro)?; simp add: step_index)
  next
    case 2
    show ?case by (rule marks_unless [where i = 8]; (intro marks_work_at next_steps emits_intro)?; simp add: step_index)
  qed
qed

lemma tracks_if: "(b \<Longrightarrow> tracks R m) \<Longrightarrow> (\<not> b \<Longrightarrow> tracks R n) \<Longrightarrow> tracks R (if b then m else n)"
  by simp

lemma tracks_resume_modules:
  assumes "contiguous steps" "''wfp_upload'' \<in> set steps"
  shows "tracks (list_all in_order) (resume_modules S C job t started steps)"
proof -
  have "5 < length steps" using step_done_iff [OF assms(1), of 5] assms(2) by (simp add: step_index)
  then have six: "reached 6 (length steps)" by (simp add: reached_def)
  have "marks (reached 6) (afterwards (runModuleSteps S C a unless_done (mark_next S job started)) (\<lambda>_. doing
      (andThen (wrote S (OSetModulesRelease (t_id t) (t_studio_release t))) (\<lambda>_.
       andThen (wrote S (OSetStatus (t_id t) AwaitingGoLive)) (\<lambda>_.
       andThen (finish_job S job True None None) (\<lambda>_. ret ProvisionOk)))))) (reached 9)" for a
    by (intro marks_afterwards [OF marks_module_steps] marks_doing emits_intro) simp_all
  note modules = marks_tracks [OF this assms(1) six]
  have "tracks (list_all in_order) (doing (raise e :: provision_outcome prog) steps)" for e
    by (intro tracks_doing tracks_all emits_raise)
  then show ?thesis
    unfolding resume_modules_def failing_def using modules by (simp split: option.split)
qed

lemma tracks_resume_early:
  assumes "contiguous steps"
  shows "tracks (list_all in_order) (resume_early S C job t row steps)"
proof -
  have "tracks (list_all in_order) (doing (raise e :: provision_outcome prog) steps)" for e
    by (intro tracks_doing tracks_all emits_raise)
  moreover have "tracks (list_all in_order) (doing (runProvisionJob S C job t (Some (steps, r))) steps)" for r
    using assms by (intro tracks_doing tracks_provision) simp
  ultimately show ?thesis unfolding resume_early_def failing_def by (simp split: option.split)
qed

lemma tracks_continue: "tracks (list_all in_order) (continueProvisionJob S C job t stepsDone)"
proof -
  have "tracks (list_all in_order) (continue_body S C job t started steps)" for started steps
    unfolding continue_body_def failing_def
  proof (intro tracks_if, goal_cases)
    case 3
    have "tracks (list_all in_order) ((case found of None \<Rightarrow> doing (raise (ProvisionFailure (inferStep steps) (job_gone job)))
        | Some row \<Rightarrow> if ''wfp_upload'' \<notin> set steps then resume_early S C job t row else resume_modules S C job t started) steps)" for found
    proof (cases found)
      case None
      have "tracks (list_all in_order) (doing (raise e :: provision_outcome prog) steps)" for e
        by (intro tracks_doing tracks_all emits_raise)
      with None show ?thesis by simp
    next
      case (Some row)
      with 3 show ?thesis using tracks_resume_early [of steps] tracks_resume_modules [of steps] by simp
    qed
    then show ?case by (intro tracks_afterwards emits_intro) simp_all
  qed (intro tracks_doing tracks_all emits_raise)+
  then show ?thesis
    unfolding continueProvisionJob_def
    by (intro tracks_all_andThen tracks_all [OF emits_clock] tracks_all [OF in_order_closing]) simp_all
qed

text \<open>
  C22: progress is recorded in the order of the plan.  Every progress a run writes, of a fresh provision, of
  one that is resumed and of one that is continued, whatever fails in between, is an initial segment of the
  nine steps and holds the step just finished; a later run can always read off where to go on.
\<close>

theorem progress_in_order:
  assumes "\<And>steps release. resume = Some (steps, release) \<Longrightarrow> contiguous steps"
  shows "list_all in_order (did (runProvisionJob S C job t resume) w)
    \<and> list_all in_order (did (continueProvisionJob S C job t stepsDone) w)"
proof -
  have *: "list_all in_order (did m w)" if "tracks (list_all in_order) m" for m :: "provision_outcome prog"
  proof -
    obtain es where "w_trace (snd (m w)) = w_trace w @ es" "list_all in_order es" using \<open>tracks _ m\<close> unfolding tracks_def by blast
    then show ?thesis by (simp add: did_def)
  qed
  show ?thesis using * [OF tracks_provision] * [OF tracks_continue] assms by blast
qed

theorem progress_in_order_witness:
  "list_all in_order (did (runProvisionJob calm_services ex_plane ''job_1'' ex_tenant (Some ([''d1_create''], ''v1''))) (ex_world []))
    \<and> list_all in_order (did (continueProvisionJob calm_services ex_plane ''job_1'' ex_tenant []) (ex_world []))"
  by (rule progress_in_order) (simp add: contiguous_def PROVISION_STEPS_def)

end
