(* ===== verification/ProvisionOutcome.thy ===== *)
theory ProvisionOutcome
  imports Provision
begin

text \<open>
  How a provision ends: what a run that succeeds has verified and leaves, what a run that fails leaves, and
  what a module upgrade asks for.
\<close>

section \<open>How a run ends\<close>

text \<open>
  What the services said of a studio that passed verification: every binding and secret it needs is there,
  its root answers, and it lists at least one installed module.
\<close>

definition verified :: "services \<Rightarrow> plane \<Rightarrow> string \<Rightarrow> endpoint list \<Rightarrow> bool" where
  "verified S C script endpoints \<longleftrightarrow>
     (\<exists>tr bs. s_getBindings S tr (c_namespace C) script = Inr bs \<and> set (required_bindings endpoints) \<subseteq> set (map fst bs))
     \<and> (\<exists>tr secrets. s_getSecretNames S tr (c_namespace C) script = Inr secrets
          \<and> set [''R2_S3_SECRET_ACCESS_KEY'', ''STUDIO_API_TOKEN''] \<subseteq> set secrets)
     \<and> (\<exists>tr tok st txt. s_studio S tr script ''GET'' ''/'' tok None = Inr (st, txt) \<and> st < 500)
     \<and> (\<exists>tr tok txt parsed names. s_studio S tr script ''GET'' ''/api/modules/installed'' tok None = Inr (200, txt)
          \<and> JSON_parse txt = Some parsed \<and> installed_names parsed = Some names \<and> names \<noteq> [])"

lemma calling_returns:
  "calling c f w = (Inr x, w') \<longleftrightarrow> f (w_trace w) = Inr x \<and> w' = w\<lparr>w_trace := w_trace w @ [Called c True]\<rparr>"
  by (auto simp: calling_def Let_def)

lemma require_all_returns: "require_all msg needed present w = (Inr x, w') \<longleftrightarrow> set needed \<subseteq> set present \<and> w' = w"
  by (auto simp: require_all_def failing_def ret_def find_None_iff subset_iff split: option.splits dest!: find_SomeD)

lemma verify_modules_returns:
  assumes "verifyTenantModulesInstalled S script tok w = (Inr names, w')"
  shows "\<exists>tr txt parsed. s_studio S tr script ''GET'' ''/api/modules/installed'' tok None = Inr (200, txt)
    \<and> JSON_parse txt = Some parsed \<and> installed_names parsed = Some names \<and> names \<noteq> []"
proof -
  from assms obtain st reply where call: "s_studio S (w_trace w) script ''GET'' ''/api/modules/installed'' tok None = Inr (st, reply)"
    and rest: "(if st \<noteq> 200 then verify_error (''GET /api/modules/installed -> '' @ show_nat st @ '': '' @ take 200 reply)
      else (case JSON_parse reply of None \<Rightarrow> verify_error ''GET /api/modules/installed returned non-JSON''
        | Some parsed \<Rightarrow> (case installed_names parsed of
            None \<Rightarrow> raise (OtherError ''TypeError'' ''modules is not readable'')
          | Some names \<Rightarrow> if names = [] then verify_error ''tenant studio reports zero installed modules after provisioning''
              else ret names)))
      (w\<lparr>w_trace := w_trace w @ [Called (StudioCall script ''GET'' ''/api/modules/installed'' tok None) True]\<rparr>) = (Inr names, w')"
    unfolding verifyTenantModulesInstalled_def callTenantStudio_def by (auto simp only: calling_returns elim!: andThenE)
  from rest obtain parsed where "st = 200" "JSON_parse reply = Some parsed" "installed_names parsed = Some names" "names \<noteq> []"
    unfolding verify_error_def by (auto split: if_splits option.splits)
  with call show ?thesis by blast
qed

lemma calling_thenE:
  assumes "andThen (calling c f) g w = (Inr y, w')"
  obtains x w1 where "f (w_trace w) = Inr x" "g x w1 = (Inr y, w')"
  using assms by (rule andThenE) (simp add: calling_returns that)

lemma require_thenE:
  assumes "andThen (require_all msg needed present) g w = (Inr y, w')"
  obtains "set needed \<subseteq> set present" "g () w = (Inr y, w')"
  using assms by (rule andThenE) (simp add: require_all_returns that)

lemma verify_returns:
  assumes "verify_studio S C script endpoints tok w = (Inr names, w')"
  shows "verified S C script endpoints"
proof -
  from assms obtain bs tr1 secrets tr2 reply tr3 w3 where
      1: "s_getBindings S tr1 (c_namespace C) script = Inr bs" "set (required_bindings endpoints) \<subseteq> set (map fst bs)"
    and 2: "s_getSecretNames S tr2 (c_namespace C) script = Inr secrets"
      "set [''R2_S3_SECRET_ACCESS_KEY'', ''STUDIO_API_TOKEN''] \<subseteq> set secrets"
    and 3: "s_studio S tr3 script ''GET'' ''/'' tok None = Inr reply"
    and rest: "(case reply of (st, txt) \<Rightarrow> if st \<ge> 500 then failing ''verify'' (not_serving st)
      else verifyTenantModulesInstalled S script tok) w3 = (Inr names, w')"
    unfolding verify_studio_def callTenantStudio_def by (elim calling_thenE require_thenE) (rule that)
  then have "fst reply < 500" and modules: "verifyTenantModulesInstalled S script tok w3 = (Inr names, w')"
    by (auto simp: failing_def split: prod.splits if_splits)
  moreover have "s_studio S tr3 script ''GET'' ''/'' tok None = Inr (fst reply, snd reply)" using 3 by simp
  ultimately have "\<exists>tr tok st txt. s_studio S tr script ''GET'' ''/'' tok None = Inr (st, txt) \<and> st < 500" by blast
  with 1 2 verify_modules_returns [OF modules] show ?thesis unfolding verified_def by metis
qed

text \<open>A tenant has the given status and a job is over.\<close>

definition left_as :: "cp_db \<Rightarrow> string \<Rightarrow> lifecycle \<Rightarrow> string \<Rightarrow> bool" where
  "left_as db tid st job \<longleftrightarrow> (\<forall>u \<in> set (d_tenants db). t_id u = tid \<longrightarrow> t_status u = st)
     \<and> (\<forall>j \<in> set (d_jobs db). j_id j = job \<longrightarrow> \<not> active_job j)"

lemma finishJob_over: "j \<in> set (d_jobs (snd (finishJob db job ok step msg now))) \<Longrightarrow> j_id j = job \<Longrightarrow> \<not> active_job j"
  unfolding finishJob_def update_jobs_changed_def snd_conv tenants_of_updates set_update_where
  by (erule imageE) (simp add: active_job_def split: if_splits)

lemma finishJob_tenants [simp]: "d_tenants (snd (finishJob db job ok step msg now)) = d_tenants db"
  by (simp add: finishJob_def update_jobs_changed_def)

lemma status_written: "u \<in> set (d_tenants (setTenantStatus db tid st now)) \<Longrightarrow> t_id u = tid \<Longrightarrow> t_status u = st"
  unfolding setTenantStatus_def tenants_of_updates set_update_where by (erule imageE) (simp split: if_splits)

lemma status_jobs [simp]: "d_jobs (setTenantStatus db tid st now) = d_jobs db"
  by (simp add: setTenantStatus_def)

lemma finish_jobE:
  assumes "finish_job S job ok step msg w = (Inr y, w')"
  obtains now where "w' = w\<lparr>w_db := snd (finishJob (w_db w) job ok step msg now), w_trace := w_trace w @ [Wrote now (OFinishJob job ok step msg)]\<rparr>"
    "y = fst (finishJob (w_db w) job ok step msg now)"
  using assms by (auto simp: finish_job_def writing_def store_failed_def Let_def split: option.splits)

lemma finish_ok:
  assumes "andThen (wrote S (OSetStatus tid AwaitingGoLive)) (\<lambda>_. andThen (finish_job S job True None None) (\<lambda>_. ret x)) w = (Inr y, w')"
  shows "left_as (w_db w') tid AwaitingGoLive job"
proof -
  from assms obtain x1 w1 where 1: "wrote S (OSetStatus tid AwaitingGoLive) w = (Inr x1, w1)"
    and r1: "andThen (finish_job S job True None None) (\<lambda>_. ret x) w1 = (Inr y, w')" by (rule andThenE)
  from r1 obtain b w2 where 2: "finish_job S job True None None w1 = (Inr b, w2)" and "ret x w2 = (Inr y, w')" by (rule andThenE)
  then have w2: "w' = w2" by (simp add: ret_def)
  from 1 obtain now where w1: "w_db w1 = setTenantStatus (w_db w) tid AwaitingGoLive now" by (rule wroteE) simp
  from 2 obtain now' where "w_db w' = snd (finishJob (w_db w1) job True None None now')" unfolding w2 by (rule finish_jobE) simp
  then show ?thesis using finishJob_over status_written unfolding left_as_def w1 by (metis finishJob_tenants)
qed

section \<open>A run that succeeds\<close>

lemma closing_ok:
  assumes "closing S C job tid (r, steps) w = (Inr ProvisionOk, w')"
  shows "r = Inr ProvisionOk \<and> w' = w"
  using assms unfolding closing_def close_failed_def
  by (auto simp: ret_def split: sum.splits exn.splits if_splits)

lemma modules_ok:
  assumes "modules_stage S C job t started resumed release endpoints mode uuid tokenId tok steps w = (Inr (Inr ProvisionOk, steps'), w')"
  shows "verified S C (tenantScriptName (t_slug t)) endpoints \<and> left_as (w_db w') (t_id t) AwaitingGoLive job"
proof -
  from assms obtain w1 x w2 w3 where
    ver: "andThen (wrote S (OSetModulesRelease (t_id t) (Some release))) (\<lambda>_.
         verify_studio S C (tenantScriptName (t_slug t)) endpoints tok) w1 = (Inr x, w2)"
    and fin: "andThen (wrote S (OSetStatus (t_id t) AwaitingGoLive)) (\<lambda>_.
         andThen (finish_job S job True None None) (\<lambda>_. ret ProvisionOk)) w3 = (Inr ProvisionOk, w')"
    unfolding modules_stage_def Let_def by (elim afterwardsE doingE) (rule that)
  from ver obtain w4 where "verify_studio S C (tenantScriptName (t_slug t)) endpoints tok w4 = (Inr x, w2)" by (rule andThenE)
  then show ?thesis using finish_ok [OF fin] verify_returns by blast
qed

text \<open>The endpoints a studio is built for: those of the shared pool, or those its tenant already has.\<close>

definition its_endpoints :: "plane \<Rightarrow> tenant \<Rightarrow> endpoint list \<Rightarrow> bool" where
  "its_endpoints C t endpoints \<longleftrightarrow> endpoints = stored_endpoint_list t \<or> (\<exists>es. c_pool C = Some es \<and> endpoints = map pool_endpoint es)"

lemma endpoints_resolved:
  assumes "endpoints_stage S C t steps w = (Inr (Inr eps, steps'), w')"
  shows "case eps of None \<Rightarrow> c_pool C = None | Some (endpoints, mode) \<Rightarrow> its_endpoints C t endpoints"
proof -
  from assms have "resolve_endpoints S C t (''runpod_endpoints'' \<in> set steps) w = (Inr eps, w')"
    unfolding endpoints_stage_def by (rule doingE)
  then show ?thesis
    by (auto simp: resolve_endpoints_def failing_def its_endpoints_def split: if_splits option.splits)
qed

lemma body_outcome:
  assumes "provision_body S C job t started resumed release steps w = (Inr (Inr oc, steps'), w')"
  obtains endpoints mode uuid tokenId tok s2 w2 where "its_endpoints C t endpoints"
    "modules_stage S C job t started resumed release endpoints mode uuid tokenId tok s2 w2 = (Inr (Inr oc, steps'), w')"
  | "c_pool C = None" "oc = ProvisionFailed ''runpod_endpoints'' ''runpod_key_required''"
proof -
  from assms obtain eps uuid token w1 s0 w0 s1 built quota where
    eps: "endpoints_stage S C t s0 w0 = (Inr (Inr eps, s1), w1)" and
    rest: "(case eps of None \<Rightarrow> doing (ret (ProvisionFailed ''runpod_endpoints'' ''runpod_key_required''))
       | Some (endpoints, mode) \<Rightarrow> afterwards (mark S job started resumed ''runpod_endpoints'') (\<lambda>_.
         afterwards (doing (upload_studio S C t release built quota uuid endpoints token)) (\<lambda>studioApiToken.
         afterwards (mark S job started resumed ''wfp_upload'') (\<lambda>_.
         modules_stage S C job t started resumed release endpoints mode uuid (fst token) studioApiToken)))) s1 w1
      = (Inr (Inr oc, steps'), w')"
    unfolding provision_body_def by (elim afterwardsE) (simp only: split: prod.splits, elim afterwardsE, rule that)
  show thesis
  proof (cases eps)
    case None
    with rest have "oc = ProvisionFailed ''runpod_endpoints'' ''runpod_key_required''" by (auto elim!: doingE)
    with endpoints_resolved [OF eps] None show thesis by (simp add: that(2))
  next
    case (Some p)
    then obtain endpoints mode where p: "eps = Some (endpoints, mode)" by (cases p) simp
    from rest obtain tok w2 s2 where
      "modules_stage S C job t started resumed release endpoints mode uuid (fst token) tok s2 w2 = (Inr (Inr oc, steps'), w')"
      unfolding p option.case prod.case by (elim afterwardsE) (rule that)
    with endpoints_resolved [OF eps] p show thesis by (auto intro: that(1))
  qed
qed

lemma runE:
  assumes "runProvisionJob S C job t resume w = (Inr oc, w')"
  obtains started release steps0 w1 w2 r steps where
    "provision_body S C job t started (resume \<noteq> None) release steps0 w1 = (Inr (r, steps), w2)"
    "closing S C job (t_id t) (r, steps) w2 = (Inr oc, w')"
  using assms unfolding runProvisionJob_def by (elim andThenE) (metis surj_pair)

text \<open>What a run that succeeded leaves.\<close>

definition accomplished :: "services \<Rightarrow> plane \<Rightarrow> tenant \<Rightarrow> string \<Rightarrow> cp_db \<Rightarrow> bool" where
  "accomplished S C t job db \<longleftrightarrow> (\<exists>endpoints. its_endpoints C t endpoints \<and> verified S C (tenantScriptName (t_slug t)) endpoints)
     \<and> left_as db (t_id t) AwaitingGoLive job"

lemma provision_ok:
  assumes "runProvisionJob S C job t resume w = (Inr ProvisionOk, w')"
  shows "accomplished S C t job (w_db w')"
proof -
  from assms obtain started release steps0 w1 w2 r steps where
    body: "provision_body S C job t started (resume \<noteq> None) release steps0 w1 = (Inr (r, steps), w2)"
    and c: "closing S C job (t_id t) (r, steps) w2 = (Inr ProvisionOk, w')" by (rule runE)
  from closing_ok [OF c] body
  have "provision_body S C job t started (resume \<noteq> None) release steps0 w1 = (Inr (Inr ProvisionOk, steps), w')" by simp
  then show ?thesis by (rule body_outcome) (auto simp: accomplished_def dest: modules_ok)
qed

lemma unless_marked:
  assumes "unless_done step (afterwards (doing m) (\<lambda>_. mark_next S job started step)) steps w = (Inr (Inr x, steps'), w')"
  shows "set steps' \<subseteq> insert step (set steps)"
  using assms unfolding unless_done_def mark_next_def
  by (auto simp: ret_def split: if_splits elim!: afterwardsE doingE)

lemma module_steps_ok:
  assumes "runModuleSteps S C a unless_done (mark_next S job started) steps w = (Inr (Inr x, steps'), w')" "''verify'' \<notin> set steps"
  shows "verified S C (ma_script a) (ma_endpoints a)"
proof -
  let ?after = "\<lambda>step. (\<lambda>_. mark_next S job started step)"
  let ?upload = "andThen (mint_gateway_token S C (tenantAigTokenName (ma_slug a))) (\<lambda>aig.
    uploadTenantModules S C (ma_release a) (ma_tenantId a) (ma_slug a) (ma_endpoints a) (ma_d1 a) (ma_bucket a) (ma_mode a)
      (ma_prefetched a) aig)"
  let ?install = "installTenantModules S (ma_tenantId a) (ma_script a) (ma_token a)"
  let ?verify = "verify_studio S C (ma_script a) (ma_endpoints a) (ma_token a)"
  from assms(1) obtain x1 s1 w1 x2 s2 w2 where
    1: "unless_done ''modules_upload'' (afterwards (doing ?upload) (?after ''modules_upload'')) steps w = (Inr (Inr x1, s1), w1)" and
    2: "unless_done ''modules_install'' (afterwards (doing ?install) (?after ''modules_install'')) s1 w1 = (Inr (Inr x2, s2), w2)" and
    3: "unless_done ''verify'' (afterwards (doing ?verify) (?after ''verify'')) s2 w2 = (Inr (Inr x, steps'), w')"
    unfolding runModuleSteps_def by (elim afterwardsE) (rule that)
  have "''verify'' \<notin> set s2" using unless_marked [OF 1] unless_marked [OF 2] assms(2) by auto
  with 3 show ?thesis unfolding unless_done_def by (auto elim!: afterwardsE doingE dest: verify_returns)
qed

lemma continueE:
  assumes "continueProvisionJob S C job t stepsDone w = (Inr oc, w')"
  obtains started w1 w2 r steps where
    "continue_body S C job t started (filter (\<lambda>s. s \<in> set stepsDone) PROVISION_STEPS) w1 = (Inr (r, steps), w2)"
    "closing S C job (t_id t) (r, steps) w2 = (Inr oc, w')"
  using assms unfolding continueProvisionJob_def by (elim andThenE) (metis surj_pair)

lemma resume_modules_ok:
  assumes "resume_modules S C job t started steps w = (Inr (Inr ProvisionOk, steps'), w')" "''verify'' \<notin> set steps"
  shows "accomplished S C t job (w_db w')"
proof -
  obtain a where run: "afterwards (runModuleSteps S C a unless_done (mark_next S job started)) (\<lambda>_.
        doing (andThen (wrote S (OSetModulesRelease (t_id t) (t_studio_release t))) (\<lambda>_.
               andThen (wrote S (OSetStatus (t_id t) AwaitingGoLive)) (\<lambda>_.
               andThen (finish_job S job True None None) (\<lambda>_. ret ProvisionOk))))) steps w = (Inr (Inr ProvisionOk, steps'), w')"
    and a: "ma_script a = tenantScriptName (t_slug t)" "ma_endpoints a = stored_endpoint_list t"
    using assms(1) unfolding resume_modules_def failing_def
    by (auto split: if_splits option.splits elim!: doingE intro: that)
  from run obtain x s1 w1 where 1: "runModuleSteps S C a unless_done (mark_next S job started) steps w = (Inr (Inr x, s1), w1)"
    and 2: "andThen (wrote S (OSetModulesRelease (t_id t) (t_studio_release t))) (\<lambda>_.
               andThen (wrote S (OSetStatus (t_id t) AwaitingGoLive)) (\<lambda>_.
               andThen (finish_job S job True None None) (\<lambda>_. ret ProvisionOk))) w1 = (Inr ProvisionOk, w')"
    by (elim afterwardsE doingE) (rule that)
  from 2 obtain w2 where "andThen (wrote S (OSetStatus (t_id t) AwaitingGoLive)) (\<lambda>_.
               andThen (finish_job S job True None None) (\<lambda>_. ret ProvisionOk)) w2 = (Inr ProvisionOk, w')" by (rule andThenE)
  from finish_ok [OF this] module_steps_ok [OF 1 assms(2)] show ?thesis unfolding accomplished_def its_endpoints_def a by blast
qed

lemma continue_bodyE:
  assumes "continue_body S C job t started steps w = (Inr (Inr oc, steps'), w')"
  obtains row w1 where "resume_early S C job t row steps w1 = (Inr (Inr oc, steps'), w')"
  | w1 where "resume_modules S C job t started steps w1 = (Inr (Inr oc, steps'), w')"
  using assms unfolding continue_body_def failing_def
  by (auto split: if_splits option.splits elim!: doingE afterwardsE)

lemma resume_earlyE:
  assumes "resume_early S C job t row steps w = (Inr (Inr oc, steps'), w')"
  obtains release where "runProvisionJob S C job t (Some (steps, release)) w = (Inr oc, w')"
  using assms unfolding resume_early_def failing_def by (auto split: if_splits option.splits elim!: doingE)

text \<open>
  C10: a provision that reports success has verified its studio.  When a run returns that it is done, or a
  continued one whose verification was still open does, the platform listed every binding and both
  secrets the studio needs, for the endpoints of the shared pool or the tenant's own, the studio's root
  answered below 500, and the studio listed at least one installed module; the tenant waits for go-live
  and the job is over.
\<close>

theorem provision_ok_verified:
  assumes "runProvisionJob S C job t resume w = (Inr ProvisionOk, w')
    \<or> continueProvisionJob S C job t stepsDone w = (Inr ProvisionOk, w') \<and> ''verify'' \<notin> set stepsDone"
  shows "accomplished S C t job (w_db w')"
  using assms
proof (elim disjE conjE)
  assume "continueProvisionJob S C job t stepsDone w = (Inr ProvisionOk, w')" and open': "''verify'' \<notin> set stepsDone"
  from this(1) obtain started w1 w2 r steps where
    body: "continue_body S C job t started (filter (\<lambda>s. s \<in> set stepsDone) PROVISION_STEPS) w1 = (Inr (r, steps), w2)"
    and c: "closing S C job (t_id t) (r, steps) w2 = (Inr ProvisionOk, w')" by (rule continueE)
  from body closing_ok [OF c] have
    "continue_body S C job t started (filter (\<lambda>s. s \<in> set stepsDone) PROVISION_STEPS) w1 = (Inr (Inr ProvisionOk, steps), w')"
    by simp
  then show ?thesis
    by (rule continue_bodyE) (auto elim!: resume_earlyE dest: provision_ok resume_modules_ok simp: open')
qed (rule provision_ok)

section \<open>A run that fails\<close>

text \<open>
  The job is closed as failed with its step and its message; when that write closed it, the tenant ends
  failed, and when the job was already closed by another the run does nothing more.
\<close>

definition reported_failed :: "world \<Rightarrow> string \<Rightarrow> string \<Rightarrow> string \<Rightarrow> string \<Rightarrow> bool" where
  "reported_failed w tid job step msg \<longleftrightarrow>
     (\<exists>tr now rest. w_trace w = tr @ Wrote now (OFinishJob job False (Some step) (Some msg)) # rest
        \<and> (rest = [] \<or> left_as (w_db w) tid Failed job))
     \<and> (\<forall>j \<in> set (d_jobs (w_db w)). j_id j = job \<longrightarrow> \<not> active_job j)"

text \<open>The writes of a teardown change neither a status nor a job.\<close>

fun clears_only :: "event \<Rightarrow> bool" where
  "clears_only (Wrote now p) \<longleftrightarrow> (\<exists>i k. p = OClearResource i k) \<or> (\<exists>i fs. p = ORecordTeardown i fs)"
| "clears_only _ \<longleftrightarrow> True"

lemma clear_column_status [simp]: "t_id (clear_column k t) = t_id t" "t_status (clear_column k t) = t_status t"
  by (cases k; simp)+

lemma left_as_update:
  assumes "left_as db tid st job" "d_jobs db' = d_jobs db" "d_tenants db' = update_where p f (d_tenants db)"
    "\<And>t. t_id (f t) = t_id t \<and> t_status (f t) = t_status t"
  shows "left_as db' tid st job"
  using assms unfolding left_as_def by (auto simp: set_update_where)

lemma clear_keeps_left: "left_as db tid st job \<Longrightarrow> left_as (clearTenantResource db i k) tid st job"
  by (erule left_as_update [where p = "\<lambda>t. t_id t = i" and f = "clear_column k"])
    (auto simp: clearTenantResource_def Let_def split: option.splits)

lemma record_keeps_left: "left_as db tid st job \<Longrightarrow> left_as (recordTeardown db i fs now) tid st job"
  unfolding recordTeardown_def set_tenant_def by (erule left_as_update) (rule tenants_of_updates, rule tenants_of_updates, simp)

lemma clears_keep_left:
  "list_all clears_only es \<Longrightarrow> left_as db tid st job \<Longrightarrow> left_as (run_ops (writes es) db) tid st job"
proof (induction es arbitrary: db)
  case (Cons e es)
  then show ?case by (cases e) (auto simp: clear_keeps_left record_keeps_left)
qed simp

lemma emits_rollback_clears: "emits clears_only (rollbackFailedProvision S C tid)"
proof -
  have "spares S ns mns db t e \<Longrightarrow> clears_only e" for S ns mns db t e
    by (cases "(S, ns, mns, db, t, e)" rule: spares.cases) auto
  then have "emits clears_only (teardownTenant S ns mns t deleteData ign)" for S ns mns t deleteData ign
    using emits_from_at [OF spares_teardown] by blast
  then show ?thesis unfolding rollbackFailedProvision_def by (intro emits_intro) simp_all
qed

lemma close_failed_reports:
  assumes "close_failed S C job tid step msg w = (Inr oc, w')"
  shows "oc = ProvisionFailed step msg \<and> reported_failed w' tid job step msg"
proof -
  from assms obtain closed w1 where 1: "finish_job S job False (Some step) (Some msg) w = (Inr closed, w1)"
    and r1: "(if \<not> closed then ret (ProvisionFailed step msg)
     else andThen (wrote S (OSetStatus tid Failed)) (\<lambda>_.
       andThen (rollbackFailedProvision S C tid) (\<lambda>_. ret (ProvisionFailed step msg)))) w1 = (Inr oc, w')"
    unfolding close_failed_def by (rule andThenE)
  from 1 obtain now where w1: "w1 = w\<lparr>w_db := snd (finishJob (w_db w) job False (Some step) (Some msg) now),
      w_trace := w_trace w @ [Wrote now (OFinishJob job False (Some step) (Some msg))]\<rparr>" by (rule finish_jobE)
  have over: "\<forall>j \<in> set (d_jobs (w_db w1)). j_id j = job \<longrightarrow> \<not> active_job j" unfolding w1 by (auto dest: finishJob_over)
  show ?thesis
  proof (cases closed)
    case False
    with r1 have "oc = ProvisionFailed step msg" "w' = w1" by (auto simp: ret_def)
    moreover have "w_trace w1 = w_trace w @ [Wrote now (OFinishJob job False (Some step) (Some msg))]" unfolding w1 by simp
    ultimately show ?thesis using over unfolding reported_failed_def by blast
  next
    case True
    with r1 have "andThen (wrote S (OSetStatus tid Failed)) (\<lambda>_.
       andThen (rollbackFailedProvision S C tid) (\<lambda>_. ret (ProvisionFailed step msg))) w1 = (Inr oc, w')" by simp
    then obtain x w2 u w3 where 2: "wrote S (OSetStatus tid Failed) w1 = (Inr x, w2)"
      and 3: "rollbackFailedProvision S C tid w2 = (Inr u, w3)" and "ret (ProvisionFailed step msg) w3 = (Inr oc, w')"
      by (elim andThenE) (rule that)
    then have end': "oc = ProvisionFailed step msg" "w' = w3" by (simp_all add: ret_def)
    from 2 obtain now' where w2: "w2 = w1\<lparr>w_db := setTenantStatus (w_db w1) tid Failed now',
        w_trace := w_trace w1 @ [Wrote now' (OSetStatus tid Failed)]\<rparr>" by (rule wroteE) simp
    have "left_as (w_db w2) tid Failed job" using over status_written unfolding left_as_def w2 by auto
    moreover obtain es where es: "list_all clears_only es" "w_trace w3 = w_trace w2 @ es" "w_db w3 = run_ops (writes es) (w_db w2)"
      using emits_rollback_clears [of S C tid] 3 unfolding emits_def by (metis snd_conv)
    ultimately have left: "left_as (w_db w3) tid Failed job" by (simp add: clears_keep_left)
    moreover have "w_trace w3 = w_trace w @ Wrote now (OFinishJob job False (Some step) (Some msg))
        # (Wrote now' (OSetStatus tid Failed) # es)" unfolding es(2) w2 w1 by simp
    ultimately show ?thesis using end' unfolding reported_failed_def left_as_def by blast
  qed
qed

lemma closing_failed:
  assumes "closing S C job tid (r, steps) w = (Inr (ProvisionFailed step msg), w')"
  shows "r = Inr (ProvisionFailed step msg) \<and> w' = w \<or> isl r \<and> reported_failed w' tid job step msg"
  using assms unfolding closing_def by (auto simp: ret_def split: sum.splits exn.splits dest!: close_failed_reports)

lemma modules_outcome:
  "modules_stage S C job t started resumed release endpoints mode uuid tokenId tok steps w = (Inr (Inr oc, steps'), w') \<Longrightarrow> oc = ProvisionOk"
  unfolding modules_stage_def Let_def by (elim afterwardsE doingE) (auto elim!: andThenE)

lemma run_failed:
  assumes "runProvisionJob S C job t resume w = (Inr (ProvisionFailed step msg), w')"
  shows "c_pool C = None \<and> step = ''runpod_endpoints'' \<and> msg = ''runpod_key_required'' \<or> reported_failed w' (t_id t) job step msg"
proof -
  from assms obtain started release steps0 w1 w2 r steps where
    body: "provision_body S C job t started (resume \<noteq> None) release steps0 w1 = (Inr (r, steps), w2)"
    and c: "closing S C job (t_id t) (r, steps) w2 = (Inr (ProvisionFailed step msg), w')" by (rule runE)
  from closing_failed [OF c] show ?thesis
  proof (elim disjE conjE)
    assume "r = Inr (ProvisionFailed step msg)"
    with body have "provision_body S C job t started (resume \<noteq> None) release steps0 w1 = (Inr (Inr (ProvisionFailed step msg), steps), w2)"
      by simp
    then show ?thesis by (rule body_outcome) (auto dest: modules_outcome)
  qed blast
qed

lemma resume_modules_outcome:
  "resume_modules S C job t started steps w = (Inr (Inr oc, steps'), w') \<Longrightarrow> oc = ProvisionOk"
  unfolding resume_modules_def failing_def by (auto split: if_splits option.splits elim!: doingE afterwardsE)


text \<open>
  A resumed run does not yield right after it minted the bucket token, so that the studio is bound to the
  new one in the same invocation; but it yields one step later, after the endpoints, still before the upload.
\<close>

lemma resumed_run_yields_before_upload:
  assumes "s_store S = (\<lambda>tr. None)" "\<And>tr. s_now S tr - started \<ge> PROVISION_INVOCATION_BUDGET_MS"
  shows "(\<exists>steps' w'. mark S job started True ''r2_token'' steps w = (Inr (Inr (), steps'), w'))
    \<and> (\<exists>steps' w'. mark S job started True ''runpod_endpoints'' steps w = (Inr (Inl (ProvisionYield ''runpod_endpoints''), steps'), w'))"
  using assms(1) assms(2)
  by (simp add: mark_def doing_def record_progress_def YIELD_UNSAFE_STEPS_def wrote_def writing_def clock_def observing_def andThen_def
      attempted_def ret_def raise_def Let_def)

section \<open>Module upgrade\<close>

text \<open>
  What a module upgrade may do: upload the tenant's module Workers, call its studio, mint and revoke
  gateway tokens, read what is deployed; write the tenant's module release and its own job.
\<close>

fun upgrade_event :: "plane \<Rightarrow> tenant \<Rightarrow> string \<Rightarrow> string \<Rightarrow> event \<Rightarrow> bool" where
  "upgrade_event C t script job (Wrote now p) \<longleftrightarrow>
     (\<exists>r. p = OSetModulesRelease (t_id t) r) \<or> p = OSetJobRunning job \<or> (\<exists>step xs. p = OProgress job step xs)
     \<or> (\<exists>ok step msg. p = OFinishJob job ok step msg)"
| "upgrade_event C t script job (Called c b) \<longleftrightarrow>
     (case c of UploadWorker u \<Rightarrow> u_namespace u = c_module_namespace C \<and> u_script u \<in> set (module_scripts (t_id t))
      | StudioCall s _ _ _ _ \<Rightarrow> s = script
      | GetBindings n s \<Rightarrow> n = c_namespace C \<and> s = script
      | GetSecretNames n s \<Rightarrow> n = c_namespace C \<and> s = script
      | CreateNamespace n \<Rightarrow> n = c_module_namespace C
      | RevokeByName n \<Rightarrow> n = tenantAigTokenName (t_slug t)
      | MintAigToken n \<Rightarrow> n = tenantAigTokenName (t_slug t)
      | FetchModule _ _ \<Rightarrow> True
      | _ \<Rightarrow> False)"
| "upgrade_event C t script job (Indexed _ _ _ _) \<longleftrightarrow> False"
| "upgrade_event C t script job _ \<longleftrightarrow> True"

lemma confined_upgrade: "confined C mode (t_id t) d1 bucket aig e \<Longrightarrow> upgrade_event C t script job e"
  by (cases "(C, mode, t_id t, d1, bucket, aig, e)" rule: confined.cases) auto

lemmas upgrade_upload = emits_weaken [OF emits_upload_modules confined_upgrade]

lemma upgrade_body_emits: "run_emits (upgrade_event C t (uc_script ctx) job) (upgrade_body S C job t ctx started)"
  unfolding upgrade_body_def runModuleSteps_def
  by (intro run_intro emits_intro) (auto simp: upgrade_upload)

lemma emits_upgrade: "emits (upgrade_event C t (uc_script ctx) job) (upgradeTenantModules S C job t ctx)"
proof -
  have "emits (upgrade_event C t (uc_script ctx) job) (upgrade_closing S job ctx (r, steps))" for r steps
    unfolding upgrade_closing_def by (intro emits_prod emits_sum emits_ret) (auto intro!: emits_intro split: exn.split)
  then show ?thesis
    unfolding upgradeTenantModules_def by (intro emits_andThen emits_clock run_steps upgrade_body_emits) auto
qed

text \<open>The tenant rows, without the module release of one.\<close>

definition apart_from_modules :: "string \<Rightarrow> cp_db \<Rightarrow> tenant list" where
  "apart_from_modules tid db = update_where (\<lambda>u. t_id u = tid) (\<lambda>u. u\<lparr>t_modules_release := None\<rparr>) (d_tenants db)"

lemma upgrade_op_keeps:
  assumes "upgrade_event C t script job (Wrote now p)"
  shows "apart_from_modules (t_id t) (exec now p db) = apart_from_modules (t_id t) db"
proof -
  have "d_tenants (setJobRunning db j now) = d_tenants db" "d_tenants (updateJobProgress db j step xs now) = d_tenants db" for j step xs
    by (simp_all add: setJobRunning_def updateJobProgress_def)
  moreover have "apart_from_modules i (setTenantModulesRelease db i r) = apart_from_modules i db" for i r
    unfolding apart_from_modules_def setTenantModulesRelease_def set_tenant_def tenants_of_updates
    by (simp add: update_where_def)
  ultimately show ?thesis using assms by (auto simp: apart_from_modules_def)
qed

lemma upgrade_ops_keep:
  "list_all (upgrade_event C t script job) es \<Longrightarrow>
    apart_from_modules (t_id t) (run_ops (writes es) db) = apart_from_modules (t_id t) db"
proof (induction es arbitrary: db)
  case (Cons e es)
  then show ?case using upgrade_op_keeps [of C t script job] by (cases e) auto
qed simp

text \<open>
  A module upgrade changes modules and nothing else.  Whatever the services answer and wherever the
  store fails, it uploads only the tenant's module Workers, calls only its studio, mints and revokes only
  its gateway token, and writes only the module release of its row and its own job: no status, no database,
  no bucket, no credential of the row and no other tenant's row changes.
\<close>

theorem upgrade_touches_only_modules:
  "list_all (upgrade_event C t (uc_script ctx) job) (did (upgradeTenantModules S C job t ctx) w)
   \<and> apart_from_modules (t_id t) (w_db (snd (upgradeTenantModules S C job t ctx w))) = apart_from_modules (t_id t) (w_db w)
   \<and> w_index (snd (upgradeTenantModules S C job t ctx w)) = w_index w"
proof -
  note e = emitsD [OF emits_upgrade [of C t ctx job S], of w]
  have "index_writes es = []" if "list_all (upgrade_event C t (uc_script ctx) job) es" for es
    using that
  proof (induction es)
    case (Cons e es)
    then show ?case by (cases e) auto
  qed simp
  with e show ?thesis by (simp add: upgrade_ops_keep)
qed

lemma pool_lacks_upscale:
  assumes "parseSharedPool raw = Inr es" "t_endpoints_json t = Some (stringify_objects (map endpoint_object es))"
  shows "modules_without_endpoint t = [''finish-upscale'']"
proof -
  have "map te_key es = requiredPoolKeys" using shared_pool_all_or_nothing [OF assms(1)] by blast
  then have "map fst (stored_endpoint_list t) = map pl_key endpointBackedPlan"
    using endpoints_round_trip [OF assms(2)]
    by (simp add: stored_endpoint_list_def comp_def endpoint_of_def endpoint_object_def string_object_def jget_def jstring_def requiredPoolKeys_def)
  then show ?thesis
    by (simp add: modules_without_endpoint_def endpointBackedPlan_def PROVISION_PLAN_def catalog_defs)
qed

text \<open>
  C23: a live tenant on the shared pool can never have its modules upgraded.  The endpoints the plane stores
  for such a tenant are those of the pool, which never names the capability that runs on the plane's own
  hardware; the check before an upgrade asks for an endpoint of that capability too, and refuses.
\<close>

theorem pool_tenant_never_upgrades:
  assumes "parseSharedPool raw = Inr es" "t_endpoints_json t = Some (stringify_objects (map endpoint_object es))"
    and "t_deleted_at t = None" "t_suspended_at t = None" "t_status t = Live" "truthy (t_script_name t)"
  shows "preflightModuleUpgrade S C t release w =
    (Inr (Inl (''tenant_endpoints_incomplete'', 422, ''this tenant is missing the endpoint(s) needed by: finish-upscale'')), w)"
  using assms(3-) pool_lacks_upscale [OF assms(1,2)]
  by (simp add: preflightModuleUpgrade_def upgrade_refusal_of_def ret_def)

theorem pool_tenant_never_upgrades_witness:
  "\<exists>es. parseSharedPool (Some example_pool) = Inr es
    \<and> preflightModuleUpgrade calm_services ex_plane (ex_tenant\<lparr>t_endpoints_json := Some (stringify_objects (map endpoint_object es)),
        t_status := Live, t_script_name := Some ''s'', t_deleted_at := None, t_suspended_at := None\<rparr>) ''v2'' (ex_world [])
      = (Inr (Inl (''tenant_endpoints_incomplete'', 422, ''this tenant is missing the endpoint(s) needed by: finish-upscale'')), ex_world [])"
proof -
  obtain es where es: "parseSharedPool (Some example_pool) = Inr es" using example_pool_parses by (cases "parseSharedPool (Some example_pool)") auto
  then show ?thesis by (intro exI conjI, assumption) (rule pool_tenant_never_upgrades [OF es]; simp add: truthy_def)
qed

definition odd_progress :: "string list" where
  "odd_progress = [''r2_bucket'']"


text \<open>A provision of which only the verification is open, on a platform where the studio is complete.\<close>

definition ex_unverified :: tenant where
  "ex_unverified = ex_tenant\<lparr>t_studio_token_enc := Some (ex_blob 1), t_studio_release := Some ''v1''\<rparr>"

definition ex_listing :: string where
  "ex_listing = ''{'' @ json_quote ''modules'' @ '':[{'' @ json_quote ''name'' @ '':'' @ json_quote ''m'' @ ''}]}''"

definition studio_services :: services where
  "studio_services = calm_services\<lparr>s_getBindings := (\<lambda>tr n s. Inr (map (\<lambda>b. (b, ''plain_text'')) (required_bindings [(''k'', ''e1'', ''V'')]))),
     s_getSecretNames := (\<lambda>tr n s. Inr [''R2_S3_SECRET_ACCESS_KEY'', ''STUDIO_API_TOKEN'']),
     s_studio := (\<lambda>tr s m p k b. Inr (200, ex_listing))\<rparr>"

definition ex_started :: world where
  "ex_started = \<lparr>w_db = ex_td_store\<lparr>d_jobs := [new_job ''job_1'' ''ten_1'' JProvision None (Some ''v1'') (Some ''shared'') 0]\<rparr>, w_index = [], w_trace = []\<rparr>"

lemma ex_unverified_endpoints: "stored_endpoint_list ex_unverified = [(''k'', ''e1'', ''V'')]"
proof -
  have "t_endpoints_json ex_unverified = Some (stringify_objects (map endpoint_object
        [\<lparr>te_key = ''k'', te_label = ''l'', te_id = ''e1'', te_name = ''n'', te_endpointVar = ''V''\<rparr>]))"
    by (simp add: ex_unverified_def ex_tenant_def)
  from endpoints_round_trip [OF this] show ?thesis
    by (simp add: stored_endpoint_list_def endpoint_of_def endpoint_object_def string_object_def jget_def jstring_def)
qed

lemma ex_listing_parses: "JSON_parse ex_listing = Some (JObj [(''modules'', JArr [JObj [(''name'', JStr ''m'')]])])"
  by code_simp

lemma require_all_met: "set needed \<subseteq> set present \<Longrightarrow> require_all msg needed present w = (Inr (), w)"
  by (simp add: require_all_returns)

lemma andThen_returns: "m w = (Inr x, w1) \<Longrightarrow> andThen m f w = f x w1"
  by (simp add: andThen_def)

lemma studio_simps [simp]:
  "s_getBindings studio_services tr n s = Inr (map (\<lambda>b. (b, ''plain_text'')) (required_bindings [(''k'', ''e1'', ''V'')]))"
  "s_getSecretNames studio_services tr n s = Inr [''R2_S3_SECRET_ACCESS_KEY'', ''STUDIO_API_TOKEN'']"
  "s_studio studio_services tr s m p k b = Inr (200, ex_listing)"
  "s_now studio_services tr = 0" "s_store studio_services tr = None"
  by (simp_all add: studio_services_def calm_services_def)

lemma ex_installed: "verifyTenantModulesInstalled studio_services script tok w =
    (Inr [''m''], w\<lparr>w_trace := w_trace w @ [Called (StudioCall script ''GET'' ''/api/modules/installed'' tok None) True]\<rparr>)"
  by (simp add: verifyTenantModulesInstalled_def callTenantStudio_def calling_def andThen_def ret_def ex_listing_parses
      installed_names_def jget_def jstring_def List.map_filter_def)

lemma afterwards_returns: "m steps w = (Inr (Inr x, s1), w1) \<Longrightarrow> afterwards m f steps w = f x s1 w1"
  by (simp add: afterwards_def andThen_def)

lemma doing_returns: "m w = (Inr x, w1) \<Longrightarrow> doing m steps w = (Inr (Inr x, steps), w1)"
  by (simp add: doing_def andThen_def attempted_def ret_def)

lemma ex_wrote:
  "wrote studio_services p w = (Inr (), w\<lparr>w_db := exec 0 p (w_db w), w_trace := w_trace w @ [Wrote 0 p]\<rparr>)"
  "clock studio_services w = (Inr 0, w\<lparr>w_trace := w_trace w @ [Observed]\<rparr>)"
  "reading studio_services f w = (Inr (f (w_db w)), w\<lparr>w_trace := w_trace w @ [Observed]\<rparr>)"
  "finish_job studio_services job ok step msg w = (Inr (fst (finishJob (w_db w) job ok step msg 0)),
     w\<lparr>w_db := snd (finishJob (w_db w) job ok step msg 0), w_trace := w_trace w @ [Wrote 0 (OFinishJob job ok step msg)]\<rparr>)"
  by (simp_all add: wrote_def writing_def clock_def observing_def reading_def finish_job_def Let_def)

lemma ex_verify: "\<exists>w'. verify_studio studio_services C script [(''k'', ''e1'', ''V'')] tok w = (Inr [''m''], w')"
  unfolding verify_studio_def callTenantStudio_def
  by (simp add: calling_def andThen_returns require_all_met ex_installed)

lemma ex_steps:
  assumes "ma_endpoints a = [(''k'', ''e1'', ''V'')]"
  shows "\<exists>w'. runModuleSteps studio_services C a unless_done (mark_next studio_services job 0) (butlast PROVISION_STEPS) w
      = (Inr (Inr (), PROVISION_STEPS), w')"
proof -
  obtain w1 where "verify_studio studio_services C (ma_script a) (ma_endpoints a) (ma_token a) w = (Inr [''m''], w1)"
    using ex_verify assms by metis
  then show ?thesis
    unfolding runModuleSteps_def
    by (simp add: unless_done_def afterwards_returns doing_returns ret_def PROVISION_STEPS_def mark_next_def record_progress_def
        andThen_returns ex_wrote PROVISION_INVOCATION_BUDGET_MS_def)
qed

lemma ex_verified_run:
  "\<exists>w'. continueProvisionJob studio_services ex_plane ''job_1'' ex_unverified (butlast PROVISION_STEPS) ex_started = (Inr ProvisionOk, w')"
proof -
  have done_steps: "filter (\<lambda>s. s \<in> set (butlast PROVISION_STEPS)) PROVISION_STEPS = butlast PROVISION_STEPS"
    "contiguous (butlast PROVISION_STEPS)" "''wfp_upload'' \<in> set (butlast PROVISION_STEPS)"
    by (simp_all add: PROVISION_STEPS_def contiguous_def)
  have job: "\<exists>j. getJob (w_db ex_started) ''job_1'' = Some j"
    by (simp add: ex_started_def getJob_def new_job_def)
  have token: "truthy (t_studio_token_enc ex_unverified)" "truthy (t_studio_release ex_unverified)" "t_d1_database_id ex_unverified \<noteq> None"
    "decryptStudioToken (c_dec ex_plane) (c_kek ex_plane) (the (t_studio_token_enc ex_unverified)) = Some ''tok''"
    by (simp_all add: ex_unverified_def truthy_def ex_blob_nonempty ex_plane_def decryptStudioToken_def ex_open ex_tenant_def)
  have "\<exists>w'. resume_modules studio_services ex_plane ''job_1'' ex_unverified 0 (butlast PROVISION_STEPS) w
      = (Inr (Inr ProvisionOk, PROVISION_STEPS), w')" for w
  proof -
    let ?a = "\<lparr>ma_tenantId = t_id ex_unverified, ma_slug = t_slug ex_unverified, ma_script = tenantScriptName (t_slug ex_unverified),
       ma_endpoints = stored_endpoint_list ex_unverified, ma_token = ''tok'', ma_release = the (t_studio_release ex_unverified),
       ma_d1 = t_d1_database_id ex_unverified, ma_bucket = t_r2_bucket_name ex_unverified,
       ma_mode = readRunPodMode (Some (t_runpod_mode ex_unverified)), ma_prefetched = []\<rparr>"
    obtain w1 where "runModuleSteps studio_services ex_plane ?a unless_done (mark_next studio_services ''job_1'' 0) (butlast PROVISION_STEPS) w
      = (Inr (Inr (), PROVISION_STEPS), w1)" using ex_steps [of ?a ex_plane "''job_1''" w] ex_unverified_endpoints by auto
    then show ?thesis
      unfolding resume_modules_def
      by (simp add: token ex_unverified_endpoints afterwards_returns doing_returns andThen_returns ex_wrote ret_def)
  qed
  then have resumed: "\<exists>w'. resume_modules studio_services ex_plane ''job_1'' ex_unverified 0 (butlast PROVISION_STEPS) w
      = (Inr (Inr ProvisionOk, PROVISION_STEPS), w')" for w .
  let ?w = "ex_started\<lparr>w_trace := w_trace ex_started @ [Observed]\<rparr>"
  obtain j where "getJob (w_db ?w) ''job_1'' = Some j" using job by auto
  then have "afterwards (doing (reading studio_services (\<lambda>db. getJob db ''job_1''))) f (butlast PROVISION_STEPS) ?w
      = f (Some j) (butlast PROVISION_STEPS) (?w\<lparr>w_trace := w_trace ?w @ [Observed]\<rparr>)" for f :: "_ \<Rightarrow> provision_outcome run"
    by (intro afterwards_returns doing_returns) (simp only: ex_wrote)
  then have "\<exists>w'. continue_body studio_services ex_plane ''job_1'' ex_unverified 0 (butlast PROVISION_STEPS) ?w
      = (Inr (Inr ProvisionOk, PROVISION_STEPS), w')"
    unfolding continue_body_def using resumed token(3) by (auto simp: done_steps)
  then show ?thesis
    unfolding continueProvisionJob_def by (auto simp: done_steps andThen_returns ex_wrote closing_def ret_def)
qed

theorem provision_ok_verified_witness:
  "\<exists>w'. accomplished studio_services ex_plane ex_unverified ''job_1'' (w_db w')
    \<and> continueProvisionJob studio_services ex_plane ''job_1'' ex_unverified (butlast PROVISION_STEPS) ex_started = (Inr ProvisionOk, w')"
proof -
  obtain w' where run: "continueProvisionJob studio_services ex_plane ''job_1'' ex_unverified (butlast PROVISION_STEPS) ex_started
      = (Inr ProvisionOk, w')" using ex_verified_run by blast
  have "''verify'' \<notin> set (butlast PROVISION_STEPS)" by (simp add: PROVISION_STEPS_def)
  with provision_ok_verified [OF disjI2, OF conjI, OF run] run show ?thesis by blast
qed

end
