(* ===== verification/StudioUpgrade.thy ===== *)
theory StudioUpgrade
  imports ProvisionOutcome
begin

text \<open>
  Moving a live studio to another release (\<^verbatim>\<open>src/src/tenant-studio-upgrade.ts\<close>) and the repair of its
  bindings (\<^verbatim>\<open>src/src/tenant-studio-bindings.ts\<close>).  As for a provision, the heartbeat and the log lines
  are left out, and so is the asset configuration of a release, which is passed on as it is.
\<close>

section \<open>Carried bindings\<close>

definition ASSETS_BINDING :: string where
  "ASSETS_BINDING = ''ASSETS''"

definition drop_names :: "string list \<Rightarrow> binding list \<Rightarrow> binding list" where
  "drop_names ns bs = filter (\<lambda>b. binding_name b \<notin> set ns) bs"

definition withVideoFinishTierState :: "binding list \<Rightarrow> tenant \<Rightarrow> binding list" where
  "withVideoFinishTierState carried t = drop_names [''VIDEO_FINISH_TIER_STATE''] carried @ videoFinishTierStateBindings t"

definition withAbuseReportUrl :: "binding list \<Rightarrow> string option \<Rightarrow> binding list" where
  "withAbuseReportUrl carried url = drop_names [''ABUSE_REPORT_URL''] carried @ abuseReportUrlBindings url"

definition withStorageQuota :: "binding list \<Rightarrow> string option \<Rightarrow> string option \<Rightarrow> binding list" where
  "withStorageQuota carried bytes mode =
     drop_names [''R2_STORAGE_QUOTA_BYTES'', ''R2_STORAGE_QUOTA_MODE''] carried @ storageQuotaBindings bytes mode"

definition assets_name :: "(string \<times> string) list \<Rightarrow> string" where
  "assets_name before = (case List.find (\<lambda>b. snd b = ''assets'') before of Some b \<Rightarrow> fst b | None \<Rightarrow> ASSETS_BINDING)"

definition carried_bindings :: "(string \<times> string) list \<Rightarrow> binding list" where
  "carried_bindings before =
     map Inherit (filter (\<lambda>n. n \<noteq> assets_name before) (map fst before)) @ [AssetsBinding (assets_name before)]"

definition upgrade_bindings :: "plane \<Rightarrow> tenant \<Rightarrow> (string \<times> string) list \<Rightarrow> binding list" where
  "upgrade_bindings C t before =
     withStorageQuota
       (withAbuseReportUrl (withVideoFinishTierState (carried_bindings before) t) (c_abuse_url C))
       (rq_bytes (resolveStorageQuota C t)) (c_quota_mode C)"

section \<open>Preflight\<close>

record studio_upgrade_context =
  su_script :: string
  su_release :: string
  su_fromRelease :: "string option"
  su_bundle :: studio_bundle
  su_token :: string
  su_hostBefore :: "json option"

type_synonym studio_refusal = "string \<times> nat \<times> string"

definition served_host_of :: "string \<Rightarrow> json option" where
  "served_host_of txt =
     (case JSON_parse txt of
        None \<Rightarrow> None
      | Some body \<Rightarrow> (case jget body ''host'' of Some (JObj kvs) \<Rightarrow> Some (JObj kvs) | Some (JArr js) \<Rightarrow> Some (JArr js) | _ \<Rightarrow> None))"

definition servedHost :: "services \<Rightarrow> string \<Rightarrow> string \<Rightarrow> json option prog" where
  "servedHost S script token =
     catching (andThen (callTenantStudio S script ''GET'' ''/api/modules'' token None) (\<lambda>(st, txt).
         ret (if st \<ge> 300 then None else served_host_of txt)))
       (\<lambda>e. ret None)"

definition no_bytes_to_move :: string where
  "no_bytes_to_move =
     ''this tenant has no studio script recorded, so there are no bytes to move; it needs a provision, not an upgrade''"

definition no_schema_to_move :: string where
  "no_schema_to_move =
     ''no tenant D1 recorded, so the release's migrations cannot be applied; a bytes move without its '' @
     ''schema is how a studio ends up running code its database cannot serve''"

definition studio_refusal_of :: "tenant \<Rightarrow> studio_refusal option" where
  "studio_refusal_of t =
     (if \<not> truthy (t_script_name t) then Some (''not_provisioned'', 409, no_bytes_to_move)
      else if t_deleted_at t \<noteq> None then Some (''tenant_deleted'', 404, ''this tenant no longer exists'')
      else if t_suspended_at t \<noteq> None then
        Some (''tenant_suspended'', 409, ''this tenant is suspended; resume it before upgrading its studio'')
      else if t_status t \<noteq> Live then
        Some (''tenant_not_live'', 409, ''this tenant is '' @ status_string (t_status t) @
          '', not live; an unfinished provision belongs to the resume path'')
      else if \<not> truthy (t_d1_database_id t) then Some (''tenant_d1_missing'', 422, no_schema_to_move)
      else if \<not> truthy (t_studio_token_enc t) then
        Some (''tenant_studio_token_missing'', 422, ''no studio token recorded for this tenant'')
      else None)"

definition bundle_unusable :: "string \<Rightarrow> exn \<Rightarrow> string" where
  "bundle_unusable release e = ''studio bundle '' @ release @ '' is not usable: '' @ error_message e"

definition preflightStudioUpgrade ::
  "services \<Rightarrow> plane \<Rightarrow> tenant \<Rightarrow> string \<Rightarrow> (studio_refusal + studio_upgrade_context) prog" where
  "preflightStudioUpgrade S C t release =
     (case studio_refusal_of t of
        Some r \<Rightarrow> ret (Inl r)
      | None \<Rightarrow>
          (let script = the (t_script_name t) in
           case decryptStudioToken (c_dec C) (c_kek C) (the (t_studio_token_enc t)) of
             None \<Rightarrow> ret (Inl (''tenant_studio_token_unreadable'', 422, token_unreadable))
           | Some token \<Rightarrow>
               andThen (callTenantStudio S script ''GET'' ''/'' token None) (\<lambda>(st, txt).
               if st \<ge> 500 then ret (Inl (''tenant_studio_not_serving'', 422, studio_not_serving st))
               else andThen (attempted (fetch_studio S release)) (\<lambda>r.
                 case r of
                   Inl e \<Rightarrow> ret (Inl (''studio_bundle_unavailable'', 422, bundle_unusable release e))
                 | Inr bundle \<Rightarrow>
                     andThen (attempted (assertDispositionCoversContract (b_required_vars bundle))) (\<lambda>v.
                     case v of
                       Inl e \<Rightarrow> ret (Inl (''studio_var_contract_undecided'', 422, error_message e))
                     | Inr _ \<Rightarrow>
                         (case rq_blocked (resolveStorageQuota C t) of
                            Some msg \<Rightarrow> ret (Inl (''plane_storage_quota_malformed'', 409, msg))
                          | None \<Rightarrow>
                              andThen (servedHost S script token) (\<lambda>host.
                              ret (Inr \<lparr>su_script = script, su_release = release, su_fromRelease = t_studio_release t, su_bundle = bundle,
                                 su_token = token, su_hostBefore = host\<rparr>))))))))"

section \<open>The upgrade\<close>

record studio_upgrade_result =
  sr_ok :: bool
  sr_script :: string
  sr_from_release :: "string option"
  sr_to_release :: string
  sr_migrations_applied :: "string list"
  sr_worker_sha256 :: string
  sr_worker_size :: nat
  sr_assets_shipped :: nat
  sr_bindings_before :: "string list"
  sr_bindings_after :: "string list"
  sr_secrets_before :: "string list"
  sr_secrets_after :: "string list"
  sr_missing_bindings :: "string list"
  sr_missing_secrets :: "string list"
  sr_missing_required_vars :: "string list"
  sr_host_keys_before :: "string list"
  sr_host_keys_after :: "string list"
  sr_served_shape_changed :: bool
  sr_serving_status :: nat

datatype studio_upgrade_outcome =
    StudioUpgraded studio_upgrade_result
  | StudioUpgradeFailed string string "studio_upgrade_result option"

definition mark_upgrade :: "services \<Rightarrow> string \<Rightarrow> string \<Rightarrow> unit run" where
  "mark_upgrade S jobId step steps = doing (wrote S (OProgress jobId step (stringify_list (steps @ [step])))) (steps @ [step])"

text \<open>The \<^verbatim>\<open>catch\<close> around one step.\<close>

definition in_step :: "string \<Rightarrow> string \<Rightarrow> 'a prog \<Rightarrow> 'a prog" where
  "in_step step prefix m = catching m (\<lambda>e. raise (StudioUpgradeError step (prefix @ error_message e)))"

definition get_bindings :: "services \<Rightarrow> plane \<Rightarrow> string \<Rightarrow> (string \<times> string) list prog" where
  "get_bindings S C script = calling (GetBindings (c_namespace C) script) (\<lambda>tr. s_getBindings S tr (c_namespace C) script)"

definition get_secrets :: "services \<Rightarrow> plane \<Rightarrow> string \<Rightarrow> string list prog" where
  "get_secrets S C script = calling (GetSecretNames (c_namespace C) script) (\<lambda>tr. s_getSecretNames S tr (c_namespace C) script)"

definition missing_from :: "string list \<Rightarrow> string list \<Rightarrow> string list" where
  "missing_from before after = filter (\<lambda>n. n \<notin> set after) (sort before)"

definition host_keys :: "json option \<Rightarrow> string list" where
  "host_keys h =
     (case h of
        Some (JObj kvs) \<Rightarrow> sort (remdups (map fst kvs))
      | Some (JArr js) \<Rightarrow> sort (map show_nat [0 ..< length js])
      | _ \<Rightarrow> [])"

definition studio_upload :: "plane \<Rightarrow> tenant \<Rightarrow> studio_upgrade_context \<Rightarrow> (string \<times> string) list \<Rightarrow> string option \<Rightarrow> worker_upload" where
  "studio_upload C t ctx before jwt =
     \<lparr>u_namespace = c_namespace C, u_script = su_script ctx, u_main = b_main (su_bundle ctx), u_text = b_text (su_bundle ctx),
      u_date = b_date (su_bundle ctx), u_flags = b_flags (su_bundle ctx), u_assets_jwt = jwt,
      u_bindings = upgrade_bindings C t before\<rparr>"

definition upgrade_result ::
  "plane \<Rightarrow> studio_upgrade_context \<Rightarrow> string list \<Rightarrow> (string \<times> string) list \<Rightarrow> string list \<Rightarrow> (string \<times> string) list \<Rightarrow> string list
     \<Rightarrow> nat \<Rightarrow> json option \<Rightarrow> studio_upgrade_result" where
  "upgrade_result C ctx applied before secretsBefore after secretsAfter status hostAfter =
     (let missingBindings = missing_from (map fst before) (map fst after);
          missingSecrets = missing_from secretsBefore secretsAfter;
          missingRequired = filter (\<lambda>v. v \<notin> set (map fst after) \<union> set secretsAfter) REQUIRED_TENANT_STUDIO_VARS;
          keysBefore = host_keys (su_hostBefore ctx); keysAfter = host_keys hostAfter
      in \<lparr>sr_ok = (missingBindings = [] \<and> missingSecrets = [] \<and> missingRequired = [] \<and> status < 500),
          sr_script = su_script ctx, sr_from_release = su_fromRelease ctx, sr_to_release = su_release ctx,
          sr_migrations_applied = applied, sr_worker_sha256 = sha256Hex (c_sha256 C) (b_text (su_bundle ctx)),
          sr_worker_size = length (b_text (su_bundle ctx)), sr_assets_shipped = length (b_assets (su_bundle ctx)),
          sr_bindings_before = sort (map fst before), sr_bindings_after = sort (map fst after),
          sr_secrets_before = sort secretsBefore, sr_secrets_after = sort secretsAfter,
          sr_missing_bindings = missingBindings, sr_missing_secrets = missingSecrets, sr_missing_required_vars = missingRequired,
          sr_host_keys_before = keysBefore, sr_host_keys_after = keysAfter,
          sr_served_shape_changed = (keysBefore \<noteq> keysAfter), sr_serving_status = status\<rparr>)"

definition readback_short :: "studio_upgrade_result \<Rightarrow> string" where
  "readback_short r =
     ''post-upgrade readback is short: '' @
     ''missing_bindings=['' @ join_with '', '' (sr_missing_bindings r) @ ''] missing_secrets=['' @ join_with '', '' (sr_missing_secrets r) @
     ''] missing_required_vars=['' @ join_with '', '' (sr_missing_required_vars r) @ ''] serving_status='' @ show_nat (sr_serving_status r)"

definition read_back ::
  "services \<Rightarrow> plane \<Rightarrow> studio_upgrade_context \<Rightarrow> string list \<Rightarrow> (string \<times> string) list \<Rightarrow> string list \<Rightarrow> studio_upgrade_result prog" where
  "read_back S C ctx applied before secretsBefore =
     andThen (get_bindings S C (su_script ctx)) (\<lambda>after.
     andThen (get_secrets S C (su_script ctx)) (\<lambda>secretsAfter.
     andThen (callTenantStudio S (su_script ctx) ''GET'' ''/'' (su_token ctx) None) (\<lambda>(st, txt).
     andThen (servedHost S (su_script ctx) (su_token ctx)) (\<lambda>hostAfter.
     ret (upgrade_result C ctx applied before secretsBefore after secretsAfter st hostAfter)))))"

definition studio_upgrade_body ::
  "services \<Rightarrow> plane \<Rightarrow> string \<Rightarrow> tenant \<Rightarrow> studio_upgrade_context \<Rightarrow> studio_upgrade_outcome run" where
  "studio_upgrade_body S C jobId t ctx =
     afterwards (doing
       (andThen (wrote S (OSetJobRunning jobId)) (\<lambda>_.
        andThen (get_bindings S C (su_script ctx)) (\<lambda>before.
        andThen (get_secrets S C (su_script ctx)) (\<lambda>secretsBefore.
        andThen (wrote S (OSetStudioRelease (t_id t) None)) (\<lambda>_.
        andThen (in_step ''d1_migrate'' ''tenant D1 migration failed: ''
            (applyStudioMigrations (c_num C) S (the (t_d1_database_id t)) (b_migrations (su_bundle ctx)))) (\<lambda>(applied, seeded).
        ret (before, secretsBefore, applied)))))))) (\<lambda>(before, secretsBefore, applied).
     afterwards (mark_upgrade S jobId ''d1_migrate'') (\<lambda>_.
     afterwards (doing (in_step ''assets_upload'' ''studio asset upload failed: ''
         (if b_assets (su_bundle ctx) \<noteq> [] then uploadStudioAssets S C (t_slug t) (b_assets (su_bundle ctx)) else ret None))) (\<lambda>jwt.
     afterwards (mark_upgrade S jobId ''assets_upload'') (\<lambda>_.
     afterwards (doing (in_step ''wfp_upload'' ''studio script upload failed: ''
         (uploadUserWorker S (studio_upload C t ctx before jwt)))) (\<lambda>_.
     afterwards (mark_upgrade S jobId ''wfp_upload'') (\<lambda>_.
     afterwards (doing (read_back S C ctx applied before secretsBefore)) (\<lambda>result.
     afterwards (mark_upgrade S jobId ''verify'') (\<lambda>_.
     doing
       (if \<not> sr_ok result then
          andThen (finish_job S jobId False (Some ''verify'') (Some (readback_short result))) (\<lambda>_.
          ret (StudioUpgradeFailed ''verify'' (readback_short result) (Some result)))
        else
          andThen (wrote S (OSetStudioRelease (t_id t) (Some (su_release ctx)))) (\<lambda>_.
          andThen (finish_job S jobId True None None) (\<lambda>_. ret (StudioUpgraded result))))))))))))"

definition upgrade_failed_step :: "exn \<Rightarrow> string list \<Rightarrow> string" where
  "upgrade_failed_step e steps = (case e of StudioUpgradeError step _ \<Rightarrow> step | _ \<Rightarrow> if steps = [] then ''d1_migrate'' else last steps)"

definition upgradeTenantStudio ::
  "services \<Rightarrow> plane \<Rightarrow> string \<Rightarrow> tenant \<Rightarrow> studio_upgrade_context \<Rightarrow> studio_upgrade_outcome prog" where
  "upgradeTenantStudio S C jobId t ctx =
     andThen (studio_upgrade_body S C jobId t ctx []) (\<lambda>(r, steps).
       case r of
         Inr oc \<Rightarrow> ret oc
       | Inl e \<Rightarrow>
           andThen (finish_job S jobId False (Some (upgrade_failed_step e steps)) (Some (error_message e))) (\<lambda>_.
           ret (StudioUpgradeFailed (upgrade_failed_step e steps) (error_message e) None)))"

section \<open>Repair of bindings\<close>

definition VIDEO_FINISH_BINDING :: string where
  "VIDEO_FINISH_BINDING = ''VIDEO_FINISH_VPC''"

definition isVideoFinishUnreachable :: "tenant \<Rightarrow> bool" where
  "isVideoFinishUnreachable t \<longleftrightarrow> t_video_finish_unreachable t = 1"

text \<open>
  The reports of a refresh and of a detach: \<open>br_already\<close> is \<^verbatim>\<open>already_present\<close> and \<^verbatim>\<open>already_absent\<close>; the
  \<^verbatim>\<open>service_id\<close> of a refresh is always empty.
\<close>

record binding_report =
  br_ok :: bool
  br_script :: string
  br_already :: bool
  br_bindings_before :: "string list"
  br_bindings_after :: "string list"
  br_secrets_before :: "string list"
  br_secrets_after :: "string list"
  br_missing_bindings :: "string list"
  br_missing_secrets :: "string list"

definition nothing_to_patch :: string where
  "nothing_to_patch =
     ''this tenant has no studio script recorded, so there is nothing to patch; '' @
     ''it needs a provision, not a binding refresh''"

definition declared_refresh :: string where
  "declared_refresh =
     ''this tenant is DECLARED unreachable for the video-finish tier, so attaching the tier '' @
     ''would make that record false. Clear the declaration first '' @
     ''(POST /api/admin/tenants/<id>/video-finish-tier-state with unreachable=false), then re-run''"

definition preflightStudioBindings :: "tenant \<Rightarrow> studio_refusal + string" where
  "preflightStudioBindings t =
     (if \<not> truthy (t_script_name t) then Inl (''not_provisioned'', 409, nothing_to_patch)
      else if isVideoFinishUnreachable t then Inl (''video_finish_declared'', 409, declared_refresh)
      else Inr (the (t_script_name t)))"

definition declared_detach :: string where
  "declared_detach =
     ''this tenant is DECLARED unreachable for the video-finish tier. Detaching under a live '' @
     ''declaration mixes two operator statements about the same capability; clear the '' @
     ''declaration first if you are undoing it, or leave it in place if you are not''"

definition preflightStudioBindingDetach :: "tenant \<Rightarrow> studio_refusal + string" where
  "preflightStudioBindingDetach t =
     (if t_deleted_at t \<noteq> None then Inl (''tenant_deleted'', 404, ''this tenant no longer exists'')
      else if \<not> truthy (t_script_name t) then
        Inl (''not_provisioned'', 409, ''this tenant has no studio script recorded, so there is no binding set to patch'')
      else if isVideoFinishUnreachable t then Inl (''video_finish_declared'', 409, declared_detach)
      else Inr (the (t_script_name t)))"

definition vpc_refused_binding :: "string \<Rightarrow> string" where
  "vpc_refused_binding what =
     ''video-finish '' @ what @ '' refused: the plane SCRIPT UPLOAD credential is not authorized for '' @
     ''Workers VPC (needs Connectivity Directory access). The tenant was NOT changed -- fix '' @
     ''CF_WORKER_UPLOAD_TOKEN and re-run.''"

text \<open>The code and the status of the \<^verbatim>\<open>StudioBindingError\<close> are \<^verbatim>\<open>vpc_binding_unauthorized\<close> and 409.\<close>

definition patch_bindings :: "services \<Rightarrow> plane \<Rightarrow> string \<Rightarrow> string \<Rightarrow> binding list \<Rightarrow> unit prog" where
  "patch_bindings S C what script desired =
     catching (calling (PatchSettings (c_namespace C) script desired) (\<lambda>tr. s_patchSettings S tr (c_namespace C) script desired)) (\<lambda>e.
       if classifyVpcBindingFailure e (list_ex is_vpc desired) = VpcRefused
       then raise (OtherError ''StudioBindingError'' (vpc_refused_binding what)) else raise e)"

definition binding_report_of ::
  "string \<Rightarrow> bool \<Rightarrow> string list \<Rightarrow> string list \<Rightarrow> string list \<Rightarrow> string list \<Rightarrow> binding_report" where
  "binding_report_of script already before secretsBefore after secretsAfter =
     (let missingBindings = filter (\<lambda>n. n \<noteq> VIDEO_FINISH_BINDING) (missing_from before after);
          missingSecrets = missing_from secretsBefore secretsAfter
      in \<lparr>br_ok = (missingBindings = [] \<and> missingSecrets = [] \<and> VIDEO_FINISH_BINDING \<notin> set after), br_script = script,
          br_already = already, br_bindings_before = sort before, br_bindings_after = sort after,
          br_secrets_before = sort secretsBefore, br_secrets_after = sort secretsAfter,
          br_missing_bindings = missingBindings, br_missing_secrets = missingSecrets\<rparr>)"

text \<open>Read, patch, read again.\<close>

definition repatched ::
  "services \<Rightarrow> plane \<Rightarrow> string \<Rightarrow> string \<Rightarrow> (string list \<Rightarrow> binding list) \<Rightarrow> binding_report prog" where
  "repatched S C what script desired =
     andThen (get_bindings S C script) (\<lambda>before.
     andThen (get_secrets S C script) (\<lambda>secretsBefore.
     andThen (patch_bindings S C what script (desired (map fst before))) (\<lambda>_.
     andThen (get_bindings S C script) (\<lambda>after.
     andThen (get_secrets S C script) (\<lambda>secretsAfter.
     ret (binding_report_of script (VIDEO_FINISH_BINDING \<notin> set (map fst before)) (map fst before) secretsBefore (map fst after)
       secretsAfter))))))"

definition refreshed_bindings :: "plane \<Rightarrow> string list \<Rightarrow> binding list" where
  "refreshed_bindings C before =
     map Inherit (filter (\<lambda>n. n \<noteq> VIDEO_FINISH_BINDING \<and> n \<notin> set (map fst (c_media_doors C))) before) @
     map (\<lambda>(n, v). PlainText n v) (c_media_doors C)"

definition refreshTenantStudioBindings :: "services \<Rightarrow> plane \<Rightarrow> string \<Rightarrow> binding_report prog" where
  "refreshTenantStudioBindings S C script = repatched S C ''binding'' script (refreshed_bindings C)"

definition detached_bindings :: "tenant \<Rightarrow> string list \<Rightarrow> binding list" where
  "detached_bindings t before = withVideoFinishTierState (map Inherit (filter (\<lambda>n. n \<noteq> VIDEO_FINISH_BINDING) before)) t"

definition detachTenantStudioBinding :: "services \<Rightarrow> plane \<Rightarrow> tenant \<Rightarrow> string \<Rightarrow> binding_report prog" where
  "detachTenantStudioBinding S C t script = repatched S C ''detach'' script (detached_bindings t)"

section \<open>What an upgrade may do\<close>

definition PROJECTED_VARS :: "string list" where
  "PROJECTED_VARS = [''VIDEO_FINISH_TIER_STATE'', ''ABUSE_REPORT_URL'', ''R2_STORAGE_QUOTA_BYTES'', ''R2_STORAGE_QUOTA_MODE'']"

text \<open>A binding that carries no value of the plane but one of the four variables it projects.\<close>

fun keeps_values :: "binding \<Rightarrow> bool" where
  "keeps_values (Inherit n) \<longleftrightarrow> True"
| "keeps_values (AssetsBinding n) \<longleftrightarrow> True"
| "keeps_values (PlainText n v) \<longleftrightarrow> n \<in> set PROJECTED_VARS"
| "keeps_values _ \<longleftrightarrow> False"

lemma upgrade_keeps_values: "list_all keeps_values (upgrade_bindings C t before)"
  by (auto simp: upgrade_bindings_def withStorageQuota_def withAbuseReportUrl_def withVideoFinishTierState_def drop_names_def
      carried_bindings_def storageQuotaBindings_def abuseReportUrlBindings_def videoFinishTierStateBindings_def list_all_iff
      PROJECTED_VARS_def)

lemma upgrade_carries:
  assumes "n \<in> set (map fst before)" "n \<notin> set PROJECTED_VARS"
  shows "n \<in> set (map binding_name (upgrade_bindings C t before))"
proof -
  have "n \<in> set (map binding_name (carried_bindings before))"
    using assms(1) by (cases "n = assets_name before") (auto simp: carried_bindings_def image_image)
  then show ?thesis
    using assms(2)
    by (auto simp: upgrade_bindings_def withStorageQuota_def withAbuseReportUrl_def withVideoFinishTierState_def drop_names_def
        PROJECTED_VARS_def)
qed

lemma lifted_quota_dropped:
  "\<not> truthy (rq_bytes (resolveStorageQuota C t)) \<Longrightarrow>
    ''R2_STORAGE_QUOTA_BYTES'' \<notin> set (map binding_name (upgrade_bindings C t before))"
  by (auto simp: upgrade_bindings_def withStorageQuota_def drop_names_def storageQuotaBindings_def)

fun studio_event :: "plane \<Rightarrow> tenant \<Rightarrow> string \<Rightarrow> string \<Rightarrow> event \<Rightarrow> bool" where
  "studio_event C t script job (Wrote now p) \<longleftrightarrow>
     (\<exists>r. p = OSetStudioRelease (t_id t) r) \<or> p = OSetJobRunning job \<or> (\<exists>step xs. p = OProgress job step xs)
     \<or> (\<exists>ok step msg. p = OFinishJob job ok step msg)"
| "studio_event C t script job (Called c b) \<longleftrightarrow>
     (case c of
        UploadWorker u \<Rightarrow> u_namespace u = c_namespace C \<and> u_script u = script \<and> list_all keeps_values (u_bindings u)
      | QueryD1 d _ _ \<Rightarrow> d = the (t_d1_database_id t)
      | AssetsSession n s _ \<Rightarrow> n = c_namespace C \<and> s = tenantScriptName (t_slug t)
      | AssetsBucket _ _ \<Rightarrow> True
      | StudioCall s m _ _ body \<Rightarrow> s = script \<and> m = ''GET'' \<and> body = None
      | GetBindings n s \<Rightarrow> n = c_namespace C \<and> s = script
      | GetSecretNames n s \<Rightarrow> n = c_namespace C \<and> s = script
      | _ \<Rightarrow> False)"
| "studio_event C t script job (Indexed _ _ _ _) \<longleftrightarrow> False"
| "studio_event C t script job _ \<longleftrightarrow> True"

lemma emits_in_step [emits_intro]: "emits P m \<Longrightarrow> emits P (in_step step prefix m)"
  unfolding in_step_def by (intro emits_intro)

lemma emits_get [emits_intro]:
  "(\<And>b. P (Called (GetBindings (c_namespace C) script) b)) \<Longrightarrow> emits P (get_bindings S C script)"
  "(\<And>b. P (Called (GetSecretNames (c_namespace C) script) b)) \<Longrightarrow> emits P (get_secrets S C script)"
  unfolding get_bindings_def get_secrets_def by (intro emits_intro; simp)+

lemma emits_studio_call [emits_intro]:
  "(\<And>x. P (Called (StudioCall script m p tok body) x)) \<Longrightarrow> emits P (callTenantStudio S script m p tok body)"
  unfolding callTenantStudio_def by (intro emits_intro)

lemma emits_host [emits_intro]:
  "(\<And>x. P (Called (StudioCall script ''GET'' ''/api/modules'' tok None) x)) \<Longrightarrow> emits P (servedHost S script tok)"
  unfolding servedHost_def by (intro emits_intro)

lemma run_mark_upgrade [run_intro]:
  "P StoreFailed \<Longrightarrow> (\<And>now xs. P (Wrote now (OProgress j step xs))) \<Longrightarrow> run_emits P (mark_upgrade S j step)"
  unfolding run_emits_def mark_upgrade_def doing_def by (intro allI emits_intro)

lemma studio_body_emits: "run_emits (studio_event C t (su_script ctx) job) (studio_upgrade_body S C job t ctx)"
  unfolding studio_upgrade_body_def read_back_def uploadUserWorker_def uploadStudioAssets_def upload_bucket_def Let_def
  by (intro run_intro emits_intro) (auto simp: studio_upload_def upgrade_keeps_values)

lemma emits_studio_upgrade: "emits (studio_event C t (su_script ctx) job) (upgradeTenantStudio S C job t ctx)"
  unfolding upgradeTenantStudio_def
  by (intro emits_andThen run_steps studio_body_emits emits_prod emits_sum emits_intro) auto

text \<open>The tenant rows, without the studio release of one.\<close>

definition apart_from_release :: "string \<Rightarrow> cp_db \<Rightarrow> tenant list" where
  "apart_from_release tid db = update_where (\<lambda>u. t_id u = tid) (\<lambda>u. u\<lparr>t_studio_release := None\<rparr>) (d_tenants db)"

lemma studio_op_keeps:
  assumes "studio_event C t script job (Wrote now p)"
  shows "apart_from_release (t_id t) (exec now p db) = apart_from_release (t_id t) db"
proof -
  have "d_tenants (setJobRunning db j now) = d_tenants db" "d_tenants (updateJobProgress db j step xs now) = d_tenants db" for j step xs
    by (simp_all add: setJobRunning_def updateJobProgress_def)
  moreover have "apart_from_release i (setTenantStudioRelease db i r) = apart_from_release i db" for i r
    unfolding apart_from_release_def setTenantStudioRelease_def set_tenant_def tenants_of_updates
    by (simp add: update_where_def)
  ultimately show ?thesis using assms by (auto simp: apart_from_release_def)
qed

lemma studio_ops_keep:
  "list_all (studio_event C t script job) es \<Longrightarrow>
    apart_from_release (t_id t) (run_ops (writes es) db) = apart_from_release (t_id t) db"
proof (induction es arbitrary: db)
  case (Cons e es)
  then show ?case using studio_op_keeps [of C t script job] by (cases e) auto
qed simp

text \<open>
  C24: moving a studio to another release carries its values over and touches nothing else.  Whatever the
  services answer and wherever the store fails, an upgrade uploads only the tenant's studio, and with
  bindings that inherit what is bound, declare the assets, or are one of the four variables the plane
  projects: no credential and no identifier is bound anew.  It queries only the tenant's own database, only
  reads from the studio, and of all tenant rows it changes nothing but the studio release of its own.
\<close>

theorem studio_upgrade_keeps_values:
  "list_all (studio_event C t (su_script ctx) job) (did (upgradeTenantStudio S C job t ctx) w)
   \<and> apart_from_release (t_id t) (w_db (snd (upgradeTenantStudio S C job t ctx w))) = apart_from_release (t_id t) (w_db w)"
  using emitsD(1,3) [OF emits_studio_upgrade [of C t ctx job S], of w] by (simp add: studio_ops_keep)

section \<open>How an upgrade ends\<close>

text \<open>The part of a successful run that matters: what was listed before, what was uploaded, what was read back.\<close>

lemma get_bindingsE:
  assumes "get_bindings S C script w = (Inr bs, w')"
  obtains "s_getBindings S (w_trace w) (c_namespace C) script = Inr bs"
    "w_trace w' = w_trace w @ [Called (GetBindings (c_namespace C) script) True]" "w_db w' = w_db w"
  using assms unfolding get_bindings_def calling_returns by (auto intro: that)

lemma get_secretsE:
  assumes "get_secrets S C script w = (Inr ns, w')"
  obtains "s_getSecretNames S (w_trace w) (c_namespace C) script = Inr ns"
  using assms unfolding get_secrets_def calling_returns by (auto intro: that)

lemma read_backE:
  assumes "read_back S C ctx applied before secretsBefore w = (Inr result, w')"
  obtains after secretsAfter tr st host where
    "s_getBindings S (w_trace w) (c_namespace C) (su_script ctx) = Inr after"
    "s_getSecretNames S tr (c_namespace C) (su_script ctx) = Inr secretsAfter"
    "result = upgrade_result C ctx applied before secretsBefore after secretsAfter st host"
proof -
  from assms obtain after w1 secretsAfter w2 st host where 1: "get_bindings S C (su_script ctx) w = (Inr after, w1)"
    and 2: "get_secrets S C (su_script ctx) w1 = (Inr secretsAfter, w2)"
    and 3: "result = upgrade_result C ctx applied before secretsBefore after secretsAfter st host"
    unfolding read_back_def by (auto elim!: andThenE split: prod.splits)
  from 1 have "s_getBindings S (w_trace w) (c_namespace C) (su_script ctx) = Inr after" by (rule get_bindingsE)
  moreover from 2 have "s_getSecretNames S (w_trace w1) (c_namespace C) (su_script ctx) = Inr secretsAfter" by (rule get_secretsE)
  ultimately show thesis using 3 by (rule that)
qed

lemma in_stepE:
  assumes "in_step step prefix m w = (Inr x, w')"
  obtains "m w = (Inr x, w')"
  using assms unfolding in_step_def by (auto elim!: catchingE)

lemma uploadedE:
  assumes "in_step step prefix (uploadUserWorker S u) w = (Inr x, w')"
  obtains "w_trace w' = w_trace w @ [Called (UploadWorker u) True]"
  using assms by (auto elim!: in_stepE simp: uploadUserWorker_def calling_returns intro: that)

lemma mark_upgradeE:
  assumes "mark_upgrade S job step steps w = (Inr (Inr x, steps'), w')"
  obtains now xs where "w_trace w' = w_trace w @ [Wrote now (OProgress job step xs)]"
proof -
  from assms have "wrote S (OProgress job step (stringify_list (steps @ [step]))) w = (Inr x, w')"
    unfolding mark_upgrade_def by (rule doingE)
  then show thesis by (rule wroteE) (simp add: that)
qed

lemma openedE:
  assumes "andThen (wrote S (OSetJobRunning job)) (\<lambda>_. andThen (get_bindings S C script) f) w = (Inr x, w')"
  obtains now before w1 where "s_getBindings S (w_trace w @ [Wrote now (OSetJobRunning job)]) (c_namespace C) script = Inr before"
    "f before w1 = (Inr x, w')"
proof -
  from assms obtain y w0 where 0: "wrote S (OSetJobRunning job) w = (Inr y, w0)" and r: "andThen (get_bindings S C script) f w0 = (Inr x, w')"
    by (rule andThenE)
  from 0 obtain now where w0: "w_trace w0 = w_trace w @ [Wrote now (OSetJobRunning job)]" by (rule wroteE) simp
  from r obtain before w1 where "get_bindings S C script w0 = (Inr before, w1)" "f before w1 = (Inr x, w')" by (rule andThenE)
  then show thesis using w0 by (auto elim!: get_bindingsE intro: that)
qed

lemma upgradedE:
  assumes "upgradeTenantStudio S C job t ctx w = (Inr (StudioUpgraded r), w')"
  obtains now before jwt pre now' xs after applied sb tr sa st host where
    "s_getBindings S (w_trace w @ [Wrote now (OSetJobRunning job)]) (c_namespace C) (su_script ctx) = Inr before"
    "s_getBindings S (pre @ [Called (UploadWorker (studio_upload C t ctx before jwt)) True, Wrote now' (OProgress job ''wfp_upload'' xs)])
       (c_namespace C) (su_script ctx) = Inr after"
    "s_getSecretNames S tr (c_namespace C) (su_script ctx) = Inr sa"
    "r = upgrade_result C ctx applied before sb after sa st host" "sr_ok r"
proof -
  from assms obtain steps where body: "studio_upgrade_body S C job t ctx [] w = (Inr (Inr (StudioUpgraded r), steps), w')"
    unfolding upgradeTenantStudio_def by (auto elim!: andThenE split: sum.splits prod.splits simp: ret_def)
  let ?open = "\<lambda>before. andThen (get_secrets S C (su_script ctx)) (\<lambda>secretsBefore.
        andThen (wrote S (OSetStudioRelease (t_id t) None)) (\<lambda>_.
        andThen (in_step ''d1_migrate'' ''tenant D1 migration failed: ''
            (applyStudioMigrations (c_num C) S (the (t_d1_database_id t)) (b_migrations (su_bundle ctx)))) (\<lambda>(applied, seeded).
        ret (before, secretsBefore, applied))))"
  let ?finish = "\<lambda>result. if \<not> sr_ok result then
          andThen (finish_job S job False (Some ''verify'') (Some (readback_short result))) (\<lambda>_.
          ret (StudioUpgradeFailed ''verify'' (readback_short result) (Some result)))
        else
          andThen (wrote S (OSetStudioRelease (t_id t) (Some (su_release ctx)))) (\<lambda>_.
          andThen (finish_job S job True None None) (\<lambda>_. ret (StudioUpgraded result)))"
  let ?rest = "\<lambda>before sb applied. afterwards (mark_upgrade S job ''d1_migrate'') (\<lambda>_.
     afterwards (doing (in_step ''assets_upload'' ''studio asset upload failed: ''
         (if b_assets (su_bundle ctx) \<noteq> [] then uploadStudioAssets S C (t_slug t) (b_assets (su_bundle ctx)) else ret None))) (\<lambda>jwt.
     afterwards (mark_upgrade S job ''assets_upload'') (\<lambda>_.
     afterwards (doing (in_step ''wfp_upload'' ''studio script upload failed: ''
         (uploadUserWorker S (studio_upload C t ctx before jwt)))) (\<lambda>_.
     afterwards (mark_upgrade S job ''wfp_upload'') (\<lambda>_.
     afterwards (doing (read_back S C ctx applied before sb)) (\<lambda>result.
     afterwards (mark_upgrade S job ''verify'') (\<lambda>_. doing (?finish result))))))))"
  from body obtain p s1 w1 where
    "doing (andThen (wrote S (OSetJobRunning job)) (\<lambda>_. andThen (get_bindings S C (su_script ctx)) ?open)) [] w = (Inr (Inr p, s1), w1)"
    and rest: "(case p of (before, sb, applied) \<Rightarrow> ?rest before sb applied) s1 w1 = (Inr (Inr (StudioUpgraded r), steps), w')"
    unfolding studio_upgrade_body_def by (rule afterwardsE)
  moreover obtain before sb applied where p: "p = (before, sb, applied)" by (cases p)
  ultimately have 1: "andThen (wrote S (OSetJobRunning job)) (\<lambda>_. andThen (get_bindings S C (su_script ctx)) ?open) w = (Inr (before, sb, applied), w1)"
    by (blast elim: doingE)
  from rest obtain jwt w2 x w3 s4 w4 s5 y w5 result w6 w7 where
    2: "in_step ''wfp_upload'' ''studio script upload failed: '' (uploadUserWorker S (studio_upload C t ctx before jwt)) w2 = (Inr x, w3)" and
    3: "mark_upgrade S job ''wfp_upload'' s4 w3 = (Inr (Inr y, s5), w4)" and
    4: "read_back S C ctx applied before sb w4 = (Inr result, w5)" and
    5: "?finish result w6 = (Inr (StudioUpgraded r), w7)"
    unfolding p prod.case by (elim afterwardsE doingE) (rule that)
  have r: "sr_ok result \<and> r = result"
  proof (cases "sr_ok result")
    case True
    with 5 have "andThen (wrote S (OSetStudioRelease (t_id t) (Some (su_release ctx)))) (\<lambda>_.
        andThen (finish_job S job True None None) (\<lambda>_. ret (StudioUpgraded result))) w6 = (Inr (StudioUpgraded r), w7)" by simp
    then show ?thesis using True by (elim andThenE) (simp add: ret_def)
  next
    case False
    with 5 have "andThen (finish_job S job False (Some ''verify'') (Some (readback_short result))) (\<lambda>_.
        ret (StudioUpgradeFailed ''verify'' (readback_short result) (Some result))) w6 = (Inr (StudioUpgraded r), w7)" by simp
    then show ?thesis by (elim andThenE) (simp add: ret_def)
  qed
  from 1 obtain now before' w8 where b: "s_getBindings S (w_trace w @ [Wrote now (OSetJobRunning job)]) (c_namespace C) (su_script ctx) = Inr before'"
    and "?open before' w8 = (Inr (before, sb, applied), w1)" by (rule openedE)
  then have "before' = before" by (auto elim!: andThenE split: prod.splits)
  from 2 have u: "w_trace w3 = w_trace w2 @ [Called (UploadWorker (studio_upload C t ctx before jwt)) True]" by (rule uploadedE)
  from 3 obtain now' xs where "w_trace w4 = w_trace w3 @ [Wrote now' (OProgress job ''wfp_upload'' xs)]" by (rule mark_upgradeE)
  with u have tr: "w_trace w4 = w_trace w2 @ [Called (UploadWorker (studio_upload C t ctx before jwt)) True, Wrote now' (OProgress job ''wfp_upload'' xs)]"
    by simp
  from 4 obtain after sa tr' st host where "s_getBindings S (w_trace w4) (c_namespace C) (su_script ctx) = Inr after"
    "s_getSecretNames S tr' (c_namespace C) (su_script ctx) = Inr sa" "result = upgrade_result C ctx applied before sb after sa st host"
    by (rule read_backE)
  with b r tr \<open>before' = before\<close> show thesis by (auto intro: that)
qed

lemma missing_from_Nil: "missing_from before after = [] \<longleftrightarrow> set before \<subseteq> set after"
  by (auto simp: missing_from_def filter_empty_conv)

text \<open>The Worker a trace last uploaded under a name.\<close>

fun last_upload :: "string \<Rightarrow> string \<Rightarrow> event list \<Rightarrow> worker_upload option" where
  "last_upload ns script [] = None"
| "last_upload ns script (e # es) =
     (case last_upload ns script es of
        Some u \<Rightarrow> Some u
      | None \<Rightarrow> (case e of Called (UploadWorker u) True \<Rightarrow> if u_namespace u = ns \<and> u_script u = script then Some u else None | _ \<Rightarrow> None))"

lemma last_upload_append:
  "last_upload ns script (es @ fs) = (case last_upload ns script fs of Some u \<Rightarrow> Some u | None \<Rightarrow> last_upload ns script es)"
  by (induction es) (auto split: option.splits)

text \<open>
  A platform that drops what an upload omits: after an upload of a Worker it lists no binding the upload
  did not name.
\<close>

definition drops_omitted :: "services \<Rightarrow> string \<Rightarrow> string \<Rightarrow> bool" where
  "drops_omitted S ns script \<longleftrightarrow> (\<forall>tr u bs. last_upload ns script tr = Some u \<longrightarrow> s_getBindings S tr ns script = Inr bs \<longrightarrow>
     set (map fst bs) \<subseteq> set (map binding_name (u_bindings u)))"


definition dropping_services :: services where
  "dropping_services = calm_services\<lparr>s_getBindings := (\<lambda>tr n s.
     case last_upload n s tr of
       None \<Rightarrow> Inr [(''R2_STORAGE_QUOTA_BYTES'', ''plain_text'')]
     | Some u \<Rightarrow> Inr (map (\<lambda>b. (binding_name b, ''inherit'')) (u_bindings u)))\<rparr>"

definition ex_move :: studio_upgrade_context where
  "ex_move = \<lparr>su_script = ''s'', su_release = ''v2'', su_fromRelease = None,
     su_bundle = \<lparr>b_main = ''m'', b_text = [], b_date = [], b_flags = None, b_assets = [], b_migrations = [], b_required_vars = []\<rparr>,
     su_token = ''tok'', su_hostBefore = None\<rparr>"


end
