(* ===== verification/Projections.thy ===== *)
theory Projections
  imports StudioUpgrade Operators
begin

text \<open>
  Three facts the plane records or configures and a studio reads as variables: the storage ceiling
  (\<^verbatim>\<open>src/src/tenant-storage-quota.ts\<close>), the address for reports of abuse
  (\<^verbatim>\<open>src/src/tenant-abuse-report.ts\<close>) and the state of the video-finish tier
  (\<^verbatim>\<open>src/src/video-finish-tier-state.ts\<close>), with their admin routes in \<^verbatim>\<open>src/src/index.ts\<close>.  Each is
  written by a patch of the studio's bindings and read back from the studio.  Log lines are left out, and
  so is the offending value in the message of an unknown mode.
\<close>

section \<open>Configuration\<close>

record storage_quota_config =
  qc_bytes :: "string option"
  qc_invalid :: "string option"
  qc_mode :: "string option"
  qc_invalidMode :: "string option"

text \<open>The mode, and the value when it is none of the two.\<close>

definition tenantStorageQuotaMode :: "string option \<Rightarrow> string option \<times> string option" where
  "tenantStorageQuotaMode raw =
     (if trim_or_empty raw = [] then (None, None)
      else (let trimmed = to_lower (trim_or_empty raw) in
            if trimmed \<notin> {''deny'', ''meter''} then (None, Some (trim_or_empty raw))
            else (if trimmed = ''meter'' then Some ''meter'' else None, None)))"

definition tenantStorageQuota :: "plane \<Rightarrow> string option \<Rightarrow> string option \<Rightarrow> storage_quota_config" where
  "tenantStorageQuota C raw rawMode =
     (let (mode, invalidMode) = tenantStorageQuotaMode rawMode; trimmed = trim_or_empty raw in
      if trimmed = [] then \<lparr>qc_bytes = None, qc_invalid = None, qc_mode = mode, qc_invalidMode = invalidMode\<rparr>
      else if \<not> isPositiveIntegerBytes C trimmed then
        \<lparr>qc_bytes = None, qc_invalid = Some trimmed, qc_mode = mode, qc_invalidMode = invalidMode\<rparr>
      else \<lparr>qc_bytes = Some (number_string (c_num C) (c_number C trimmed)), qc_invalid = None, qc_mode = mode,
             qc_invalidMode = invalidMode\<rparr>)"

text \<open>The dependencies of a plane that is configured so; no code reads \<^const>\<open>qc_invalidMode\<close>.\<close>

definition with_quota_config :: "plane \<Rightarrow> storage_quota_config \<Rightarrow> plane" where
  "with_quota_config C q = C\<lparr>c_quota_bytes := qc_bytes q, c_quota_invalid := qc_invalid q, c_quota_mode := qc_mode q\<rparr>"

definition hostedAbuseReportUrl :: "string option \<Rightarrow> string option" where
  "hostedAbuseReportUrl host =
     (if trim_or_empty host = [] then None else Some (''https://'' @ the host @ ''/report-abuse''))"

section \<open>Reading a studio\<close>

text \<open>\<^verbatim>\<open>a === b\<close> of two numbers or nulls, and \<^verbatim>\<open>a <= b\<close> of two numbers.\<close>

definition same_number :: "jsnum option \<Rightarrow> jsnum option \<Rightarrow> bool" where
  "same_number a b \<longleftrightarrow> a = b \<and> a \<noteq> Some NaN"

fun number_le :: "jsnum \<Rightarrow> jsnum \<Rightarrow> bool" where
  "number_le (Fin a) (Fin b) \<longleftrightarrow> a \<le> b"
| "number_le NegInf b \<longleftrightarrow> b \<noteq> NaN"
| "number_le (Fin a) PosInf \<longleftrightarrow> True"
| "number_le PosInf PosInf \<longleftrightarrow> True"
| "number_le _ _ \<longleftrightarrow> False"

definition oget :: "json option \<Rightarrow> string \<Rightarrow> json option" where
  "oget v k = (case v of None \<Rightarrow> None | Some j \<Rightarrow> jget j k)"

definition jnumber :: "json \<Rightarrow> jsnum option" where
  "jnumber v = (case v of JNum n \<Rightarrow> Some n | _ \<Rightarrow> None)"

datatype storage_reading =
    Unreadable
  | NoReader
  | Read "jsnum option" "jsnum option"

definition reading_of_text :: "string \<Rightarrow> storage_reading" where
  "reading_of_text txt =
     (case JSON_parse txt of
        None \<Rightarrow> Unreadable
      | Some body \<Rightarrow>
          (case jget body ''quota_bytes'' of
             None \<Rightarrow> Unreadable
           | Some q \<Rightarrow> Read (jnumber q) (Option.bind (jget body ''used_bytes'') jnumber)))"

definition STORAGE_USAGE_PATH :: string where
  "STORAGE_USAGE_PATH = ''/api/storage/usage''"

definition readStudioStorage :: "services \<Rightarrow> string \<Rightarrow> string \<Rightarrow> storage_reading prog" where
  "readStudioStorage S script token =
     catching (andThen (callTenantStudio S script ''GET'' STORAGE_USAGE_PATH token None) (\<lambda>(st, txt).
         ret (if st = 404 then NoReader else if st \<ge> 300 then Unreadable else reading_of_text txt)))
       (\<lambda>e. ret Unreadable)"

text \<open>What a studio serves on \<^verbatim>\<open>/api/modules\<close>, seen through a function of its body; \<^const>\<open>None\<close> is a studio that cannot be read.\<close>

definition served_by :: "services \<Rightarrow> (json \<Rightarrow> string option) \<Rightarrow> string \<Rightarrow> string \<Rightarrow> string option option prog" where
  "served_by S view script token =
     catching (andThen (callTenantStudio S script ''GET'' ''/api/modules'' token None) (\<lambda>(st, txt).
         ret (if st \<ge> 300 then None else map_option view (JSON_parse txt))))
       (\<lambda>e. ret None)"

definition abuse_url_in :: "json \<Rightarrow> string option" where
  "abuse_url_in body = jstring (oget (jget body ''host'') ''abuse_report_url'')"

definition servedAbuseReportUrl :: "services \<Rightarrow> string \<Rightarrow> string \<Rightarrow> string option option prog" where
  "servedAbuseReportUrl S = served_by S abuse_url_in"

definition VIDEO_FINISH_CAPABILITY_KEY :: string where
  "VIDEO_FINISH_CAPABILITY_KEY = ''capability:video-finish''"

definition capability_reason_in :: "json \<Rightarrow> string option" where
  "capability_reason_in body = jstring (oget (oget (jget body ''host'') ''hooks_unavailable'') VIDEO_FINISH_CAPABILITY_KEY)"

definition servedCapabilityReason :: "services \<Rightarrow> string \<Rightarrow> string \<Rightarrow> string option option prog" where
  "servedCapabilityReason S = served_by S capability_reason_in"

section \<open>The readback loop\<close>

text \<open>
  A round reads the studio and says whether it serves what was bound.  As for the probes, the bound on the
  rounds is for the model only: \<^const>\<open>None\<close> is a loop that has not ended.
\<close>

definition READBACK_PROBE_MS :: int where
  "READBACK_PROBE_MS = 2500"

definition READBACK_BUDGET_MS :: int where
  "READBACK_BUDGET_MS = 15000"

definition READBACK_ROUNDS :: nat where
  "READBACK_ROUNDS = 7"

fun reading_back :: "services \<Rightarrow> ('s \<Rightarrow> (bool \<times> 's) prog) \<Rightarrow> int \<Rightarrow> nat \<Rightarrow> nat \<Rightarrow> 's \<Rightarrow> (nat \<times> 's) option prog" where
  "reading_back S ask started 0 attempts s = ret None"
| "reading_back S ask started (Suc n) attempts s =
     andThen (ask s) (\<lambda>(done, s').
     if done then ret (Some (attempts + 1, s'))
     else andThen (clock S) (\<lambda>now.
       if now - started + READBACK_PROBE_MS > READBACK_BUDGET_MS then ret (Some (attempts + 1, s'))
       else andThen (sleep READBACK_PROBE_MS) (\<lambda>_. reading_back S ask started n (attempts + 1) s')))"

text \<open>The number of reads, the last state and the time the loop took.\<close>

definition readback :: "services \<Rightarrow> ('s \<Rightarrow> (bool \<times> 's) prog) \<Rightarrow> 's \<Rightarrow> (nat \<times> 's \<times> int) option prog" where
  "readback S ask s =
     andThen (clock S) (\<lambda>started.
     andThen (reading_back S ask started READBACK_ROUNDS 0 s) (\<lambda>r.
       case r of
         None \<Rightarrow> ret None
       | Some (attempts, s') \<Rightarrow> andThen (clock S) (\<lambda>now. ret (Some (attempts, s', now - started)))))"

definition quota_round ::
  "services \<Rightarrow> string \<Rightarrow> string \<Rightarrow> jsnum option \<Rightarrow> jsnum option \<times> jsnum option \<Rightarrow> (bool \<times> jsnum option \<times> jsnum option) prog" where
  "quota_round S script token target = (\<lambda>(served, used).
     andThen (readStudioStorage S script token) (\<lambda>reading.
       ret (case reading of
              Read q u \<Rightarrow> (same_number q target, q, u)
            | _ \<Rightarrow> (False, None, used))))"

definition abuse_round :: "services \<Rightarrow> string \<Rightarrow> string \<Rightarrow> string \<Rightarrow> string option \<Rightarrow> (bool \<times> string option) prog" where
  "abuse_round S script token url served =
     andThen (servedAbuseReportUrl S script token) (\<lambda>raw.
       let served' = (case raw of None \<Rightarrow> None | Some v \<Rightarrow> v) in ret (served' = Some url, served'))"

section \<open>Patching\<close>

text \<open>The names of the bindings and of the secrets of a script.\<close>

definition census :: "services \<Rightarrow> plane \<Rightarrow> string \<Rightarrow> (string list \<times> string list) prog" where
  "census S C script =
     andThen (get_bindings S C script) (\<lambda>bs.
     andThen (get_secrets S C script) (\<lambda>secrets. ret (map fst bs, secrets)))"

definition patch_settings :: "services \<Rightarrow> plane \<Rightarrow> string \<Rightarrow> binding list \<Rightarrow> unit prog" where
  "patch_settings S C script desired =
     calling (PatchSettings (c_namespace C) script desired) (\<lambda>tr. s_patchSettings S tr (c_namespace C) script desired)"

section \<open>The storage ceiling\<close>

datatype quota_intent = IntentInherit | IntentSet string | IntentNone

record storage_quota_context =
  qx_script :: string
  qx_token :: string
  qx_bytes :: "string option"
  qx_source :: quota_source
  qx_override :: "quota_override option option"
  qx_servedBefore :: "jsnum option"
  qx_usedBefore :: "jsnum option"

definition intent_override :: "quota_intent \<Rightarrow> quota_override option" where
  "intent_override i = (case i of IntentInherit \<Rightarrow> None | IntentSet b \<Rightarrow> Some (QuotaSet b) | IntentNone \<Rightarrow> Some QuotaNone)"

definition intent_row :: "tenant \<Rightarrow> quota_intent option \<Rightarrow> tenant" where
  "intent_row t intent =
     (case intent of
        None \<Rightarrow> t
      | Some IntentInherit \<Rightarrow> t\<lparr>t_r2_storage_quota_override := None, t_r2_storage_quota_bytes := None\<rparr>
      | Some IntentNone \<Rightarrow> t\<lparr>t_r2_storage_quota_override := Some ''none'', t_r2_storage_quota_bytes := None\<rparr>
      | Some (IntentSet b) \<Rightarrow> t\<lparr>t_r2_storage_quota_override := Some ''set'', t_r2_storage_quota_bytes := Some b\<rparr>)"

definition bad_bytes :: "string \<Rightarrow> string" where
  "bad_bytes b =
     ''quota_bytes must be a positive integer number of BYTES, with no unit suffix; got '' @ json_quote b @
     ''. 107374182400 = 100 GiB''"

definition quota_refusal_of :: "plane \<Rightarrow> tenant \<Rightarrow> quota_intent option \<Rightarrow> studio_refusal option" where
  "quota_refusal_of C t intent =
     (let resolved = resolveStorageQuota C (intent_row t intent) in
      if t_deleted_at t \<noteq> None then Some (''tenant_deleted'', 404, ''this tenant no longer exists'')
      else if \<not> truthy (t_script_name t) then
        Some (''not_provisioned'', 409,
          ''this tenant has no studio script recorded, so there is nothing to bind a ceiling on; it needs a provision, '' @
          ''not a binding patch'')
      else if (case intent of Some (IntentSet b) \<Rightarrow> \<not> isPositiveIntegerBytes C b | _ \<Rightarrow> False) then
        Some (''invalid_quota_bytes'', 400, bad_bytes (case intent of Some (IntentSet b) \<Rightarrow> b | _ \<Rightarrow> []))
      else if rq_blocked resolved \<noteq> None then
        Some (if rq_source resolved = PlaneQuota then ''plane_quota_malformed'' else ''tenant_quota_record_unreadable'', 409,
              the (rq_blocked resolved))
      else if \<not> truthy (t_studio_token_enc t) then
        Some (''tenant_studio_token_missing'', 422, ''no studio token recorded for this tenant'')
      else None)"

definition usage_unreadable :: string where
  "usage_unreadable =
     ''the tenant studio did not answer GET '' @ STORAGE_USAGE_PATH @ '' with readable JSON, so what it enforces cannot be '' @
     ''established; fix that before writing to it''"

definition predates_reader :: string where
  "predates_reader =
     ''this studio answers 404 for '' @ STORAGE_USAGE_PATH @ '', so its bundle predates the vivijure-cf v1.11.0 storage-quota '' @
     ''reader. Binding the var would be a silent no-op: the tenant would carry a ceiling nothing enforces. Move the studio '' @
     ''bytes first (POST .../upgrade-studio), then re-run this route''"

definition preflightStorageQuota ::
  "services \<Rightarrow> plane \<Rightarrow> tenant \<Rightarrow> quota_intent option \<Rightarrow> (studio_refusal + storage_quota_context) prog" where
  "preflightStorageQuota S C t intent =
     (case quota_refusal_of C t intent of
        Some r \<Rightarrow> ret (Inl r)
      | None \<Rightarrow>
          (let script = the (t_script_name t); resolved = resolveStorageQuota C (intent_row t intent) in
           case decryptStudioToken (c_dec C) (c_kek C) (the (t_studio_token_enc t)) of
             None \<Rightarrow> ret (Inl (''tenant_studio_token_unreadable'', 422, token_unreadable))
           | Some token \<Rightarrow>
               andThen (readStudioStorage S script token) (\<lambda>before. ret (
                 case before of
                   Unreadable \<Rightarrow> Inl (''studio_not_serving'', 422, usage_unreadable)
                 | NoReader \<Rightarrow> Inl (''studio_predates_quota_reader'', 409, predates_reader)
                 | Read quota used \<Rightarrow>
                     Inr \<lparr>qx_script = script, qx_token = token, qx_bytes = rq_bytes resolved, qx_source = rq_source resolved,
                          qx_override = map_option intent_override intent, qx_servedBefore = quota, qx_usedBefore = used\<rparr>))))"

record storage_quota_result =
  qr_ok :: bool
  qr_script :: string
  qr_quota_bytes :: "string option"
  qr_quota_source :: quota_source
  qr_record_written :: bool
  qr_already_present :: bool
  qr_var_present_after :: bool
  qr_bindings_before :: "string list"
  qr_bindings_after :: "string list"
  qr_secrets_before :: "string list"
  qr_secrets_after :: "string list"
  qr_missing_bindings :: "string list"
  qr_missing_secrets :: "string list"
  qr_served_quota_before :: "jsnum option"
  qr_served_quota_after :: "jsnum option"
  qr_used_bytes :: "jsnum option"
  qr_over_on_arrival :: bool
  qr_enforced :: bool
  qr_readback_attempts :: nat
  qr_readback_elapsed_ms :: int

definition STORAGE_QUOTA_VAR :: string where
  "STORAGE_QUOTA_VAR = ''R2_STORAGE_QUOTA_BYTES''"

definition quota_target :: "plane \<Rightarrow> string option \<Rightarrow> jsnum option" where
  "quota_target C bytes = map_option (c_number C) bytes"

definition quota_result ::
  "plane \<Rightarrow> storage_quota_context \<Rightarrow> string list \<times> string list \<Rightarrow> string list \<times> string list
     \<Rightarrow> nat \<times> (jsnum option \<times> jsnum option) \<times> int \<Rightarrow> storage_quota_result" where
  "quota_result C ctx = (\<lambda>(before, secretsBefore) (after, secretsAfter) (attempts, (served, used), elapsed).
     let missingBindings = missing_from before after; missingSecrets = missing_from secretsBefore secretsAfter;
         target = quota_target C (qx_bytes ctx); enforced = same_number served target; present = STORAGE_QUOTA_VAR \<in> set after
     in \<lparr>qr_ok = (missingBindings = [] \<and> missingSecrets = [] \<and> present = (qx_bytes ctx \<noteq> None) \<and> enforced),
         qr_script = qx_script ctx, qr_quota_bytes = qx_bytes ctx, qr_quota_source = qx_source ctx,
         qr_record_written = (qx_override ctx \<noteq> None), qr_already_present = (STORAGE_QUOTA_VAR \<in> set before),
         qr_var_present_after = present, qr_bindings_before = sort before, qr_bindings_after = sort after,
         qr_secrets_before = sort secretsBefore, qr_secrets_after = sort secretsAfter,
         qr_missing_bindings = missingBindings, qr_missing_secrets = missingSecrets,
         qr_served_quota_before = qx_servedBefore ctx, qr_served_quota_after = served, qr_used_bytes = used,
         qr_over_on_arrival = (case (target, used) of (Some n, Some u) \<Rightarrow> number_le n u | _ \<Rightarrow> False), qr_enforced = enforced,
         qr_readback_attempts = attempts, qr_readback_elapsed_ms = elapsed\<rparr>)"

definition quota_patch :: "storage_quota_context \<Rightarrow> string list \<Rightarrow> binding list" where
  "quota_patch ctx before = withStorageQuota (map Inherit before) (qx_bytes ctx) None"

definition applyStorageQuota :: "services \<Rightarrow> plane \<Rightarrow> tenant \<Rightarrow> storage_quota_context \<Rightarrow> storage_quota_result option prog" where
  "applyStorageQuota S C t ctx =
     andThen (case qx_override ctx of None \<Rightarrow> ret () | Some ov \<Rightarrow> wrote S (OSetStorageQuota (t_id t) ov)) (\<lambda>_.
     andThen (census S C (qx_script ctx)) (\<lambda>before.
     andThen (patch_settings S C (qx_script ctx) (quota_patch ctx (fst before))) (\<lambda>_.
     andThen (census S C (qx_script ctx)) (\<lambda>after.
     andThen (readback S (quota_round S (qx_script ctx) (qx_token ctx) (quota_target C (qx_bytes ctx))) (None, qx_usedBefore ctx)) (\<lambda>r.
     ret (map_option (quota_result C ctx before after) r))))))"

definition setStorageQuota ::
  "services \<Rightarrow> plane \<Rightarrow> tenant \<Rightarrow> quota_intent option \<Rightarrow> (studio_refusal + storage_quota_result) option prog" where
  "setStorageQuota S C t intent =
     andThen (preflightStorageQuota S C t intent) (\<lambda>pre.
       case pre of
         Inl refusal \<Rightarrow> ret (Some (Inl refusal))
       | Inr ctx \<Rightarrow> andThen (applyStorageQuota S C t ctx) (\<lambda>r. ret (map_option Inr r)))"

section \<open>The address for reports of abuse\<close>

record abuse_report_context =
  ax_script :: string
  ax_token :: string
  ax_url :: string
  ax_servedBefore :: "string option"

definition abuse_refusal_of :: "plane \<Rightarrow> tenant \<Rightarrow> studio_refusal option" where
  "abuse_refusal_of C t =
     (if t_deleted_at t \<noteq> None then Some (''tenant_deleted'', 404, ''this tenant no longer exists'')
      else if \<not> truthy (t_script_name t) then
        Some (''not_provisioned'', 409,
          ''this tenant has no studio script recorded, so there is no studio to advertise an intake path '' @
          ''on; it needs a provision, not a binding patch'')
      else if \<not> truthy (c_abuse_url C) then
        Some (''plane_has_no_intake_url'', 409,
          ''this plane cannot name its own abuse-report page (CONTROL_PLANE_HOST is unset), so there is '' @
          ''nothing to advertise; fix the deploy config, then re-run'')
      else if \<not> truthy (t_studio_token_enc t) then
        Some (''tenant_studio_token_missing'', 422, ''no studio token recorded for this tenant'')
      else None)"

definition modules_unreadable :: "string \<Rightarrow> string \<Rightarrow> string" where
  "modules_unreadable what fix_what =
     ''the tenant studio did not answer GET /api/modules with readable JSON, so what it '' @ what @
     '' cannot be established; fix that before '' @ fix_what"

definition preflightAbuseReportUrl :: "services \<Rightarrow> plane \<Rightarrow> tenant \<Rightarrow> (studio_refusal + abuse_report_context) prog" where
  "preflightAbuseReportUrl S C t =
     (case abuse_refusal_of C t of
        Some r \<Rightarrow> ret (Inl r)
      | None \<Rightarrow>
          (let script = the (t_script_name t) in
           case decryptStudioToken (c_dec C) (c_kek C) (the (t_studio_token_enc t)) of
             None \<Rightarrow> ret (Inl (''tenant_studio_token_unreadable'', 422, token_unreadable))
           | Some token \<Rightarrow>
               andThen (servedAbuseReportUrl S script token) (\<lambda>served. ret (
                 case served of
                   None \<Rightarrow> Inl (''studio_not_serving'', 422, modules_unreadable ''advertises'' ''writing to it'')
                 | Some v \<Rightarrow> Inr \<lparr>ax_script = script, ax_token = token, ax_url = the (c_abuse_url C), ax_servedBefore = v\<rparr>))))"

record abuse_report_result =
  ar_ok :: bool
  ar_script :: string
  ar_url :: string
  ar_already_present :: bool
  ar_var_present_after :: bool
  ar_bindings_before :: "string list"
  ar_bindings_after :: "string list"
  ar_secrets_before :: "string list"
  ar_secrets_after :: "string list"
  ar_missing_bindings :: "string list"
  ar_missing_secrets :: "string list"
  ar_served_url_before :: "string option"
  ar_served_url_after :: "string option"
  ar_reader_live :: bool
  ar_readback_attempts :: nat
  ar_readback_elapsed_ms :: int

definition ABUSE_REPORT_URL_VAR :: string where
  "ABUSE_REPORT_URL_VAR = ''ABUSE_REPORT_URL''"

definition abuse_result ::
  "abuse_report_context \<Rightarrow> string list \<times> string list \<Rightarrow> string list \<times> string list \<Rightarrow> nat \<times> string option \<times> int \<Rightarrow> abuse_report_result" where
  "abuse_result ctx = (\<lambda>(before, secretsBefore) (after, secretsAfter) (attempts, served, elapsed).
     let missingBindings = missing_from before after; missingSecrets = missing_from secretsBefore secretsAfter;
         live = (served = Some (ax_url ctx)); present = ABUSE_REPORT_URL_VAR \<in> set after
     in \<lparr>ar_ok = (missingBindings = [] \<and> missingSecrets = [] \<and> present \<and> live), ar_script = ax_script ctx, ar_url = ax_url ctx,
         ar_already_present = (ABUSE_REPORT_URL_VAR \<in> set before), ar_var_present_after = present,
         ar_bindings_before = sort before, ar_bindings_after = sort after, ar_secrets_before = sort secretsBefore,
         ar_secrets_after = sort secretsAfter, ar_missing_bindings = missingBindings, ar_missing_secrets = missingSecrets,
         ar_served_url_before = ax_servedBefore ctx, ar_served_url_after = served, ar_reader_live = live,
         ar_readback_attempts = attempts, ar_readback_elapsed_ms = elapsed\<rparr>)"

definition applyAbuseReportUrl :: "services \<Rightarrow> plane \<Rightarrow> abuse_report_context \<Rightarrow> abuse_report_result option prog" where
  "applyAbuseReportUrl S C ctx =
     andThen (census S C (ax_script ctx)) (\<lambda>before.
     andThen (patch_settings S C (ax_script ctx) (withAbuseReportUrl (map Inherit (fst before)) (Some (ax_url ctx)))) (\<lambda>_.
     andThen (census S C (ax_script ctx)) (\<lambda>after.
     andThen (readback S (abuse_round S (ax_script ctx) (ax_token ctx) (ax_url ctx)) None) (\<lambda>r.
     ret (map_option (abuse_result ctx before after) r)))))"

definition setAbuseReportUrl :: "services \<Rightarrow> plane \<Rightarrow> tenant \<Rightarrow> (studio_refusal + abuse_report_result) option prog" where
  "setAbuseReportUrl S C t =
     andThen (preflightAbuseReportUrl S C t) (\<lambda>pre.
       case pre of
         Inl refusal \<Rightarrow> ret (Some (Inl refusal))
       | Inr ctx \<Rightarrow> andThen (applyAbuseReportUrl S C ctx) (\<lambda>r. ret (map_option Inr r)))"

section \<open>The state of the video-finish tier\<close>

record tier_state_context =
  tx_script :: string
  tx_token :: string
  tx_servedReasonBefore :: "string option"

definition tier_refusal_of :: "tenant \<Rightarrow> studio_refusal option" where
  "tier_refusal_of t =
     (if t_deleted_at t \<noteq> None then Some (''tenant_deleted'', 404, ''this tenant no longer exists'')
      else if \<not> truthy (t_script_name t) then
        Some (''not_provisioned'', 409,
          ''this tenant has no studio script recorded, so there is no studio to project the state onto; '' @
          ''it needs a provision, not a tier-state write'')
      else if \<not> truthy (t_studio_token_enc t) then
        Some (''tenant_studio_token_missing'', 422, ''no studio token recorded for this tenant'')
      else None)"

definition VIDEO_FINISH_TIER_STATE_VAR :: string where
  "VIDEO_FINISH_TIER_STATE_VAR = ''VIDEO_FINISH_TIER_STATE''"

definition reader_absent :: string where
  "reader_absent =
     ''this studio does not serve the '' @ VIDEO_FINISH_CAPABILITY_KEY @ '' key on GET /api/modules, so setting '' @
     VIDEO_FINISH_TIER_STATE_VAR @ '' would reach nobody. Either the video-finish tier is BOUND here (the panel resolves '' @
     ''available by observation and a label cannot override it), or the studio runs a bundle that '' @
     ''predates the reader (vivijure-cf v1.9.0). Move the studio bytes first, then re-run.''"

definition preflightVideoFinishTierState ::
  "services \<Rightarrow> plane \<Rightarrow> tenant \<Rightarrow> bool \<Rightarrow> (studio_refusal + tier_state_context) prog" where
  "preflightVideoFinishTierState S C t unreachable =
     (case tier_refusal_of t of
        Some r \<Rightarrow> ret (Inl r)
      | None \<Rightarrow>
          (let script = the (t_script_name t) in
           case decryptStudioToken (c_dec C) (c_kek C) (the (t_studio_token_enc t)) of
             None \<Rightarrow> ret (Inl (''tenant_studio_token_unreadable'', 422, token_unreadable))
           | Some token \<Rightarrow>
               andThen (servedCapabilityReason S script token) (\<lambda>served. ret (
                 case served of
                   None \<Rightarrow> Inl (''studio_not_serving'', 422, modules_unreadable ''reads'' ''declaring anything about it'')
                 | Some v \<Rightarrow>
                     if unreachable \<and> v = None then Inl (''studio_reader_absent'', 422, reader_absent)
                     else Inr \<lparr>tx_script = script, tx_token = token, tx_servedReasonBefore = v\<rparr>))))"

record tier_state_result =
  tr_ok :: bool
  tr_script :: string
  tr_unreachable :: bool
  tr_reason :: "string option"
  tr_var_present_before :: bool
  tr_var_present_after :: bool
  tr_bindings_before :: "string list"
  tr_bindings_after :: "string list"
  tr_secrets_before :: "string list"
  tr_secrets_after :: "string list"
  tr_missing_bindings :: "string list"
  tr_missing_secrets :: "string list"
  tr_served_reason_before :: "string option"
  tr_served_reason_after :: "string option"
  tr_served_reason_changed :: bool

definition tier_result ::
  "tier_state_context \<Rightarrow> bool \<Rightarrow> string option \<Rightarrow> string list \<times> string list \<Rightarrow> string list \<times> string list \<Rightarrow> string option option
     \<Rightarrow> tier_state_result" where
  "tier_result ctx unreachable reason = (\<lambda>(before, secretsBefore) (after, secretsAfter) served.
     let missingBindings = missing_from (filter (\<lambda>n. n \<noteq> VIDEO_FINISH_TIER_STATE_VAR) before) after;
         missingSecrets = missing_from secretsBefore secretsAfter; present = VIDEO_FINISH_TIER_STATE_VAR \<in> set after;
         reasonAfter = (case served of None \<Rightarrow> None | Some v \<Rightarrow> v)
     in \<lparr>tr_ok = (missingBindings = [] \<and> missingSecrets = [] \<and> present = unreachable), tr_script = tx_script ctx,
         tr_unreachable = unreachable, tr_reason = (if unreachable then reason else None),
         tr_var_present_before = (VIDEO_FINISH_TIER_STATE_VAR \<in> set before), tr_var_present_after = present,
         tr_bindings_before = sort before, tr_bindings_after = sort after, tr_secrets_before = sort secretsBefore,
         tr_secrets_after = sort secretsAfter, tr_missing_bindings = missingBindings, tr_missing_secrets = missingSecrets,
         tr_served_reason_before = tx_servedReasonBefore ctx, tr_served_reason_after = reasonAfter,
         tr_served_reason_changed = (tx_servedReasonBefore ctx \<noteq> reasonAfter)\<rparr>)"

definition tier_patch :: "tenant \<Rightarrow> bool \<Rightarrow> string list \<Rightarrow> binding list" where
  "tier_patch t unreachable before =
     withVideoFinishTierState (map Inherit before) (t\<lparr>t_video_finish_unreachable := if unreachable then 1 else 0\<rparr>)"

text \<open>The reason of a mark is there: the route refuses a mark without one.\<close>

definition tier_record :: "services \<Rightarrow> tenant \<Rightarrow> bool \<Rightarrow> string option \<Rightarrow> unit prog" where
  "tier_record S t unreachable reason =
     (if unreachable then andThen (clock S) (\<lambda>now. wrote S (OSetVideoFinish (t_id t) (Some (the reason, toISOString now))))
      else wrote S (OSetVideoFinish (t_id t) None))"

definition applyVideoFinishTierState ::
  "services \<Rightarrow> plane \<Rightarrow> tenant \<Rightarrow> tier_state_context \<Rightarrow> bool \<Rightarrow> string option \<Rightarrow> tier_state_result prog" where
  "applyVideoFinishTierState S C t ctx unreachable reason =
     andThen (census S C (tx_script ctx)) (\<lambda>before.
     andThen (tier_record S t unreachable reason) (\<lambda>_.
     andThen (patch_settings S C (tx_script ctx) (tier_patch t unreachable (fst before))) (\<lambda>_.
     andThen (census S C (tx_script ctx)) (\<lambda>after.
     andThen (servedCapabilityReason S (tx_script ctx) (tx_token ctx)) (\<lambda>served.
     ret (tier_result ctx unreachable reason before after served))))))"

definition setVideoFinishTierState ::
  "services \<Rightarrow> plane \<Rightarrow> tenant \<Rightarrow> bool \<Rightarrow> string option \<Rightarrow> (studio_refusal + tier_state_result) prog" where
  "setVideoFinishTierState S C t unreachable reason =
     andThen (preflightVideoFinishTierState S C t unreachable) (\<lambda>pre.
       case pre of
         Inl refusal \<Rightarrow> ret (Inl refusal)
       | Inr ctx \<Rightarrow> andThen (applyVideoFinishTierState S C t ctx unreachable reason) (\<lambda>r. ret (Inr r)))"

section \<open>The routes\<close>

fun kind_text :: "job_kind \<Rightarrow> string" where
  "kind_text JProvision = ''provision''"
| "kind_text JDeprovision = ''deprovision''"
| "kind_text JModuleUpgrade = ''module_upgrade''"
| "kind_text JStudioUpgrade = ''studio_upgrade''"

fun source_text :: "quota_source \<Rightarrow> string" where
  "source_text TenantQuota = ''tenant''"
| "source_text TenantNone = ''tenant_none''"
| "source_text PlaneQuota = ''plane''"
| "source_text PlaneUnset = ''plane_unset''"

definition jint :: "int \<Rightarrow> json" where
  "jint n = JNum (num_of_int n)"

definition jnum_or_null :: "jsnum option \<Rightarrow> json" where
  "jnum_or_null v = (case v of None \<Rightarrow> JNull | Some n \<Rightarrow> JNum n)"

definition jstrings :: "string list \<Rightarrow> json" where
  "jstrings xs = JArr (map JStr xs)"

text \<open>
  A route works on the trail of the operators beside the world.  Its only write there is its last step, so
  a request that throws leaves the trail as it was.
\<close>

type_synonym 'a route = "op_db \<Rightarrow> 'a prog"

definition audited :: "services \<Rightarrow> op_db \<Rightarrow> string \<Rightarrow> string \<Rightarrow> string \<Rightarrow> json \<Rightarrow> op_db prog" where
  "audited S db actor action target detail w =
     (case s_store S (w_trace w) of
        Some msg \<Rightarrow> store_failed msg w
      | None \<Rightarrow> observing (\<lambda>v. recordAdminAction db actor action (Some target) (Some detail) (s_now S (w_trace v))) w)"

definition refusal_reply :: "op_db \<Rightarrow> studio_refusal \<Rightarrow> reply \<times> op_db" where
  "refusal_reply db = (\<lambda>(code, status, message). (err code status [(''message'', JStr message)], db))"

text \<open>The tenant of the path, and no driver at work on its latest job.\<close>

definition with_tenant :: "services \<Rightarrow> 'c option \<Rightarrow> string \<Rightarrow> (reply \<Rightarrow> 'a) \<Rightarrow> ('c \<Rightarrow> tenant \<Rightarrow> 'a prog) \<Rightarrow> 'a prog" where
  "with_tenant S provisioner tid no k =
     (case provisioner of
        None \<Rightarrow> ret (no (err ''provisioner_unconfigured'' 503 []))
      | Some C \<Rightarrow>
          andThen (reading S (\<lambda>db. getTenantById db tid)) (\<lambda>found.
            case found of None \<Rightarrow> ret (no (err ''not_found'' 404 [])) | Some t \<Rightarrow> k C t))"

definition when_idle :: "services \<Rightarrow> tenant \<Rightarrow> (reply \<Rightarrow> 'a) \<Rightarrow> 'a prog \<Rightarrow> 'a prog" where
  "when_idle S t no k =
     andThen (reading S (\<lambda>db. getLatestJobForTenant db (t_id t))) (\<lambda>latest.
       case latest of
         None \<Rightarrow> k
       | Some j \<Rightarrow>
           andThen (clock S) (\<lambda>now.
           if jobHasLiveDriver j now
           then ret (no (err ''job_in_progress'' 409 [(''job_id'', JStr (j_id j)), (''kind'', JStr (kind_text (j_kind j)))]))
           else k))"

definition tier_fields :: "tier_state_result \<Rightarrow> (string \<times> json) list" where
  "tier_fields r =
     [(''ok'', JBool (tr_ok r)), (''script'', JStr (tr_script r)), (''unreachable'', JBool (tr_unreachable r)),
      (''reason'', jopt (tr_reason r)), (''var_present_before'', JBool (tr_var_present_before r)),
      (''var_present_after'', JBool (tr_var_present_after r)), (''bindings_before'', jstrings (tr_bindings_before r)),
      (''bindings_after'', jstrings (tr_bindings_after r)), (''secrets_before'', jstrings (tr_secrets_before r)),
      (''secrets_after'', jstrings (tr_secrets_after r)), (''missing_bindings'', jstrings (tr_missing_bindings r)),
      (''missing_secrets'', jstrings (tr_missing_secrets r)), (''served_reason_before'', jopt (tr_served_reason_before r)),
      (''served_reason_after'', jopt (tr_served_reason_after r)), (''served_reason_changed'', JBool (tr_served_reason_changed r))]"

definition fields_of :: "string list \<Rightarrow> (string \<times> json) list \<Rightarrow> (string \<times> json) list" where
  "fields_of ks kvs = List.map_filter (\<lambda>k. map_option (Pair k) (map_of kvs k)) ks"

definition reason_required :: string where
  "reason_required =
     ''declaring a studio unreachable requires a reason: it makes the panel tell that tenant the '' @
     ''tier can never be turned on for them, and a declaration nobody can explain cannot be reviewed''"

definition tier_state_route ::
  "services \<Rightarrow> plane option \<Rightarrow> string \<Rightarrow> string \<Rightarrow> json option \<Rightarrow> (reply \<times> op_db) route" where
  "tier_state_route S provisioner actor tid body db =
     with_tenant S provisioner tid (\<lambda>r. (r, db)) (\<lambda>C t.
       case oget body ''unreachable'' of
         Some (JBool unreachable) \<Rightarrow>
           (let reason = trimmed_string (oget body ''reason'') in
            if unreachable \<and> reason = [] then ret (err ''reason_required'' 400 [(''message'', JStr reason_required)], db)
            else when_idle S t (\<lambda>r. (r, db))
              (andThen (setVideoFinishTierState S C t unreachable (if unreachable then Some reason else None)) (\<lambda>outcome.
                 case outcome of
                   Inl refusal \<Rightarrow> ret (refusal_reply db refusal)
                 | Inr r \<Rightarrow>
                     andThen (audited S db actor ''tenant.set_video_finish_tier_state'' (t_id t) (JObj (fields_of
                         [''ok'', ''unreachable'', ''reason'', ''var_present_before'', ''var_present_after'', ''served_reason_changed'',
                          ''missing_bindings'', ''missing_secrets''] (tier_fields r)))) (\<lambda>db'.
                     ret (json_reply (JObj ([(''tenant_id'', JStr (t_id t)), (''slug'', JStr (t_slug t))] @ tier_fields r))
                       (if tr_ok r then 200 else 409) [], db')))))
       | _ \<Rightarrow> ret (err ''invalid_body'' 400 [], db))"

text \<open>The status of the two readbacks: done, not yet observed, or something was lost.\<close>

definition readback_status :: "bool \<Rightarrow> string list \<Rightarrow> string list \<Rightarrow> nat" where
  "readback_status ok missingBindings missingSecrets =
     (if ok then 200 else if missingBindings \<noteq> [] \<or> missingSecrets \<noteq> [] then 409 else 202)"

definition abuse_fields :: "abuse_report_result \<Rightarrow> (string \<times> json) list" where
  "abuse_fields r =
     [(''ok'', JBool (ar_ok r)), (''script'', JStr (ar_script r)), (''url'', JStr (ar_url r)),
      (''already_present'', JBool (ar_already_present r)), (''var_present_after'', JBool (ar_var_present_after r)),
      (''bindings_before'', jstrings (ar_bindings_before r)), (''bindings_after'', jstrings (ar_bindings_after r)),
      (''secrets_before'', jstrings (ar_secrets_before r)), (''secrets_after'', jstrings (ar_secrets_after r)),
      (''missing_bindings'', jstrings (ar_missing_bindings r)), (''missing_secrets'', jstrings (ar_missing_secrets r)),
      (''served_url_before'', jopt (ar_served_url_before r)), (''served_url_after'', jopt (ar_served_url_after r)),
      (''reader_live'', JBool (ar_reader_live r)), (''readback_attempts'', jint (int (ar_readback_attempts r))),
      (''readback_elapsed_ms'', jint (ar_readback_elapsed_ms r))]"

definition abuse_pending :: "abuse_report_result \<Rightarrow> string" where
  "abuse_pending r =
     ''the binding IS set on this studio and nothing was stranded, but it had not served '' @ ABUSE_REPORT_URL_VAR @
     '' back within '' @ show_int (ar_readback_elapsed_ms r) @ ''ms ('' @ show_nat (ar_readback_attempts r) @
     '' checks). Either the edge has not picked the binding up '' @
     ''yet, or this studio runs a bundle that predates the vivijure-cf v1.10.0 reader. '' @
     ''Re-run this route to tell them apart: it is idempotent, and a re-run that still '' @
     ''reports this means the studio bytes need moving (POST .../upgrade-studio).''"

definition abuse_report_route :: "services \<Rightarrow> plane option \<Rightarrow> string \<Rightarrow> string \<Rightarrow> (reply \<times> op_db) option route" where
  "abuse_report_route S provisioner actor tid db =
     with_tenant S provisioner tid (\<lambda>r. Some (r, db)) (\<lambda>C t.
     when_idle S t (\<lambda>r. Some (r, db))
       (andThen (setAbuseReportUrl S C t) (\<lambda>outcome.
          case outcome of
            None \<Rightarrow> ret None
          | Some (Inl refusal) \<Rightarrow> ret (Some (refusal_reply db refusal))
          | Some (Inr r) \<Rightarrow>
              andThen (audited S db actor ''tenant.set_abuse_report_url'' (t_id t) (JObj (fields_of
                  [''ok'', ''url'', ''already_present'', ''var_present_after'', ''reader_live'', ''missing_bindings'',
                   ''missing_secrets''] (abuse_fields r)))) (\<lambda>db'.
              let status = readback_status (ar_ok r) (ar_missing_bindings r) (ar_missing_secrets r)
              in ret (Some (json_reply (JObj ([(''tenant_id'', JStr (t_id t)), (''slug'', JStr (t_slug t))] @ abuse_fields r @
                   (if status = 202 then [(''message'', JStr (abuse_pending r))] else []))) status [], db'))))))"

definition quota_fields :: "storage_quota_result \<Rightarrow> (string \<times> json) list" where
  "quota_fields r =
     [(''ok'', JBool (qr_ok r)), (''script'', JStr (qr_script r)), (''quota_bytes'', jopt (qr_quota_bytes r)),
      (''quota_source'', JStr (source_text (qr_quota_source r))), (''record_written'', JBool (qr_record_written r)),
      (''already_present'', JBool (qr_already_present r)), (''var_present_after'', JBool (qr_var_present_after r)),
      (''bindings_before'', jstrings (qr_bindings_before r)), (''bindings_after'', jstrings (qr_bindings_after r)),
      (''secrets_before'', jstrings (qr_secrets_before r)), (''secrets_after'', jstrings (qr_secrets_after r)),
      (''missing_bindings'', jstrings (qr_missing_bindings r)), (''missing_secrets'', jstrings (qr_missing_secrets r)),
      (''served_quota_before'', jnum_or_null (qr_served_quota_before r)), (''served_quota_after'', jnum_or_null (qr_served_quota_after r)),
      (''used_bytes'', jnum_or_null (qr_used_bytes r)), (''over_on_arrival'', JBool (qr_over_on_arrival r)),
      (''enforced'', JBool (qr_enforced r)), (''readback_attempts'', jint (int (qr_readback_attempts r))),
      (''readback_elapsed_ms'', jint (qr_readback_elapsed_ms r))]"

definition quota_pending :: "storage_quota_result \<Rightarrow> string" where
  "quota_pending r =
     ''the binding IS set on this studio and nothing was stranded, but it had not reported '' @
     ''quota_bytes='' @ (case qr_quota_bytes r of None \<Rightarrow> ''null'' | Some b \<Rightarrow> b) @ '' within '' @
     show_int (qr_readback_elapsed_ms r) @ ''ms ('' @ show_nat (qr_readback_attempts r) @
     '' checks). The reader is present (the preflight read it), '' @
     ''so this is an edge that has not picked the binding up yet. Re-run this route; it is idempotent.''"

definition quota_intent_of :: "json option \<Rightarrow> reply + quota_intent option" where
  "quota_intent_of body =
     (case oget body ''mode'' of
        None \<Rightarrow> Inr None
      | Some mode \<Rightarrow>
          if mode = JStr ''inherit'' then Inr (Some IntentInherit)
          else if mode = JStr ''none'' then Inr (Some IntentNone)
          else if mode = JStr ''set'' then
            (case oget body ''quota_bytes'' of
               Some (JStr raw) \<Rightarrow> Inr (Some (IntentSet raw))
             | _ \<Rightarrow> Inl (err ''invalid_quota_bytes'' 400 [(''message'', JStr (''mode '' @ json_quote ''set'' @
                 '' requires quota_bytes as a STRING of bytes, e.g. '' @ json_quote ''107374182400'' @ '' (100 GiB)''))]))
          else Inl (err ''invalid_mode'' 400 [(''message'', JStr (''mode must be '' @ json_quote ''inherit'' @ '', '' @
                 json_quote ''set'' @ '' or '' @ json_quote ''none'' @ ''; got ''))]))"

fun intent_text :: "quota_intent option \<Rightarrow> string" where
  "intent_text None = ''converge_only''"
| "intent_text (Some IntentInherit) = ''inherit''"
| "intent_text (Some (IntentSet b)) = ''set''"
| "intent_text (Some IntentNone) = ''none''"

definition quota_audit :: "quota_intent option \<Rightarrow> storage_quota_result \<Rightarrow> json" where
  "quota_audit intent r =
     JObj ((''ok'', JBool (qr_ok r)) # (''intent'', JStr (intent_text intent)) # fields_of
       [''quota_bytes'', ''quota_source'', ''record_written'', ''already_present'', ''var_present_after'', ''enforced'',
        ''served_quota_before'', ''served_quota_after'', ''used_bytes'', ''over_on_arrival'', ''missing_bindings'',
        ''missing_secrets''] (quota_fields r))"

definition storage_quota_route ::
  "services \<Rightarrow> plane option \<Rightarrow> string \<Rightarrow> string \<Rightarrow> json option \<Rightarrow> (reply \<times> op_db) option route" where
  "storage_quota_route S provisioner actor tid body db =
     with_tenant S provisioner tid (\<lambda>r. Some (r, db)) (\<lambda>C t.
     when_idle S t (\<lambda>r. Some (r, db))
       (case quota_intent_of body of
          Inl r \<Rightarrow> ret (Some (r, db))
        | Inr intent \<Rightarrow>
            andThen (setStorageQuota S C t intent) (\<lambda>outcome.
              case outcome of
                None \<Rightarrow> ret None
              | Some (Inl refusal) \<Rightarrow> ret (Some (refusal_reply db refusal))
              | Some (Inr r) \<Rightarrow>
                  andThen (audited S db actor ''tenant.set_storage_quota'' (t_id t) (quota_audit intent r)) (\<lambda>db'.
                  let status = readback_status (qr_ok r) (qr_missing_bindings r) (qr_missing_secrets r)
                  in ret (Some (json_reply (JObj ([(''tenant_id'', JStr (t_id t)), (''slug'', JStr (t_slug t))] @ quota_fields r @
                       (if status = 202 then [(''message'', JStr (quota_pending r))] else []))) status [], db'))))))"

section \<open>What a projection may do\<close>

fun projection_event :: "plane \<Rightarrow> tenant \<Rightarrow> event \<Rightarrow> bool" where
  "projection_event C t (Wrote now p) \<longleftrightarrow> (\<exists>ov. p = OSetStorageQuota (t_id t) ov) \<or> (\<exists>mark. p = OSetVideoFinish (t_id t) mark)"
| "projection_event C t (Called c b) \<longleftrightarrow>
     (case c of
        StudioCall s m _ _ body \<Rightarrow> s = the (t_script_name t) \<and> m = ''GET'' \<and> body = None
      | GetBindings n s \<Rightarrow> n = c_namespace C \<and> s = the (t_script_name t)
      | GetSecretNames n s \<Rightarrow> n = c_namespace C \<and> s = the (t_script_name t)
      | PatchSettings n s bs \<Rightarrow> n = c_namespace C \<and> s = the (t_script_name t) \<and> list_all keeps_values bs
      | _ \<Rightarrow> False)"
| "projection_event C t (Indexed _ _ _ _) \<longleftrightarrow> False"
| "projection_event C t _ \<longleftrightarrow> True"

text \<open>Only questions to the tenant's studio.\<close>

fun asks_studio :: "tenant \<Rightarrow> event \<Rightarrow> bool" where
  "asks_studio t (Called (StudioCall s m _ _ body) b) \<longleftrightarrow> s = the (t_script_name t) \<and> m = ''GET'' \<and> body = None"
| "asks_studio t _ \<longleftrightarrow> False"

lemma emits_reads [emits_intro]:
  "(\<And>x. P (Called (StudioCall script ''GET'' STORAGE_USAGE_PATH tok None) x)) \<Longrightarrow> emits P (readStudioStorage S script tok)"
  "(\<And>x. P (Called (StudioCall script ''GET'' ''/api/modules'' tok None) x)) \<Longrightarrow> emits P (served_by S view script tok)"
  unfolding readStudioStorage_def served_by_def by (intro emits_intro; simp)+

lemma emits_census [emits_intro]:
  "(\<And>b. P (Called (GetBindings (c_namespace C) script) b)) \<Longrightarrow> (\<And>b. P (Called (GetSecretNames (c_namespace C) script) b)) \<Longrightarrow>
    emits P (census S C script)"
  unfolding census_def by (intro emits_intro)

lemma emits_patch [emits_intro]:
  "(\<And>b. P (Called (PatchSettings (c_namespace C) script bs) b)) \<Longrightarrow> emits P (patch_settings S C script bs)"
  unfolding patch_settings_def by (intro emits_intro)

lemma emits_reading_back:
  assumes "\<And>s. emits P (ask s)" "P Observed" "P (Slept READBACK_PROBE_MS)"
  shows "emits P (reading_back S ask started n attempts s)"
proof (induction n arbitrary: attempts s)
  case (Suc n)
  then show ?case using assms by (auto intro!: emits_intro)
qed (auto intro!: emits_intro)

lemma emits_readback [emits_intro]:
  assumes "\<And>s. emits P (ask s)" "P Observed" "P (Slept READBACK_PROBE_MS)"
  shows "emits P (readback S ask s)"
  unfolding readback_def by (auto intro!: emits_intro emits_reading_back assms)

lemma emits_rounds [emits_intro]:
  "(\<And>x. P (Called (StudioCall script ''GET'' STORAGE_USAGE_PATH tok None) x)) \<Longrightarrow> emits P (quota_round S script tok target s)"
  "(\<And>x. P (Called (StudioCall script ''GET'' ''/api/modules'' tok None) x)) \<Longrightarrow> emits P (abuse_round S script tok url v)"
  unfolding quota_round_def abuse_round_def servedAbuseReportUrl_def Let_def by (auto intro!: emits_intro)

lemma patches_keep_values:
  "list_all keeps_values (quota_patch ctx before)" "list_all keeps_values (withAbuseReportUrl (map Inherit before) url)"
  "list_all keeps_values (tier_patch t unreachable before)"
  by (auto simp: quota_patch_def tier_patch_def withStorageQuota_def withAbuseReportUrl_def withVideoFinishTierState_def drop_names_def
      storageQuotaBindings_def abuseReportUrlBindings_def videoFinishTierStateBindings_def list_all_iff PROJECTED_VARS_def)

lemma emits_preflights:
  "emits (asks_studio t) (preflightStorageQuota S C t intent)" "emits (asks_studio t) (preflightAbuseReportUrl S C t)"
  "emits (asks_studio t) (preflightVideoFinishTierState S C t unreachable)"
  unfolding preflightStorageQuota_def preflightAbuseReportUrl_def preflightVideoFinishTierState_def servedAbuseReportUrl_def
    servedCapabilityReason_def Let_def
  by (auto intro!: emits_intro split: option.split)

lemma emits_applied:
  "qx_script ctx = the (t_script_name t) \<Longrightarrow> emits (projection_event C t) (applyStorageQuota S C t ctx)"
  "ax_script actx = the (t_script_name t) \<Longrightarrow> emits (projection_event C t) (applyAbuseReportUrl S C actx)"
  "tx_script tctx = the (t_script_name t) \<Longrightarrow> emits (projection_event C t) (applyVideoFinishTierState S C t tctx unreachable reason)"
  unfolding applyStorageQuota_def applyAbuseReportUrl_def applyVideoFinishTierState_def tier_record_def servedCapabilityReason_def
  by (intro emits_intro; simp add: patches_keep_values)+

lemma preflight_script:
  "preflightStorageQuota S C t intent w = (Inr (Inr ctx), w') \<Longrightarrow> qx_script ctx = the (t_script_name t)"
  "preflightAbuseReportUrl S C t w = (Inr (Inr actx), w') \<Longrightarrow> ax_script actx = the (t_script_name t)"
  "preflightVideoFinishTierState S C t unreachable w = (Inr (Inr tctx), w') \<Longrightarrow> tx_script tctx = the (t_script_name t)"
  unfolding preflightStorageQuota_def preflightAbuseReportUrl_def preflightVideoFinishTierState_def Let_def
  by (auto split: option.splits storage_reading.splits if_splits)

lemma asks_is_projection: "asks_studio t e \<Longrightarrow> projection_event C t e"
  by (cases "(t, e)" rule: asks_studio.cases) auto

lemma emits_mono: "emits P m \<Longrightarrow> (\<And>e. P e \<Longrightarrow> Q e) \<Longrightarrow> emits Q m"
  unfolding emits_def by (meson list.pred_mono_strong)

text \<open>A preflight that only asks, then a refusal or the work.\<close>

lemma emits_at_guarded:
  assumes "emits (asks_studio t) pre" "\<And>ctx w'. pre w = (Inr (Inr ctx), w') \<Longrightarrow> emits (projection_event C t) (work ctx)"
  shows "emits_at (projection_event C t)
    (andThen pre (\<lambda>p. case p of Inl refusal \<Rightarrow> ret (f refusal) | Inr ctx \<Rightarrow> andThen (work ctx) (\<lambda>r. ret (g r)))) w"
proof (rule emits_at_andThen)
  show "emits_at (projection_event C t) pre w" by (rule emits_at [OF emits_mono [OF assms(1) asks_is_projection]])
  fix p w'
  assume "pre w = (Inr p, w')"
  then show "emits_at (projection_event C t) (case p of Inl refusal \<Rightarrow> ret (f refusal) | Inr ctx \<Rightarrow> andThen (work ctx) (\<lambda>r. ret (g r))) w'"
    using assms(2) by (cases p) (auto intro!: emits_at emits_intro)
qed

lemma projections_emit:
  "emits_at (projection_event C t) (setStorageQuota S C t intent) w"
  "emits_at (projection_event C t) (setAbuseReportUrl S C t) w"
  "emits_at (projection_event C t) (setVideoFinishTierState S C t unreachable reason) w"
  unfolding setStorageQuota_def setAbuseReportUrl_def setVideoFinishTierState_def
  by (rule emits_at_guarded, rule emits_preflights, rule emits_applied, erule preflight_script)+

text \<open>The tenant rows, without what the projections record of one.\<close>

definition apart_from_projections :: "string \<Rightarrow> cp_db \<Rightarrow> tenant list" where
  "apart_from_projections tid db = update_where (\<lambda>u. t_id u = tid)
     (\<lambda>u. u\<lparr>t_r2_storage_quota_override := None, t_r2_storage_quota_bytes := None, t_video_finish_unreachable := 0,
            t_video_finish_unreachable_reason := None, t_video_finish_unreachable_at := None\<rparr>) (d_tenants db)"

lemma projection_op_keeps:
  assumes "projection_event C t (Wrote now p)"
  shows "apart_from_projections (t_id t) (exec now p db) = apart_from_projections (t_id t) db"
proof -
  have "apart_from_projections i (setTenantStorageQuota db i ov) = apart_from_projections i db"
    "apart_from_projections i (setTenantVideoFinishUnreachable db i mark) = apart_from_projections i db" for i ov mark
    unfolding apart_from_projections_def setTenantStorageQuota_def setTenantVideoFinishUnreachable_def set_tenant_def tenants_of_updates
    by (simp_all add: update_where_def)
  then show ?thesis using assms by auto
qed

lemma projection_ops_keep:
  "list_all (projection_event C t) es \<Longrightarrow>
    apart_from_projections (t_id t) (run_ops (writes es) db) = apart_from_projections (t_id t) db"
proof (induction es arbitrary: db)
  case (Cons e es)
  then show ?case using projection_op_keeps [of C t] by (cases e) auto
qed simp

text \<open>
  C26: a projection never touches a studio's bytes, its release or its status.  Whatever the services answer
  and wherever the store fails, setting a storage ceiling, an address for reports or the state of the
  video-finish tier only reads from the tenant's studio and patches the tenant's own script, with bindings
  that are inherited or are one of the four variables the plane projects; and of all tenant rows it changes
  nothing but the recorded ceiling and the recorded tier state of its own.
\<close>

theorem projections_touch_only_bindings:
  "list_all (projection_event C t) (did (setStorageQuota S C t intent) w)
    \<and> list_all (projection_event C t) (did (setAbuseReportUrl S C t) w)
    \<and> list_all (projection_event C t) (did (setVideoFinishTierState S C t unreachable reason) w)
    \<and> apart_from_projections (t_id t) (w_db (snd (setStorageQuota S C t intent w))) = apart_from_projections (t_id t) (w_db w)
    \<and> apart_from_projections (t_id t) (w_db (snd (setAbuseReportUrl S C t w))) = apart_from_projections (t_id t) (w_db w)
    \<and> apart_from_projections (t_id t) (w_db (snd (setVideoFinishTierState S C t unreachable reason w)))
      = apart_from_projections (t_id t) (w_db w)"
  using projections_emit [of C t S, THEN emits_atD(1)] projections_emit [of C t S, THEN emits_atD(3)] projection_ops_keep
  by metis

lemma asks_writes: "list_all (asks_studio t) es \<Longrightarrow> writes es = []"
proof (induction es)
  case (Cons e es)
  then show ?case by (cases "(t, e)" rule: asks_studio.cases) auto
qed simp

text \<open>What a refusal leaves behind.\<close>

lemma refused_only_asked:
  assumes "emits (asks_studio t) pre" "pre w = (Inr (Inl refusal), w')"
  shows "w_db w' = w_db w \<and> (\<exists>es. w_trace w' = w_trace w @ es \<and> list_all (asks_studio t) es)"
  using emitsD(1-3) [OF assms(1), of w] asks_writes assms(2) by auto

text \<open>
  A projection that is refused has changed nothing.  When setting a storage ceiling, an address for
  reports or a tier state answers with a refusal, the store is as it was and all that happened are
  questions to the tenant's own studio: no record was written and no binding patched.
\<close>

theorem refused_projection_changes_nothing:
  assumes "setStorageQuota S C t intent w = (Inr (Some (Inl refusal)), w')
    \<or> setAbuseReportUrl S C t w = (Inr (Some (Inl refusal)), w')
    \<or> setVideoFinishTierState S C t unreachable reason w = (Inr (Inl refusal), w')"
  shows "w_db w' = w_db w \<and> (\<exists>es. w_trace w' = w_trace w @ es \<and> list_all (asks_studio t) es)"
proof -
  have "preflightStorageQuota S C t intent w = (Inr (Inl refusal), w')
    \<or> preflightAbuseReportUrl S C t w = (Inr (Inl refusal), w')
    \<or> preflightVideoFinishTierState S C t unreachable w = (Inr (Inl refusal), w')"
    using assms unfolding setStorageQuota_def setAbuseReportUrl_def setVideoFinishTierState_def
    by (auto simp: map_option_case split: sum.splits option.splits)
  then show ?thesis by (elim disjE) (erule refused_only_asked [rotated], rule emits_preflights)+
qed

definition silent_services :: services where
  "silent_services = calm_services\<lparr>s_studio := \<lambda>tr s m p k b. Inr (404, [])\<rparr>"

definition ex_studio :: tenant where
  "ex_studio = ex_tenant\<lparr>t_script_name := Some ''s'', t_studio_token_enc := Some (ex_blob 1)\<rparr>"

theorem refused_projection_changes_nothing_witness:
  "\<exists>w'. setStorageQuota silent_services ex_plane ex_studio (Some IntentNone) (ex_world [])
      = (Inr (Some (Inl (''studio_predates_quota_reader'', 409, predates_reader))), w')
    \<and> w_db w' = w_db (ex_world [])"
proof -
  have "decryptStudioToken ex_dec ex_ring (ex_blob 1) = Some ''tok''"
    by (simp add: decryptStudioToken_def ex_open)
  then have run: "\<exists>w'. setStorageQuota silent_services ex_plane ex_studio (Some IntentNone) (ex_world [])
      = (Inr (Some (Inl (''studio_predates_quota_reader'', 409, predates_reader))), w')"
    by (simp add: setStorageQuota_def preflightStorageQuota_def quota_refusal_of_def resolveStorageQuota_def intent_row_def
        tenantStorageQuotaOverride_def ex_studio_def ex_tenant_def ex_plane_def truthy_def ex_blob_nonempty readStudioStorage_def
        callTenantStudio_def calling_def silent_services_def andThen_def catching_def ret_def Let_def)
  then show ?thesis using refused_projection_changes_nothing by blast
qed

section \<open>The readbacks end\<close>

text \<open>A program that ends with a value and sleeps no longer than a bound.\<close>

definition ends_within :: "int \<Rightarrow> 'a option prog \<Rightarrow> world \<Rightarrow> bool" where
  "ends_within B m w \<longleftrightarrow> fst (m w) \<noteq> Inr None \<and> (\<exists>es. w_trace (snd (m w)) = w_trace w @ es \<and> slept es \<le> B)"

lemma ends_within_after:
  assumes "emits awake m" "0 \<le> B" "\<And>x w'. ends_within B (f x) w'"
  shows "ends_within B (andThen m f) w"
proof -
  obtain r w1 where m: "m w = (r, w1)" by fastforce
  have w1: "w_trace w1 = w_trace w @ did m w" "slept (did m w) = 0" using emitsD(1,2) [OF assms(1), of w] awake_slept m by simp_all
  show ?thesis
  proof (cases r)
    case (Inr x)
    obtain es where "fst (f x w1) \<noteq> Inr None" "w_trace (snd (f x w1)) = w_trace w1 @ es" "slept es \<le> B"
      using assms(3) unfolding ends_within_def by blast
    then show ?thesis using w1 unfolding ends_within_def
      by (intro conjI exI [of _ "did m w @ es"]) (simp_all add: andThen_def m Inr)
  qed (use w1 assms(2) in \<open>simp add: ends_within_def andThen_def m\<close>)
qed

lemma ends_within_before:
  assumes "ends_within B m w" "\<And>x. emits awake (f x)" "\<And>y w'. fst (f (Some y) w') \<noteq> Inr None"
  shows "ends_within B (andThen m f) w"
proof -
  obtain r w1 es where m: "m w = (r, w1)" "r \<noteq> Inr None" "w_trace w1 = w_trace w @ es" "slept es \<le> B"
    using assms(1) unfolding ends_within_def by (metis prod.collapse)
  show ?thesis
  proof (cases r)
    case (Inr x)
    with m(2) obtain y where y: "x = Some y" by auto
    have "w_trace (snd (f x w1)) = w_trace w1 @ did (f x) w1" "slept (did (f x) w1) = 0"
      using emitsD(1,2) [OF assms(2), of x w1] awake_slept by simp_all
    with m show ?thesis using assms(3) [of y w1] unfolding ends_within_def
      by (intro conjI exI [of _ "es @ did (f x) w1"]) (simp_all add: andThen_def Inr y)
  qed (use m in \<open>simp add: ends_within_def andThen_def\<close>)
qed

lemma clock_then: "andThen (clock S) f w = f (s_now S (w_trace w)) (w\<lparr>w_trace := w_trace w @ [Observed]\<rparr>)"
  by (simp add: andThen_def clock_def observing_def)

lemma ends_within_did: "ends_within B m w \<Longrightarrow> fst (m w) \<noteq> Inr None \<and> slept (did m w) \<le> B"
  by (auto simp: ends_within_def did_def)

text \<open>What a round owes the loop: it does not sleep.\<close>

locale asking =
  fixes S :: services and ask :: "'s \<Rightarrow> (bool \<times> 's) prog"
  assumes ask_awake: "emits awake (ask s)"
begin

lemma ask_now:
  assumes "time_passes S" "ask s w = (r, w')"
  shows "s_now S (w_trace w) \<le> s_now S (w_trace w')" "\<exists>es. w_trace w' = w_trace w @ es \<and> slept es = 0"
proof -
  have d: "w_trace w' = w_trace w @ did (ask s) w" "slept (did (ask s) w) = 0"
    using emitsD(1,2) [OF ask_awake, of s w] awake_slept assms(2) by simp_all
  have "s_now S (w_trace w) + slept (did (ask s) w) \<le> s_now S (w_trace w @ did (ask s) w)"
    using assms(1) unfolding time_passes_def by blast
  with d show "s_now S (w_trace w) \<le> s_now S (w_trace w')" "\<exists>es. w_trace w' = w_trace w @ es \<and> slept es = 0" by auto
qed

lemma reading_back_bounded:
  assumes time: "time_passes S" and "READBACK_BUDGET_MS < READBACK_PROBE_MS * int (attempts + rounds)"
    and "READBACK_PROBE_MS * int attempts \<le> READBACK_BUDGET_MS"
    and "READBACK_PROBE_MS * int attempts \<le> s_now S (w_trace w) - started"
  shows "fst (reading_back S ask started rounds attempts s w) \<noteq> Inr None
    \<and> (\<exists>es. w_trace (snd (reading_back S ask started rounds attempts s w)) = w_trace w @ es
          \<and> READBACK_PROBE_MS * int attempts + slept es \<le> READBACK_BUDGET_MS)"
  using assms(2-)
proof (induction rounds arbitrary: attempts s w)
  case (Suc rounds)
  let ?run = "reading_back S ask started (Suc rounds) attempts s w"
  obtain r w1 where a: "ask s w = (r, w1)" by fastforce
  obtain es where es: "w_trace w1 = w_trace w @ es" "slept es = 0" using ask_now(2) [OF time a] by blast
  show ?case
  proof (cases r)
    case (Inl e)
    then show ?thesis using es Suc.prems(2) by (simp add: andThen_def a)
  next
    case (Inr p)
    obtain d s' where p [simp]: "p = (d, s')" by fastforce
    let ?now = "s_now S (w_trace w1)" and ?w2 = "w1\<lparr>w_trace := w_trace w1 @ [Observed]\<rparr>"
    show ?thesis
    proof (cases "d \<or> ?now - started + READBACK_PROBE_MS > READBACK_BUDGET_MS")
      case True
      then show ?thesis using es Suc.prems(2) by (auto simp: andThen_def a Inr ret_def clock_def observing_def)
    next
      case False
      let ?w3 = "w1\<lparr>w_trace := w_trace w1 @ [Observed, Slept READBACK_PROBE_MS]\<rparr>"
      from False have run: "?run = reading_back S ask started rounds (Suc attempts) s' ?w3"
        by (simp add: andThen_def a Inr sleep_def clock_def observing_def)
      have "?now + slept [Observed, Slept READBACK_PROBE_MS] \<le> s_now S (w_trace w1 @ [Observed, Slept READBACK_PROBE_MS])"
        using time unfolding time_passes_def by blast
      then have later: "READBACK_PROBE_MS * int (Suc attempts) \<le> s_now S (w_trace ?w3) - started"
        using ask_now(1) [OF time a] Suc.prems(3) by (simp add: algebra_simps)
      have "READBACK_PROBE_MS * int (Suc attempts) \<le> READBACK_BUDGET_MS"
        using False ask_now(1) [OF time a] Suc.prems(3) by (simp add: algebra_simps)
      then obtain es' where "fst (reading_back S ask started rounds (Suc attempts) s' ?w3) \<noteq> Inr None"
        "w_trace (snd (reading_back S ask started rounds (Suc attempts) s' ?w3)) = w_trace ?w3 @ es'"
        "READBACK_PROBE_MS * int (Suc attempts) + slept es' \<le> READBACK_BUDGET_MS"
        using Suc.IH [of "Suc attempts" ?w3 s'] Suc.prems(1) later by auto
      then show ?thesis unfolding run using es
        by (intro conjI exI [of _ "es @ [Observed, Slept READBACK_PROBE_MS] @ es'"]) (simp_all add: algebra_simps)
    qed
  qed
qed simp

lemma readback_ends:
  assumes "time_passes S"
  shows "ends_within READBACK_BUDGET_MS (readback S ask s) w"
proof -
  let ?w = "w\<lparr>w_trace := w_trace w @ [Observed]\<rparr>" and ?t = "s_now S (w_trace w)"
  have "?t + slept [Observed] \<le> s_now S (w_trace w @ [Observed])" using assms unfolding time_passes_def by blast
  then have "ends_within READBACK_BUDGET_MS (reading_back S ask ?t READBACK_ROUNDS 0 s) ?w"
    using reading_back_bounded [OF assms, of 0 READBACK_ROUNDS ?w ?t s]
    by (simp add: ends_within_def READBACK_BUDGET_MS_def READBACK_PROBE_MS_def READBACK_ROUNDS_def)
  then have "ends_within READBACK_BUDGET_MS (andThen (reading_back S ask ?t READBACK_ROUNDS 0 s) (\<lambda>r.
      case r of None \<Rightarrow> ret None | Some (attempts, s') \<Rightarrow> andThen (clock S) (\<lambda>now. ret (Some (attempts, s', now - ?t))))) ?w"
    (is "ends_within _ ?m ?w")
    by (rule ends_within_before)
      (auto intro!: emits_intro split: option.split simp: andThen_def clock_def observing_def ret_def)
  then obtain es where "fst (?m ?w) \<noteq> Inr None" "w_trace (snd (?m ?w)) = w_trace ?w @ es" "slept es \<le> READBACK_BUDGET_MS"
    unfolding ends_within_def by blast
  moreover have "readback S ask s w = ?m ?w" unfolding readback_def clock_then ..
  ultimately show ?thesis unfolding ends_within_def by (intro conjI exI [of _ "Observed # es"]) simp_all
qed

lemma reported_ends:
  assumes "time_passes S"
  shows "ends_within READBACK_BUDGET_MS (andThen (readback S ask s) (\<lambda>r. ret (map_option g r))) w"
  by (rule ends_within_before [OF readback_ends [OF assms]]) (auto intro!: emits_intro simp: ret_def)

end

interpretation quota: asking S "quota_round S script tok target" for S script tok target
  by unfold_locales (intro emits_intro awake_simps)

interpretation abuse: asking S "abuse_round S script tok url" for S script tok url
  by unfold_locales (intro emits_intro awake_simps)

lemma awake_store [simp]: "awake StoreFailed" "awake (Wrote now p)"
  by (simp_all add: awake_def)

lemma applied_ends:
  assumes "time_passes S"
  shows "ends_within READBACK_BUDGET_MS (applyStorageQuota S C t ctx) w"
    "ends_within READBACK_BUDGET_MS (applyAbuseReportUrl S C actx) w"
proof -
  have budget: "0 \<le> READBACK_BUDGET_MS" by (simp add: READBACK_BUDGET_MS_def)
  show "ends_within READBACK_BUDGET_MS (applyStorageQuota S C t ctx) w"
    unfolding applyStorageQuota_def
    by (rule quota.reported_ends [OF assms] ends_within_after [OF _ budget] | (intro emits_intro; simp; fail))+
  show "ends_within READBACK_BUDGET_MS (applyAbuseReportUrl S C actx) w"
    unfolding applyAbuseReportUrl_def
    by (rule abuse.reported_ends [OF assms] ends_within_after [OF _ budget] | (intro emits_intro; simp; fail))+
qed

text \<open>
  A readback ends.  When the clock does not go back and advances by what a run sleeps, giving a studio
  its ceiling or its address for reports ends, with a report or an exception, after sleeping fifteen
  seconds at most, whatever the studio answers and however often it has to be asked.
\<close>

theorem readbacks_end_in_time:
  assumes "time_passes S"
  shows "fst (applyStorageQuota S C t ctx w) \<noteq> Inr None \<and> slept (did (applyStorageQuota S C t ctx) w) \<le> 15000
    \<and> fst (applyAbuseReportUrl S C actx w) \<noteq> Inr None \<and> slept (did (applyAbuseReportUrl S C actx) w) \<le> 15000"
  using applied_ends [OF assms, THEN ends_within_did] by (simp add: READBACK_BUDGET_MS_def)

definition ex_quota :: "string option \<Rightarrow> storage_quota_context" where
  "ex_quota bytes = \<lparr>qx_script = ''s'', qx_token = ''tok'', qx_bytes = bytes, qx_source = TenantNone, qx_override = Some (Some QuotaNone),
     qx_servedBefore = None, qx_usedBefore = None\<rparr>"

theorem readbacks_end_in_time_witness:
  "fst (applyStorageQuota ticking_services ex_plane ex_studio (ex_quota None) (ex_world [])) \<noteq> Inr None
   \<and> slept (did (applyStorageQuota ticking_services ex_plane ex_studio (ex_quota None)) (ex_world [])) \<le> 15000"
  using readbacks_end_in_time [OF ticking_time, of ex_plane ex_studio "ex_quota None" "ex_world []"] by blast

section \<open>What a report says\<close>

lemma reading_back_last:
  assumes "reading_back S ask started n attempts s w = (Inr (Some (k, s')), w')"
  shows "\<exists>s0 w0 d w1. ask s0 w0 = (Inr (d, s'), w1)"
  using assms
proof (induction n arbitrary: attempts s w)
  case (Suc n)
  then show ?case by (auto split: if_splits) blast+
qed auto

lemma readback_last:
  assumes "readback S ask s w = (Inr (Some (k, s', elapsed)), w')"
  shows "\<exists>s0 w0 d w1. ask s0 w0 = (Inr (d, s'), w1)"
  using assms reading_back_last unfolding readback_def by (fastforce split: option.splits)

lemma censusE:
  assumes "census S C script w = (Inr c, w')"
  obtains bs tr where "s_getBindings S (w_trace w) (c_namespace C) script = Inr bs"
    "s_getSecretNames S tr (c_namespace C) script = Inr (snd c)" "fst c = map fst bs"
  using assms by (auto simp: census_def get_bindings_def get_secrets_def calling_def Let_def)

lemma patchedE:
  assumes "patch_settings S C script bs w = (Inr x, w')"
  obtains "w_trace w' = w_trace w @ [Called (PatchSettings (c_namespace C) script bs) True]"
  using assms by (auto simp: patch_settings_def calling_def Let_def)

lemma quota_appliedE:
  assumes "applyStorageQuota S C t ctx w = (Inr (Some r), w')"
  obtains before after k served used elapsed tr bs' s0 w0 d w1 where
    "r = quota_result C ctx before after (k, (served, used), elapsed)" "fst after = map fst bs'"
    "s_getBindings S (tr @ [Called (PatchSettings (c_namespace C) (qx_script ctx) (quota_patch ctx (fst before))) True])
       (c_namespace C) (qx_script ctx) = Inr bs'"
    "quota_round S (qx_script ctx) (qx_token ctx) (quota_target C (qx_bytes ctx)) s0 w0 = (Inr (d, served, used), w1)"
proof -
  from assms obtain before w2 x w3 after w4 res w5 where
    p: "patch_settings S C (qx_script ctx) (quota_patch ctx (fst before)) w2 = (Inr x, w3)" and
    a: "census S C (qx_script ctx) w3 = (Inr after, w4)" and
    l: "readback S (quota_round S (qx_script ctx) (qx_token ctx) (quota_target C (qx_bytes ctx))) (None, qx_usedBefore ctx) w4 = (Inr res, w5)" and
    r: "Some r = map_option (quota_result C ctx before after) res"
    unfolding applyStorageQuota_def by (elim andThenE retE) (rule that)
  from r obtain k served used elapsed where res: "res = Some (k, (served, used), elapsed)" by (cases res) auto
  obtain s0 w0 d w6 where "quota_round S (qx_script ctx) (qx_token ctx) (quota_target C (qx_bytes ctx)) s0 w0 = (Inr (d, served, used), w6)"
    using readback_last [OF l [unfolded res]] by blast
  moreover have "w_trace w3 = w_trace w2 @ [Called (PatchSettings (c_namespace C) (qx_script ctx) (quota_patch ctx (fst before))) True]"
    using p by (rule patchedE)
  moreover obtain bs' where "s_getBindings S (w_trace w3) (c_namespace C) (qx_script ctx) = Inr bs'" "fst after = map fst bs'"
    using a by (elim censusE) (rule that)
  ultimately show thesis using r that by (auto simp: res)
qed

lemma quota_round_served:
  assumes "quota_round S script tok target s0 w0 = (Inr (d, Some n, used), w1)"
  shows "\<exists>tr st txt. s_studio S tr script ''GET'' STORAGE_USAGE_PATH tok None = Inr (st, txt) \<and> st < 300
    \<and> reading_of_text txt = Read (Some n) used"
  using assms
  by (cases s0)
    (fastforce simp: quota_round_def readStudioStorage_def callTenantStudio_def calling_def Let_def split: storage_reading.splits if_splits)

text \<open>
  C27: a ceiling that is reported as set is the ceiling the studio enforces.  When setting a ceiling reports
  success, the studio answered its usage route with exactly the number that was bound, every binding and
  every secret that was there before is still there, and the variable is bound.
\<close>

theorem reported_ceiling_is_enforced:
  assumes "applyStorageQuota S C t ctx w = (Inr (Some r), w')" "qr_ok r" "qx_bytes ctx = Some b"
  shows "(\<exists>tr st txt used. s_studio S tr (qx_script ctx) ''GET'' STORAGE_USAGE_PATH (qx_token ctx) None = Inr (st, txt) \<and> st < 300
      \<and> reading_of_text txt = Read (Some (c_number C b)) used)
    \<and> STORAGE_QUOTA_VAR \<in> set (qr_bindings_after r) \<and> set (qr_bindings_before r) \<subseteq> set (qr_bindings_after r)
    \<and> set (qr_secrets_before r) \<subseteq> set (qr_secrets_after r)"
proof -
  from assms(1) obtain before after k served used elapsed s0 w0 d w1 where
    r: "r = quota_result C ctx before after (k, (served, used), elapsed)" and
    q: "quota_round S (qx_script ctx) (qx_token ctx) (quota_target C (qx_bytes ctx)) s0 w0 = (Inr (d, served, used), w1)"
    by (rule quota_appliedE)
  have served: "served = Some (c_number C b)"
    using assms(2,3) by (simp add: r quota_result_def quota_target_def same_number_def Let_def split: prod.splits)
  show ?thesis
    using assms(2,3) quota_round_served [OF q [unfolded served]]
    by (auto simp: r quota_result_def missing_from_Nil Let_def split: prod.splits)
qed

text \<open>The bindings a trace last patched a script with, and a platform that drops what a patch omits.\<close>

fun last_patch :: "string \<Rightarrow> string \<Rightarrow> event list \<Rightarrow> binding list option" where
  "last_patch ns script [] = None"
| "last_patch ns script (e # es) =
     (case last_patch ns script es of
        Some bs \<Rightarrow> Some bs
      | None \<Rightarrow> (case e of Called (PatchSettings n s bs) True \<Rightarrow> if n = ns \<and> s = script then Some bs else None | _ \<Rightarrow> None))"

lemma last_patch_snoc: "last_patch ns script (es @ [Called (PatchSettings ns script bs) True]) = Some bs"
  by (induction es) auto

definition patch_drops_omitted :: "services \<Rightarrow> string \<Rightarrow> string \<Rightarrow> bool" where
  "patch_drops_omitted S ns script \<longleftrightarrow> (\<forall>tr desired bs. last_patch ns script tr = Some desired \<longrightarrow>
     s_getBindings S tr ns script = Inr bs \<longrightarrow> set (map fst bs) \<subseteq> set (map binding_name desired))"

lemma quota_patch_omits:
  "''R2_STORAGE_QUOTA_MODE'' \<notin> set (map binding_name (quota_patch ctx before))"
  "qx_bytes ctx = None \<Longrightarrow> STORAGE_QUOTA_VAR \<notin> set (map binding_name (quota_patch ctx before))"
  by (auto simp: quota_patch_def withStorageQuota_def drop_names_def storageQuotaBindings_def truthy_def STORAGE_QUOTA_VAR_def)

text \<open>
  C28: setting a ceiling drops the metering mode, and lifting a ceiling is reported as a loss.  On a platform
  that drops the bindings a patch omits, a studio that has the mode bound loses it with every ceiling that
  is set, because the patch never carries the mode; and a studio whose ceiling is lifted loses the
  variable of the ceiling, as it is meant to.  In both cases the report counts the variable as lost and
  says that it failed, and the route answers 409.
\<close>

theorem converged_quota_reports_loss:
  assumes "applyStorageQuota S C t ctx w = (Inr (Some r), w')" "patch_drops_omitted S (c_namespace C) (qx_script ctx)"
    and "v \<in> set (qr_bindings_before r)" "v = ''R2_STORAGE_QUOTA_MODE'' \<or> v = STORAGE_QUOTA_VAR \<and> qx_bytes ctx = None"
  shows "v \<notin> set (qr_bindings_after r) \<and> v \<in> set (qr_missing_bindings r) \<and> \<not> qr_ok r
    \<and> readback_status (qr_ok r) (qr_missing_bindings r) (qr_missing_secrets r) = 409"
proof -
  from assms(1) obtain before after x tr bs' where
    r: "r = quota_result C ctx before after x" and a: "fst after = map fst bs'" and
    g: "s_getBindings S (tr @ [Called (PatchSettings (c_namespace C) (qx_script ctx) (quota_patch ctx (fst before))) True])
       (c_namespace C) (qx_script ctx) = Inr bs'"
    by (rule quota_appliedE)
  have "set (map fst bs') \<subseteq> set (map binding_name (quota_patch ctx (fst before)))"
    using assms(2) last_patch_snoc g unfolding patch_drops_omitted_def by blast
  then have "v \<notin> set (fst after)" using quota_patch_omits assms(4) unfolding a by blast
  then have out: "v \<notin> set (qr_bindings_after r)" and miss: "v \<in> set (qr_missing_bindings r)"
    using assms(3) by (auto simp: r quota_result_def missing_from_def Let_def split: prod.splits)
  moreover from miss have "\<not> qr_ok r" by (auto simp: r quota_result_def Let_def split: prod.splits)
  ultimately show ?thesis by (auto simp: readback_status_def)
qed

text \<open>A studio that does not answer its usage route with a success.\<close>

definition unread :: "services \<Rightarrow> string \<Rightarrow> string \<Rightarrow> bool" where
  "unread S script tok \<longleftrightarrow> (\<forall>tr st txt. s_studio S tr script ''GET'' STORAGE_USAGE_PATH tok None = Inr (st, txt) \<longrightarrow> 300 \<le> st)"


text \<open>An unrecognised mode makes the same plane as no mode: nothing refuses it.\<close>

lemma unrecognised_mode_ignored:
  assumes "snd (tenantStorageQuotaMode (Some m)) \<noteq> None"
  shows "with_quota_config C (tenantStorageQuota C raw (Some m)) = with_quota_config C (tenantStorageQuota C raw None)"
proof -
  define known where "known \<longleftrightarrow> to_lower (trim_or_empty (Some m)) \<in> {''deny'', ''meter''}"
  have "tenantStorageQuotaMode (Some m) = (if trim_or_empty (Some m) = [] then (None, None)
      else if \<not> known then (None, Some (trim_or_empty (Some m)))
      else (if to_lower (trim_or_empty (Some m)) = ''meter'' then Some ''meter'' else None, None))"
    unfolding tenantStorageQuotaMode_def Let_def known_def by (rule refl)
  with assms obtain i where "tenantStorageQuotaMode (Some m) = (None, i)"
    by (cases "trim_or_empty (Some m) = []"; cases known) simp_all
  moreover have "tenantStorageQuotaMode None = (None, None)" by (simp add: tenantStorageQuotaMode_def trim_or_empty_def)
  ultimately show ?thesis by (simp add: with_quota_config_def tenantStorageQuota_def Let_def)
qed

text \<open>A report without the variable is pending, although its message says that the binding is set.\<close>

lemma pending_without_binding:
  assumes "ABUSE_REPORT_URL_VAR \<notin> set (fst after)" "set (fst before) \<subseteq> set (fst after)" "set (snd before) \<subseteq> set (snd after)"
    and "r = abuse_result ctx before after x"
  shows "\<not> ar_var_present_after r \<and> readback_status (ar_ok r) (ar_missing_bindings r) (ar_missing_secrets r) = 202"
proof -
  obtain b sb a sa where "before = (b, sb)" "after = (a, sa)" by (cases before; cases after) auto
  moreover have "missing_from b a = [] \<longleftrightarrow> set b \<subseteq> set a" "missing_from sb sa = [] \<longleftrightarrow> set sb \<subseteq> set sa"
    by (rule missing_from_Nil)+
  ultimately show ?thesis using assms by (simp add: abuse_result_def readback_status_def Let_def split: prod.split)
qed

section \<open>Concrete runs\<close>

text \<open>A slow platform that drops what a patch omits, and a studio with a fixed answer.\<close>

definition slow_services :: "string list \<Rightarrow> nat \<times> string \<Rightarrow> services" where
  "slow_services bound answer = calm_services\<lparr>s_now := \<lambda>tr. 100000 * int (length tr), s_studio := \<lambda>tr s m p k b. Inr answer,
     s_getBindings := \<lambda>tr n s. Inr (map (\<lambda>x. (x, ''inherit'')) (case last_patch n s tr of None \<Rightarrow> bound | Some bs \<Rightarrow> map binding_name bs))\<rparr>"

lemma fl64_5: "fl64 5 = Fin 5"
proof -
  have "ilog2 5 = 2" by code_simp
  then show ?thesis by (simp add: fl64_def fl64_pos_def pow2_def round_even_def Let_def)
qed

definition ex_usage :: string where
  "ex_usage = ''{'' @ json_quote ''quota_bytes'' @ '':5}''"

lemma parse_five: "parse_literal ''5}'' = Some (JNum (Fin 5), ''}'')"
proof -
  have "read_nat ''5'' = 5" by code_simp
  then have "number_value False ''5'' [] 0 = Fin 5" using fl64_5 by (simp add: number_value_def)
  then show ?thesis
    by (simp add: parse_literal_def parse_number_def is_digit_def exponent_part_def starts_with_def skip_space_def json_space_def)
qed

lemma ex_usage_parses: "JSON_parse ex_usage = Some (JObj [(''quota_bytes'', JNum (Fin 5))])"
proof -
  have u: "ex_usage = CHR ''{'' # CHR 0x22 # ''quota_bytes'' @ CHR 0x22 # '':5}''" by code_simp
  have k: "string_chars (''quota_bytes'' @ CHR 0x22 # '':5}'') = Some (''quota_bytes'', '':5}'')" by code_simp
  have "parse_value (Suc (Suc (Suc n))) ex_usage = Some (JObj [(''quota_bytes'', JNum (Fin 5))], [])" for n
    unfolding u using k
    by (simp add: skip_space_def json_space_def parse_five del: string_chars.simps)
  moreover have "2 * length ex_usage + 2 = Suc (Suc (Suc 33))" by code_simp
  ultimately have "parse_value (2 * length ex_usage + 2) ex_usage = Some (JObj [(''quota_bytes'', JNum (Fin 5))], [])" by (simp only:)
  then show ?thesis unfolding JSON_parse_def by (simp add: skip_space_def del: parse_value.simps)
qed

lemma ex_usage_read: "reading_of_text ex_usage = Read (Some (Fin 5)) None"
  by (simp add: reading_of_text_def ex_usage_parses jget_def jnumber_def)

definition five_plane :: plane where
  "five_plane = ex_plane\<lparr>c_number := \<lambda>s. Fin 5\<rparr>"

lemma slow_drops: "patch_drops_omitted (slow_services bound answer) ns script"
  by (auto simp: patch_drops_omitted_def slow_services_def)

lemmas quota_run_defs = applyStorageQuota_def census_def get_bindings_def get_secrets_def patch_settings_def readback_def READBACK_ROUNDS_def
  READBACK_PROBE_MS_def READBACK_BUDGET_MS_def quota_round_def readStudioStorage_def callTenantStudio_def calling_def wrote_def writing_def
  clock_def observing_def andThen_def catching_def ret_def ex_quota_def Let_def slow_services_def calm_services_def

lemma ex_lift_runs:
  "\<exists>r w'. applyStorageQuota (slow_services bound (503, [])) ex_plane ex_studio (ex_quota None) (ex_world []) = (Inr (Some r), w')
     \<and> qr_bindings_before r = sort bound"
  by (simp add: quota_run_defs eval_nat_numeral ex_world_def quota_result_def comp_def)

theorem converged_quota_reports_loss_witness:
  "\<exists>r w'. applyStorageQuota (slow_services [''R2_STORAGE_QUOTA_BYTES''] (503, [])) ex_plane ex_studio (ex_quota None) (ex_world [])
       = (Inr (Some r), w')
     \<and> \<not> qr_ok r \<and> readback_status (qr_ok r) (qr_missing_bindings r) (qr_missing_secrets r) = 409"
proof -
  let ?run = "applyStorageQuota (slow_services [''R2_STORAGE_QUOTA_BYTES''] (503, [])) ex_plane ex_studio (ex_quota None) (ex_world [])"
  obtain r w' where run: "?run = (Inr (Some r), w')" and b: "qr_bindings_before r = sort [''R2_STORAGE_QUOTA_BYTES'']"
    using ex_lift_runs by blast
  from converged_quota_reports_loss [OF run slow_drops, of STORAGE_QUOTA_VAR] b run show ?thesis
    by (auto simp: STORAGE_QUOTA_VAR_def ex_quota_def)
qed

lemma ex_unread: "unread (slow_services bound (503, [])) script tok"
  by (auto simp: unread_def slow_services_def)


lemma ex_ceiling_runs:
  "\<exists>r w'. applyStorageQuota (slow_services [] (200, ex_usage)) five_plane ex_studio (ex_quota (Some ''5'')) (ex_world []) = (Inr (Some r), w')
     \<and> qr_ok r"
  using ex_usage_read
  by (simp add: quota_run_defs eval_nat_numeral ex_world_def quota_result_def quota_target_def five_plane_def same_number_def
      quota_patch_def withStorageQuota_def drop_names_def storageQuotaBindings_def truthy_def STORAGE_QUOTA_VAR_def missing_from_def)

theorem reported_ceiling_is_enforced_witness:
  "\<exists>r w'. applyStorageQuota (slow_services [] (200, ex_usage)) five_plane ex_studio (ex_quota (Some ''5'')) (ex_world []) = (Inr (Some r), w')
     \<and> STORAGE_QUOTA_VAR \<in> set (qr_bindings_after r)"
  using ex_ceiling_runs reported_ceiling_is_enforced [of "slow_services [] (200, ex_usage)" five_plane ex_studio "ex_quota (Some ''5'')"]
  by (fastforce simp: ex_quota_def)

end
