(* ===== verification/Reconcile.thy ===== *)
theory Reconcile
  imports Teardown RunpodProxy
begin

text \<open>
  Reconciliation of the tenant records with a snapshot of a RunPod account: \<^verbatim>\<open>src/src/reconcile-runpod.ts\<close>
  and its route in \<^verbatim>\<open>src/src/index.ts\<close>.  The text of a JSON error inside one message is left out.
\<close>

section \<open>Data\<close>

definition TENANT_PAGE_LIMIT :: nat where
  "TENANT_PAGE_LIMIT = 200"

definition MAX_INVENTORY_RESOURCES :: nat where
  "MAX_INVENTORY_RESOURCES = 5000"

record runpod_resource =
  rs_id :: string
  rs_name :: string

record runpod_inventory =
  iv_account_label :: string
  iv_read_at :: string
  iv_complete :: bool
  iv_endpoints :: "runpod_resource list"
  iv_templates :: "runpod_resource list"

record tenant_census =
  tc_tenants :: "tenant list"
  tc_complete :: bool

datatype drift_kind =
    RecordEndpointMissing | RecordEndpointRenamed | RecordTemplateMissing | OrphanEndpoint | OrphanTemplate | RecordUnreadable

datatype drift_layer = EndpointLayer | TemplateLayer | RecordLayer

datatype confidence = Proven | InventoryIncomplete | TenantCensusIncomplete

record drift_finding =
  df_kind :: drift_kind
  df_layer :: drift_layer
  df_confidence :: confidence
  df_tenant_id :: string
  df_tenant_slug :: string
  df_tenant_status :: lifecycle
  df_resource_id :: "string option"
  df_resource_name :: "string option"
  df_endpoint_key :: "string option"
  df_detail :: string

datatype verdict = Clean | Drift | Unproven

record tenant_verdict =
  tv_tenant_id :: string
  tv_slug :: string
  tv_status :: lifecycle
  tv_recorded :: nat
  tv_endpoints_present :: nat
  tv_templates_present :: nat
  tv_findings :: nat
  tv_verdict :: verdict

record reconcile_report =
  rc_account_label :: string
  rc_read_at :: string
  rc_tenants_read :: nat
  rc_tenants_complete :: bool
  rc_endpoints_read :: nat
  rc_templates_read :: nat
  rc_inventory_complete :: bool
  rc_verdict :: verdict
  rc_tenants :: "tenant_verdict list"
  rc_findings :: "drift_finding list"
  rc_unattributed_endpoints :: "runpod_resource list"
  rc_unattributed_templates :: "runpod_resource list"

record recorded_endpoint =
  re_key :: string
  re_id :: string
  re_name :: string

definition isTornDown :: "tenant \<Rightarrow> bool" where
  "isTornDown t \<longleftrightarrow> t_status t = Deleted"

definition string_or_empty :: "json option \<Rightarrow> string" where
  "string_or_empty v = (case jstring v of None \<Rightarrow> [] | Some s \<Rightarrow> s)"

definition recorded_entry :: "json \<Rightarrow> recorded_endpoint option" where
  "recorded_entry j =
     (if string_or_empty (jget j ''id'') = [] then None
      else Some \<lparr>re_key = string_or_empty (jget j ''key''), re_id = string_or_empty (jget j ''id''),
                 re_name = string_or_empty (jget j ''name'')\<rparr>)"

definition parseRecordedEndpoints :: "tenant \<Rightarrow> string + recorded_endpoint list" where
  "parseRecordedEndpoints t =
     (if \<not> truthy (t_endpoints_json t) then Inr []
      else (case JSON_parse (the (t_endpoints_json t)) of
              None \<Rightarrow> Inl ''endpoints_json is not JSON: ''
            | Some (JArr js) \<Rightarrow>
                (if list_ex (\<lambda>j. recorded_entry j = None) js then Inl ''an endpoints_json entry carries no id''
                 else Inr (List.map_filter recorded_entry js))
            | Some _ \<Rightarrow> Inl ''endpoints_json is not an array''))"

section \<open>Attribution\<close>

definition tenantEndpointName :: "string \<Rightarrow> string \<Rightarrow> string" where
  "tenantEndpointName slug key = ''vivijure-'' @ slug @ ''-'' @ key"

definition RETIRED_ENDPOINT_KEYS :: "string list" where
  "RETIRED_ENDPOINT_KEYS = [''lipsync'', ''audio-upscale'']"

definition attributableKeys :: "string list" where
  "attributableKeys = map pl_key PROVISION_PLAN @ RETIRED_ENDPOINT_KEYS"

definition is_shared :: "tenant \<Rightarrow> bool" where
  "is_shared t \<longleftrightarrow> readRunPodMode (Some (t_runpod_mode t)) = Shared"

text \<open>A \<^verbatim>\<open>Map\<close> filled in order: the last entry of a key stands.\<close>

definition last_of :: "('k \<times> 'v) list \<Rightarrow> 'k \<Rightarrow> 'v option" where
  "last_of kvs = map_of (rev kvs)"

definition owning_tenants :: "tenant list \<Rightarrow> (string \<times> tenant \<times> string) list" where
  "owning_tenants ts =
     concat (map (\<lambda>t. if is_shared t then [] else map (\<lambda>k. (tenantEndpointName (t_slug t) k, t, k)) attributableKeys) ts)"

definition own_records :: "tenant \<Rightarrow> recorded_endpoint list" where
  "own_records t = (if is_shared t then [] else (case parseRecordedEndpoints t of Inl _ \<Rightarrow> [] | Inr rs \<Rightarrow> rs))"

definition claims :: "tenant list \<Rightarrow> (string \<times> tenant \<times> recorded_endpoint) list" where
  "claims ts = concat (map (\<lambda>t. map (\<lambda>r. (re_id r, t, r)) (own_records t)) ts)"

definition live_names :: "tenant list \<Rightarrow> string list" where
  "live_names ts = concat (map (\<lambda>t. if isTornDown t then [] else filter (\<lambda>n. n \<noteq> []) (map re_name (own_records t))) ts)"

section \<open>Findings about records\<close>

definition absence_confidence :: "runpod_inventory \<Rightarrow> confidence" where
  "absence_confidence snap = (if iv_complete snap then Proven else InventoryIncomplete)"

definition orphan_confidence :: "tenant_census \<Rightarrow> confidence" where
  "orphan_confidence census = (if tc_complete census then Proven else TenantCensusIncomplete)"

definition or_null :: "string \<Rightarrow> string option" where
  "or_null s = (if s = [] then None else Some s)"

definition finding_of :: "tenant \<Rightarrow> drift_kind \<Rightarrow> drift_layer \<Rightarrow> confidence \<Rightarrow> string option \<Rightarrow> string option \<Rightarrow> string option \<Rightarrow> string \<Rightarrow> drift_finding" where
  "finding_of t k l c rid rname key detail =
     \<lparr>df_kind = k, df_layer = l, df_confidence = c, df_tenant_id = t_id t, df_tenant_slug = t_slug t, df_tenant_status = t_status t,
      df_resource_id = rid, df_resource_name = rname, df_endpoint_key = key, df_detail = detail\<rparr>"

definition expected_name :: "tenant \<Rightarrow> recorded_endpoint \<Rightarrow> string" where
  "expected_name t r = (if re_name r = [] then tenantEndpointName (t_slug t) (re_key r) else re_name r)"

definition endpoint_by_id :: "runpod_inventory \<Rightarrow> string \<Rightarrow> runpod_resource option" where
  "endpoint_by_id snap = last_of (map (\<lambda>e. (rs_id e, e)) (iv_endpoints snap))"

definition has_template :: "runpod_inventory \<Rightarrow> string \<Rightarrow> bool" where
  "has_template snap n \<longleftrightarrow> n \<in> set (map rs_name (iv_templates snap))"

definition quoted :: "string \<Rightarrow> string" where
  "quoted s = [CHR 0x22] @ s @ [CHR 0x22]"

definition missing_detail :: "runpod_inventory \<Rightarrow> recorded_endpoint \<Rightarrow> string" where
  "missing_detail snap r =
     ''the record names endpoint '' @ re_id r @ '' ('' @ (if re_key r = [] then ''unkeyed'' else re_key r) @ '') and the '' @
     iv_account_label snap @ '' account does not have it: this tenant cannot render that step''"

definition renamed_detail :: "recorded_endpoint \<Rightarrow> runpod_resource \<Rightarrow> string" where
  "renamed_detail r live =
     ''endpoint '' @ re_id r @ '' exists as '' @ quoted (rs_name live) @ '' but the record calls it '' @ quoted (re_name r) @
     '': provisioning adopts BY NAME, so a re-provision would build a second one''"

definition template_detail :: "runpod_inventory \<Rightarrow> string \<Rightarrow> string" where
  "template_detail snap n =
     ''no template named '' @ quoted n @ '' in the '' @ iv_account_label snap @
     '' account: a re-provision has nowhere to write the fresh R2 credential of this tenant and refuses (409)''"

definition recorded_findings :: "runpod_inventory \<Rightarrow> tenant \<Rightarrow> recorded_endpoint \<Rightarrow> drift_finding list" where
  "recorded_findings snap t r =
     (if isTornDown t then []
      else (case endpoint_by_id snap (re_id r) of
              None \<Rightarrow> [finding_of t RecordEndpointMissing EndpointLayer (absence_confidence snap) (Some (re_id r)) (or_null (re_name r))
                        (or_null (re_key r)) (missing_detail snap r)]
            | Some live \<Rightarrow>
                if re_name r \<noteq> [] \<and> rs_name live \<noteq> re_name r then
                  [finding_of t RecordEndpointRenamed EndpointLayer Proven (Some (re_id r)) (Some (rs_name live)) (or_null (re_key r))
                    (renamed_detail r live)]
                else []) @
           (if has_template snap (expected_name t r) then []
            else [finding_of t RecordTemplateMissing TemplateLayer (absence_confidence snap) None (Some (expected_name t r))
                   (or_null (re_key r)) (template_detail snap (expected_name t r))]))"

definition both_complete :: "tenant_census \<Rightarrow> runpod_inventory \<Rightarrow> bool" where
  "both_complete census snap \<longleftrightarrow> iv_complete snap \<and> tc_complete census"

definition verdict_of :: "tenant \<Rightarrow> nat \<Rightarrow> nat \<Rightarrow> nat \<Rightarrow> nat \<Rightarrow> verdict \<Rightarrow> tenant_verdict" where
  "verdict_of t recorded present templates n v =
     \<lparr>tv_tenant_id = t_id t, tv_slug = t_slug t, tv_status = t_status t, tv_recorded = recorded, tv_endpoints_present = present,
      tv_templates_present = templates, tv_findings = n, tv_verdict = v\<rparr>"

text \<open>One pass of the loop over the records.\<close>

definition reconcile_tenant :: "tenant_census \<Rightarrow> runpod_inventory \<Rightarrow> tenant \<Rightarrow> drift_finding list \<times> tenant_verdict" where
  "reconcile_tenant census snap t =
     (if is_shared t then
        ([], verdict_of t (case parseRecordedEndpoints t of Inl _ \<Rightarrow> 0 | Inr rs \<Rightarrow> length rs) 0 0 0
           (if both_complete census snap then Clean else Unproven))
      else (case parseRecordedEndpoints t of
              Inl detail \<Rightarrow> ([finding_of t RecordUnreadable RecordLayer Proven None None None detail], verdict_of t 0 0 0 1 Drift)
            | Inr rs \<Rightarrow>
                (let fs = concat (map (recorded_findings snap t) rs) in
                 (fs, verdict_of t (length rs) (length (filter (\<lambda>r. endpoint_by_id snap (re_id r) \<noteq> None) rs))
                    (length (filter (\<lambda>r. has_template snap (expected_name t r)) rs)) (length fs)
                    (if fs \<noteq> [] then Drift else if both_complete census snap then Clean else Unproven)))))"

section \<open>Findings about resources\<close>

text \<open>What becomes of a resource of the account: it has its place, nobody owns it, or it is an orphan.\<close>

datatype placement = InPlace | Unattributed | Orphaned drift_finding

definition survives_detail :: "runpod_inventory \<Rightarrow> tenant \<Rightarrow> string" where
  "survives_detail snap owner =
     ''endpoint survives on the '' @ iv_account_label snap @ '' account after tenant '' @ t_slug owner @
     '' was torn down (the plane holds no credential that could delete it), and its TEMPLATE will still '' @
     ''be there after the endpoint is deleted''"

definition named_detail :: "tenant \<Rightarrow> string" where
  "named_detail owner =
     ''endpoint is named for tenant '' @ t_slug owner @ '' but no record names this id; do not assume it is '' @
     ''disposable until a record is found or ruled out''"

definition place_endpoint ::
  "tenant_census \<Rightarrow> runpod_inventory \<Rightarrow> string set \<Rightarrow> string set \<Rightarrow> runpod_resource \<Rightarrow> placement" where
  "place_endpoint census snap poolIds poolNames e =
     (if rs_id e \<in> poolIds \<or> rs_name e \<in> poolNames then InPlace
      else (case last_of (claims (tc_tenants census)) (rs_id e) of
              Some (t, r) \<Rightarrow>
                if \<not> isTornDown t then InPlace
                else Orphaned (finding_of t OrphanEndpoint EndpointLayer Proven (Some (rs_id e)) (Some (rs_name e))
                  (if re_key r \<noteq> [] then Some (re_key r)
                   else map_option snd (last_of (owning_tenants (tc_tenants census)) (rs_name e)))
                  (survives_detail snap t))
            | None \<Rightarrow>
                (case last_of (owning_tenants (tc_tenants census)) (rs_name e) of
                   None \<Rightarrow> Unattributed
                 | Some (t, key) \<Rightarrow>
                     Orphaned (finding_of t OrphanEndpoint EndpointLayer (orphan_confidence census) (Some (rs_id e)) (Some (rs_name e))
                       (or_null key) (named_detail t)))))"

definition half_built_detail :: "tenant \<Rightarrow> string" where
  "half_built_detail t =
     ''template exists for tenant '' @ t_slug t @ '' ('' @ status_string (t_status t) @ '') whose record names '' @
     ''no endpoints at all: a provision that died between the template and the endpoint''"

definition second_layer_detail :: "runpod_inventory \<Rightarrow> tenant \<Rightarrow> string" where
  "second_layer_detail snap t =
     ''template survives on the '' @ iv_account_label snap @ '' account with no live endpoint record for '' @
     ''tenant '' @ t_slug t @ '' ('' @ status_string (t_status t) @ ''): this is the SECOND debris layer, the '' @
     ''one that stays invisible until the endpoints are cleared''"

definition place_template :: "tenant_census \<Rightarrow> runpod_inventory \<Rightarrow> string set \<Rightarrow> runpod_resource \<Rightarrow> placement" where
  "place_template census snap poolNames x =
     (if rs_name x \<in> poolNames then InPlace
      else if rs_name x \<in> set (live_names (tc_tenants census)) then InPlace
      else (case last_of (owning_tenants (tc_tenants census)) (rs_name x) of
              None \<Rightarrow> Unattributed
            | Some (t, key) \<Rightarrow>
                Orphaned (finding_of t OrphanTemplate TemplateLayer (orphan_confidence census) (Some (rs_id x)) (Some (rs_name x))
                  (Some key)
                  (if \<not> isTornDown t \<and> t_endpoints_json t = None then half_built_detail t else second_layer_detail snap t))))"

definition orphans :: "placement list \<Rightarrow> drift_finding list" where
  "orphans ps = List.map_filter (\<lambda>p. case p of Orphaned f \<Rightarrow> Some f | _ \<Rightarrow> None) ps"

definition reconcileRunPod ::
  "tenant_census \<Rightarrow> runpod_inventory \<Rightarrow> tenant_endpoint list option \<Rightarrow> reconcile_report" where
  "reconcileRunPod census snap pool =
     (let poolIds = (case pool of None \<Rightarrow> {} | Some es \<Rightarrow> set (map te_id es));
          poolNames = (case pool of None \<Rightarrow> {} | Some es \<Rightarrow> set (map te_name es));
          passes = map (reconcile_tenant census snap) (tc_tenants census);
          place = place_endpoint census snap poolIds poolNames;
          place' = place_template census snap poolNames;
          findings = concat (map fst passes) @ orphans (map place (iv_endpoints snap)) @ orphans (map place' (iv_templates snap))
      in \<lparr>rc_account_label = iv_account_label snap, rc_read_at = iv_read_at snap, rc_tenants_read = length (tc_tenants census),
          rc_tenants_complete = tc_complete census, rc_endpoints_read = length (iv_endpoints snap),
          rc_templates_read = length (iv_templates snap), rc_inventory_complete = iv_complete snap,
          rc_verdict = (if list_ex (\<lambda>f. df_confidence f = Proven) findings then Drift
            else if both_complete census snap \<and> findings = [] then Clean else Unproven),
          rc_tenants = map snd passes, rc_findings = findings,
          rc_unattributed_endpoints = filter (\<lambda>e. place e = Unattributed) (iv_endpoints snap),
          rc_unattributed_templates = filter (\<lambda>x. place' x = Unattributed) (iv_templates snap)\<rparr>)"

section \<open>The snapshot and the route\<close>

definition resources_of :: "json option \<Rightarrow> string \<Rightarrow> string + runpod_resource list" where
  "resources_of v field =
     (case v of
        Some (JArr js) \<Rightarrow>
          if list_ex (\<lambda>j. jstring (jget j ''id'') = None \<or> jstring (jget j ''name'') = None) js
          then Inl (''every '' @ field @ '' entry must carry a string id and a string name'')
          else Inr (map (\<lambda>j. \<lparr>rs_id = string_or_empty (jget j ''id''), rs_name = string_or_empty (jget j ''name'')\<rparr>) js)
      | _ \<Rightarrow> Inl (field @ '' must be an array''))"

definition explicit_complete :: string where
  "explicit_complete =
     ''complete must be an explicit boolean: only the gatherer knows whether it read the whole '' @
     ''list, and an assumed-complete census turns a truncated page into a false absence''"

definition parseInventoryBody :: "json option \<Rightarrow> string + runpod_inventory" where
  "parseInventoryBody body =
     (if (case body of Some (JObj _) \<Rightarrow> False | Some (JArr _) \<Rightarrow> False | _ \<Rightarrow> True) then Inl ''body must be a JSON object''
      else (let b = the body;
                label = js_trim (string_or_empty (jget b ''account_label''));
                readAt = js_trim (string_or_empty (jget b ''read_at'')) in
        if label = [] \<or> length label > 64 then Inl ''account_label must be a non-empty string of at most 64 characters''
        else if readAt = [] \<or> length readAt > 40 then Inl ''read_at must be the ISO time at which the operator read RunPod''
        else (case jget b ''complete'' of
                Some (JBool compl) \<Rightarrow>
                  (case resources_of (jget b ''endpoints'') ''endpoints'' of
                     Inl d \<Rightarrow> Inl d
                   | Inr es \<Rightarrow>
                       (case resources_of (jget b ''templates'') ''templates'' of
                          Inl d \<Rightarrow> Inl d
                        | Inr xs \<Rightarrow>
                            if length es + length xs > MAX_INVENTORY_RESOURCES then
                              Inl (''inventory exceeds '' @ show_nat MAX_INVENTORY_RESOURCES @ '' resources'')
                            else Inr \<lparr>iv_account_label = label, iv_read_at = readAt, iv_complete = compl, iv_endpoints = es,
                                      iv_templates = xs\<rparr>))
              | _ \<Rightarrow> Inl explicit_complete)))"

definition listWasWhole :: "json \<Rightarrow> bool" where
  "listWasWhole payload \<longleftrightarrow>
     (case payload of
        JArr _ \<Rightarrow> True
      | JObj _ \<Rightarrow>
          \<not> list_ex (\<lambda>c. json_truthy (jget payload c)) [''next'', ''nextCursor'', ''next_cursor'', ''cursor'', ''paginate'', ''pagination'']
          \<and> list_ex (\<lambda>k. case jget payload k of Some (JArr _) \<Rightarrow> True | _ \<Rightarrow> False) [''endpoints'', ''templates'', ''data'']
      | _ \<Rightarrow> False)"

text \<open>\<^verbatim>\<open>POST /api/admin/reconcile/runpod\<close>, up to the rendering of the report as JSON.\<close>

definition reconcile_route :: "cp_db \<Rightarrow> json option \<Rightarrow> reply + reconcile_report" where
  "reconcile_route db body =
     (case parseInventoryBody body of
        Inl detail \<Rightarrow> Inl (err ''invalid_inventory'' 400 [(''message'', JStr detail)])
      | Inr snap \<Rightarrow>
          (let tenants = listTenants db None None in
           Inr (reconcileRunPod \<lparr>tc_tenants = tenants, tc_complete = (length tenants < TENANT_PAGE_LIMIT)\<rparr> snap None)))"

section \<open>What a report says\<close>

lemma last_of_in: "last_of kvs k = Some v \<Longrightarrow> (k, v) \<in> set kvs"
  unfolding last_of_def by (metis map_of_SomeD set_rev)

lemma last_of_None: "last_of kvs k = None \<longleftrightarrow> k \<notin> fst ` set kvs"
  unfolding last_of_def by (simp add: map_of_eq_None_iff)

text \<open>A resource has its place when it is the pool's or a record that is not torn down claims it.\<close>

definition pool_resource :: "tenant_endpoint list option \<Rightarrow> runpod_resource \<Rightarrow> bool" where
  "pool_resource pool e \<longleftrightarrow> (case pool of None \<Rightarrow> False | Some es \<Rightarrow> rs_id e \<in> set (map te_id es) \<or> rs_name e \<in> set (map te_name es))"

definition pool_template :: "tenant_endpoint list option \<Rightarrow> runpod_resource \<Rightarrow> bool" where
  "pool_template pool x \<longleftrightarrow> (case pool of None \<Rightarrow> False | Some es \<Rightarrow> rs_name x \<in> set (map te_name es))"

definition claimed_live :: "tenant list \<Rightarrow> string \<Rightarrow> bool" where
  "claimed_live ts i \<longleftrightarrow> (\<exists>t r. last_of (claims ts) i = Some (t, r) \<and> \<not> isTornDown t)"

definition traceable :: "tenant list \<Rightarrow> runpod_resource \<Rightarrow> bool" where
  "traceable ts e \<longleftrightarrow> last_of (claims ts) (rs_id e) \<noteq> None \<or> last_of (owning_tenants ts) (rs_name e) \<noteq> None"

definition shared_ids :: "tenant_endpoint list option \<Rightarrow> string set" where
  "shared_ids pool = (case pool of None \<Rightarrow> {} | Some es \<Rightarrow> set (map te_id es))"

definition shared_names :: "tenant_endpoint list option \<Rightarrow> string set" where
  "shared_names pool = (case pool of None \<Rightarrow> {} | Some es \<Rightarrow> set (map te_name es))"

lemma place_endpoint_cases:
  "place_endpoint census snap (shared_ids pool) (shared_names pool) e = InPlace \<longleftrightarrow>
     pool_resource pool e \<or> claimed_live (tc_tenants census) (rs_id e)"
  "place_endpoint census snap (shared_ids pool) (shared_names pool) e = Unattributed \<longleftrightarrow>
     \<not> pool_resource pool e \<and> \<not> traceable (tc_tenants census) e"
  by (auto simp: place_endpoint_def pool_resource_def shared_ids_def shared_names_def claimed_live_def traceable_def
      split: option.splits)

lemma place_template_cases:
  "place_template census snap (shared_names pool) x = InPlace \<longleftrightarrow>
     pool_template pool x \<or> rs_name x \<in> set (live_names (tc_tenants census))"
  "place_template census snap (shared_names pool) x = Unattributed \<longleftrightarrow>
     \<not> pool_template pool x \<and> rs_name x \<notin> set (live_names (tc_tenants census))
     \<and> last_of (owning_tenants (tc_tenants census)) (rs_name x) = None"
  by (auto simp: place_template_def pool_template_def shared_names_def split: option.splits)

lemma orphans_Nil: "orphans (map place xs) = [] \<longleftrightarrow> (\<forall>x \<in> set xs. place x = InPlace \<or> place x = Unattributed)"
  by (induction xs) (auto simp: orphans_def List.map_filter_def split: placement.splits)

lemma orphans_iff: "f \<in> set (orphans (map place xs)) \<longleftrightarrow> (\<exists>x \<in> set xs. place x = Orphaned f)"
  by (induction xs) (auto simp: orphans_def List.map_filter_def split: placement.splits)

lemma report_findings:
  "rc_findings (reconcileRunPod census snap pool) =
     concat (map (fst \<circ> reconcile_tenant census snap) (tc_tenants census)) @
     orphans (map (place_endpoint census snap (shared_ids pool) (shared_names pool)) (iv_endpoints snap)) @
     orphans (map (place_template census snap (shared_names pool)) (iv_templates snap))"
  by (simp add: reconcileRunPod_def Let_def shared_ids_def shared_names_def)

lemma report_clean:
  "rc_verdict (reconcileRunPod census snap pool) = Clean \<longleftrightarrow>
     both_complete census snap \<and> rc_findings (reconcileRunPod census snap pool) = []"
proof -
  have "rc_verdict (reconcileRunPod census snap pool) =
      (if list_ex (\<lambda>f. df_confidence f = Proven) (rc_findings (reconcileRunPod census snap pool)) then Drift
       else if both_complete census snap \<and> rc_findings (reconcileRunPod census snap pool) = [] then Clean else Unproven)"
    by (simp add: reconcileRunPod_def Let_def)
  then show ?thesis by (auto split: if_splits)
qed

text \<open>A record the account confirms: it can be read, and each endpoint it names is there, named as recorded, with its template.\<close>

definition confirmed :: "runpod_inventory \<Rightarrow> tenant \<Rightarrow> bool" where
  "confirmed snap t \<longleftrightarrow> is_shared t \<or> (\<exists>rs. parseRecordedEndpoints t = Inr rs \<and> (isTornDown t \<or>
     (\<forall>r \<in> set rs. (\<exists>e. endpoint_by_id snap (re_id r) = Some e \<and> (re_name r = [] \<or> rs_name e = re_name r))
        \<and> has_template snap (expected_name t r))))"

lemma tenant_silent: "fst (reconcile_tenant census snap t) = [] \<longleftrightarrow> confirmed snap t"
  by (auto simp: reconcile_tenant_def confirmed_def recorded_findings_def Let_def split: sum.splits option.splits if_splits)


definition ex_snapshot :: runpod_inventory where
  "ex_snapshot = \<lparr>iv_account_label = ''prod'', iv_read_at = ''2026-08-01'', iv_complete = True,
     iv_endpoints = [\<lparr>rs_id = ''x'', rs_name = ''house''\<rparr>], iv_templates = []\<rparr>"


lemma tenant_finding:
  assumes "f \<in> set (fst (reconcile_tenant census snap t))"
  shows "df_kind f \<notin> {OrphanEndpoint, OrphanTemplate}
    \<and> (df_kind f \<in> {RecordEndpointMissing, RecordTemplateMissing} \<longrightarrow> df_confidence f = absence_confidence snap)"
  using assms
  by (auto simp: reconcile_tenant_def recorded_findings_def finding_of_def Let_def split: sum.splits option.splits if_splits)

lemma in_claims: "(i, t, r) \<in> set (claims ts) \<Longrightarrow> t \<in> set ts \<and> r \<in> set (own_records t) \<and> i = re_id r"
  by (auto simp: claims_def)

lemma endpoint_orphan:
  assumes "place_endpoint census snap (shared_ids pool) (shared_names pool) e = Orphaned f"
  shows "df_kind f = OrphanEndpoint \<and> df_resource_id f = Some (rs_id e) \<and> df_resource_name f = Some (rs_name e)
    \<and> \<not> pool_resource pool e \<and> \<not> claimed_live (tc_tenants census) (rs_id e)
    \<and> (df_confidence f = Proven \<longrightarrow> tc_complete census \<or>
        (\<exists>t \<in> set (tc_tenants census). \<exists>r \<in> set (own_records t). isTornDown t \<and> df_resource_id f = Some (re_id r)))"
proof -
  have "place_endpoint census snap (shared_ids pool) (shared_names pool) e \<noteq> InPlace" using assms by simp
  then have "\<not> pool_resource pool e \<and> \<not> claimed_live (tc_tenants census) (rs_id e)" unfolding place_endpoint_cases by blast
  moreover have "df_kind f = OrphanEndpoint \<and> df_resource_id f = Some (rs_id e) \<and> df_resource_name f = Some (rs_name e)"
    using assms by (auto simp: place_endpoint_def finding_of_def split: if_splits option.splits)
  moreover have "tc_complete census \<or> (\<exists>t r. last_of (claims (tc_tenants census)) (rs_id e) = Some (t, r) \<and> isTornDown t)"
    if "df_confidence f = Proven"
    using assms that by (auto simp: place_endpoint_def finding_of_def orphan_confidence_def split: if_splits option.splits)
  ultimately show ?thesis by (metis in_claims last_of_in)
qed

lemma template_orphan:
  assumes "place_template census snap (shared_names pool) x = Orphaned f"
  shows "df_kind f = OrphanTemplate \<and> df_resource_id f = Some (rs_id x) \<and> df_resource_name f = Some (rs_name x)
    \<and> \<not> pool_template pool x \<and> rs_name x \<notin> set (live_names (tc_tenants census))
    \<and> (df_confidence f = Proven \<longrightarrow> tc_complete census)"
proof -
  have "place_template census snap (shared_names pool) x \<noteq> InPlace" using assms by simp
  then have "\<not> pool_template pool x \<and> rs_name x \<notin> set (live_names (tc_tenants census))" unfolding place_template_cases by blast
  moreover have "df_kind f = OrphanTemplate \<and> df_resource_id f = Some (rs_id x) \<and> df_resource_name f = Some (rs_name x)
      \<and> df_confidence f = orphan_confidence census"
    using assms by (auto simp: place_template_def finding_of_def split: if_splits option.splits)
  ultimately show ?thesis by (simp add: orphan_confidence_def split: if_splits)
qed


definition ex_owner :: tenant where
  "ex_owner = ex_tenant\<lparr>t_endpoints_json := None, t_runpod_mode := ''dedicated''\<rparr>"

definition ex_debris :: runpod_inventory where
  "ex_debris = ex_snapshot\<lparr>iv_endpoints := [\<lparr>rs_id = ''x'', rs_name = ''vivijure-acme-backend''\<rparr>]\<rparr>"


text \<open>The route never names the pool, so a pool endpoint no tenant could own is left unattributed.\<close>

lemma route_ignores_pool:
  assumes "reconcile_route db body = Inr report" "parseInventoryBody body = Inr snap" "e \<in> set (iv_endpoints snap)"
    and "\<not> traceable (listTenants db None None) e"
  shows "e \<in> set (rc_unattributed_endpoints report)"
  using assms place_endpoint_cases(2) [of _ snap None e]
  by (auto simp: reconcile_route_def Let_def reconcileRunPod_def shared_ids_def shared_names_def pool_resource_def)

end
