(* ===== verification/Spec2Isabelle.thy ===== *)
theory Spec2Isabelle
  imports Credits Http Rail Metering Periods LlmSpend TenantLeases Operators KekRotation Routing RunpodProxy Projections Reconcile
begin

text \<open>
  \<^bold>\<open>Verification of the Vivijure control plane\<close>

  The program (\<^verbatim>\<open>src/src\<close>, TypeScript) is one Cloudflare Worker.  It signs people in, provisions a studio
  for each of them (a database, a bucket, tokens, a studio Worker and module Workers), routes each tenant
  hostname to its studio, proxies the studios' GPU jobs to RunPod, meters and bills what they spend,
  and gives operators an admin surface.  Its state is one D1 database (\<^verbatim>\<open>store-d1.ts\<close>) and the resources
  it creates on other platforms.  This development models its logic as HOL functions, one theory per
  component, and proves what makes each of them correct.

  \<^bold>\<open>Theories and sources\<close>

  \<^item> \<open>Prelude\<close>: JavaScript values (strings, numbers, JSON), the string methods and table operations the
    sources use; \<open>Float64\<close>: binary64 rounding and \<^verbatim>\<open>Math.round\<close>; \<open>Dates\<close>, \<open>SqliteTime\<close>: \<^verbatim>\<open>Date\<close> and
    \<^verbatim>\<open>datetime('now')\<close>; \<open>Json\<close>: \<^verbatim>\<open>JSON.parse\<close> and the writers; \<open>Base64\<close>: \<^verbatim>\<open>atob\<close>, \<^verbatim>\<open>TextDecoder\<close>;
    \<open>Http\<close>: requests, replies, and \<^verbatim>\<open>crypto.ts\<close>.
  \<^item> \<open>Credits\<close>: \<^verbatim>\<open>credits.ts\<close> and the credit methods of \<^verbatim>\<open>store-d1.ts\<close> (ledger, holds, gate).  Every
    reachable store charges a captured hold exactly once, balances agree with SQL sums, the gate never overdraws.
  \<^item> \<open>Rail\<close>: \<^verbatim>\<open>payment-rail.ts\<close>, \<^verbatim>\<open>paypal-rail.ts\<close>, \<^verbatim>\<open>credits-api.ts\<close> and the credit routes of \<^verbatim>\<open>index.ts\<close>.
    Only a delivery PayPal itself verified credits, and each settlement credits once.
  \<^item> \<open>Metering\<close>, \<open>Periods\<close>, \<open>LlmSpend\<close>: \<^verbatim>\<open>meter-*.ts\<close>, \<^verbatim>\<open>ai-gateway-logs.ts\<close>, \<^verbatim>\<open>llm-spend-*.ts\<close>.  A period is
    billed once, the report matches the ledger, the page walk of the log ends and reads all, money is exact.
  \<^item> \<open>Tenants\<close>, \<open>TenantStore\<close>, \<open>TenantLeases\<close>: \<^verbatim>\<open>tenants.ts\<close>, \<^verbatim>\<open>store.ts\<close> and the tenant methods of
    \<^verbatim>\<open>store-d1.ts\<close> (rows, jobs, leases, ownership, preservation holds) and what holds over any sequence of
    operations: leases exclude, an ever-live name is never reclaimed, a claim refines an abstract lock.
  \<^item> \<open>Operators\<close>: \<^verbatim>\<open>operator-auth.ts\<close> and the admin gate of \<^verbatim>\<open>index.ts\<close>.  \<open>KekRotation\<close>: \<^verbatim>\<open>token-crypto.ts\<close>,
    \<^verbatim>\<open>kek-rotation.ts\<close>.  \<open>Auth\<close>, \<open>SignIn\<close>: \<^verbatim>\<open>auth.ts\<close>, \<^verbatim>\<open>oauth.ts\<close>, \<^verbatim>\<open>aup.ts\<close> and the sign-in routes.
    \<open>Routing\<close>: \<^verbatim>\<open>routing.ts\<close>.  \<open>RunpodProxy\<close>: \<^verbatim>\<open>runpod-proxy*.ts\<close>, \<^verbatim>\<open>runpod-job-*.ts\<close>, \<^verbatim>\<open>runpod-pool.ts\<close>.
  \<^item> \<open>Effects\<close>: programs that call services and the store (below).  \<open>Teardown\<close>: \<^verbatim>\<open>teardownTenant\<close> and the
    harvest of the job log.  \<open>TenantModules\<close>: \<^verbatim>\<open>tenant-modules.ts\<close>, \<^verbatim>\<open>tenant-studio-env.ts\<close>, the quota rules.
    \<open>Migrations\<close>: \<^verbatim>\<open>migrate.ts\<close>.  \<open>Provision\<close>: \<^verbatim>\<open>runProvisionJob\<close>, \<^verbatim>\<open>continueProvisionJob\<close> and the module
    upgrade of \<^verbatim>\<open>provisioner.ts\<close>; \<open>ProvisionOutcome\<close>: how such a run ends.
  \<^item> \<open>StudioUpgrade\<close>: \<^verbatim>\<open>tenant-studio-upgrade.ts\<close> and \<^verbatim>\<open>tenant-studio-bindings.ts\<close>; an upgrade inherits what is bound
    and touches nothing else.  \<open>Projections\<close>: \<^verbatim>\<open>tenant-storage-quota.ts\<close>, \<^verbatim>\<open>tenant-abuse-report.ts\<close>,
    \<^verbatim>\<open>video-finish-tier-state.ts\<close> and their admin routes; a variable is patched onto a studio and read back from
    it, and a ceiling that is reported as set is enforced.  \<open>Reconcile\<close>: \<^verbatim>\<open>reconcile-runpod.ts\<close> and its route; what a clean or a proven finding means.

  \<^bold>\<open>How the parts interact\<close>

  The routes call the store and, for work on other platforms, the provisioner, the teardown or the proxy.
  A provision claims a job lease (\<open>TenantStore\<close>), runs its stages, applies migrations, uploads the studio
  and, through \<open>TenantModules\<close>, the modules, and on failure tears down what it made (\<open>Teardown\<close>).  The
  endpoints it stores are the shared pool of \<open>RunpodProxy\<close>; its tokens are encrypted as in \<open>KekRotation\<close>.
  The proxy resolves tenants through the store; settlement and the rails write the ledger of \<open>Credits\<close>.

  \<^bold>\<open>How the model is built\<close>

  A table is the list of its rows; a statement is a function on the store that returns what the statement
  returns, with the primary-key, unique, check and foreign-key failures as values.  Operations of the tenant
  store are also the constructors of \<open>store_op\<close>, so that a schedule is a list of timed operations and
  invariants are proved over every schedule.  Code that calls platforms is a program of \<open>Effects\<close>: a
  function from a world (store, job index, trace) to a result or exception and a world.  Each service is a
  parameter that answers from the trace so far, so a theorem over all services covers every answer, failure and
  change of mind; a store statement may fail at any point in the same way.  Such a run is not interleaved with
  others; what runs beside it is covered by the theorems on the store over all schedules.

  Locales: \<open>idempotent_ledger\<close> (what the rails and settlement need of the ledger, interpreted on the D1 ledger),
  \<open>single_use\<close> (tokens that work once; sign-in links, SSO states and key handoffs), \<open>lease_lock\<close> (a lease that
  excludes; job and reclaim leases), \<open>probe\<close> (retry loops with a deadline; the studio-token and the readiness
  probe), \<open>asking\<close> (the readback of a projected variable; ceiling and address).  Each is interpreted on the model's own definitions where those are declared.

  Bounds and fuel: numbers are exact rationals with binary64 rounding where the code multiplies money, integers
  are unbounded as long as the code stays below \<open>2^53\<close>, bytes are 8-bit words, and code units are 16-bit words
  where they are combined bitwise.  \<^verbatim>\<open>JSON.parse\<close> recurses on fuel taken from the length of its input, and the
  parsers are shown to invert the writers; the probe loops run at most \<open>PROBE_ROUNDS\<close> = 10 rounds, whose back-off
  sums to 15750 ms, above both deadlines, so under a clock that advances by what is slept the bound is never met.
  A readback asks at most \<open>READBACK_ROUNDS\<close> = 7 times, 2500 ms apart within 15000 ms, which under such a clock is never met either.
  The other loops end by a measure or by structural recursion.

  \<^bold>\<open>What is not modelled\<close>

  Strings are sequences of 8-bit characters, so text beyond Latin-1 is outside the model.  Log lines, the
  timing of log lines and the lease heartbeat that runs beside a provision are left out.  SHA-256, HMAC, AES-GCM, random bytes
  and the clock are parameters; what is relied on (decryption inverts encryption, the length of an IV) is a
  named hypothesis.  The HTTP clients of Cloudflare, RunPod, PayPal and the sign-in providers, the R2 release
  bundles, the signing of S3 requests and the emptying of buckets are calls with an arbitrary answer.  The wiring of
  dependencies and environment, the usage and price reports, the smoke render, and the pages that run in
  the browser (\<^verbatim>\<open>src/public\<close>) only present or assemble what is modelled and are not modelled themselves;
  neither are the admin routes of \<^verbatim>\<open>index.ts\<close> beyond those named above.
\<close>

end
